(* ===== verification/Prelude.thy ===== *)
theory Prelude
  imports Main "HOL-Library.Word"
begin

unbundle bit_operations_syntax

text \<open>
  Shared vocabulary of the development: Rust strings as lists of Unicode scalar values,
  the string operations of the standard library the program calls (trimming, splitting,
  substring search, decimal formatting and parsing, UTF-8), fixed-width integers with
  Rust's checked and saturating operations, and the lemma collections the component
  theories share.
\<close>

named_theorems lit_eval \<open>unfolding of string literals to scalar values\<close>
named_theorems text_simps \<open>simplification of the string operations\<close>

section \<open>Characters and strings\<close>

text \<open>
  A Rust \<open>char\<close> is a Unicode scalar value and a \<open>str\<close> a sequence of them (its bytes are
  the UTF-8 image, \<open>utf8\<close> below). \<open>lit\<close> turns an ASCII literal into that form.
\<close>

type_synonym uchar = nat
type_synonym ustr = "uchar list"
type_synonym byte = "8 word"
type_synonym bytes = "byte list"
type_synonym u32 = "32 word"
type_synonym u64 = "64 word"

definition lit :: "string \<Rightarrow> ustr" where
  "lit s = map of_char s"

lemma lit_Nil [lit_eval]: "lit [] = []"
  by (simp add: lit_def)

lemma lit_Cons [lit_eval]: "lit (c # s) = of_char c # lit s"
  by (simp add: lit_def)

lemma lit_append: "lit (s @ t) = lit s @ lit t"
  by (simp add: lit_def)

lemma length_lit [simp]: "length (lit s) = length s"
  by (simp add: lit_def)

lemma lit_inject [simp]: "lit s = lit t \<longleftrightarrow> s = t"
  by (simp add: lit_def inj_map_eq_map inj_def)

lemma lit_eq_Nil [simp]: "lit s = [] \<longleftrightarrow> s = []" "[] = lit s \<longleftrightarrow> s = []"
  by (auto simp: lit_def)

abbreviation nl :: uchar where "nl \<equiv> 10"
abbreviation cr :: uchar where "cr \<equiv> 13"
abbreviation sp :: uchar where "sp \<equiv> 32"

text \<open>\<open>char::is_whitespace\<close>: the Unicode \<open>White_Space\<close> property.\<close>

definition is_ws :: "uchar \<Rightarrow> bool" where
  "is_ws c \<longleftrightarrow> (9 \<le> c \<and> c \<le> 13) \<or> c = 0x20 \<or> c = 0x85 \<or> c = 0xa0 \<or> c = 0x1680
     \<or> (0x2000 \<le> c \<and> c \<le> 0x200a) \<or> c = 0x2028 \<or> c = 0x2029 \<or> c = 0x202f
     \<or> c = 0x205f \<or> c = 0x3000"

definition is_ascii_digit :: "uchar \<Rightarrow> bool" where
  "is_ascii_digit c \<longleftrightarrow> 48 \<le> c \<and> c \<le> 57"

definition is_ascii_lower :: "uchar \<Rightarrow> bool" where
  "is_ascii_lower c \<longleftrightarrow> 97 \<le> c \<and> c \<le> 122"

definition is_ascii_upper :: "uchar \<Rightarrow> bool" where
  "is_ascii_upper c \<longleftrightarrow> 65 \<le> c \<and> c \<le> 90"

definition is_ascii_alpha :: "uchar \<Rightarrow> bool" where
  "is_ascii_alpha c \<longleftrightarrow> is_ascii_lower c \<or> is_ascii_upper c"

definition is_ascii_alnum :: "uchar \<Rightarrow> bool" where
  "is_ascii_alnum c \<longleftrightarrow> is_ascii_alpha c \<or> is_ascii_digit c"

lemmas ascii_class_defs = is_ascii_digit_def is_ascii_lower_def is_ascii_upper_def
  is_ascii_alpha_def is_ascii_alnum_def

definition ascii_lower :: "uchar \<Rightarrow> uchar" where
  "ascii_lower c = (if is_ascii_upper c then c + 32 else c)"

text \<open>\<open>str::to_ascii_lowercase\<close>.\<close>

definition to_ascii_lower :: "ustr \<Rightarrow> ustr" where
  "to_ascii_lower s = map ascii_lower s"

lemma ws_nl [simp]: "is_ws nl" and ws_sp [simp]: "is_ws sp" and ws_cr [simp]: "is_ws cr"
  by (simp_all add: is_ws_def)

lemma ascii_digit_not_ws [simp]: "is_ascii_digit c \<Longrightarrow> \<not> is_ws c"
  by (auto simp: is_ws_def is_ascii_digit_def)

lemma ascii_alnum_not_ws [simp]: "is_ascii_alnum c \<Longrightarrow> \<not> is_ws c"
  by (auto simp: is_ws_def ascii_class_defs)

section \<open>Trimming\<close>

definition trim_start :: "ustr \<Rightarrow> ustr" where
  "trim_start s = dropWhile is_ws s"

definition trim_end :: "ustr \<Rightarrow> ustr" where
  "trim_end s = rev (dropWhile is_ws (rev s))"

text \<open>\<open>str::trim\<close>.\<close>

definition trim :: "ustr \<Rightarrow> ustr" where
  "trim s = trim_start (trim_end s)"

text \<open>A string \<open>trim\<close> leaves alone: no whitespace at either end.\<close>

definition trimmed :: "ustr \<Rightarrow> bool" where
  "trimmed s \<longleftrightarrow> s = [] \<or> (\<not> is_ws (hd s) \<and> \<not> is_ws (last s))"

lemma trim_Nil [simp]: "trim [] = []" "trim_end [] = []" "trim_start [] = []"
  by (simp_all add: trim_def trim_start_def trim_end_def)

lemma trim_end_id: "s = [] \<or> \<not> is_ws (last s) \<Longrightarrow> trim_end s = s"
  by (cases s rule: rev_cases) (auto simp: trim_end_def)

lemma trim_start_id: "s = [] \<or> \<not> is_ws (hd s) \<Longrightarrow> trim_start s = s"
  by (cases s) (auto simp: trim_start_def)

lemma trim_trimmed [simp]: "trimmed s \<Longrightarrow> trim s = s"
  by (auto simp: trimmed_def trim_def trim_end_id trim_start_id)

lemma trim_end_last: "trim_end s \<noteq> [] \<Longrightarrow> \<not> is_ws (last (trim_end s))"
  using hd_dropWhile [of is_ws "rev s"] by (simp add: trim_end_def last_rev)

lemma trimmed_trim [simp]: "trimmed (trim s)"
proof (cases "trim s = []")
  case False
  then have ne: "dropWhile is_ws (trim_end s) \<noteq> []"
    by (simp add: trim_def trim_start_def)
  have last_eq: "last (dropWhile is_ws t) = last t" if "dropWhile is_ws t \<noteq> []" for t
    using that by (metis last_appendR takeWhile_dropWhile_id)
  from ne have "trim_end s \<noteq> []" by auto
  then show ?thesis
    using ne hd_dropWhile [OF ne] trim_end_last [of s] last_eq [OF ne]
    by (simp add: trimmed_def trim_def trim_start_def)
qed (simp add: trimmed_def)

lemma trim_idem [simp]: "trim (trim s) = trim s"
  by simp

lemma trim_end_append_ws: "\<forall>c \<in> set w. is_ws c \<Longrightarrow> trim_end (s @ w) = trim_end s"
  by (simp add: trim_end_def dropWhile_append)

lemma trim_append_ws: "\<forall>c \<in> set w. is_ws c \<Longrightarrow> trim (s @ w) = trim s"
  by (simp add: trim_def trim_end_append_ws)

lemma set_trim_subset: "set (trim s) \<subseteq> set s"
  unfolding trim_def trim_start_def trim_end_def
  by (metis set_dropWhileD set_rev subsetI)

section \<open>Searching and splitting\<close>

definition starts_with :: "ustr \<Rightarrow> ustr \<Rightarrow> bool" where
  "starts_with p s \<longleftrightarrow> take (length p) s = p"

text \<open>\<open>str::split_once\<close> with a string pattern: the text around its first occurrence.\<close>

fun split_once :: "ustr \<Rightarrow> ustr \<Rightarrow> (ustr \<times> ustr) option" where
  "split_once p [] = (if p = [] then Some ([], []) else None)"
| "split_once p (x # xs) =
     (if starts_with p (x # xs) then Some ([], drop (length p) (x # xs))
      else map_option (\<lambda>(a, b). (x # a, b)) (split_once p xs))"

text \<open>\<open>str::split_once\<close> with a set of characters.\<close>

fun split_once_if :: "(uchar \<Rightarrow> bool) \<Rightarrow> ustr \<Rightarrow> (ustr \<times> ustr) option" where
  "split_once_if p [] = None"
| "split_once_if p (x # xs) =
     (if p x then Some ([], xs)
      else map_option (\<lambda>(a, b). (x # a, b)) (split_once_if p xs))"

text \<open>\<open>str::contains\<close>.\<close>

definition contains :: "ustr \<Rightarrow> ustr \<Rightarrow> bool" where
  "contains p s \<longleftrightarrow> split_once p s \<noteq> None"

lemma split_once_Some: "split_once p s = Some (a, b) \<Longrightarrow> s = a @ p @ b"
proof (induction s arbitrary: a)
  case (Cons x xs)
  show ?case
  proof (cases "starts_with p (x # xs)")
    case True
    with Cons.prems have "a = []" "b = drop (length p) (x # xs)" by auto
    with True show ?thesis
      by (metis append_Nil append_take_drop_id starts_with_def)
  next
    case False
    with Cons.prems obtain a' where "split_once p xs = Some (a', b)" "a = x # a'"
      by auto
    with Cons.IH show ?thesis by simp
  qed
qed (auto split: if_splits)

lemma split_once_length: "split_once p s = Some (a, b) \<Longrightarrow> p \<noteq> [] \<Longrightarrow> length b < length s"
  by (drule split_once_Some) (cases p, auto)

text \<open>\<open>str::split\<close> with a non-empty string pattern.\<close>

function split_str :: "ustr \<Rightarrow> ustr \<Rightarrow> ustr list" where
  "split_str p s =
     (if p = [] then [s]
      else case split_once p s of None \<Rightarrow> [s] | Some (a, b) \<Rightarrow> a # split_str p b)"
  by pat_completeness auto
termination
  by (relation "measure (\<lambda>(p, s). length s)") (auto dest: split_once_length)

declare split_str.simps [simp del]

lemma split_str_step: "split_once p s = Some (a, b) \<Longrightarrow> p \<noteq> [] \<Longrightarrow> split_str p s = a # split_str p b"
  by (simp add: split_str.simps [of p s])

lemma split_str_end: "split_once p s = None \<Longrightarrow> split_str p s = [s]"
  by (simp add: split_str.simps [of p s])

text \<open>\<open>slice::join\<close>.\<close>

fun join :: "ustr \<Rightarrow> ustr list \<Rightarrow> ustr" where
  "join sep [] = []"
| "join sep [x] = x"
| "join sep (x # y # zs) = x @ sep @ join sep (y # zs)"

lemma join_Cons: "xs \<noteq> [] \<Longrightarrow> join sep (x # xs) = x @ sep @ join sep xs"
  by (cases xs) simp_all

lemma split_once_char_notin: "c \<notin> set s \<Longrightarrow> split_once [c] s = None"
  by (induction s) (auto simp: starts_with_def)

lemma split_once_char_append: "c \<notin> set a \<Longrightarrow> split_once [c] (a @ c # b) = Some (a, b)"
  by (induction a) (auto simp: starts_with_def)

lemma split_char_join:
  "xs \<noteq> [] \<Longrightarrow> \<forall>x \<in> set xs. c \<notin> set x \<Longrightarrow> split_str [c] (join [c] xs) = xs"
proof (induction xs)
  case (Cons x xs)
  show ?case
  proof (cases "xs = []")
    case True
    with Cons.prems show ?thesis
      by (simp add: split_str_end split_once_char_notin)
  next
    case False
    with Cons show ?thesis
      by (simp add: join_Cons split_str_step [OF split_once_char_append])
  qed
qed simp

lemma split_str_nonempty: "split_str p s \<noteq> []"
  by (cases "split_once p s") (auto simp: split_str.simps [of p s] split: option.splits)

lemma split_str_inverse: "p \<noteq> [] \<Longrightarrow> join p (split_str p s) = s"
proof (induction p s rule: split_str.induct)
  case (1 p s)
  show ?case
  proof (cases "split_once p s")
    case None
    then show ?thesis by (simp add: split_str_end)
  next
    case (Some ab)
    obtain a b where ab: "ab = (a, b)" by (cases ab)
    have "join p (split_str p b) = b"
      using 1 Some ab by simp
    moreover have "s = a @ p @ b" using Some ab split_once_Some by blast
    ultimately show ?thesis
      using Some ab 1(2) by (simp add: split_str_step join_Cons split_str_nonempty)
  qed
qed

text \<open>\<open>str::lines\<close>: split at newlines, drop one carriage return in front of each newline and
  the empty remainder after a final newline.\<close>

definition strip_cr :: "ustr \<Rightarrow> ustr" where
  "strip_cr s = (if s \<noteq> [] \<and> last s = cr then butlast s else s)"

definition str_lines :: "ustr \<Rightarrow> ustr list" where
  "str_lines s =
     (let ls = split_str [nl] s
      in map strip_cr (butlast ls) @ (if last ls = [] then [] else [last ls]))"

lemma split_str_append_char: "c \<notin> set a \<Longrightarrow> split_str [c] (a @ c # b) = a # split_str [c] b"
  by (rule split_str_step [OF split_once_char_append]) simp_all

lemma split_once_char_Some: "split_once [c] s = Some (a, b) \<Longrightarrow> s = a @ c # b \<and> c \<notin> set a"
proof (induction s arbitrary: a)
  case (Cons x xs)
  then show ?case by (cases "x = c") (auto simp: starts_with_def)
qed (simp add: starts_with_def)

lemma split_str_terminated:
  "split_str [c] (s @ c # t) = split_str [c] s @ split_str [c] t"
proof (induction "[c]" s rule: split_str.induct)
  case (1 s)
  show ?case
  proof (cases "split_once [c] s")
    case None
    then have "c \<notin> set s"
      by (metis option.distinct(1) split_list split_once_char_append split_list_first)
    then show ?thesis
      by (simp add: split_str_append_char split_str_end [OF None])
  next
    case (Some ab)
    obtain a b where ab: "ab = (a, b)" by (cases ab)
    have s: "s = a @ c # b" "c \<notin> set a" using Some ab split_once_char_Some by auto
    show ?thesis
      using 1(1) [OF _ Some ab [symmetric]] by (simp add: s split_str_append_char)
  qed
qed

text \<open>Appending a terminated line adds exactly that line.\<close>

lemma str_lines_append:
  assumes "s = [] \<or> last s = nl" and "nl \<notin> set l" and "l = [] \<or> last l \<noteq> cr"
  shows "str_lines (s @ l @ [nl]) = str_lines s @ [l]"
proof -
  have nil: "split_str [nl] [] = [[]]" by (simp add: split_str_end starts_with_def)
  have l: "split_str [nl] (l @ [nl]) = [l, []]"
    using split_str_append_char [OF assms(2), of "[]"] nil by simp
  have "strip_cr l = l" using assms(3) by (auto simp: strip_cr_def)
  show ?thesis
  proof (cases s rule: rev_cases)
    case Nil
    then show ?thesis using l nil \<open>strip_cr l = l\<close> by (simp add: str_lines_def Let_def)
  next
    case (snoc t x)
    then have s: "s = t @ [nl]" using assms(1) by simp
    have "split_str [nl] s = split_str [nl] t @ [[]]"
      using split_str_terminated [of nl t "[]"] nil by (simp add: s)
    moreover have "split_str [nl] (s @ l @ [nl]) = split_str [nl] t @ [l, []]"
      using split_str_terminated [of nl t "l @ [nl]"] l by (simp add: s)
    ultimately show ?thesis
      using \<open>strip_cr l = l\<close> by (simp add: str_lines_def Let_def butlast_append)
  qed
qed

text \<open>\<open>str::split_whitespace\<close>.\<close>

function split_ws :: "ustr \<Rightarrow> ustr list" where
  "split_ws s =
     (case trim_start s of [] \<Rightarrow> []
      | c # cs \<Rightarrow> takeWhile (\<lambda>x. \<not> is_ws x) (c # cs)
          # split_ws (dropWhile (\<lambda>x. \<not> is_ws x) (c # cs)))"
  by pat_completeness auto
termination
proof (relation "measure length", goal_cases)
  case (2 s c cs)
  have "dropWhile is_ws s = c # cs" using 2 by (simp add: trim_start_def)
  then have "\<not> is_ws c" using hd_dropWhile [of is_ws s] by (metis list.sel(1) list.distinct(1))
  then have "length (dropWhile (\<lambda>x. \<not> is_ws x) (c # cs)) \<le> length cs"
    by (simp add: length_dropWhile_le)
  also have "length cs < length (trim_start s)" using 2 by simp
  also have "length (trim_start s) \<le> length s"
    by (simp add: trim_start_def length_dropWhile_le)
  finally show ?case by simp
qed simp

declare split_ws.simps [simp del]

section \<open>Decimal numbers\<close>

text \<open>\<open>Display\<close> of an unsigned integer, and zero padding to a width (\<open>{:02}\<close>).\<close>

fun dec :: "nat \<Rightarrow> ustr" where
  "dec n = (if n < 10 then [48 + n] else dec (n div 10) @ [48 + n mod 10])"

declare dec.simps [simp del]

definition dec_pad :: "nat \<Rightarrow> nat \<Rightarrow> ustr" where
  "dec_pad w n = replicate (w - length (dec n)) 48 @ dec n"

text \<open>\<open>Display\<close> of a signed integer.\<close>

definition dec_int :: "int \<Rightarrow> ustr" where
  "dec_int i = (if i < 0 then 45 # dec (nat (- i)) else dec (nat i))"

text \<open>The digits of an unsigned number, most significant first; \<open>None\<close> at any other
  character.\<close>

fun digits_val :: "nat \<Rightarrow> ustr \<Rightarrow> nat option" where
  "digits_val acc [] = Some acc"
| "digits_val acc (c # cs) =
     (if is_ascii_digit c then digits_val (10 * acc + (c - 48)) cs else None)"

text \<open>\<open>str::parse\<close> for an unsigned type with maximum \<open>2 ^ w - 1\<close>: one optional plus sign,
  at least one digit, no overflow.\<close>

definition parse_unsigned :: "nat \<Rightarrow> ustr \<Rightarrow> nat option" where
  "parse_unsigned w s =
     (let ds = (case s of c # cs \<Rightarrow> if c = 43 then cs else s | [] \<Rightarrow> s)
      in if ds = [] then None
         else case digits_val 0 ds of
             None \<Rightarrow> None
           | Some n \<Rightarrow> if n < 2 ^ w then Some n else None)"

lemma dec_nonempty [simp]: "dec n \<noteq> []"
  by (subst dec.simps) simp

lemma dec_digits: "\<forall>c \<in> set (dec n). is_ascii_digit c"
proof (induction n rule: dec.induct)
  case (1 n)
  then show ?case
    by (subst dec.simps) (auto simp: is_ascii_digit_def)
qed

lemma digits_val_append:
  "digits_val a (xs @ ys) = (case digits_val a xs of None \<Rightarrow> None | Some b \<Rightarrow> digits_val b ys)"
  by (induction xs arbitrary: a) auto

lemma digits_val_zeros [simp]: "digits_val 0 (replicate k 48 @ xs) = digits_val 0 xs"
  by (induction k) (auto simp: is_ascii_digit_def)

lemma digits_val_dec [simp]: "digits_val 0 (dec n) = Some n"
proof (induction n rule: dec.induct)
  case (1 n)
  show ?case
  proof (cases "n < 10")
    case True
    then show ?thesis by (subst dec.simps) (simp add: is_ascii_digit_def)
  next
    case False
    with 1 have "digits_val 0 (dec (n div 10)) = Some (n div 10)" by simp
    with False show ?thesis
      by (subst dec.simps) (simp add: digits_val_append is_ascii_digit_def)
  qed
qed

lemma dec_pad_nonempty [simp]: "dec_pad w n \<noteq> []"
  by (simp add: dec_pad_def)

lemma dec_pad_digits: "\<forall>c \<in> set (dec_pad w n). is_ascii_digit c"
  using dec_digits [of n] by (auto simp: dec_pad_def is_ascii_digit_def)

lemma parse_unsigned_digits:
  assumes "ds \<noteq> []" and "\<forall>c \<in> set ds. is_ascii_digit c"
  shows "parse_unsigned w ds =
    (case digits_val 0 ds of None \<Rightarrow> None | Some n \<Rightarrow> if n < 2 ^ w then Some n else None)"
proof (cases ds)
  case (Cons c cs)
  with assms(2) have "c \<noteq> 43" by (auto simp: is_ascii_digit_def)
  with Cons show ?thesis by (simp add: parse_unsigned_def)
qed (use assms in simp)

lemma parse_dec_pad [simp]: "n < 2 ^ w \<Longrightarrow> parse_unsigned w (dec_pad k n) = Some n"
  using dec_pad_digits [of k n] parse_unsigned_digits [of "dec_pad k n" w]
  by (simp add: dec_pad_def)

lemma parse_dec [simp]: "n < 2 ^ w \<Longrightarrow> parse_unsigned w (dec n) = Some n"
  using dec_digits [of n] parse_unsigned_digits [of "dec n" w] by simp

lemma digits_trimmed: "\<forall>c \<in> set ds. is_ascii_digit c \<Longrightarrow> trimmed ds"
  by (cases "ds = []") (auto simp: trimmed_def)

lemma dec_length1: "n < 10 \<Longrightarrow> length (dec n) = 1"
  by (subst dec.simps) simp

lemma dec_length2: "10 \<le> n \<Longrightarrow> n < 100 \<Longrightarrow> length (dec n) = 2"
  by (subst dec.simps) (simp add: dec_length1 div_less_iff_less_mult)

lemma dec_length3: "100 \<le> n \<Longrightarrow> n < 1000 \<Longrightarrow> length (dec n) = 3"
  by (subst dec.simps) (simp add: dec_length2 div_less_iff_less_mult less_eq_div_iff_mult_less_eq)

lemma dec_pad3_length: "n < 1000 \<Longrightarrow> length (dec_pad 3 n) = 3"
  by (cases "n < 10"; cases "n < 100") (auto simp: dec_pad_def dec_length1 dec_length2 dec_length3)

section \<open>Fixed-width integers\<close>

text \<open>Rust's \<open>checked_add\<close>, \<open>checked_mul\<close>, \<open>saturating_sub\<close> and \<open>saturating_add\<close>. Plain
  \<open>+\<close>, \<open>-\<close>, \<open>*\<close> on words wrap, as the release profile does (no overflow checks).\<close>

definition checked_add :: "'a::len word \<Rightarrow> 'a word \<Rightarrow> 'a word option" where
  "checked_add a b = (if unat a + unat b < 2 ^ LENGTH('a) then Some (a + b) else None)"

definition checked_mul :: "'a::len word \<Rightarrow> 'a word \<Rightarrow> 'a word option" where
  "checked_mul a b = (if unat a * unat b < 2 ^ LENGTH('a) then Some (a * b) else None)"

definition sat_sub :: "'a::len word \<Rightarrow> 'a word \<Rightarrow> 'a word" where
  "sat_sub a b = (if a < b then 0 else a - b)"

definition sat_add :: "'a::len word \<Rightarrow> 'a word \<Rightarrow> 'a word" where
  "sat_add a b = (case checked_add a b of Some c \<Rightarrow> c | None \<Rightarrow> - 1)"

lemma checked_add_Some: "checked_add a b = Some c \<Longrightarrow> unat c = unat a + unat b"
  by (auto simp: checked_add_def unat_add_lem split: if_splits)

lemma checked_mul_Some: "checked_mul a b = Some c \<Longrightarrow> unat c = unat a * unat b"
  by (auto simp: checked_mul_def unat_mult_lem split: if_splits)

lemma checked_add_mono: "checked_add a b = Some c \<Longrightarrow> a \<le> c \<and> b \<le> c"
  by (drule checked_add_Some) (simp add: word_le_nat_alt)

lemma checked_add_strict: "checked_add a b = Some c \<Longrightarrow> b \<noteq> 0 \<Longrightarrow> a < c"
  by (drule checked_add_Some) (simp add: word_less_nat_alt unat_gt_0)

section \<open>UTF-8\<close>

text \<open>\<open>char::encode_utf8\<close>.\<close>

definition utf8_char :: "uchar \<Rightarrow> bytes" where
  "utf8_char c =
     (if c < 0x80 then [of_nat c]
      else if c < 0x800 then [of_nat (0xc0 + c div 64), of_nat (0x80 + c mod 64)]
      else if c < 0x10000 then
        [of_nat (0xe0 + c div 4096), of_nat (0x80 + c div 64 mod 64), of_nat (0x80 + c mod 64)]
      else [of_nat (0xf0 + c div 262144), of_nat (0x80 + c div 4096 mod 64),
            of_nat (0x80 + c div 64 mod 64), of_nat (0x80 + c mod 64)])"

definition utf8 :: "ustr \<Rightarrow> bytes" where
  "utf8 s = concat (map utf8_char s)"

text \<open>\<open>str::len\<close> counts bytes.\<close>

definition byte_len :: "ustr \<Rightarrow> nat" where
  "byte_len s = length (utf8 s)"

lemma utf8_append [simp]: "utf8 (s @ t) = utf8 s @ utf8 t"
  by (simp add: utf8_def)

lemma utf8_Nil [simp]: "utf8 [] = []"
  by (simp add: utf8_def)

lemma utf8_Cons: "utf8 (c # s) = utf8_char c @ utf8 s"
  by (simp add: utf8_def)

lemma byte_len_ascii: "\<forall>c \<in> set s. c < 0x80 \<Longrightarrow> byte_len s = length s"
  by (induction s) (auto simp: byte_len_def utf8_Cons utf8_char_def)

lemma byte_len_ge: "length s \<le> byte_len s"
  by (induction s) (auto simp: byte_len_def utf8_Cons utf8_char_def)

section \<open>Step relations\<close>

text \<open>
  What holds where a component starts and is kept by each of its steps holds wherever it can get. The
  components with a step relation of their own interpret this once per invariant.
\<close>

locale step_system =
  fixes step :: "'s \<Rightarrow> 's \<Rightarrow> bool"
    and start :: "'s \<Rightarrow> bool"
    and kept :: "'s \<Rightarrow> bool"
  assumes start_kept: "start s \<Longrightarrow> kept s"
    and step_kept: "step s t \<Longrightarrow> kept s \<Longrightarrow> kept t"
begin

lemma steps_kept: "step\<^sup>*\<^sup>* s t \<Longrightarrow> kept s \<Longrightarrow> kept t"
  by (induction rule: rtranclp_induct) (auto intro: step_kept)

lemma reachable_kept: "start s \<Longrightarrow> step\<^sup>*\<^sup>* s t \<Longrightarrow> kept t"
  by (rule steps_kept) (auto intro: start_kept)

end

end
