(* ===== verification/Lang.thy ===== *)
theory Lang
  imports Prelude
begin

text \<open>
  \<^verbatim>\<open>src/lang.rs\<close>: language normalisation, the two gates (track identity and wire
  accept set), and the sidecar path helpers. The four tables of the source are the lists
  \<open>*_raw\<close> of ASCII literals; lookups go through their images under \<open>lit\<close>.
\<close>

section \<open>The tables\<close>

type_synonym lang_table = "(string \<times> string) list"

text \<open>\<open>LANG_ALIASES\<close>: pinning spellings and their canonical code.\<close>

definition LANG_ALIASES_raw :: lang_table where
  "LANG_ALIASES_raw =
    [(''ja'', ''ja''), (''jp'', ''ja''), (''jpn'', ''ja''), (''japanese'', ''ja''),
     (''en'', ''en''), (''eng'', ''en''), (''enm'', ''en''), (''english'', ''en''),
     (''id'', ''id''), (''ind'', ''id''), (''indonesian'', ''id''), (''fr'', ''fr''),
     (''fre'', ''fr''), (''fra'', ''fr''), (''french'', ''fr''), (''de'', ''de''),
     (''ger'', ''de''), (''deu'', ''de''), (''german'', ''de''), (''es'', ''es''),
     (''spa'', ''es''), (''spanish'', ''es''), (''it'', ''it''), (''ita'', ''it''),
     (''italian'', ''it''), (''pt'', ''pt''), (''por'', ''pt''), (''portuguese'', ''pt''),
     (''nl'', ''nl''), (''dut'', ''nl''), (''nld'', ''nl''), (''dutch'', ''nl''),
     (''ru'', ''ru''), (''rus'', ''ru''), (''russian'', ''ru''), (''ko'', ''ko''),
     (''kor'', ''ko''), (''korean'', ''ko''), (''zh'', ''zh''), (''zho'', ''zh''),
     (''chi'', ''zh''), (''chinese'', ''zh''), (''pl'', ''pl''), (''pol'', ''pl''),
     (''polish'', ''pl''), (''tr'', ''tr''), (''tur'', ''tr''), (''turkish'', ''tr''),
     (''ar'', ''ar''), (''ara'', ''ar''), (''arabic'', ''ar''), (''hi'', ''hi''),
     (''hin'', ''hi''), (''hindi'', ''hi''), (''th'', ''th''), (''tha'', ''th''),
     (''thai'', ''th''), (''vi'', ''vi''), (''vie'', ''vi''), (''vietnamese'', ''vi''),
     (''sv'', ''sv''), (''swe'', ''sv''), (''swedish'', ''sv''), (''no'', ''no''),
     (''nor'', ''no''), (''norwegian'', ''no''), (''da'', ''da''), (''dan'', ''da''),
     (''danish'', ''da''), (''fi'', ''fi''), (''fin'', ''fi''), (''finnish'', ''fi''),
     (''cs'', ''cs''), (''ces'', ''cs''), (''cze'', ''cs''), (''czech'', ''cs''),
     (''el'', ''el''), (''ell'', ''el''), (''gre'', ''el''), (''greek'', ''el''),
     (''he'', ''he''), (''heb'', ''he''), (''hebrew'', ''he''), (''hu'', ''hu''),
     (''hun'', ''hu''), (''hungarian'', ''hu''), (''ro'', ''ro''), (''ron'', ''ro''),
     (''rum'', ''ro''), (''romanian'', ''ro''), (''uk'', ''uk''), (''ukr'', ''uk''),
     (''ukrainian'', ''uk''), (''fa'', ''fa''), (''fas'', ''fa''), (''per'', ''fa''),
     (''persian'', ''fa''), (''ms'', ''ms''), (''msa'', ''ms''), (''may'', ''ms''),
     (''malay'', ''ms''), (''fil'', ''tl''), (''tgl'', ''tl''), (''tagalog'', ''tl''),
     (''filipino'', ''tl''), (''jv'', ''jw'')]"

text \<open>\<open>WIRE_ACCEPTED_LANGS\<close>: the accepted codes, each with Whisper's name for it.\<close>

definition WIRE_ACCEPTED_LANGS_raw :: lang_table where
  "WIRE_ACCEPTED_LANGS_raw =
    [(''af'', ''afrikaans''), (''am'', ''amharic''), (''ar'', ''arabic''),
     (''as'', ''assamese''), (''az'', ''azerbaijani''), (''ba'', ''bashkir''),
     (''be'', ''belarusian''), (''bg'', ''bulgarian''), (''bn'', ''bengali''),
     (''bo'', ''tibetan''), (''br'', ''breton''), (''bs'', ''bosnian''),
     (''ca'', ''catalan''), (''cs'', ''czech''), (''cy'', ''welsh''),
     (''da'', ''danish''), (''de'', ''german''), (''el'', ''greek''),
     (''en'', ''english''), (''es'', ''spanish''), (''et'', ''estonian''),
     (''eu'', ''basque''), (''fa'', ''persian''), (''fi'', ''finnish''),
     (''fo'', ''faroese''), (''fr'', ''french''), (''gl'', ''galician''),
     (''gu'', ''gujarati''), (''ha'', ''hausa''), (''haw'', ''hawaiian''),
     (''he'', ''hebrew''), (''hi'', ''hindi''), (''hr'', ''croatian''),
     (''ht'', ''haitian creole''), (''hu'', ''hungarian''), (''hy'', ''armenian''),
     (''id'', ''indonesian''), (''is'', ''icelandic''), (''it'', ''italian''),
     (''ja'', ''japanese''), (''jw'', ''javanese''), (''ka'', ''georgian''),
     (''kk'', ''kazakh''), (''km'', ''khmer''), (''kn'', ''kannada''),
     (''ko'', ''korean''), (''la'', ''latin''), (''lb'', ''luxembourgish''),
     (''ln'', ''lingala''), (''lo'', ''lao''), (''lt'', ''lithuanian''),
     (''lv'', ''latvian''), (''mg'', ''malagasy''), (''mi'', ''maori''),
     (''mk'', ''macedonian''), (''ml'', ''malayalam''), (''mn'', ''mongolian''),
     (''mr'', ''marathi''), (''ms'', ''malay''), (''mt'', ''maltese''),
     (''my'', ''myanmar''), (''ne'', ''nepali''), (''nl'', ''dutch''),
     (''nn'', ''nynorsk''), (''no'', ''norwegian''), (''oc'', ''occitan''),
     (''pa'', ''punjabi''), (''pl'', ''polish''), (''ps'', ''pashto''),
     (''pt'', ''portuguese''), (''ro'', ''romanian''), (''ru'', ''russian''),
     (''sa'', ''sanskrit''), (''sd'', ''sindhi''), (''si'', ''sinhala''),
     (''sk'', ''slovak''), (''sl'', ''slovenian''), (''sn'', ''shona''),
     (''so'', ''somali''), (''sq'', ''albanian''), (''sr'', ''serbian''),
     (''su'', ''sundanese''), (''sv'', ''swedish''), (''sw'', ''swahili''),
     (''ta'', ''tamil''), (''te'', ''telugu''), (''tg'', ''tajik''),
     (''th'', ''thai''), (''tk'', ''turkmen''), (''tl'', ''tagalog''),
     (''tr'', ''turkish''), (''tt'', ''tatar''), (''uk'', ''ukrainian''),
     (''ur'', ''urdu''), (''uz'', ''uzbek''), (''vi'', ''vietnamese''),
     (''yi'', ''yiddish''), (''yo'', ''yoruba''), (''yue'', ''cantonese''),
     (''zh'', ''chinese'')]"

text \<open>\<open>REPORTED_LANG_SPELLINGS\<close>: curated spellings a provider may report.\<close>

definition REPORTED_LANG_SPELLINGS_raw :: lang_table where
  "REPORTED_LANG_SPELLINGS_raw =
    [(''cantonese'', ''yue''), (''castilian'', ''es''), (''farsi'', ''fa''),
     (''flemish'', ''nl''), (''malayalam'', ''ml''), (''mandarin'', ''zh''),
     (''tamil'', ''ta''), (''amharic'', ''am''), (''azerbaijani'', ''az''),
     (''bengali'', ''bn''), (''bosnian'', ''bs''), (''bulgarian'', ''bg''),
     (''burmese'', ''my''), (''catalan'', ''ca''), (''croatian'', ''hr''),
     (''estonian'', ''et''), (''galician'', ''gl''), (''georgian'', ''ka''),
     (''gujarati'', ''gu''), (''hausa'', ''ha''), (''icelandic'', ''is''),
     (''kannada'', ''kn''), (''kazakh'', ''kk''), (''khmer'', ''km''),
     (''lao'', ''lo''), (''latvian'', ''lv''), (''lithuanian'', ''lt''),
     (''macedonian'', ''mk''), (''malagasy'', ''mg''), (''maori'', ''mi''),
     (''marathi'', ''mr''), (''mongolian'', ''mn''), (''nepali'', ''ne''),
     (''pashto'', ''ps''), (''punjabi'', ''pa''), (''serbian'', ''sr''),
     (''sindhi'', ''sd''), (''sinhala'', ''si''), (''slovak'', ''sk''),
     (''slovenian'', ''sl''), (''somali'', ''so''), (''sundanese'', ''su''),
     (''swahili'', ''sw''), (''tajik'', ''tg''), (''tatar'', ''tt''),
     (''telugu'', ''te''), (''turkmen'', ''tk''), (''urdu'', ''ur''),
     (''uzbek'', ''uz''), (''welsh'', ''cy''), (''yoruba'', ''yo''),
     (''armenian'', ''hy'')]"

text \<open>\<open>REPORTED_LANG_ISO_SPELLINGS\<close>: the ISO 639 spellings of the accepted codes.\<close>

definition REPORTED_LANG_ISO_SPELLINGS_raw :: lang_table where
  "REPORTED_LANG_ISO_SPELLINGS_raw =
    [(''afr'', ''af''), (''alb'', ''sq''), (''amh'', ''am''), (''arm'', ''hy''),
     (''asm'', ''as''), (''aze'', ''az''), (''bak'', ''ba''), (''baq'', ''eu''),
     (''bel'', ''be''), (''ben'', ''bn''), (''bod'', ''bo''), (''bos'', ''bs''),
     (''bre'', ''br''), (''bul'', ''bg''), (''bur'', ''my''), (''cat'', ''ca''),
     (''cym'', ''cy''), (''est'', ''et''), (''eus'', ''eu''), (''fao'', ''fo''),
     (''geo'', ''ka''), (''glg'', ''gl''), (''guj'', ''gu''), (''hat'', ''ht''),
     (''hau'', ''ha''), (''hrv'', ''hr''), (''hye'', ''hy''), (''ice'', ''is''),
     (''isl'', ''is''), (''jav'', ''jw''), (''kan'', ''kn''), (''kat'', ''ka''),
     (''kaz'', ''kk''), (''khm'', ''km''), (''lat'', ''la''), (''lav'', ''lv''),
     (''lin'', ''ln''), (''lit'', ''lt''), (''ltz'', ''lb''), (''mac'', ''mk''),
     (''mal'', ''ml''), (''mao'', ''mi''), (''mar'', ''mr''), (''mkd'', ''mk''),
     (''mlg'', ''mg''), (''mlt'', ''mt''), (''mon'', ''mn''), (''mri'', ''mi''),
     (''mya'', ''my''), (''nep'', ''ne''), (''nno'', ''nn''), (''oci'', ''oc''),
     (''pan'', ''pa''), (''pus'', ''ps''), (''san'', ''sa''), (''sin'', ''si''),
     (''slk'', ''sk''), (''slo'', ''sk''), (''slv'', ''sl''), (''sna'', ''sn''),
     (''snd'', ''sd''), (''som'', ''so''), (''sqi'', ''sq''), (''srp'', ''sr''),
     (''sun'', ''su''), (''swa'', ''sw''), (''tam'', ''ta''), (''tat'', ''tt''),
     (''tel'', ''te''), (''tgk'', ''tg''), (''tib'', ''bo''), (''tuk'', ''tk''),
     (''urd'', ''ur''), (''uzb'', ''uz''), (''wel'', ''cy''), (''yid'', ''yi''),
     (''yor'', ''yo'')]"

text \<open>The arms of \<open>display_name\<close>.\<close>

definition display_names_raw :: lang_table where
  "display_names_raw =
    [(''id'', ''Indonesian''), (''en'', ''English''), (''ja'', ''Japanese''),
     (''fr'', ''French''), (''de'', ''German''), (''es'', ''Spanish''),
     (''it'', ''Italian''), (''pt'', ''Portuguese''), (''nl'', ''Dutch''),
     (''ru'', ''Russian''), (''ko'', ''Korean''), (''zh'', ''Chinese''),
     (''pl'', ''Polish''), (''tr'', ''Turkish''), (''ar'', ''Arabic''),
     (''hi'', ''Hindi''), (''th'', ''Thai''), (''vi'', ''Vietnamese''),
     (''sv'', ''Swedish''), (''no'', ''Norwegian''), (''da'', ''Danish''),
     (''fi'', ''Finnish''), (''cs'', ''Czech''), (''el'', ''Greek''),
     (''he'', ''Hebrew''), (''hu'', ''Hungarian''), (''ro'', ''Romanian''),
     (''uk'', ''Ukrainian''), (''fa'', ''Persian''), (''ms'', ''Malay''),
     (''fil'', ''Filipino''), (''tl'', ''Filipino''), (''ta'', ''Tamil''),
     (''ml'', ''Malayalam''), (''yue'', ''Cantonese''), (''jw'', ''Javanese''),
     (''ln'', ''Lingala'')]"

definition lit_table :: "lang_table \<Rightarrow> (ustr \<times> ustr) list" where
  "lit_table t = map (\<lambda>(a, b). (lit a, lit b)) t"

definition LANG_ALIASES :: "(ustr \<times> ustr) list" where
  "LANG_ALIASES = lit_table LANG_ALIASES_raw"

definition WIRE_ACCEPTED_LANGS :: "(ustr \<times> ustr) list" where
  "WIRE_ACCEPTED_LANGS = lit_table WIRE_ACCEPTED_LANGS_raw"

section \<open>Lookups\<close>

text \<open>
  \<open>str::to_lowercase\<close> followed by the ASCII alphanumeric filter: outside ASCII only
  \<open>U+0130\<close> (to \<open>i\<close> and a combining dot) and the Kelvin sign \<open>U+212A\<close> (to \<open>k\<close>) have an
  ASCII scalar in their lower-case mapping.
\<close>

definition lowercase_ascii_part :: "uchar \<Rightarrow> ustr" where
  "lowercase_ascii_part c =
     (if c < 0x80 then [ascii_lower c]
      else if c = 0x130 then lit ''i''
      else if c = 0x212a then lit ''k''
      else [])"

definition collapse :: "ustr \<Rightarrow> ustr" where
  "collapse value = filter is_ascii_alnum (concat (map lowercase_ascii_part value))"

text \<open>The text before the last occurrence of a character (\<open>rfind\<close> and a slice).\<close>

definition before_last :: "uchar \<Rightarrow> ustr \<Rightarrow> ustr option" where
  "before_last c s =
     (if c \<in> set s then Some (rev (tl (dropWhile (\<lambda>x. x \<noteq> c) (rev s)))) else None)"

lemma before_last_append: "before_last c s = Some a \<Longrightarrow> \<exists>b. s = a @ c # b"
proof -
  assume a: "before_last c s = Some a"
  then have c: "c \<in> set (rev s)" by (simp add: before_last_def split: if_splits)
  then obtain b t where s: "rev s = b @ c # t" "c \<notin> set b"
    by (meson split_list_first)
  then have "dropWhile (\<lambda>x. x \<noteq> c) (rev s) = c # t"
    by (simp add: dropWhile_append)
  with a c have "a = rev t" by (simp add: before_last_def)
  moreover from s(1) have "s = rev t @ c # rev b"
    by (metis append.assoc append_Cons append_Nil rev.simps(2) rev_append rev_rev_ident)
  ultimately show ?thesis by blast
qed

lemma before_last_length: "before_last c s = Some a \<Longrightarrow> length a < length s"
  by (drule before_last_append) auto

text \<open>The opening bracket that closes at the end of \<open>t\<close>, as the text before it.\<close>

definition closing_group :: "ustr \<Rightarrow> ustr option" where
  "closing_group t =
     (if t \<noteq> [] \<and> last t = 41 then before_last 40 (butlast t)
      else if t \<noteq> [] \<and> last t = 93 then before_last 91 (butlast t)
      else None)"

lemma closing_group_length: "closing_group t = Some a \<Longrightarrow> length a < length t"
  by (auto simp: closing_group_def split: if_splits dest!: before_last_length)

function strip_qualifier_loop :: "ustr \<Rightarrow> ustr" where
  "strip_qualifier_loop s =
     (let t = trim_end s in
      case closing_group t of Some a \<Rightarrow> strip_qualifier_loop a | None \<Rightarrow> t)"
  by pat_completeness auto
termination
proof (relation "measure length", goal_cases)
  case (2 s t a)
  then have "length a < length (trim_end s)" by (simp add: closing_group_length)
  also have "\<dots> \<le> length s"
    using length_dropWhile_le [of is_ws "rev s"] by (simp add: trim_end_def)
  finally show ?case by simp
qed simp

declare strip_qualifier_loop.simps [simp del]

definition strip_trailing_qualifier :: "ustr \<Rightarrow> ustr" where
  "strip_trailing_qualifier value = strip_qualifier_loop (trim value)"

definition alias_code :: "ustr \<Rightarrow> ustr option" where
  "alias_code token = map_of LANG_ALIASES token"

definition wire_name_code :: "ustr \<Rightarrow> ustr option" where
  "wire_name_code token =
     map_option fst (find (\<lambda>(_, name). collapse name = token) WIRE_ACCEPTED_LANGS)"

text \<open>\<open>Option::first_some\<close>.\<close>

definition first_some :: "'a option \<Rightarrow> 'a option \<Rightarrow> 'a option" where
  "first_some a b = (case a of None \<Rightarrow> b | Some x \<Rightarrow> Some x)"

definition known_code :: "ustr \<Rightarrow> ustr option" where
  "known_code token =
     first_some (alias_code token)
      (first_some (map_of (lit_table REPORTED_LANG_SPELLINGS_raw) token)
       (first_some (map_of (lit_table REPORTED_LANG_ISO_SPELLINGS_raw) token)
        (wire_name_code token)))"

section \<open>The two gates\<close>

definition is_uncertainty_marker :: "ustr \<Rightarrow> bool" where
  "is_uncertainty_marker code \<longleftrightarrow>
     to_ascii_lower (trim code) \<in> lit ` {''und'', ''mul'', ''zxx'', ''mis'', ''unknown'',
       ''none'', ''na'', ''undefined'', ''auto''}"

definition identity_accepts :: "ustr \<Rightarrow> bool" where
  "identity_accepts code \<longleftrightarrow>
     (let c = trim code in
      2 \<le> byte_len c \<and> byte_len c \<le> 3 \<and> (\<forall>ch \<in> set c. is_ascii_lower ch)
      \<and> \<not> is_uncertainty_marker c)"

definition wire_accepts :: "ustr \<Rightarrow> bool" where
  "wire_accepts code \<longleftrightarrow> trim code \<in> set (map fst WIRE_ACCEPTED_LANGS)"

section \<open>Normalisation\<close>

definition names_a_known_language :: "ustr \<Rightarrow> bool" where
  "names_a_known_language token \<longleftrightarrow> known_code token \<noteq> None \<or> wire_accepts token"

definition canonical_head :: "ustr \<Rightarrow> ustr" where
  "canonical_head token = (case known_code token of Some c \<Rightarrow> c | None \<Rightarrow> token)"

definition subtag_head :: "ustr \<Rightarrow> ustr option" where
  "subtag_head value =
     (case split_once_if (\<lambda>c. c = 45 \<or> c = 95) value of
        None \<Rightarrow> None
      | Some (before, _) \<Rightarrow>
          (let head = collapse before in
           if names_a_known_language head then Some (canonical_head head) else None))"

definition normalize_lang :: "ustr \<Rightarrow> ustr" where
  "normalize_lang value =
     (let base = strip_trailing_qualifier value; norm = collapse base in
      case alias_code norm of
        Some code \<Rightarrow> code
      | None \<Rightarrow> (case subtag_head base of Some head \<Rightarrow> head | None \<Rightarrow> norm))"

definition normalize_reported_lang :: "ustr \<Rightarrow> ustr" where
  "normalize_reported_lang value =
     (let base = strip_trailing_qualifier value; collapsed = collapse base in
      case known_code collapsed of
        Some code \<Rightarrow> code
      | None \<Rightarrow> (case subtag_head base of Some head \<Rightarrow> head | None \<Rightarrow> collapsed))"

definition display_name :: "ustr \<Rightarrow> ustr" where
  "display_name code =
     (case map_of (lit_table display_names_raw) (normalize_lang code) of
        Some name \<Rightarrow> name | None \<Rightarrow> lit ''Unknown'')"

definition needs_foreign_guard :: "ustr \<Rightarrow> bool" where
  "needs_foreign_guard code \<longleftrightarrow> normalize_lang code = lit ''ja''"

section \<open>Scripts and paths\<close>

definition stem_of :: "ustr \<Rightarrow> ustr" where
  "stem_of path = (case before_last 46 path of Some s \<Rightarrow> s | None \<Rightarrow> path)"

definition is_kana :: "uchar \<Rightarrow> bool" where
  "is_kana c \<longleftrightarrow> 0x3040 \<le> c \<and> c \<le> 0x30ff"

definition is_cjk :: "uchar \<Rightarrow> bool" where
  "is_cjk c \<longleftrightarrow> is_kana c \<or> (0x3400 \<le> c \<and> c \<le> 0x4dbf) \<or> (0x4e00 \<le> c \<and> c \<le> 0x9fff)"

fun canonical_code_loop :: "nat \<Rightarrow> ustr \<Rightarrow> ustr" where
  "canonical_code_loop 0 code = code"
| "canonical_code_loop (Suc n) code =
     (case alias_code code of
        Some next_code \<Rightarrow> if next_code \<noteq> code then canonical_code_loop n next_code else code
      | None \<Rightarrow> code)"

definition canonical_code :: "ustr \<Rightarrow> ustr" where
  "canonical_code token = canonical_code_loop (length LANG_ALIASES) token"

definition push_new :: "'a \<Rightarrow> 'a list \<Rightarrow> 'a list" where
  "push_new x xs = (if x \<in> set xs then xs else xs @ [x])"

definition alias_canonicals :: "ustr list" where
  "alias_canonicals = fold (\<lambda>(_, code). push_new (canonical_code code)) LANG_ALIASES []"

definition aliases_of :: "ustr \<Rightarrow> ustr list" where
  "aliases_of canonical =
     fold (\<lambda>(alias, _) acc. if canonical_code alias = canonical then push_new alias acc else acc)
       LANG_ALIASES [canonical]"

definition sidecar_aliases :: "ustr \<Rightarrow> ustr list" where
  "sidecar_aliases lang =
     (let want = normalize_lang lang in
      if want \<in> set alias_canonicals then aliases_of want else [])"

definition sidecar_flags :: "ustr list" where
  "sidecar_flags = map lit ['''', ''.hi'', ''.forced'', ''.hi.forced'', ''.forced.hi'']"

definition sidecar_name :: "ustr \<Rightarrow> ustr \<Rightarrow> ustr \<Rightarrow> ustr" where
  "sidecar_name stem code flag = stem @ lit ''.'' @ code @ flag @ lit ''.srt''"

definition sidecar_paths :: "ustr \<Rightarrow> ustr \<Rightarrow> ustr list" where
  "sidecar_paths stem lang =
     (let norm = normalize_lang lang; aliases = sidecar_aliases norm in
      if aliases = [] then map (sidecar_name stem norm) sidecar_flags
      else concat (map (\<lambda>alias. map (sidecar_name stem alias) sidecar_flags) aliases))"

definition canonical_target_sidecar :: "ustr \<Rightarrow> ustr \<Rightarrow> ustr" where
  "canonical_target_sidecar stem lang = sidecar_name stem (normalize_lang lang) (lit ''.hi'')"

definition replaceable_target_sidecar_paths :: "ustr \<Rightarrow> ustr \<Rightarrow> ustr list" where
  "replaceable_target_sidecar_paths stem lang =
     (let norm = normalize_lang lang;
          paths = [canonical_target_sidecar stem norm];
          aliases = sidecar_aliases norm in
      if aliases = [] then push_new (sidecar_name stem norm (lit '''')) paths
      else fold (\<lambda>alias acc. fold (\<lambda>flag. push_new (sidecar_name stem alias flag))
                   [lit '''', lit ''.hi''] acc) aliases paths)"

section \<open>Facts about the tables\<close>

text \<open>Each table fact is a finite check on the raw literals, lifted to scalars once.\<close>

abbreviation wire_raw :: "string list" where
  "wire_raw \<equiv> map fst WIRE_ACCEPTED_LANGS_raw"

definition wire_codes :: "ustr set" where
  "wire_codes = set (map fst WIRE_ACCEPTED_LANGS)"

lemma wire_codes_raw: "wire_codes = lit ` set wire_raw"
  by (force simp: wire_codes_def WIRE_ACCEPTED_LANGS_def lit_table_def)

lemma map_of_lit_table [simp]: "map_of (lit_table t) (lit s) = map_option lit (map_of t s)"
  by (induction t) (auto simp: lit_table_def)

lemma map_of_lit_table_Some:
  assumes "map_of (lit_table t) x = Some y"
  shows "\<exists>s c. x = lit s \<and> y = lit c \<and> (s, c) \<in> set t"
  using map_of_SomeD [OF assms] by (auto simp: lit_table_def)

definition targets_within :: "string list \<Rightarrow> lang_table \<Rightarrow> bool" where
  "targets_within codes t \<longleftrightarrow> list_all (\<lambda>(_, c). List.member codes c) t"

lemma alias_targets: "targets_within wire_raw LANG_ALIASES_raw"
  by code_simp

lemma reported_targets: "targets_within wire_raw REPORTED_LANG_SPELLINGS_raw"
  by code_simp

lemma iso_targets: "targets_within wire_raw REPORTED_LANG_ISO_SPELLINGS_raw"
  by code_simp

lemma targets_within_lookup:
  "targets_within wire_raw t \<Longrightarrow> map_of (lit_table t) x = Some y \<Longrightarrow> y \<in> wire_codes"
  by (drule map_of_lit_table_Some)
    (auto simp: targets_within_def list_all_iff wire_codes_raw)

text \<open>The codes are fixed points of every lookup.\<close>

definition code_fixed :: "lang_table \<Rightarrow> string \<Rightarrow> bool" where
  "code_fixed t c \<longleftrightarrow> (case map_of t c of None \<Rightarrow> True | Some d \<Rightarrow> d = c)"

lemma wire_fixed_alias: "list_all (code_fixed LANG_ALIASES_raw) wire_raw"
  by code_simp

lemma wire_fixed_reported: "list_all (code_fixed REPORTED_LANG_SPELLINGS_raw) wire_raw"
  by code_simp

lemma wire_fixed_iso: "list_all (code_fixed REPORTED_LANG_ISO_SPELLINGS_raw) wire_raw"
  by code_simp

lemma code_fixed_lookup:
  "list_all (code_fixed t) wire_raw \<Longrightarrow> c \<in> wire_codes \<Longrightarrow> map_of (lit_table t) c = Some d \<Longrightarrow> d = c"
  by (fastforce simp: wire_codes_raw list_all_iff code_fixed_def split: option.splits)

text \<open>Shape of codes and names: 2 or 3 lower-case letters; lower-case letters and spaces.\<close>

lemma wire_codes_shape:
  "list_all (\<lambda>c. 2 \<le> length c \<and> length c \<le> 3 \<and> (\<forall>ch \<in> set (lit c). is_ascii_lower ch)) wire_raw"
  by (simp add: WIRE_ACCEPTED_LANGS_raw_def lit_eval is_ascii_lower_def)

lemma wire_codes_not_marker:
  "list_all (\<lambda>c. \<not> List.member [''und'', ''mul'', ''zxx'', ''mis'', ''unknown'', ''none'', ''na'',
     ''undefined'', ''auto''] c) wire_raw"
  by code_simp

lemma wire_names_chars:
  "list_all (\<lambda>(c, n). list_all (\<lambda>ch. is_ascii_lower (of_char ch) \<or> ch = CHR '' '') n)
     WIRE_ACCEPTED_LANGS_raw"
  by (simp add: WIRE_ACCEPTED_LANGS_raw_def is_ascii_lower_def)

lemma collapse_name:
  "list_all (\<lambda>ch. is_ascii_lower (of_char ch) \<or> ch = CHR '' '') n \<Longrightarrow>
   collapse (lit n) = lit (filter (\<lambda>ch. ch \<noteq> CHR '' '') n)"
proof (induction n)
  case (Cons ch n)
  then have ih: "collapse (lit n) = lit (filter (\<lambda>ch. ch \<noteq> CHR '' '') n)" by simp
  show ?case
  proof (cases "ch = CHR '' ''")
    case True
    with ih show ?thesis
      by (simp add: lit_Cons collapse_def lowercase_ascii_part_def ascii_class_defs ascii_lower_def)
  next
    case False
    with Cons.prems have "97 \<le> (of_char ch :: nat)" "(of_char ch :: nat) \<le> 122"
      by (simp_all add: is_ascii_lower_def)
    with False ih show ?thesis
      by (simp add: lit_Cons collapse_def lowercase_ascii_part_def ascii_class_defs ascii_lower_def)
  qed
qed (simp add: collapse_def lit_Nil)

lemma wire_names_collapse:
  "(c, n) \<in> set WIRE_ACCEPTED_LANGS_raw \<Longrightarrow>
   collapse (lit n) = lit (filter (\<lambda>ch. ch \<noteq> CHR '' '') n)"
  using wire_names_chars by (intro collapse_name) (auto simp: list_all_iff)

lemma wire_names_not_codes:
  "list_all (\<lambda>(c, n). \<not> List.member wire_raw (filter (\<lambda>ch. ch \<noteq> CHR '' '') n)) WIRE_ACCEPTED_LANGS_raw"
  by code_simp

lemma wire_codeE:
  assumes "c \<in> wire_codes"
  obtains s where "c = lit s" "s \<in> set wire_raw" "2 \<le> length c" "length c \<le> 3"
    "\<forall>ch \<in> set c. is_ascii_lower ch"
proof -
  from assms obtain s where "c = lit s" "s \<in> set wire_raw" by (auto simp: wire_codes_raw)
  with that wire_codes_shape show ?thesis by (auto simp: list_all_iff)
qed

lemma collapse_lower: "\<forall>ch \<in> set s. is_ascii_lower ch \<or> is_ascii_digit ch \<Longrightarrow> collapse s = s"
  by (induction s) (auto simp: collapse_def lowercase_ascii_part_def ascii_class_defs ascii_lower_def)

lemma collapse_chars: "c \<in> set (collapse s) \<Longrightarrow> is_ascii_lower c \<or> is_ascii_digit c"
  by (induction s)
    (auto simp: collapse_def lowercase_ascii_part_def ascii_class_defs ascii_lower_def lit_eval
      split: if_splits)

lemma collapse_collapse [simp]: "collapse (collapse s) = collapse s"
  by (rule collapse_lower) (auto dest: collapse_chars)

lemma lower_digit_not_ws: "is_ascii_lower c \<or> is_ascii_digit c \<Longrightarrow> \<not> is_ws c"
  by (auto simp: ascii_class_defs is_ws_def)

lemma lower_digit_trimmed: "\<forall>ch \<in> set s. is_ascii_lower ch \<or> is_ascii_digit ch \<Longrightarrow> trimmed s"
  by (cases "s = []") (auto simp: trimmed_def lower_digit_not_ws)

lemma trimmed_collapse [simp]: "trimmed (collapse s)"
  by (rule lower_digit_trimmed) (auto dest: collapse_chars)

lemma wire_code_collapse: "c \<in> wire_codes \<Longrightarrow> collapse c = c"
  by (erule wire_codeE) (simp add: collapse_lower)

lemma wire_code_trimmed: "c \<in> wire_codes \<Longrightarrow> trimmed c"
  by (erule wire_codeE) (simp add: lower_digit_trimmed)

lemma wire_accepts_iff: "wire_accepts c \<longleftrightarrow> trim c \<in> wire_codes"
  by (simp add: wire_accepts_def wire_codes_def)

lemma wire_accepts_code: "c \<in> wire_codes \<Longrightarrow> wire_accepts c"
  by (simp add: wire_accepts_iff wire_code_trimmed)

lemma alias_code_wire: "alias_code t = Some c \<Longrightarrow> c \<in> wire_codes"
  unfolding alias_code_def LANG_ALIASES_def by (rule targets_within_lookup [OF alias_targets])

lemma alias_code_fixed: "c \<in> wire_codes \<Longrightarrow> alias_code c = Some d \<Longrightarrow> d = c"
  unfolding alias_code_def LANG_ALIASES_def by (rule code_fixed_lookup [OF wire_fixed_alias])

lemma find_Some_in: "find P xs = Some x \<Longrightarrow> x \<in> set xs \<and> P x"
  by (induction xs) (auto split: if_splits)

lemma wire_name_code_wire: "wire_name_code t = Some c \<Longrightarrow> c \<in> wire_codes"
  by (force simp: wire_name_code_def wire_codes_def dest!: find_Some_in)

lemma wire_name_code_code: "c \<in> wire_codes \<Longrightarrow> wire_name_code c = None"
proof (rule ccontr)
  assume c: "c \<in> wire_codes" and "wire_name_code c \<noteq> None"
  then obtain k name where f: "find (\<lambda>(_, name). collapse name = c) WIRE_ACCEPTED_LANGS = Some (k, name)"
    by (auto simp: wire_name_code_def)
  then have "(k, name) \<in> set WIRE_ACCEPTED_LANGS" "collapse name = c"
    by (auto dest: find_Some_in)
  then obtain k' n where n: "(k', n) \<in> set WIRE_ACCEPTED_LANGS_raw" "collapse (lit n) = c"
    by (auto simp: WIRE_ACCEPTED_LANGS_def lit_table_def)
  then have "c = lit (filter (\<lambda>ch. ch \<noteq> CHR '' '') n)"
    using wire_names_collapse by simp
  moreover from n(1) wire_names_not_codes
  have "filter (\<lambda>ch. ch \<noteq> CHR '' '') n \<notin> set wire_raw"
    by (auto simp: list_all_iff simp del: set_map)
  ultimately show False using c by (simp add: wire_codes_raw inj_image_mem_iff inj_def del: set_map)
qed

lemma known_code_wire: "known_code t = Some c \<Longrightarrow> c \<in> wire_codes"
  by (auto simp: known_code_def first_some_def alias_code_wire wire_name_code_wire
      split: option.splits
      dest: targets_within_lookup [OF reported_targets] targets_within_lookup [OF iso_targets])

lemma known_code_fixed: "c \<in> wire_codes \<Longrightarrow> known_code c = Some d \<Longrightarrow> d = c"
  by (auto simp: known_code_def first_some_def wire_name_code_code alias_code_fixed
      split: option.splits
      dest: code_fixed_lookup [OF wire_fixed_reported] code_fixed_lookup [OF wire_fixed_iso])

lemma known_code_alias: "alias_code t = Some c \<Longrightarrow> known_code t = Some c"
  by (simp add: known_code_def first_some_def)

text \<open>A token without brackets, subtag separators or surrounding whitespace.\<close>

lemma strip_plain: "\<forall>ch \<in> set s. is_ascii_lower ch \<or> is_ascii_digit ch \<Longrightarrow> strip_trailing_qualifier s = s"
proof -
  assume s: "\<forall>ch \<in> set s. is_ascii_lower ch \<or> is_ascii_digit ch"
  then have t: "trimmed s" by (rule lower_digit_trimmed)
  then have te: "trim_end s = s" by (auto simp: trimmed_def trim_end_id)
  have "closing_group s = None"
  proof (cases "s = []")
    case False
    with s have "is_ascii_lower (last s) \<or> is_ascii_digit (last s)" by simp
    then show ?thesis by (auto simp: closing_group_def ascii_class_defs)
  qed (simp add: closing_group_def)
  with te show ?thesis
    by (simp add: strip_trailing_qualifier_def t strip_qualifier_loop.simps [of s])
qed

lemma split_once_if_none: "\<forall>ch \<in> set s. \<not> p ch \<Longrightarrow> split_once_if p s = None"
  by (induction s) auto

lemma subtag_head_plain: "\<forall>ch \<in> set s. is_ascii_lower ch \<or> is_ascii_digit ch \<Longrightarrow> subtag_head s = None"
  using split_once_if_none [of s "\<lambda>c. c = 45 \<or> c = 95"]
  by (force simp: subtag_head_def ascii_class_defs)

lemma subtag_head_cases:
  assumes "subtag_head v = Some h"
  shows "h \<in> wire_codes \<and> (known_code h = Some h \<or> known_code h = None)"
proof -
  from assms obtain t where t: "names_a_known_language (collapse t)" "h = canonical_head (collapse t)"
    by (auto simp: subtag_head_def Let_def split: option.splits if_splits)
  have "h \<in> wire_codes"
  proof (cases "known_code (collapse t)")
    case None
    with t show ?thesis
      by (simp add: names_a_known_language_def canonical_head_def wire_accepts_iff)
  next
    case (Some c)
    with t known_code_wire [OF Some] show ?thesis by (simp add: canonical_head_def)
  qed
  then show ?thesis using known_code_fixed by (cases "known_code h") auto
qed

lemma plain_wire: "c \<in> wire_codes \<Longrightarrow> \<forall>ch \<in> set c. is_ascii_lower ch \<or> is_ascii_digit ch"
  by (erule wire_codeE) auto

lemma normalize_plain:
  assumes "\<forall>ch \<in> set s. is_ascii_lower ch \<or> is_ascii_digit ch"
  shows "normalize_lang s = (case alias_code s of Some c \<Rightarrow> c | None \<Rightarrow> s)"
  using assms by (simp add: normalize_lang_def strip_plain collapse_lower subtag_head_plain
      split: option.splits)

lemma normalize_wire_code: "c \<in> wire_codes \<Longrightarrow> normalize_lang c = c"
  using alias_code_fixed [of c] by (auto simp: normalize_plain plain_wire split: option.splits)

text \<open>The three ways a normalised value arises.\<close>

lemma normalize_lang_cases:
  obtains (code) "normalize_lang v \<in> wire_codes"
  | (plain) "normalize_lang v = collapse (strip_trailing_qualifier v)"
      "alias_code (normalize_lang v) = None"
proof (cases "alias_code (collapse (strip_trailing_qualifier v))")
  case (Some c)
  then show ?thesis using code alias_code_wire by (simp add: normalize_lang_def)
next
  case None
  show ?thesis
  proof (cases "subtag_head (strip_trailing_qualifier v)")
    case (Some h)
    with None code subtag_head_cases show ?thesis by (simp add: normalize_lang_def)
  next
    case N: None
    with None plain show ?thesis by (simp add: normalize_lang_def)
  qed
qed

lemma normalize_lang_chars: "c \<in> set (normalize_lang v) \<Longrightarrow> is_ascii_lower c \<or> is_ascii_digit c"
  by (rule normalize_lang_cases [of v]) (use collapse_chars plain_wire in auto)

lemma normalize_lang_idem [simp]: "normalize_lang (normalize_lang v) = normalize_lang v"
proof (rule normalize_lang_cases [of v])
  assume "alias_code (normalize_lang v) = None"
  then show ?thesis using normalize_lang_chars [of _ v] by (simp add: normalize_plain)
qed (simp add: normalize_wire_code)

section \<open>Sidecar paths\<close>

lemma alias_keys_distinct: "distinct (map fst LANG_ALIASES_raw)"
  by code_simp

lemma alias_keys_chars: "list_all (\<lambda>(a, _). list_all (\<lambda>ch. is_ascii_lower (of_char ch)) a) LANG_ALIASES_raw"
  by (simp add: LANG_ALIASES_raw_def is_ascii_lower_def)

lemma LANG_ALIASES_long: "2 \<le> length LANG_ALIASES"
  by (simp add: LANG_ALIASES_def lit_table_def LANG_ALIASES_raw_def)

lemma alias_code_iff: "alias_code a = Some c \<longleftrightarrow> (a, c) \<in> set LANG_ALIASES"
proof -
  have "map fst LANG_ALIASES = map lit (map fst LANG_ALIASES_raw)"
    by (simp add: LANG_ALIASES_def lit_table_def split_def)
  then have "distinct (map fst LANG_ALIASES)"
    using alias_keys_distinct by (simp add: distinct_map inj_on_def del: map_map)
  then show ?thesis by (simp add: alias_code_def)
qed

lemma alias_key_chars: "alias_code a = Some c \<Longrightarrow> \<forall>ch \<in> set a. is_ascii_lower ch \<or> is_ascii_digit ch"
  using alias_keys_chars
  by (fastforce simp: alias_code_iff LANG_ALIASES_def lit_table_def list_all_iff lit_def)

lemma canonical_code_Some: "alias_code a = Some c \<Longrightarrow> canonical_code a = c"
proof -
  assume a: "alias_code a = Some c"
  obtain n where n: "length LANG_ALIASES = Suc (Suc n)"
    using LANG_ALIASES_long by (metis Suc_le_D numeral_2_eq_2 not_less_eq_eq Suc_leD)
  have "alias_code c = None \<or> alias_code c = Some c"
    using alias_code_fixed [OF alias_code_wire [OF a]] by (cases "alias_code c") auto
  with a n show ?thesis by (auto simp: canonical_code_def)
qed

lemma canonical_code_wire: "c \<in> wire_codes \<Longrightarrow> canonical_code c = c"
  using alias_code_fixed [of c] canonical_code_Some [of c]
  by (cases "alias_code c"; cases "length LANG_ALIASES") (auto simp: canonical_code_def)

lemma set_push_new [simp]: "set (push_new x xs) = insert x (set xs)"
  by (auto simp: push_new_def)

lemma distinct_push_new [simp]: "distinct xs \<Longrightarrow> distinct (push_new x xs)"
  by (simp add: push_new_def)

lemma hd_push_new: "xs \<noteq> [] \<Longrightarrow> push_new x xs \<noteq> [] \<and> hd (push_new x xs) = hd xs"
  by (simp add: push_new_def)

lemma set_fold_push_new: "set (fold push_new ys xs) = set ys \<union> set xs"
  by (induction ys arbitrary: xs) auto

lemma distinct_fold_push_new: "distinct xs \<Longrightarrow> distinct (fold push_new ys xs)"
  by (induction ys arbitrary: xs) auto

lemma hd_fold_push_new: "xs \<noteq> [] \<Longrightarrow> fold push_new ys xs \<noteq> [] \<and> hd (fold push_new ys xs) = hd xs"
  by (induction ys arbitrary: xs) (auto simp: hd_push_new)

lemma fold_push_new_map: "fold (\<lambda>y. push_new (f y)) ys xs = fold push_new (map f ys) xs"
  by (induction ys arbitrary: xs) simp_all

lemma fold_push_new_concat:
  "fold (\<lambda>y acc. fold (\<lambda>z. push_new (f y z)) zs acc) ys xs
     = fold push_new (concat (map (\<lambda>y. map (f y) zs) ys)) xs"
  by (induction ys arbitrary: xs) (simp_all add: fold_map comp_def)

lemma set_alias_canonicals: "set alias_canonicals = snd ` set LANG_ALIASES"
proof -
  have "alias_canonicals = fold push_new (map (\<lambda>p. canonical_code (snd p)) LANG_ALIASES) []"
    unfolding alias_canonicals_def fold_push_new_map [symmetric] by (simp add: split_def)
  then have "set alias_canonicals = (\<lambda>p. canonical_code (snd p)) ` set LANG_ALIASES"
    by (metis set_fold_push_new set_map empty_set sup_bot_right)
  also have "\<dots> = snd ` set LANG_ALIASES"
    by (rule image_cong)
      (auto simp: alias_code_iff [symmetric] canonical_code_wire [OF alias_code_wire])
  finally show ?thesis .
qed

lemma set_aliases_of: "set (aliases_of k) = {k} \<union> {a. alias_code a = Some k}"
proof -
  have "set (fold (\<lambda>(a, _) acc. if canonical_code a = k then push_new a acc else acc) t acc)
      = set acc \<union> {a. a \<in> fst ` set t \<and> canonical_code a = k}" for acc and t :: "(ustr \<times> ustr) list"
    by (induction t arbitrary: acc) (auto split: if_splits)
  moreover have "a \<in> fst ` set LANG_ALIASES \<and> canonical_code a = k \<longleftrightarrow> alias_code a = Some k" for a
  proof
    assume "a \<in> fst ` set LANG_ALIASES \<and> canonical_code a = k"
    then obtain c where c: "(a, c) \<in> set LANG_ALIASES" and k: "canonical_code a = k" by force
    then have "alias_code a = Some c" by (simp add: alias_code_iff)
    with k show "alias_code a = Some k" by (simp add: canonical_code_Some)
  next
    assume k: "alias_code a = Some k"
    then have "(a, k) \<in> set LANG_ALIASES" by (simp add: alias_code_iff)
    then have "fst (a, k) \<in> fst ` set LANG_ALIASES" by (rule imageI)
    with k show "a \<in> fst ` set LANG_ALIASES \<and> canonical_code a = k"
      by (simp add: canonical_code_Some)
  qed
  ultimately show ?thesis by (auto simp: aliases_of_def)
qed

lemma set_sidecar_aliases:
  "set (sidecar_aliases lang) =
     (if normalize_lang lang \<in> snd ` set LANG_ALIASES
      then {normalize_lang lang} \<union> {a. alias_code a = Some (normalize_lang lang)} else {})"
  by (simp add: sidecar_aliases_def set_alias_canonicals set_aliases_of)

lemma alias_normalize: "alias_code a = Some c \<Longrightarrow> normalize_lang a = c"
  by (simp add: normalize_plain alias_key_chars)

lemma sidecar_aliases_normalize:
  "a \<in> set (sidecar_aliases lang) \<Longrightarrow> normalize_lang a = normalize_lang lang \<and>
     (\<forall>ch \<in> set a. is_ascii_lower ch \<or> is_ascii_digit ch)"
  using normalize_lang_chars [of _ lang] alias_key_chars [of a]
  by (auto simp: set_sidecar_aliases alias_normalize split: if_splits)

text \<open>The code segment of a sidecar name is determined by the path.\<close>

definition hi_flags :: "ustr list" where
  "hi_flags = [lit '''', lit ''.hi'']"

lemma sidecar_name_inject:
  assumes eq: "sidecar_name stem a f = sidecar_name stem b g"
    and f: "f = [] \<or> hd f = 46" and g: "g = [] \<or> hd g = 46"
    and a: "\<forall>ch \<in> set a. is_ascii_lower ch \<or> is_ascii_digit ch"
    and b: "\<forall>ch \<in> set b. is_ascii_lower ch \<or> is_ascii_digit ch"
  shows "a = b"
proof -
  have code: "takeWhile (\<lambda>c. c \<noteq> 46) (x @ h @ lit ''.srt'') = x"
    if "\<forall>ch \<in> set x. is_ascii_lower ch \<or> is_ascii_digit ch" "h = [] \<or> hd h = 46" for x h
  proof -
    have "takeWhile (\<lambda>c. c \<noteq> 46) (x @ r) = x" if "hd r = 46" "r \<noteq> []" for r
      using that \<open>\<forall>ch \<in> set x. _ ch\<close>
      by (cases r) (auto simp: takeWhile_tail ascii_class_defs)
    moreover have "hd (h @ lit ''.srt'') = 46"
      using that(2) by (cases h) (simp_all add: lit_eval)
    ultimately show ?thesis by simp
  qed
  from eq have "a @ f @ lit ''.srt'' = b @ g @ lit ''.srt''"
    by (simp add: sidecar_name_def)
  with code [OF a f] code [OF b g] show ?thesis by metis
qed

lemma replaceable_paths_eq:
  "replaceable_target_sidecar_paths stem lang =
     fold push_new
       (if sidecar_aliases lang = [] then [sidecar_name stem (normalize_lang lang) (lit '''')]
        else concat (map (\<lambda>a. map (sidecar_name stem a) hi_flags) (sidecar_aliases lang)))
       [canonical_target_sidecar stem lang]"
proof -
  have "sidecar_aliases (normalize_lang lang) = sidecar_aliases lang"
    by (simp add: sidecar_aliases_def)
  then show ?thesis
    unfolding replaceable_target_sidecar_paths_def Let_def
      fold_push_new_concat [of "sidecar_name stem" "[lit '''', lit ''.hi'']"]
    by (simp add: hi_flags_def canonical_target_sidecar_def)
qed

lemma replaceable_paths_code:
  assumes "p \<in> set (replaceable_target_sidecar_paths stem lang)"
  shows "\<exists>a f. p = sidecar_name stem a f \<and> f \<in> set hi_flags \<and> normalize_lang a = normalize_lang lang
     \<and> (\<forall>ch \<in> set a. is_ascii_lower ch \<or> is_ascii_digit ch)"
proof -
  have norm: "\<exists>a f. sidecar_name stem (normalize_lang lang) g = sidecar_name stem a f
     \<and> f \<in> set hi_flags \<and> normalize_lang a = normalize_lang lang
     \<and> (\<forall>ch \<in> set a. is_ascii_lower ch \<or> is_ascii_digit ch)" if "g \<in> set hi_flags" for g
    using that normalize_lang_chars [of _ lang] by (metis normalize_lang_idem)
  from assms consider "p = canonical_target_sidecar stem lang"
    | "p = sidecar_name stem (normalize_lang lang) (lit '''')"
    | a f where "p = sidecar_name stem a f" "f \<in> set hi_flags" "a \<in> set (sidecar_aliases lang)"
    by (auto simp: replaceable_paths_eq set_fold_push_new split: if_splits)
  then show ?thesis
  proof cases
    case 1
    then show ?thesis using norm by (simp add: canonical_target_sidecar_def hi_flags_def)
  next
    case 2
    then show ?thesis using norm by (simp add: hi_flags_def)
  next
    case 3
    then show ?thesis using sidecar_aliases_normalize by blast
  qed
qed

lemma hi_flags_shape: "f \<in> set hi_flags \<Longrightarrow> f = [] \<or> hd f = 46"
  by (auto simp: hi_flags_def lit_eval)

section \<open>Properties\<close>

text \<open>\<open>normalize_lang\<close> is a normal form: it is idempotent, and its result holds only
  lower-case ASCII letters and digits, so a language can never put a path separator, a dot or
  a space into a sidecar path.\<close>

theorem normalize_lang_canonical:
  "normalize_lang (normalize_lang v) = normalize_lang v
   \<and> set (normalize_lang v) \<subseteq> {97..122} \<union> {48..57}"
proof -
  have "set (normalize_lang v) \<subseteq> {97..122} \<union> {48..57}"
    using normalize_lang_chars [of _ v] by (force simp: is_ascii_lower_def is_ascii_digit_def)
  then show ?thesis by simp
qed

text \<open>The wire gate refines the identity gate, and every pinning alias lands inside it: a
  code the endpoint accepts always names a language, and a tag spelled as any alias is carried
  as a code the endpoint accepts.\<close>

theorem wire_gate_sound:
  "(wire_accepts c \<longrightarrow> identity_accepts c)
   \<and> ((a, code) \<in> set LANG_ALIASES \<longrightarrow> normalize_lang a = code \<and> wire_accepts code)"
proof (intro conjI impI)
  assume "wire_accepts c"
  then have "trim c \<in> wire_codes" by (simp add: wire_accepts_iff)
  then obtain s where s: "trim c = lit s" "s \<in> set wire_raw" "2 \<le> length (trim c)" "length (trim c) \<le> 3"
    and l: "\<forall>ch \<in> set (trim c). is_ascii_lower ch"
    by (rule wire_codeE)
  have low: "to_ascii_lower (trim c) = trim c"
    unfolding to_ascii_lower_def
    by (rule map_idI) (use l in \<open>auto simp: ascii_lower_def ascii_class_defs\<close>)
  have "\<forall>ch \<in> set (trim c). ch < 0x80" using l by (auto simp: is_ascii_lower_def)
  then have "byte_len (trim c) = length (trim c)" by (rule byte_len_ascii)
  moreover have "\<not> is_uncertainty_marker (trim c)"
  proof -
    have "to_ascii_lower (trim (trim c)) = lit s" using low s(1) by (metis trim_idem)
    moreover have "s \<notin> {''und'', ''mul'', ''zxx'', ''mis'', ''unknown'', ''none'', ''na'',
        ''undefined'', ''auto''}"
      using s(2) wire_codes_not_marker by (auto simp: list_all_iff simp del: set_map)
    ultimately show ?thesis by (simp add: is_uncertainty_marker_def)
  qed
  ultimately show "identity_accepts c"
    using s l by (simp add: identity_accepts_def Let_def)
next
  assume "(a, code) \<in> set LANG_ALIASES"
  then have "alias_code a = Some code" by (simp add: alias_code_iff)
  then show "normalize_lang a = code" and "wire_accepts code"
    by (simp_all add: alias_normalize wire_accepts_code alias_code_wire)
qed

theorem wire_gate_sound_witness:
  "wire_accepts (lit ''ja'') \<and> identity_accepts (lit ''ja'') \<and> normalize_lang (lit ''jpn'') = lit ''ja''"
proof -
  have "wire_accepts (lit ''ja'')"
    by (simp add: wire_accepts_def trimmed_def WIRE_ACCEPTED_LANGS_def lit_table_def
        WIRE_ACCEPTED_LANGS_raw_def lit_eval is_ws_def)
  moreover have "(lit ''jpn'', lit ''ja'') \<in> set LANG_ALIASES"
    by (simp add: LANG_ALIASES_def lit_table_def LANG_ALIASES_raw_def)
  ultimately show ?thesis
    using wire_gate_sound [of "lit ''ja''" "lit ''jpn''" "lit ''ja''"] by blast
qed

text \<open>Adoption and replacement see every legacy spelling: a sidecar written under any alias
  of a language is among the candidates searched, and among the files replaced, for that
  language.\<close>

theorem legacy_sidecar_seen:
  assumes "(a, normalize_lang lang) \<in> set LANG_ALIASES" and "flag \<in> {lit '''', lit ''.hi''}"
  shows "sidecar_name stem a flag \<in> set (sidecar_paths stem lang)
    \<and> sidecar_name stem a flag \<in> set (replaceable_target_sidecar_paths stem lang)"
proof -
  from assms(1) have a: "a \<in> set (sidecar_aliases lang)"
    by (auto simp: set_sidecar_aliases alias_code_iff intro: rev_image_eqI)
  have "sidecar_aliases (normalize_lang lang) = sidecar_aliases lang"
    by (simp add: sidecar_aliases_def)
  with a assms(2) have "sidecar_name stem a flag \<in> set (sidecar_paths stem lang)"
    by (auto simp: sidecar_paths_def sidecar_flags_def Let_def)
  moreover from a assms(2) have
    "sidecar_name stem a flag \<in> set (replaceable_target_sidecar_paths stem lang)"
    by (auto simp: replaceable_paths_eq set_fold_push_new hi_flags_def)
  ultimately show ?thesis ..
qed

theorem legacy_sidecar_seen_witness:
  "sidecar_name (lit ''/m/ep'') (lit ''fil'') (lit ''.hi'')
     \<in> set (replaceable_target_sidecar_paths (lit ''/m/ep'') (lit ''tl''))"
proof -
  have "(lit ''tl'') \<in> wire_codes"
    by (simp add: wire_codes_raw WIRE_ACCEPTED_LANGS_raw_def)
  then have n: "normalize_lang (lit ''tl'') = lit ''tl''" by (rule normalize_wire_code)
  have "(lit ''fil'', normalize_lang (lit ''tl'')) \<in> set LANG_ALIASES"
    by (simp add: n LANG_ALIASES_def lit_table_def LANG_ALIASES_raw_def)
  from legacy_sidecar_seen [OF this, of "lit ''.hi''" "lit ''/m/ep''"] show ?thesis by simp
qed

text \<open>Replacing one target never touches another: the replaceable paths of a language are
  pairwise distinct, start with its canonical path, and share no file with the paths of a
  language that normalises differently.\<close>

theorem replaceable_paths_separate:
  "distinct (replaceable_target_sidecar_paths stem l1)
   \<and> hd (replaceable_target_sidecar_paths stem l1) = canonical_target_sidecar stem l1
   \<and> (normalize_lang l1 \<noteq> normalize_lang l2 \<longrightarrow>
       set (replaceable_target_sidecar_paths stem l1)
         \<inter> set (replaceable_target_sidecar_paths stem l2) = {})"
proof (intro conjI impI)
  show "distinct (replaceable_target_sidecar_paths stem l1)"
    by (simp add: replaceable_paths_eq distinct_fold_push_new)
  show "hd (replaceable_target_sidecar_paths stem l1) = canonical_target_sidecar stem l1"
    by (simp add: replaceable_paths_eq hd_fold_push_new)
  assume ne: "normalize_lang l1 \<noteq> normalize_lang l2"
  show "set (replaceable_target_sidecar_paths stem l1)
      \<inter> set (replaceable_target_sidecar_paths stem l2) = {}"
  proof (rule ccontr)
    assume "\<not> ?thesis"
    then obtain p where p: "p \<in> set (replaceable_target_sidecar_paths stem l1)"
      "p \<in> set (replaceable_target_sidecar_paths stem l2)" by auto
    from replaceable_paths_code [OF p(1)] obtain a f where 1: "p = sidecar_name stem a f"
      "f \<in> set hi_flags" "normalize_lang a = normalize_lang l1"
      "\<forall>ch \<in> set a. is_ascii_lower ch \<or> is_ascii_digit ch" by blast
    from replaceable_paths_code [OF p(2)] obtain b g where 2: "p = sidecar_name stem b g"
      "g \<in> set hi_flags" "normalize_lang b = normalize_lang l2"
      "\<forall>ch \<in> set b. is_ascii_lower ch \<or> is_ascii_digit ch" by blast
    from 1 2 have "a = b"
      by (intro sidecar_name_inject [of stem a f b g]) (auto dest: hi_flags_shape)
    with 1 2 ne show False by simp
  qed
qed

theorem replaceable_paths_separate_witness:
  "set (replaceable_target_sidecar_paths (lit ''/m/ep'') (lit ''ja''))
     \<inter> set (replaceable_target_sidecar_paths (lit ''/m/ep'') (lit ''en'')) = {}"
proof -
  have "lit ''ja'' \<in> wire_codes" "lit ''en'' \<in> wire_codes"
    by (simp_all add: wire_codes_raw WIRE_ACCEPTED_LANGS_raw_def)
  then have "normalize_lang (lit ''ja'') \<noteq> normalize_lang (lit ''en'')"
    by (simp add: normalize_wire_code)
  then show ?thesis
    using replaceable_paths_separate [of "lit ''/m/ep''" "lit ''ja''" "lit ''en''"] by blast
qed

end
