(* ===== verification/F64.thy ===== *)
theory F64
  imports Complex_Main Prelude
begin

text \<open>
  The binary64 arithmetic the program uses. A finite \<open>f64\<close> is the rational it denotes, and
  every operation of the code is the exact operation followed by \<open>f64_round\<close>, rounding to
  nearest with ties to even at 53 bits of precision. The program's values (durations,
  character counts, their quotients) lie far inside the normal range, so subnormal numbers,
  overflow and NaN are outside the model; the two places that test for a zero divisor do so
  explicitly in the code and in the model.
\<close>

type_synonym f64 = rat

definition round_half_even :: "rat \<Rightarrow> int" where
  "round_half_even x =
     (let f = \<lfloor>x\<rfloor>; d = x - of_int f
      in if d < 1 / 2 then f else if 1 / 2 < d then f + 1 else if even f then f else f + 1)"

fun bitlen :: "nat \<Rightarrow> nat" where
  "bitlen n = (if n = 0 then 0 else Suc (bitlen (n div 2)))"

declare bitlen.simps [simp del]

definition pow2 :: "int \<Rightarrow> rat" where
  "pow2 k = (if 0 \<le> k then 2 ^ nat k else 1 / 2 ^ nat (- k))"

text \<open>The exponent of the last place of a positive rational at 53 bits.\<close>

definition ulp_exp :: "rat \<Rightarrow> int" where
  "ulp_exp x =
     (let (p, q) = quotient_of x; k = int (bitlen (nat p)) - int (bitlen (nat q)) - 53
      in if x < pow2 (k + 53) then k else k + 1)"

definition f64_round :: "rat \<Rightarrow> f64" where
  "f64_round x =
     (if x = 0 then 0
      else let u = pow2 (ulp_exp \<bar>x\<bar>) in of_int (round_half_even (x / u)) * u)"

text \<open>\<open>as f64\<close> of an integer below \<open>2 ^ 53\<close> is exact.\<close>

abbreviation of_count :: "nat \<Rightarrow> f64" where
  "of_count n \<equiv> of_nat n"

definition f64_div :: "f64 \<Rightarrow> f64 \<Rightarrow> f64" where
  "f64_div a b = f64_round (a / b)"

definition f64_mul :: "f64 \<Rightarrow> f64 \<Rightarrow> f64" where
  "f64_mul a b = f64_round (a * b)"

text \<open>\<open>as u32\<close>: truncation, saturating at both ends.\<close>

definition f64_to_u32 :: "f64 \<Rightarrow> u32" where
  "f64_to_u32 x = (if x \<le> 0 then 0 else if 2 ^ 32 - 1 \<le> x then - 1 else of_int \<lfloor>x\<rfloor>)"

text \<open>\<open>{:.0}\<close> of a non-negative value.\<close>

definition fmt_f64_0 :: "f64 \<Rightarrow> ustr" where
  "fmt_f64_0 x = dec_int (round_half_even x)"

lemma pow2_pos [simp]: "0 < pow2 k"
  by (simp add: pow2_def)

lemma round_half_even_0 [simp]: "round_half_even 0 = 0"
  by (simp add: round_half_even_def)

lemma round_half_even_bounds: "x - 1 / 2 \<le> of_int (round_half_even x) \<and> of_int (round_half_even x) \<le> x + 1 / 2"
proof -
  have "of_int \<lfloor>x\<rfloor> \<le> x" "x < of_int \<lfloor>x\<rfloor> + 1" by linarith+
  then show ?thesis by (simp add: round_half_even_def Let_def; linarith)
qed

lemma round_half_even_nonneg: "0 \<le> x \<Longrightarrow> 0 \<le> round_half_even x"
  by (auto simp: round_half_even_def Let_def)

lemma f64_round_nonneg: "0 \<le> x \<Longrightarrow> 0 \<le> f64_round x"
  using pow2_pos [of "ulp_exp \<bar>x\<bar>"] round_half_even_nonneg [of "x / pow2 (ulp_exp \<bar>x\<bar>)"]
  by (auto simp: f64_round_def Let_def less_imp_le)

lemma f64_round_error:
  "\<bar>f64_round x - x\<bar> \<le> pow2 (ulp_exp \<bar>x\<bar>) / 2"
proof (cases "x = 0")
  case False
  define u where "u = pow2 (ulp_exp \<bar>x\<bar>)"
  have u: "0 < u" by (simp add: u_def)
  define r where "r = rat_of_int (round_half_even (x / u))"
  have "x / u - 1 / 2 \<le> r \<and> r \<le> x / u + 1 / 2"
    using round_half_even_bounds [of "x / u"] by (simp add: r_def)
  then have "\<bar>r - x / u\<bar> \<le> 1 / 2" by linarith
  then have "\<bar>r - x / u\<bar> * \<bar>u\<bar> \<le> 1 / 2 * \<bar>u\<bar>"
    by (rule mult_right_mono) simp
  then have "\<bar>(r - x / u) * u\<bar> \<le> u / 2"
    using u by (simp add: abs_mult)
  moreover have "(r - x / u) * u = r * u - x"
    using u by (simp add: left_diff_distrib)
  ultimately show ?thesis
    using False by (simp add: f64_round_def Let_def u_def r_def)
qed (simp add: f64_round_def less_imp_le)

end
