(* ===== verification/Json.thy ===== *)
theory Json
  imports Complex_Main Prelude
begin

text \<open>
  \<open>serde_json::Value\<close>. Objects are association lists in the key order of the crate's
  \<open>BTreeMap\<close> representation; numbers keep the three classes the program distinguishes.
\<close>

datatype json =
    JNull
  | JBool bool
  | JInt int
  | JReal rat
  | JStr ustr
  | JArr "json list"
  | JObj "(ustr \<times> json) list"

text \<open>\<open>Value::get\<close>: a field of an object, nothing for any other value.\<close>

fun json_get :: "ustr \<Rightarrow> json \<Rightarrow> json option" where
  "json_get k (JObj kvs) = map_of kvs k"
| "json_get k _ = None"

fun as_str :: "json \<Rightarrow> ustr option" where
  "as_str (JStr s) = Some s"
| "as_str _ = None"

fun as_array :: "json \<Rightarrow> json list option" where
  "as_array (JArr xs) = Some xs"
| "as_array _ = None"

fun as_bool :: "json \<Rightarrow> bool option" where
  "as_bool (JBool b) = Some b"
| "as_bool _ = None"

text \<open>\<open>Value::as_u64\<close> and \<open>Value::as_i64\<close>.\<close>

fun as_u64 :: "json \<Rightarrow> nat option" where
  "as_u64 (JInt i) = (if 0 \<le> i \<and> i < 2 ^ 64 then Some (nat i) else None)"
| "as_u64 _ = None"

fun as_i64 :: "json \<Rightarrow> int option" where
  "as_i64 (JInt i) = (if - (2 ^ 63) \<le> i \<and> i < 2 ^ 63 then Some i else None)"
| "as_i64 _ = None"

text \<open>The reader and the printer of the JSON library, where a component uses both.\<close>

record json_lib =
  parse_json :: "ustr \<Rightarrow> json option"
  print_json :: "json \<Rightarrow> ustr"

lemma json_get_head [simp]: "json_get k (JObj ((k, v) # kvs)) = Some v"
  by simp

end
