(* ===== verification/Srt.thy ===== *)
theory Srt
  imports "HOL-Library.Sublist" Prelude F64 Json Lang
begin

text \<open>
  \<open>src/srt.rs\<close>: the cue model, the SRT parser and serialiser, and the passes over a cue list.
  Timestamps are \<open>u32\<close> milliseconds (a 32-bit word; the release profile wraps), text is a list
  of scalars, and the reading-speed arithmetic is the binary64 arithmetic of theory F64. The
  file installation of \<open>write_srt_to\<close> is not modelled; \<open>serde_json\<close> is a parameter of
  \<open>extract_json_array\<close>.
\<close>

section \<open>Cues and timestamps\<close>

definition AI_MARKER :: ustr where
  "AI_MARKER = lit ''[AI-generated by ASRSub]''"

record cue =
  start_ms :: u32
  end_ms :: u32
  cue_text :: ustr

definition Cue_new :: "u32 \<Rightarrow> u32 \<Rightarrow> ustr \<Rightarrow> cue" where
  "Cue_new s e t = \<lparr>start_ms = s, end_ms = e, cue_text = t\<rparr>"

text \<open>\<open>parse_ts\<close>: hours, minutes and seconds are \<open>u32\<close> parses; the milliseconds are padded on
  the right to three digits and cut to three. The sum is \<open>u32\<close> arithmetic.\<close>

definition parse_ts :: "ustr \<Rightarrow> u32 option" where
  "parse_ts v =
     (case split_str (lit '':'') (trim v) of
        hs # ms # rest # _ \<Rightarrow>
          (case parse_unsigned 32 (trim hs) of None \<Rightarrow> None | Some h \<Rightarrow>
           case parse_unsigned 32 (trim ms) of None \<Rightarrow> None | Some m \<Rightarrow>
           case split_once_if (\<lambda>c. c = 44 \<or> c = 46) rest of None \<Rightarrow> None | Some (ss, fs) \<Rightarrow>
           case parse_unsigned 32 (trim ss) of None \<Rightarrow> None | Some s \<Rightarrow>
           case parse_unsigned 32 (take 3 (trim fs @ replicate (3 - length (trim fs)) 48)) of
             None \<Rightarrow> None
           | Some f \<Rightarrow> Some (of_nat h * 3600000 + of_nat m * 60000 + of_nat s * 1000 + of_nat f))
      | _ \<Rightarrow> None)"

definition fmt_ts :: "u32 \<Rightarrow> ustr" where
  "fmt_ts ms =
     (let n = unat ms; h = n div 3600000; rem = n mod 3600000; m = rem div 60000;
          rem' = rem mod 60000; s = rem' div 1000; msr = rem' mod 1000
      in dec_pad 2 h @ lit '':'' @ dec_pad 2 m @ lit '':'' @ dec_pad 2 s @ lit '','' @ dec_pad 3 msr)"

definition arrow :: ustr where
  "arrow = lit ''-->''"

definition parse_ts_line :: "ustr \<Rightarrow> (u32 \<times> u32) option" where
  "parse_ts_line line =
     (case split_once arrow line of None \<Rightarrow> None
      | Some (a, b) \<Rightarrow>
          (case parse_ts a of None \<Rightarrow> None
           | Some s \<Rightarrow> map_option (\<lambda>e. (s, e)) (parse_ts b)))"

section \<open>Parsing and serialising\<close>

text \<open>One block: lines up to the first readable timestamp line are skipped, the rest is the
  body. The state is the timestamp, once seen, and the body so far.\<close>

fun parse_block_lines :: "(u32 \<times> u32) option \<Rightarrow> ustr list \<Rightarrow> ustr list \<Rightarrow> ((u32 \<times> u32) option \<times> ustr list)" where
  "parse_block_lines ts body [] = (ts, body)"
| "parse_block_lines ts body (l # ls) =
     (let line = trim l in
      if line = [] then parse_block_lines ts body ls
      else if ts = None \<and> contains arrow line then parse_block_lines (parse_ts_line line) body ls
      else if ts \<noteq> None then parse_block_lines ts (body @ [line]) ls
      else parse_block_lines ts body ls)"

definition parse_block :: "ustr \<Rightarrow> cue list" where
  "parse_block b =
     (let block = trim b in
      if block = [] then []
      else case parse_block_lines None [] (str_lines block) of
          (Some (s, e), body) \<Rightarrow>
            (let t = trim (join [sp] body) in if t = [] then [] else [Cue_new s e t])
        | (None, _) \<Rightarrow> [])"

definition replace_crlf :: "ustr \<Rightarrow> ustr" where
  "replace_crlf s = join [nl] (split_str [cr, nl] s)"

definition parse_srt :: "ustr \<Rightarrow> cue list" where
  "parse_srt t = concat (map parse_block (split_str [nl, nl] (replace_crlf t)))"

definition srt_entry :: "nat \<Rightarrow> cue \<Rightarrow> ustr" where
  "srt_entry idx c = dec idx @ [nl] @ fmt_ts (start_ms c) @ lit '' --> '' @ fmt_ts (end_ms c)
     @ [nl] @ cue_text c @ [nl, nl]"

fun srt_entries :: "u32 \<Rightarrow> cue list \<Rightarrow> ustr" where
  "srt_entries idx [] = []"
| "srt_entries idx (c # cs) = srt_entry (unat idx) c @ srt_entries (idx + 1) cs"

text \<open>The end of the provenance cue: \<open>marker_ms\<close>, pulled before dialogue that starts in the
  first two seconds, and never zero.\<close>

definition marker_end :: "cue list \<Rightarrow> u32 \<Rightarrow> u32" where
  "marker_end cues marker_ms =
     (let e = (if cues = [] then marker_ms
               else let fs = Min (set (map start_ms cues))
                    in if fs < 2000 then sat_sub fs 1 else marker_ms)
      in max e 1)"

definition write_srt :: "cue list \<Rightarrow> bool \<Rightarrow> u32 \<Rightarrow> ustr" where
  "write_srt cues marker marker_ms =
     (if marker then
        srt_entry 1 (Cue_new 0 (marker_end cues marker_ms) AI_MARKER) @ srt_entries 2 cues
      else srt_entries 1 cues)"

definition has_ai_marker_text :: "ustr \<Rightarrow> bool" where
  "has_ai_marker_text t \<longleftrightarrow> contains (lit ''AI-generated by ASRSub'') t"

definition strip_marker :: "cue list \<Rightarrow> cue list" where
  "strip_marker cues = filter (\<lambda>c. \<not> has_ai_marker_text (cue_text c)) cues"

definition retime :: "cue list \<Rightarrow> ustr list \<Rightarrow> cue list" where
  "retime cues texts = map (\<lambda>(c, t). Cue_new (start_ms c) (end_ms c) t) (zip cues texts)"

definition snippet :: "ustr \<Rightarrow> ustr" where
  "snippet s = take 200 s"

section \<open>Timeline passes\<close>

text \<open>\<open>ensure_contiguous\<close>: a stable sort by start, then one pass in which each cue is pushed
  past the end of its (already adjusted) predecessor.\<close>

definition clamp_after :: "u32 \<Rightarrow> cue \<Rightarrow> cue" where
  "clamp_after prev_end c =
     (let c1 = (if start_ms c < prev_end then c\<lparr>start_ms := prev_end\<rparr> else c)
      in if end_ms c1 < start_ms c1 then c1\<lparr>end_ms := start_ms c1\<rparr> else c1)"

fun clamp_from :: "u32 \<Rightarrow> cue list \<Rightarrow> cue list" where
  "clamp_from e [] = []"
| "clamp_from e (c # cs) = (let c' = clamp_after e c in c' # clamp_from (end_ms c') cs)"

fun clamp_all :: "cue list \<Rightarrow> cue list" where
  "clamp_all [] = []"
| "clamp_all (c # cs) = c # clamp_from (end_ms c) cs"

definition ensure_contiguous :: "cue list \<Rightarrow> cue list" where
  "ensure_contiguous cues = clamp_all (sort_key start_ms cues)"

text \<open>\<open>slice::chunks\<close>.\<close>

function chunks :: "nat \<Rightarrow> 'a list \<Rightarrow> 'a list list" where
  "chunks n xs = (if xs = [] \<or> n = 0 then [] else take n xs # chunks n (drop n xs))"
  by pat_completeness auto
termination by (relation "measure (\<lambda>(n, xs). length xs)") auto

declare chunks.simps [simp del]

definition div_ceil :: "nat \<Rightarrow> nat \<Rightarrow> nat" where
  "div_ceil a b = (a + b - 1) div b"

text \<open>A cue of one word (text without spaces): proportional pieces of characters. The
  positions are \<open>usize\<close> arithmetic, which the products of a 32-bit span and a length stay within.\<close>

definition char_piece :: "cue \<Rightarrow> nat \<Rightarrow> nat \<Rightarrow> nat \<Rightarrow> nat \<Rightarrow> ustr \<Rightarrow> cue" where
  "char_piece c dur len per k chunk =
     (let lo = min (k * per) len; hi = min ((k + 1) * per) len;
          s = start_ms c + of_nat (dur * lo div len);
          e = (if len \<le> hi then end_ms c else start_ms c + of_nat (dur * hi div len))
      in Cue_new s (max e s) chunk)"

definition split_chars :: "cue \<Rightarrow> nat \<Rightarrow> nat \<Rightarrow> cue list" where
  "split_chars c dur max_ms =
     (let len = max (length (cue_text c)) 1; n = max (div_ceil dur max_ms) 2;
          per = max (div_ceil len n) 1
      in map (\<lambda>(k, chunk). char_piece c dur len per k chunk) (enumerate 0 (chunks per (cue_text c))))"

text \<open>A cue of several words: words are packed until the estimated duration reaches the cap.\<close>

fun split_words :: "cue \<Rightarrow> nat \<Rightarrow> f64 \<Rightarrow> ustr list \<Rightarrow> u32 \<Rightarrow> ustr list \<Rightarrow> cue list" where
  "split_words c max_ms per_word cur cur_start [] =
     (if cur \<noteq> [] then [Cue_new cur_start (max (end_ms c) cur_start) (join [sp] cur)] else [])"
| "split_words c max_ms per_word cur cur_start (w # ws) =
     (let cur' = cur @ [w]; is_last = (ws = []);
          used = f64_mul (of_count (length cur')) per_word
      in if of_count max_ms \<le> used \<or> is_last then
           let e = (if is_last then end_ms c else min (cur_start + f64_to_u32 used) (end_ms c))
           in Cue_new cur_start (max e cur_start) (join [sp] cur')
                # split_words c max_ms per_word [] e ws
         else split_words c max_ms per_word cur' cur_start ws)"

definition split_cue :: "nat \<Rightarrow> cue \<Rightarrow> cue list option" where
  "split_cue max_ms c =
     (let dur = unat (sat_sub (end_ms c) (start_ms c)); words = split_ws (cue_text c) in
      if dur \<le> max_ms \<or> cue_text c = [] then Some [c]
      else if length words < 2 then
        (if max_ms = 0 then None else Some (split_chars c dur max_ms))
      else Some (split_words c max_ms (f64_div (of_count dur) (of_count (length words)))
                   [] (start_ms c) words))"

text \<open>\<open>None\<close> is the panic of \<open>div_ceil\<close> at a zero cap.\<close>

fun split_long_cues :: "u32 \<Rightarrow> cue list \<Rightarrow> cue list option" where
  "split_long_cues max_ms [] = Some []"
| "split_long_cues max_ms (c # cs) =
     (case split_cue (unat max_ms) c of None \<Rightarrow> None
      | Some ps \<Rightarrow> map_option (\<lambda>r. ps @ r) (split_long_cues max_ms cs))"

section \<open>Reading speed\<close>

text \<open>\<open>cps_of\<close>; \<open>None\<close> is positive infinity.\<close>

definition cps_of :: "ustr \<Rightarrow> u32 \<Rightarrow> u32 \<Rightarrow> f64 option" where
  "cps_of t s e =
     (let dur_s = f64_div (of_int (int (unat e) - int (unat s))) 1000
      in if dur_s \<le> 0 then None else Some (f64_div (of_count (length t)) dur_s))"

definition count_nl :: "ustr \<Rightarrow> nat" where
  "count_nl t = length (filter (\<lambda>c. c = nl) t)"

record merge_limits =
  max_cps :: f64
  max_chars :: nat
  max_dur_ms :: u32
  max_gap_ms :: u32

definition merge_sep :: "merge_limits \<Rightarrow> cue \<Rightarrow> cue \<Rightarrow> ustr" where
  "merge_sep l cur nxt =
     (if length (cue_text cur) + 1 + length (cue_text nxt) \<le> max_chars l div 2 then [sp] else [nl])"

definition merge_text :: "merge_limits \<Rightarrow> cue \<Rightarrow> cue \<Rightarrow> ustr" where
  "merge_text l cur nxt = cue_text cur @ merge_sep l cur nxt @ cue_text nxt"

definition merge_fits :: "merge_limits \<Rightarrow> cue \<Rightarrow> cue \<Rightarrow> bool" where
  "merge_fits l cur nxt \<longleftrightarrow>
     (let gap = int (unat (start_ms nxt)) - int (unat (end_ms cur));
          joined_len = length (cue_text cur) + 1 + length (cue_text nxt);
          combined_dur_s = f64_div (of_int (int (unat (end_ms nxt)) - int (unat (start_ms cur)))) 1000
      in gap \<le> int (unat (max_gap_ms l))
         \<and> (count_nl (cue_text cur) + 1) + (count_nl (cue_text nxt) + 1) \<le> 2
         \<and> joined_len \<le> max_chars l
         \<and> 0 < combined_dur_s
         \<and> f64_div (of_count (length (merge_text l cur nxt))) combined_dur_s \<le> max_cps l
         \<and> f64_mul combined_dur_s 1000 \<le> of_count (unat (max_dur_ms l)))"

definition too_fast :: "merge_limits \<Rightarrow> cue \<Rightarrow> bool" where
  "too_fast l c \<longleftrightarrow>
     (case cps_of (cue_text c) (start_ms c) (end_ms c) of None \<Rightarrow> True | Some v \<Rightarrow> \<not> v \<le> max_cps l)"

fun merge_from :: "merge_limits \<Rightarrow> cue \<Rightarrow> cue list \<Rightarrow> cue list" where
  "merge_from l cur [] = [cur]"
| "merge_from l cur (nxt # rest) =
     (if too_fast l cur \<and> merge_fits l cur nxt
      then merge_from l (cur\<lparr>end_ms := end_ms nxt, cue_text := merge_text l cur nxt\<rparr>) rest
      else cur # merge_from l nxt rest)"

fun cps_merge :: "merge_limits \<Rightarrow> cue list \<Rightarrow> cue list" where
  "cps_merge l [] = []"
| "cps_merge l (c # cs) = merge_from l c cs"

section \<open>The timeline gate\<close>

definition cue_msg :: "nat \<Rightarrow> string \<Rightarrow> ustr" where
  "cue_msg i m = lit ''cue '' @ dec i @ lit '': '' @ lit m"

text \<open>The per-cue checks. The duration is a \<open>u32\<close> subtraction, which wraps when the end lies
  before the start.\<close>

definition own_violations :: "u32 \<Rightarrow> nat \<Rightarrow> cue \<Rightarrow> ustr list" where
  "own_violations max_cue_ms i c =
     (if trim (cue_text c) = [] then [cue_msg i ''empty text''] else [])
     @ (if end_ms c < start_ms c then [cue_msg i ''end before start''] else [])
     @ (if max_cue_ms < end_ms c - start_ms c
        then [cue_msg i ''duration '' @ dec (unat (end_ms c - start_ms c)) @ lit ''ms > ''
                @ dec (unat max_cue_ms) @ lit ''ms''] else [])"

definition pair_violations :: "nat \<Rightarrow> cue \<Rightarrow> cue \<Rightarrow> ustr list" where
  "pair_violations i prev c =
     (if start_ms c < start_ms prev then [cue_msg i ''starts not monotonic''] else [])
     @ (if start_ms c < end_ms prev then [cue_msg i ''overlaps previous''] else [])"

record timeline_state =
  pileup :: u32
  worst_pileup :: u32
  worst_gap_ms :: u32

definition timeline_step :: "cue \<Rightarrow> cue \<Rightarrow> timeline_state \<Rightarrow> timeline_state" where
  "timeline_step prev c st =
     (let st1 = (if start_ms c = start_ms prev
                 then st\<lparr>pileup := pileup st + 1, worst_pileup := max (worst_pileup st) (pileup st + 1)\<rparr>
                 else st\<lparr>pileup := 1\<rparr>)
      in st1\<lparr>worst_gap_ms :=
           max (worst_gap_ms st1) (sat_sub (start_ms c) (max (end_ms prev) (start_ms prev)))\<rparr>)"

fun timeline_scan :: "u32 \<Rightarrow> nat \<Rightarrow> cue \<Rightarrow> cue list \<Rightarrow> timeline_state \<Rightarrow> ustr list \<times> timeline_state" where
  "timeline_scan m i prev [] st = ([], st)"
| "timeline_scan m i prev (c # cs) st =
     (let (v, st') = timeline_scan m (i + 1) c cs (timeline_step prev c st)
      in (own_violations m i c @ pair_violations i prev c @ v, st'))"

definition MAX_PILEUP :: u32 where "MAX_PILEUP = 2"
definition MIN_COVERAGE :: f64 where "MIN_COVERAGE = f64_round (80 / 100)"
definition MAX_GAP_FRAC :: f64 where "MAX_GAP_FRAC = f64_round (30 / 100)"

definition timeline_body :: "cue list \<Rightarrow> cue list" where
  "timeline_body cues =
     (case cues of c # cs \<Rightarrow> if has_ai_marker_text (cue_text c) then cs else cues | [] \<Rightarrow> [])"

definition coverage_violations :: "cue list \<Rightarrow> u32 \<Rightarrow> f64 \<Rightarrow> ustr list" where
  "coverage_violations body worst_gap dur =
     (let first_start = (case body of c # _ \<Rightarrow> start_ms c | [] \<Rightarrow> 0);
          last_end = (if body = [] then 0 else Max (set (map end_ms body)));
          span_s = f64_div (of_count (unat (sat_sub last_end first_start))) 1000;
          gap_s = f64_div (of_count (unat worst_gap)) 1000
      in (if f64_div span_s dur < MIN_COVERAGE
          then [lit ''coverage '' @ fmt_f64_0 span_s @ lit ''s of '' @ fmt_f64_0 dur @ lit ''s below ''
                  @ fmt_f64_0 (f64_mul MIN_COVERAGE 100) @ lit ''%''] else [])
         @ (if MAX_GAP_FRAC < f64_div gap_s dur
            then [lit ''internal gap '' @ fmt_f64_0 gap_s @ lit ''s exceeds ''
                    @ fmt_f64_0 (f64_mul MAX_GAP_FRAC 100) @ lit ''% of runtime''] else []))"

definition validate_timeline :: "cue list \<Rightarrow> u32 \<Rightarrow> f64 option \<Rightarrow> ustr list" where
  "validate_timeline cues max_cue_ms duration_s =
     (case timeline_body cues of
        [] \<Rightarrow> [lit ''no cues'']
      | c # cs \<Rightarrow>
          (let (v, st) = timeline_scan max_cue_ms 1 c cs
                 \<lparr>pileup = 1, worst_pileup = 1, worst_gap_ms = 0\<rparr>
           in own_violations max_cue_ms 0 c @ v
              @ (if MAX_PILEUP < worst_pileup st
                 then [lit ''cue pileup: '' @ dec (unat (worst_pileup st))
                        @ lit '' cues share one start (max '' @ dec (unat MAX_PILEUP) @ lit '')''] else [])
              @ (case duration_s of None \<Rightarrow> []
                 | Some dur \<Rightarrow> if 0 < dur then coverage_violations (c # cs) (worst_gap_ms st) dur else [])))"

section \<open>Line guards\<close>

text \<open>\<open>sanitize_lines\<close>: runs longer than the limit are cut to it and marked with an ellipsis.\<close>

function sanitize_line :: "nat \<Rightarrow> ustr \<Rightarrow> ustr" where
  "sanitize_line m [] = []"
| "sanitize_line m (c # cs) =
     (let run = 1 + length (takeWhile (\<lambda>x. x = c) cs) in
      (if m < run then replicate m c @ [0x2026] else replicate run c)
        @ sanitize_line m (dropWhile (\<lambda>x. x = c) cs))"
  by pat_completeness auto
termination
  by (relation "measure (\<lambda>(m, s). length s)") (auto simp: le_imp_less_Suc length_dropWhile_le)

definition sanitize_lines :: "ustr list \<Rightarrow> nat \<Rightarrow> ustr list" where
  "sanitize_lines ls m = map (sanitize_line m) ls"

definition has_kana :: "ustr \<Rightarrow> bool" where
  "has_kana s \<longleftrightarrow> list_ex is_kana s"

definition has_hanzi :: "ustr \<Rightarrow> bool" where
  "has_hanzi s \<longleftrightarrow> list_ex (\<lambda>c. (0x3400 \<le> c \<and> c \<le> 0x4dbf) \<or> (0x4e00 \<le> c \<and> c \<le> 0x9fff)) s"

definition latin_ratio :: "ustr \<Rightarrow> f64" where
  "latin_ratio s =
     (if s = [] then 0
      else f64_div (of_count (length (filter is_ascii_alpha s))) (of_count (max (length s) 1)))"

definition foreign_line :: "ustr \<Rightarrow> bool" where
  "foreign_line l \<longleftrightarrow> (has_hanzi l \<and> \<not> has_kana l) \<or> (1 / 2 < latin_ratio l \<and> \<not> has_kana l)"

definition lyric_placeholder :: ustr where
  "lyric_placeholder = [0xff08, 0x6b4c, 0x8a5e, 0xff09]"

definition placeholder_at :: "ustr list \<Rightarrow> nat \<Rightarrow> ustr" where
  "placeholder_at phs i =
     (let k = i mod max (length phs) 1 in if k < length phs then phs ! k else lyric_placeholder)"

definition guard_foreign_lines :: "ustr list \<Rightarrow> ustr list \<Rightarrow> ustr list" where
  "guard_foreign_lines ls phs =
     map (\<lambda>(i, l). if foreign_line l then placeholder_at phs i else l) (enumerate 0 ls)"

definition in_range :: "uchar \<Rightarrow> nat \<Rightarrow> nat \<Rightarrow> bool" where
  "in_range c a b \<longleftrightarrow> a \<le> c \<and> c \<le> b"

definition has_non_latin_letter :: "ustr \<Rightarrow> bool" where
  "has_non_latin_letter s \<longleftrightarrow> list_ex (\<lambda>c.
     in_range c 0x370 0x3ff \<or> in_range c 0x400 0x52f \<or> in_range c 0x590 0x5ff
     \<or> in_range c 0x600 0x6ff \<or> in_range c 0x900 0x97f \<or> in_range c 0xe00 0xe7f
     \<or> in_range c 0x3040 0x309f \<or> in_range c 0x30a0 0x30ff \<or> in_range c 0x3400 0x4dbf
     \<or> in_range c 0x4e00 0x9fff \<or> in_range c 0xac00 0xd7af) s"

definition wrong_script :: "ustr \<Rightarrow> ustr \<Rightarrow> bool" where
  "wrong_script line target_lang_name \<longleftrightarrow>
     (if line = [] then False
      else if target_lang_name = lit ''Japanese'' then
        \<not> list_ex is_cjk line \<and> \<not> list_ex is_ascii_alpha line \<and> has_non_latin_letter line
      else has_non_latin_letter line)"

text \<open>\<open>extract_json_array\<close>: the text from the first opening to the last closing bracket, read
  by the JSON parser (a parameter, like the rendering of a non-string element).\<close>

fun find_char :: "uchar \<Rightarrow> ustr \<Rightarrow> nat option" where
  "find_char x [] = None"
| "find_char x (c # cs) = (if c = x then Some 0 else map_option Suc (find_char x cs))"

definition rfind_char :: "uchar \<Rightarrow> ustr \<Rightarrow> nat option" where
  "rfind_char x s = map_option (\<lambda>k. length s - 1 - k) (find_char x (rev s))"

definition trim_quotes :: "ustr \<Rightarrow> ustr" where
  "trim_quotes s = rev (dropWhile (\<lambda>c. c = 34) (rev (dropWhile (\<lambda>c. c = 34) s)))"

definition extract_json_array ::
    "(ustr \<Rightarrow> json option) \<Rightarrow> (json \<Rightarrow> ustr) \<Rightarrow> ustr \<Rightarrow> ustr list option" where
  "extract_json_array from_str to_string raw =
     (let s = trim raw in
      case find_char 91 s of None \<Rightarrow> None
      | Some i \<Rightarrow>
          (case rfind_char 93 s of None \<Rightarrow> None
           | Some j \<Rightarrow>
               if j \<le> i then None
               else case from_str (take (j + 1 - i) (drop i s)) of
                   Some (JArr arr) \<Rightarrow>
                     Some (map (\<lambda>v. case v of JStr t \<Rightarrow> t | other \<Rightarrow> trim_quotes (to_string other)) arr)
                 | _ \<Rightarrow> None))"

section \<open>Timestamps\<close>

lemma trim_append_sp: "trim (s @ [sp]) = trim s"
  by (rule trim_append_ws) simp

lemma split_three:
  assumes "c \<notin> set a" "c \<notin> set b" "c \<notin> set r"
  shows "split_str [c] (a @ c # b @ c # r) = [a, b, r]"
  using split_char_join [of "[a, b, r]" c] assms by simp

lemma split_once_if_first: "\<forall>x \<in> set a. \<not> p x \<Longrightarrow> p c \<Longrightarrow> split_once_if p (a @ c # b) = Some (a, b)"
  by (induction a) auto

text \<open>The characters of a formatted timestamp.\<close>

definition ts_char :: "uchar \<Rightarrow> bool" where
  "ts_char c \<longleftrightarrow> is_ascii_digit c \<or> c = 58 \<or> c = 44"

lemma ts_char_plain: "ts_char c \<Longrightarrow> \<not> is_ws c \<and> c \<noteq> 45 \<and> c \<noteq> nl"
  by (auto simp: ts_char_def is_ws_def is_ascii_digit_def)

lemma fmt_ts_eq:
  "fmt_ts ms = (let n = unat ms in
     dec_pad 2 (n div 3600000) @ 58 # dec_pad 2 (n mod 3600000 div 60000) @ 58
       # dec_pad 2 (n mod 60000 div 1000) @ 44 # dec_pad 3 (n mod 1000))"
proof -
  have "n mod 3600000 mod 60000 = n mod 60000" "n mod 60000 mod 1000 = n mod 1000"
    "n mod 3600000 mod 1000 = n mod 1000" for n :: nat
    by (simp_all add: mod_mod_cancel)
  then show ?thesis by (simp add: fmt_ts_def Let_def lit_eval)
qed

lemma dec_pad_ts_char: "\<forall>c \<in> set (dec_pad k n). ts_char c"
  using dec_pad_digits [of k n] by (simp add: ts_char_def)

lemma fmt_ts_chars: "\<forall>c \<in> set (fmt_ts ms). ts_char c"
  using dec_pad_ts_char by (auto simp: fmt_ts_eq Let_def ts_char_def)

lemma fmt_ts_nonempty [simp]: "fmt_ts ms \<noteq> []"
  by (simp add: fmt_ts_eq Let_def)

lemma fmt_ts_ends: "\<not> is_ws (hd (fmt_ts ms))" "\<not> is_ws (last (fmt_ts ms))"
  using fmt_ts_chars [of ms] by (simp_all add: ts_char_plain)

lemma chars_trimmed: "\<forall>c \<in> set s. ts_char c \<Longrightarrow> trimmed s"
  by (cases "s = []") (auto simp: trimmed_def ts_char_plain)

lemma hms_recompose: "(n::nat) div 3600000 * 3600000 + n mod 3600000 div 60000 * 60000
    + n mod 60000 div 1000 * 1000 + n mod 1000 = n"
proof -
  have "n mod 60000 = n mod 3600000 mod 60000" "n mod 1000 = n mod 60000 mod 1000"
    by (simp_all add: mod_mod_cancel)
  then have "n mod 3600000 div 60000 * 60000 + n mod 60000 = n mod 3600000"
    "n mod 60000 div 1000 * 1000 + n mod 1000 = n mod 60000"
    by (metis div_mult_mod_eq)+
  then show ?thesis using div_mult_mod_eq [of n 3600000] by linarith
qed

lemma parse_ts_trim: "trim v = trim w \<Longrightarrow> parse_ts v = parse_ts w"
  by (simp add: parse_ts_def)

lemma parse_ts_fmt [simp]: "parse_ts (fmt_ts ms) = Some ms"
proof -
  define n where "n = unat ms"
  define h where "h = n div 3600000"
  define m where "m = n mod 3600000 div 60000"
  define s where "s = n mod 60000 div 1000"
  define f where "f = n mod 1000"
  have bound: "n < 2 ^ 32" using unsigned_less [of ms] by (simp add: n_def)
  have lt: "h < 2 ^ 32" "m < 2 ^ 32" "s < 2 ^ 32" "f < 2 ^ 32" "f < 1000"
    using bound by (auto simp: h_def m_def s_def f_def intro!: le_less_trans [OF div_le_dividend]
        le_less_trans [OF mod_less_eq_dividend] intro: le_less_trans)
  have no: "58 \<notin> set (dec_pad k x)" for k x
    using dec_pad_digits [of k x] by (auto simp: is_ascii_digit_def)
  have fmt: "fmt_ts ms = dec_pad 2 h @ 58 # dec_pad 2 m @ 58 # (dec_pad 2 s @ 44 # dec_pad 3 f)"
    by (simp add: fmt_ts_eq Let_def n_def h_def m_def s_def f_def)
  have split: "split_str (lit '':'') (fmt_ts ms) = [dec_pad 2 h, dec_pad 2 m, dec_pad 2 s @ 44 # dec_pad 3 f]"
    unfolding fmt using split_three [OF no no, of "dec_pad 2 s @ 44 # dec_pad 3 f" 2 h 2 m] no
    by (auto simp: lit_eval)
  have secs: "split_once_if (\<lambda>c. c = 44 \<or> c = 46) (dec_pad 2 s @ 44 # dec_pad 3 f) = Some (dec_pad 2 s, dec_pad 3 f)"
    using dec_pad_digits [of 2 s] by (intro split_once_if_first) (auto simp: is_ascii_digit_def)
  have sum: "of_nat h * 3600000 + of_nat m * 60000 + of_nat s * 1000 + of_nat f = ms"
  proof -
    have "h * 3600000 + m * 60000 + s * 1000 + f = n"
      using hms_recompose [of n] by (simp add: h_def m_def s_def f_def)
    then have "(of_nat (h * 3600000 + m * 60000 + s * 1000 + f) :: u32) = of_nat n" by simp
    then show ?thesis by (simp add: n_def)
  qed
  have "trim (dec_pad k x) = dec_pad k x" for k x
    by (simp add: digits_trimmed dec_pad_digits)
  moreover have "trim (fmt_ts ms) = fmt_ts ms"
    by (simp add: chars_trimmed fmt_ts_chars)
  ultimately show ?thesis
    using lt split secs sum by (simp add: parse_ts_def dec_pad3_length)
qed

section \<open>Serialised blocks\<close>

lemma split_once_leading: "c \<notin> set a \<Longrightarrow> split_once (c # p) (a @ c # p @ b) = Some (a, b)"
  by (induction a) (auto simp: starts_with_def)

lemma split_once_absent: "c \<notin> set s \<Longrightarrow> split_once (c # p) s = None"
  by (induction s) (auto simp: starts_with_def)

lemma no_crlf_line: "nl \<notin> set a \<Longrightarrow> split_once [cr, nl] a = None"
proof (induction a)
  case (Cons x a)
  then show ?case by (cases a) (auto simp: starts_with_def)
qed (simp add: starts_with_def)

lemma no_crlf_append:
  "nl \<notin> set a \<Longrightarrow> a = [] \<or> last a \<noteq> cr \<Longrightarrow> split_once [cr, nl] b = None
    \<Longrightarrow> split_once [cr, nl] (a @ nl # b) = None"
proof (induction a)
  case (Cons x a)
  then show ?case
    by (cases a) (auto simp: starts_with_def)
qed (simp add: starts_with_def)

lemma split_blank_here: "nl \<notin> set a \<Longrightarrow> split_once [nl, nl] (a @ nl # nl # b) = Some (a, b)"
  by (induction a) (auto simp: starts_with_def)

lemma split_blank_later:
  "nl \<notin> set a \<Longrightarrow> b \<noteq> [] \<Longrightarrow> hd b \<noteq> nl \<Longrightarrow> split_once [nl, nl] b = Some (x, y)
    \<Longrightarrow> split_once [nl, nl] (a @ nl # b) = Some (a @ nl # x, y)"
  by (induction a) (cases b; auto simp: starts_with_def)+

text \<open>A cue the format can carry: one line of text, not blank, without outer whitespace.\<close>

definition writable :: "cue \<Rightarrow> bool" where
  "writable c \<longleftrightarrow> cue_text c \<noteq> [] \<and> trimmed (cue_text c) \<and> nl \<notin> set (cue_text c)"

definition ts_text :: "cue \<Rightarrow> ustr" where
  "ts_text c = fmt_ts (start_ms c) @ lit '' --> '' @ fmt_ts (end_ms c)"

definition block_text :: "nat \<Rightarrow> cue \<Rightarrow> ustr" where
  "block_text i c = dec i @ nl # ts_text c @ nl # cue_text c"

lemma srt_entry_block: "srt_entry i c = block_text i c @ [nl, nl]"
  by (simp add: srt_entry_def block_text_def ts_text_def)

lemma ts_text_chars: "\<forall>ch \<in> set (ts_text c). ch \<noteq> nl"
  using fmt_ts_chars by (fastforce simp: ts_text_def lit_eval dest: ts_char_plain)

lemma ts_text_ends: "ts_text c \<noteq> [] \<and> \<not> is_ws (hd (ts_text c)) \<and> \<not> is_ws (last (ts_text c))"
  by (simp add: ts_text_def fmt_ts_ends)

lemma dec_plain: "nl \<notin> set (dec i)" "\<not> is_ws (hd (dec i))" "\<not> is_ws (last (dec i))" "45 \<notin> set (dec i)"
proof -
  have *: "is_ascii_digit ch" if "ch \<in> set (dec i)" for ch using dec_digits that by blast
  show "\<not> is_ws (hd (dec i))" "\<not> is_ws (last (dec i))"
    by (simp_all add: * ascii_digit_not_ws)
  show "nl \<notin> set (dec i)" "45 \<notin> set (dec i)"
    using * [of nl] * [of 45] by (auto simp: is_ascii_digit_def)
qed

lemma parse_ts_line_text [simp]: "parse_ts_line (ts_text c) = Some (start_ms c, end_ms c)"
proof -
  have "45 \<notin> set (fmt_ts (start_ms c) @ [sp])"
    using fmt_ts_chars [of "start_ms c"] by (auto dest: ts_char_plain)
  from split_once_leading [OF this, of "[45, 62]" "sp # fmt_ts (end_ms c)"]
  have "split_once arrow (ts_text c) = Some (fmt_ts (start_ms c) @ [sp], sp # fmt_ts (end_ms c))"
    by (simp add: ts_text_def arrow_def lit_eval)
  moreover have "parse_ts (fmt_ts (start_ms c) @ [sp]) = Some (start_ms c)"
    using parse_ts_trim [OF trim_append_sp] by simp
  moreover have "trim (sp # fmt_ts (end_ms c)) = trim (fmt_ts (end_ms c))"
  proof -
    have "trim_end (sp # fmt_ts (end_ms c)) = sp # fmt_ts (end_ms c)"
      "trim_end (fmt_ts (end_ms c)) = fmt_ts (end_ms c)"
      by (simp_all add: trim_end_id fmt_ts_ends)
    then show ?thesis by (simp add: trim_def trim_start_def)
  qed
  then have "parse_ts (sp # fmt_ts (end_ms c)) = Some (end_ms c)"
    using parse_ts_trim by (metis parse_ts_fmt)
  ultimately show ?thesis by (simp add: parse_ts_line_def)
qed

lemma contains_arrow_text: "contains arrow (ts_text c)"
  using parse_ts_line_text [of c] by (auto simp: contains_def parse_ts_line_def split: option.splits)

lemma parse_block_text: "writable c \<Longrightarrow> parse_block (block_text i c) = [c]"
proof -
  assume w: "writable c"
  then have t: "cue_text c \<noteq> []" "trimmed (cue_text c)" "nl \<notin> set (cue_text c)"
    by (simp_all add: writable_def)
  from t have ws: "\<not> is_ws (last (cue_text c))" by (auto simp: trimmed_def)
  have "trimmed (block_text i c)"
    using t(1) ws by (simp add: trimmed_def block_text_def dec_plain)
  then have trim: "trim (block_text i c) = block_text i c" by simp
  have "block_text i c = join [nl] [dec i, ts_text c, cue_text c]"
    by (simp add: block_text_def)
  then have "split_str [nl] (block_text i c) = [dec i, ts_text c, cue_text c]"
    using split_char_join [of "[dec i, ts_text c, cue_text c]" nl] t(3) ts_text_chars [of c] dec_plain(1)
    by auto
  moreover have "strip_cr s = s" if "\<not> is_ws (last s)" for s
    using that by (auto simp: strip_cr_def)
  ultimately have lines: "str_lines (block_text i c) = [dec i, ts_text c, cue_text c]"
    using t(1) ws ts_text_ends [of c] by (simp add: str_lines_def dec_plain)
  have "trim (dec i) = dec i" "trim (ts_text c) = ts_text c"
    using ts_text_ends [of c] by (simp_all add: trimmed_def dec_plain)
  moreover have "\<not> contains arrow (dec i)"
    using split_once_absent [OF dec_plain(4), of "[45, 62]" i] by (simp add: contains_def arrow_def lit_eval)
  moreover have "block_text i c \<noteq> []" by (simp add: block_text_def)
  ultimately show ?thesis
    using t ts_text_ends [of c] contains_arrow_text [of c]
    by (simp add: parse_block_def trim lines Cue_new_def)
qed

lemma block_no_crlf: "writable c \<Longrightarrow> split_once [cr, nl] r = None
  \<Longrightarrow> split_once [cr, nl] (srt_entry i c @ r) = None"
proof -
  assume w: "writable c" and r: "split_once [cr, nl] r = None"
  have not_cr: "\<not> is_ws x \<Longrightarrow> x \<noteq> cr" for x by auto
  have t: "cue_text c \<noteq> []" "\<not> is_ws (last (cue_text c))" "nl \<notin> set (cue_text c)"
    using w by (auto simp: writable_def trimmed_def)
  have "split_once [cr, nl] (cue_text c @ nl # nl # r) = None"
    by (rule no_crlf_append) (use t r not_cr in \<open>auto simp: starts_with_def\<close>)
  then have "split_once [cr, nl] (ts_text c @ nl # cue_text c @ nl # nl # r) = None"
    by (rule no_crlf_append [rotated 2]) (use ts_text_ends [of c] ts_text_chars [of c] not_cr in auto)
  then have "split_once [cr, nl] (dec i @ nl # ts_text c @ nl # cue_text c @ nl # nl # r) = None"
    by (rule no_crlf_append [rotated 2]) (use dec_plain [of i] not_cr in auto)
  then show ?thesis by (simp add: srt_entry_block block_text_def)
qed

lemma split_block:
  assumes "writable c"
  shows "split_str [nl, nl] (srt_entry i c @ r) = block_text i c # split_str [nl, nl] r"
proof -
  have t: "cue_text c \<noteq> []" "hd (cue_text c) \<noteq> nl" "nl \<notin> set (cue_text c)"
    using assms by (auto simp: writable_def trimmed_def)
  then have "split_once [nl, nl] (cue_text c @ nl # nl # r) = Some (cue_text c, r)"
    by (simp add: split_blank_here)
  then have "split_once [nl, nl] (ts_text c @ nl # cue_text c @ nl # nl # r) = Some (ts_text c @ nl # cue_text c, r)"
    by (rule split_blank_later [rotated 3]) (use t ts_text_chars [of c] in auto)
  then have "split_once [nl, nl] (dec i @ nl # ts_text c @ nl # cue_text c @ nl # nl # r)
      = Some (dec i @ nl # ts_text c @ nl # cue_text c, r)"
    by (rule split_blank_later [rotated 3]) (use ts_text_ends [of c] dec_plain(1) in auto)
  then show ?thesis
    by (intro split_str_step) (simp_all add: srt_entry_block block_text_def)
qed

text \<open>An entry at the front of a file is read back as its cue.\<close>

lemma parse_srt_Nil [simp]: "parse_srt [] = []"
  by (simp add: parse_srt_def replace_crlf_def split_str_end parse_block_def starts_with_def)

lemma parse_srt_plain:
  "split_once [cr, nl] s = None \<Longrightarrow> parse_srt s = concat (map parse_block (split_str [nl, nl] s))"
  by (simp add: parse_srt_def replace_crlf_def split_str_end)

lemma parse_srt_entry:
  assumes "writable c" and r: "split_once [cr, nl] r = None"
  shows "parse_srt (srt_entry i c @ r) = c # parse_srt r"
  using assms by (simp add: parse_srt_plain block_no_crlf split_block parse_block_text)

lemma srt_entries_no_crlf: "\<forall>c \<in> set cues. writable c \<Longrightarrow> split_once [cr, nl] (srt_entries i cues) = None"
  by (induction cues arbitrary: i) (simp_all add: block_no_crlf)

lemma parse_srt_entries: "\<forall>c \<in> set cues. writable c \<Longrightarrow> parse_srt (srt_entries i cues) = cues"
  by (induction cues arbitrary: i) (simp_all add: parse_srt_entry srt_entries_no_crlf)

lemma marker_writable: "writable (Cue_new 0 e AI_MARKER)"
  by (simp add: writable_def Cue_new_def AI_MARKER_def trimmed_def lit_eval is_ws_def)

lemma marker_recognised: "has_ai_marker_text AI_MARKER"
  by (simp add: has_ai_marker_text_def contains_def AI_MARKER_def lit_eval starts_with_def)

section \<open>Contiguity\<close>

lemma clamp_after_start: "start_ms (clamp_after e c) = max (start_ms c) e"
  by (auto simp: clamp_after_def Let_def max_def)

lemma clamp_after_end: "end_ms (clamp_after e c) = max (end_ms c) (start_ms (clamp_after e c))"
  by (auto simp: clamp_after_def Let_def max_def)

lemma clamp_after_text [simp]: "cue_text (clamp_after e c) = cue_text c"
  by (simp add: clamp_after_def Let_def)

text \<open>A timeline in which every cue starts at or after its predecessor's start and end, and
  ends at or after its own start.\<close>

fun ordered_from :: "u32 \<Rightarrow> u32 \<Rightarrow> cue list \<Rightarrow> bool" where
  "ordered_from s e [] = True"
| "ordered_from s e (c # cs) \<longleftrightarrow>
     s \<le> start_ms c \<and> e \<le> start_ms c \<and> start_ms c \<le> end_ms c \<and> ordered_from (start_ms c) (end_ms c) cs"

lemma clamp_from_ordered:
  "s \<le> e \<Longrightarrow> ordered_from s e (clamp_from e cs)"
  by (induction cs arbitrary: s e) (auto simp: Let_def clamp_after_start clamp_after_end le_max_iff_disj)

lemma clamp_from_ordered_first:
  "\<forall>c \<in> set cs. s \<le> start_ms c \<Longrightarrow> ordered_from s e (clamp_from e cs)"
  by (cases cs) (auto simp: Let_def clamp_after_start clamp_after_end intro!: clamp_from_ordered le_max_iff_disj [THEN iffD2])

lemma clamp_from_texts: "map cue_text (clamp_from e cs) = map cue_text cs"
  by (induction cs arbitrary: e) (simp_all add: Let_def)

lemma clamp_from_starts:
  "list_all2 (\<lambda>c c'. start_ms c \<le> start_ms c' \<and> end_ms c \<le> end_ms c') cs (clamp_from e cs)"
  by (induction cs arbitrary: e) (simp_all add: Let_def clamp_after_start clamp_after_end)

lemma clamp_all_texts: "map cue_text (clamp_all cs) = map cue_text cs"
  by (cases cs) (simp_all add: clamp_from_texts)

lemma clamp_all_starts:
  "list_all2 (\<lambda>c c'. start_ms c \<le> start_ms c' \<and> end_ms c \<le> end_ms c') cs (clamp_all cs)"
  by (cases cs) (simp_all add: clamp_from_starts)

definition contiguous :: "cue list \<Rightarrow> bool" where
  "contiguous cs \<longleftrightarrow> (case cs of [] \<Rightarrow> True | c # r \<Rightarrow> ordered_from (start_ms c) (end_ms c) r)"

lemma ensure_contiguous_contiguous: "contiguous (ensure_contiguous cs)"
proof (cases "sort_key start_ms cs")
  case (Cons c r)
  have "sorted (map start_ms (c # r))" by (metis Cons sorted_sort_key)
  then have "\<forall>d \<in> set r. start_ms c \<le> start_ms d" by simp
  then show ?thesis
    by (simp add: contiguous_def ensure_contiguous_def Cons clamp_from_ordered_first)
qed (simp add: contiguous_def ensure_contiguous_def)

section \<open>No character is lost\<close>

text \<open>The visible characters of a cue list, in order.\<close>

definition visible :: "ustr \<Rightarrow> ustr" where
  "visible t = filter (\<lambda>c. \<not> is_ws c) t"

definition visible_text :: "cue list \<Rightarrow> ustr" where
  "visible_text cs = concat (map (\<lambda>c. visible (cue_text c)) cs)"

lemma visible_append [simp]: "visible (a @ b) = visible a @ visible b"
  by (simp add: visible_def)

lemma visible_Nil [simp]: "visible [] = []"
  by (simp add: visible_def)

lemma visible_text_simps [simp]:
  "visible_text [] = []"
  "visible_text (c # cs) = visible (cue_text c) @ visible_text cs"
  "visible_text (cs @ ds) = visible_text cs @ visible_text ds"
  by (simp_all add: visible_text_def)

lemma visible_join_sp: "visible (join [sp] ws) = concat (map visible ws)"
  by (induction "[sp]" ws rule: join.induct) (simp_all add: visible_def)

lemma visible_dropWhile: "visible (dropWhile is_ws s) = visible s"
  by (induction s) (simp_all add: visible_def)

lemma visible_word: "visible (takeWhile (\<lambda>x. \<not> is_ws x) s) = takeWhile (\<lambda>x. \<not> is_ws x) s"
  by (simp add: visible_def filter_id_conv) (metis set_takeWhileD)

lemma visible_split_ws: "concat (map visible (split_ws s)) = visible s"
proof (induction s rule: split_ws.induct)
  case (1 s)
  show ?case
  proof (cases "trim_start s")
    case Nil
    then have "visible s = []" by (metis trim_start_def visible_Nil visible_dropWhile)
    with Nil show ?thesis by (simp add: split_ws.simps [of s])
  next
    case (Cons c cs)
    let ?w = "takeWhile (\<lambda>x. \<not> is_ws x) (c # cs)" and ?r = "dropWhile (\<lambda>x. \<not> is_ws x) (c # cs)"
    have "visible s = visible (?w @ ?r)"
      using Cons by (metis takeWhile_dropWhile_id trim_start_def visible_dropWhile)
    moreover have "split_ws s = ?w # split_ws ?r"
      using Cons by (simp add: split_ws.simps [of s] del: takeWhile.simps dropWhile.simps)
    ultimately show ?thesis using "1.IH" [OF Cons] by simp
  qed
qed

lemma visible_split_words:
  "visible_text (split_words c m p cur st ws) = concat (map visible (cur @ ws))"
  by (induction ws arbitrary: cur st) (simp_all add: Let_def Cue_new_def visible_join_sp)

lemma concat_chunks: "0 < n \<Longrightarrow> concat (chunks n xs) = xs"
proof (induction n xs rule: chunks.induct)
  case (1 n xs)
  then show ?case by (cases "xs = []") (simp_all add: chunks.simps [of n xs] chunks.simps [of n "[]"])
qed

lemma visible_concat: "concat (map visible xs) = visible (concat xs)"
  by (induction xs) simp_all

lemma visible_split_chars: "visible_text (split_chars c d m) = visible (cue_text c)"
proof -
  have "map cue_text (map (\<lambda>(k, chunk). char_piece c d len per k chunk) (enumerate j xs)) = xs" for len per j xs
    by (induction xs arbitrary: j) (simp_all add: char_piece_def Cue_new_def Let_def)
  then have "map cue_text (split_chars c d m)
      = chunks (max (div_ceil (max (length (cue_text c)) 1) (max (div_ceil d m) 2)) 1) (cue_text c)"
    unfolding split_chars_def Let_def by blast
  moreover have "visible_text cs = visible (concat (map cue_text cs))" for cs
    by (simp add: visible_text_def visible_concat [symmetric] comp_def)
  ultimately show ?thesis by (simp add: concat_chunks)
qed

lemma split_cue_visible: "split_cue m c = Some ps \<Longrightarrow> visible_text ps = visible (cue_text c)"
  by (auto simp: split_cue_def Let_def visible_split_words visible_split_chars visible_split_ws split: if_splits)

lemma split_words_forward: "d \<in> set (split_words c m p cur st ws) \<Longrightarrow> start_ms d \<le> end_ms d"
  by (induction c m p cur st ws rule: split_words.induct) (auto simp: Let_def Cue_new_def split: if_splits)

lemma split_chars_forward: "d \<in> set (split_chars c dur m) \<Longrightarrow> start_ms d \<le> end_ms d"
  by (auto simp: split_chars_def Let_def char_piece_def Cue_new_def)

lemma split_cue_forward: "split_cue m c = Some ps \<Longrightarrow> d \<in> set ps \<Longrightarrow> d = c \<or> start_ms d \<le> end_ms d"
  by (auto simp: split_cue_def Let_def dest: split_words_forward split_chars_forward split: if_splits)

lemma split_cue_returns: "0 < m \<Longrightarrow> \<exists>ps. split_cue m c = Some ps"
  by (simp add: split_cue_def Let_def)

lemma split_long_cues_spec:
  "split_long_cues m cs = Some ps \<Longrightarrow>
    visible_text ps = visible_text cs \<and> (\<forall>d \<in> set ps. d \<in> set cs \<or> start_ms d \<le> end_ms d)"
  by (induction cs arbitrary: ps)
    (auto split: option.splits simp: split_cue_visible dest: split_cue_forward)

lemma split_long_cues_returns: "m \<noteq> 0 \<Longrightarrow> \<exists>ps. split_long_cues m cs = Some ps"
proof (induction cs)
  case (Cons c cs)
  moreover have "0 < unat m" using Cons.prems by (simp add: unat_gt_0)
  ultimately show ?case using split_cue_returns [of "unat m" c] by auto
qed simp

text \<open>Merging.\<close>

lemma merge_visible: "visible (merge_text l a b) = visible (cue_text a) @ visible (cue_text b)"
  by (simp add: merge_text_def merge_sep_def visible_def)

lemma merge_from_visible: "visible_text (merge_from l c cs) = visible_text (c # cs)"
  by (induction l c cs rule: merge_from.induct) (simp_all add: merge_visible)

lemma merge_from_starts:
  "subseq (map start_ms (merge_from l c cs)) (map start_ms (c # cs))
    \<and> merge_from l c cs \<noteq> [] \<and> start_ms (hd (merge_from l c cs)) = start_ms c
    \<and> end_ms (last (merge_from l c cs)) = end_ms (last (c # cs))"
proof (induction l c cs rule: merge_from.induct)
  case (2 l cur nxt rest)
  show ?case
  proof (cases "too_fast l cur \<and> merge_fits l cur nxt")
    case True
    let ?m = "cur\<lparr>end_ms := end_ms nxt, cue_text := merge_text l cur nxt\<rparr>"
    have IH: "subseq (map start_ms (merge_from l ?m rest)) (start_ms cur # map start_ms rest)"
      "merge_from l ?m rest \<noteq> []" "start_ms (hd (merge_from l ?m rest)) = start_ms cur"
      "end_ms (last (merge_from l ?m rest)) = end_ms (last (?m # rest))"
      using 2(1) [OF True] by simp_all
    have "subseq (start_ms cur # map start_ms rest) (start_ms cur # start_ms nxt # map start_ms rest)"
      by (auto intro: list_emb_Cons)
    with IH(1) have "subseq (map start_ms (merge_from l ?m rest)) (start_ms cur # start_ms nxt # map start_ms rest)"
      by (rule subseq_order.trans)
    with IH True show ?thesis by (simp split: if_splits)
  qed (use 2(2) in auto)
qed simp

text \<open>What merging builds stays readable: within the character cap, two lines at most.\<close>

definition readable :: "merge_limits \<Rightarrow> cue \<Rightarrow> bool" where
  "readable l c \<longleftrightarrow> length (cue_text c) \<le> max_chars l \<and> count_nl (cue_text c) \<le> 1"

lemma merge_fits_readable: "merge_fits l a b \<Longrightarrow> readable l (a\<lparr>end_ms := e, cue_text := merge_text l a b\<rparr>)"
  by (auto simp: readable_def merge_fits_def Let_def merge_text_def merge_sep_def count_nl_def)

lemma merge_from_readable:
  "d \<in> set (merge_from l c cs) \<Longrightarrow> d \<in> set (c # cs) \<or> readable l d"
proof (induction l c cs rule: merge_from.induct)
  case (2 l cur nxt rest)
  then show ?case
    by (cases "too_fast l cur \<and> merge_fits l cur nxt") (auto dest: merge_fits_readable)
qed simp

section \<open>What the gate accepts\<close>

definition cue_sane :: "u32 \<Rightarrow> cue \<Rightarrow> bool" where
  "cue_sane m c \<longleftrightarrow> trim (cue_text c) \<noteq> [] \<and> start_ms c \<le> end_ms c \<and> end_ms c - start_ms c \<le> m"

definition follows :: "cue \<Rightarrow> cue \<Rightarrow> bool" where
  "follows a b \<longleftrightarrow> start_ms a \<le> start_ms b \<and> end_ms a \<le> start_ms b"

fun no_triple :: "u32 list \<Rightarrow> bool" where
  "no_triple (a # b # c # r) \<longleftrightarrow> \<not> (a = b \<and> b = c) \<and> no_triple (b # c # r)"
| "no_triple _ = True"

lemma own_violations_Nil: "own_violations m i c = [] \<longleftrightarrow> cue_sane m c"
  by (auto simp: own_violations_def cue_sane_def)

lemma pair_violations_Nil: "pair_violations i a b = [] \<longleftrightarrow> follows a b"
  by (auto simp: pair_violations_def follows_def)

lemma timeline_scan_violations:
  "fst (timeline_scan m i prev cs st) = []
     \<longleftrightarrow> (\<forall>c \<in> set cs. cue_sane m c) \<and> successively follows (prev # cs)"
  by (induction m i prev cs st rule: timeline_scan.induct)
    (auto simp: own_violations_Nil pair_violations_Nil split: prod.splits)

lemma timeline_step_worst: "worst_pileup st \<le> worst_pileup (timeline_step p c st)"
  by (simp add: timeline_step_def Let_def)

lemma timeline_scan_worst: "worst_pileup st \<le> worst_pileup (snd (timeline_scan m i prev cs st))"
proof (induction m i prev cs st rule: timeline_scan.induct)
  case (2 m i prev c cs st)
  then show ?case
    using timeline_step_worst [of st prev c] by (auto split: prod.splits)
qed simp

lemma timeline_scan_pileup:
  assumes "pileup st = 1 \<and> pre = [] \<or> pileup st = 2 \<and> pre = [start_ms prev]" and "worst_pileup st \<le> 2"
  shows "worst_pileup (snd (timeline_scan m i prev cs st)) \<le> 2 \<longleftrightarrow> no_triple (pre @ start_ms prev # map start_ms cs)"
  using assms
proof (induction cs arbitrary: st prev pre i)
  case (Cons c cs)
  let ?st = "timeline_step prev c st"
  have snd_eq: "snd (timeline_scan m i prev (c # cs) st) = snd (timeline_scan m (i + 1) c cs ?st)"
    by (simp split: prod.splits)
  show ?case
  proof (cases "start_ms c = start_ms prev")
    case False
    have "pileup ?st = 1" "worst_pileup ?st \<le> 2"
      using False Cons.prems by (simp_all add: timeline_step_def Let_def)
    with Cons.IH [of ?st "[]" c "i + 1"] Cons.prems False snd_eq show ?thesis
      by (cases "map start_ms cs") auto
  next
    case True
    show ?thesis
    proof (cases "pre = []")
      case True
      with Cons.prems \<open>start_ms c = start_ms prev\<close> have "pileup ?st = 2" "worst_pileup ?st \<le> 2"
        by (simp_all add: timeline_step_def Let_def)
      with Cons.IH [of ?st "[start_ms c]" c "i + 1"] snd_eq True \<open>start_ms c = start_ms prev\<close>
      show ?thesis by simp
    next
      case False
      with Cons.prems \<open>start_ms c = start_ms prev\<close> have "3 \<le> worst_pileup ?st"
        by (simp add: timeline_step_def Let_def)
      also have "\<dots> \<le> worst_pileup (snd (timeline_scan m (i + 1) c cs ?st))"
        by (rule timeline_scan_worst)
      finally have "\<not> worst_pileup (snd (timeline_scan m (i + 1) c cs ?st)) \<le> 2"
        by (simp add: word_le_nat_alt)
      with snd_eq Cons.prems False \<open>start_ms c = start_ms prev\<close> show ?thesis by auto
    qed
  qed
qed auto

section \<open>Properties\<close>

text \<open>A timestamp survives formatting and parsing, for every \<open>u32\<close> value.\<close>

theorem parse_ts_fmt_ts: "parse_ts (fmt_ts ms) = Some ms"
  by simp

text \<open>C25: a written file reads back as what was written: every cue whose text is one line,
  not blank and without outer whitespace comes back with its times and text, in order, after
  the provenance cue when that was asked for; stripping the marker then leaves the cues.\<close>

theorem parse_write_srt:
  assumes "\<forall>c \<in> set cues. writable c"
  shows "parse_srt (write_srt cues marker ms)
      = (if marker then [Cue_new 0 (marker_end cues ms) AI_MARKER] else []) @ cues
    \<and> ((\<forall>c \<in> set cues. \<not> has_ai_marker_text (cue_text c))
         \<longrightarrow> strip_marker (parse_srt (write_srt cues marker ms)) = cues)"
proof -
  have "parse_srt (write_srt cues marker ms)
      = (if marker then [Cue_new 0 (marker_end cues ms) AI_MARKER] else []) @ cues"
    using assms
    by (simp add: write_srt_def parse_srt_entry parse_srt_entries srt_entries_no_crlf marker_writable)
  then show ?thesis
    by (auto simp: strip_marker_def Cue_new_def marker_recognised filter_id_conv)
qed

theorem parse_write_srt_witness:
  "parse_srt (write_srt [Cue_new 500 2500 (lit ''hello there''), Cue_new 3000 4000 (lit ''bye'')] True 1500)
     = [Cue_new 0 499 AI_MARKER, Cue_new 500 2500 (lit ''hello there''), Cue_new 3000 4000 (lit ''bye'')]"
proof -
  let ?cs = "[Cue_new 500 2500 (lit ''hello there''), Cue_new 3000 4000 (lit ''bye'')]"
  have "\<forall>c \<in> set ?cs. writable c"
    by (simp add: writable_def Cue_new_def trimmed_def lit_eval is_ws_def)
  moreover have "marker_end ?cs 1500 = 499"
    by (simp add: marker_end_def Cue_new_def sat_sub_def)
  ultimately show ?thesis using parse_write_srt [of ?cs True 1500] by simp
qed

text \<open>\<open>ensure_contiguous\<close> leaves a timeline without overlaps whose starts do not decrease,
  keeps the texts (in the stable start order), and only ever moves times forward.\<close>

theorem ensure_contiguous_ok:
  "contiguous (ensure_contiguous cs)
   \<and> map cue_text (ensure_contiguous cs) = map cue_text (sort_key start_ms cs)
   \<and> list_all2 (\<lambda>c c'. start_ms c \<le> start_ms c' \<and> end_ms c \<le> end_ms c')
       (sort_key start_ms cs) (ensure_contiguous cs)"
  using ensure_contiguous_contiguous [of cs]
  by (simp add: ensure_contiguous_def clamp_all_texts clamp_all_starts)

text \<open>The timeline gate, without a video duration, accepts exactly the files with at least
  one dialogue cue in which every cue has text, runs forward and within the length cap, no cue
  starts before its predecessor's start or end, and no three cues share one start.\<close>

theorem validate_timeline_iff:
  "validate_timeline cues m None = [] \<longleftrightarrow>
     timeline_body cues \<noteq> [] \<and> list_all (cue_sane m) (timeline_body cues)
     \<and> successively follows (timeline_body cues) \<and> no_triple (map start_ms (timeline_body cues))"
proof (cases "timeline_body cues")
  case Nil
  then show ?thesis by (simp add: validate_timeline_def)
next
  case (Cons c cs)
  let ?st = "\<lparr>pileup = 1, worst_pileup = 1, worst_gap_ms = 0\<rparr>"
  let ?r = "timeline_scan m 1 c cs ?st"
  have 1: "fst ?r = [] \<longleftrightarrow> (\<forall>d \<in> set cs. cue_sane m d) \<and> successively follows (c # cs)"
    by (rule timeline_scan_violations)
  have 2: "\<not> MAX_PILEUP < worst_pileup (snd ?r) \<longleftrightarrow> no_triple (map start_ms (c # cs))"
    using timeline_scan_pileup [of ?st "[]" c m 1 cs] by (simp add: MAX_PILEUP_def not_less)
  have "validate_timeline cues m None = [] \<longleftrightarrow>
      own_violations m 0 c = [] \<and> fst ?r = [] \<and> \<not> MAX_PILEUP < worst_pileup (snd ?r)"
    by (auto simp: validate_timeline_def Cons split_def Let_def)
  then show ?thesis
    unfolding 1 2 own_violations_Nil Cons list_all_iff by auto
qed

text \<open>The reading-speed merge loses no visible character and reorders none; its cues start
  where source cues start, cover the same time from first start to last end, and every cue it
  builds has at most two lines and \<open>max_chars\<close> characters.\<close>

theorem cps_merge_preserves:
  "visible_text (cps_merge l cs) = visible_text cs
   \<and> subseq (map start_ms (cps_merge l cs)) (map start_ms cs)
   \<and> (cs = [] \<or> end_ms (last (cps_merge l cs)) = end_ms (last cs))
   \<and> set (cps_merge l cs) \<subseteq> set cs \<union> {c. readable l c}"
proof (cases cs)
  case (Cons c r)
  have "set (merge_from l c r) \<subseteq> set (c # r) \<union> {c. readable l c}"
    using merge_from_readable by blast
  then show ?thesis
    using merge_from_starts [of l c r] by (simp add: Cons merge_from_visible)
qed simp

text \<open>Splitting long cues returns for every positive cap, loses no visible character, and
  every piece it makes ends at or after its start.\<close>

theorem split_long_cues_preserves:
  assumes "m \<noteq> 0"
  shows "\<exists>ps. split_long_cues m cs = Some ps \<and> visible_text ps = visible_text cs
    \<and> set ps \<subseteq> set cs \<union> {d. start_ms d \<le> end_ms d}"
  using split_long_cues_returns [OF assms, of cs] split_long_cues_spec [of m cs] by blast

theorem split_long_cues_preserves_witness:
  "\<exists>ps. split_long_cues 6000 [Cue_new 0 9000 (lit ''a b'')] = Some ps
     \<and> visible_text ps = lit ''ab''"
  using split_long_cues_preserves [of 6000 "[Cue_new 0 9000 (lit ''a b'')]"]
  by (auto simp: Cue_new_def visible_def lit_eval is_ws_def)

text \<open>The cap of \<open>split_long_cues\<close> is a trigger, not a bound: packing stops at the first
  word that reaches it, so a piece can be half as long again as the cap.\<close>

theorem split_long_cues_overshoots:
  "split_long_cues 1000 [Cue_new 0 3000 (lit ''a b c d'')]
     = Some [Cue_new 0 1500 (lit ''a b''), Cue_new 1500 3000 (lit ''c d'')]"
proof -
  have ws: "split_ws (lit ''a b c d'') = [lit ''a'', lit ''b'', lit ''c'', lit ''d'']"
    by (simp add: lit_eval split_ws.simps trim_start_def is_ws_def)
  have f: "f64_div 3000 4 = 750" "f64_mul 1 750 = 750" "f64_mul 2 750 = 1500"
    by code_simp+
  have u: "f64_to_u32 750 = 750" "f64_to_u32 1500 = 1500"
    by (simp_all add: f64_to_u32_def)
  show ?thesis
    by (simp add: split_cue_def Cue_new_def sat_sub_def ws Let_def f u) (simp add: lit_eval)
qed

text \<open>The contiguity pass never repairs the first cue, and the gate then measures its
  duration with a \<open>u32\<close> subtraction: a first cue that ends a second before it starts passes the
  pass unchanged and is reported, in a build without overflow checks, with a duration of almost
  fifty days (with checks, the subtraction panics).\<close>

theorem backward_first_cue:
  "ensure_contiguous [Cue_new 5000 4000 (lit ''x'')] = [Cue_new 5000 4000 (lit ''x'')]
   \<and> validate_timeline [Cue_new 5000 4000 (lit ''x'')] 7000 None
       = [lit ''cue 0: end before start'', lit ''cue 0: duration 4294966296ms > 7000ms'']"
proof
  have d: "dec 0 = lit ''0''" "dec 4294966296 = lit ''4294966296''" "dec 7000 = lit ''7000''"
    by (simp_all add: dec.simps lit_eval)
  show "validate_timeline [Cue_new 5000 4000 (lit ''x'')] 7000 None
       = [lit ''cue 0: end before start'', lit ''cue 0: duration 4294966296ms > 7000ms'']"
    by (simp add: validate_timeline_def timeline_body_def has_ai_marker_text_def contains_def
        own_violations_def Cue_new_def MAX_PILEUP_def cue_msg_def trim_def trim_start_def trim_end_def
        starts_with_def is_ws_def d lit_eval)
qed (simp add: ensure_contiguous_def)

end
