(* ===== verification/Text.thy ===== *)
theory Text
  imports Prelude
begin

text \<open>
  \<open>src/discord_unicode.rs\<close> and \<open>src/discord_text.rs\<close>: the character policy tables and the
  sanitiser that turns a title into text that is safe to show in a chat message. NFC and the
  letter and number classes come from Unicode tables outside the repository: they are the
  fields of \<open>unicode_db\<close>.
\<close>

record unicode_db =
  nfc :: "ustr \<Rightarrow> ustr"
  is_alphabetic :: "uchar \<Rightarrow> bool"
  is_numeric :: "uchar \<Rightarrow> bool"

section \<open>Character policy\<close>

definition in_ranges :: "(uchar \<times> uchar) list \<Rightarrow> uchar \<Rightarrow> bool" where
  "in_ranges rs c \<longleftrightarrow> list_ex (\<lambda>(a, b). a \<le> c \<and> c \<le> b) rs"

definition default_ignorable_ranges :: "(uchar \<times> uchar) list" where
  "default_ignorable_ranges = [
    (0x00ad, 0x00ad), (0x034f, 0x034f), (0x061c, 0x061c), (0x115f, 0x1160), (0x17b4, 0x17b5),
    (0x180b, 0x180f), (0x200b, 0x200f), (0x202a, 0x202e), (0x2060, 0x2064), (0x2066, 0x206f),
    (0x3164, 0x3164), (0xfe00, 0xfe0f), (0xfeff, 0xfeff), (0xffa0, 0xffa0), (0xfff0, 0xfff8),
    (0x1bca0, 0x1bca3), (0x1d173, 0x1d17a), (0xe0000, 0xe0fff)]"

definition bidi_control_ranges :: "(uchar \<times> uchar) list" where
  "bidi_control_ranges = [
    (0x061c, 0x061c), (0x200e, 0x200f), (0x202a, 0x202e), (0x2066, 0x2069)]"

definition mark_ranges_low :: "(uchar \<times> uchar) list" where
  "mark_ranges_low = [
    (0x0300, 0x036f), (0x0483, 0x0489), (0x0591, 0x05bd), (0x05bf, 0x05bf), (0x05c1, 0x05c2),
    (0x05c4, 0x05c5), (0x0610, 0x061a), (0x064b, 0x065f), (0x0670, 0x0670), (0x06d6, 0x06dc),
    (0x06df, 0x06e4), (0x06e7, 0x06e8), (0x06ea, 0x06ed), (0x0711, 0x0711), (0x0730, 0x074a),
    (0x07a6, 0x07b0), (0x07eb, 0x07f3), (0x0816, 0x0819), (0x081b, 0x0823), (0x0825, 0x0827),
    (0x0829, 0x082d), (0x0859, 0x085b), (0x08d3, 0x0903), (0x093a, 0x093c), (0x093e, 0x094f),
    (0x0951, 0x0957), (0x0962, 0x0963), (0x0981, 0x0984), (0x09bc, 0x09bc), (0x09be, 0x09cd),
    (0x0a01, 0x0a03), (0x0a3c, 0x0a3c), (0x0a3e, 0x0a4d), (0x0a51, 0x0a51), (0x0a70, 0x0a71),
    (0x0a75, 0x0a75), (0x0abc, 0x0abc), (0x0abe, 0x0ac5), (0x0ac7, 0x0acd), (0x0b01, 0x0b03),
    (0x0b3c, 0x0b3c), (0x0b3e, 0x0b4d), (0x0b55, 0x0b57), (0x0b82, 0x0b84), (0x0bbe, 0x0bcd),
    (0x0c00, 0x0c04), (0x0c3e, 0x0c56), (0x0c81, 0x0c84), (0x0cbc, 0x0cbc), (0x0cbe, 0x0ccd),
    (0x0d00, 0x0d03), (0x0d3b, 0x0d4d), (0x0d57, 0x0d57), (0x0d81, 0x0d84), (0x0dca, 0x0dca),
    (0x0dcf, 0x0ddf), (0x0e31, 0x0e31), (0x0e34, 0x0e4e), (0x0eb1, 0x0eb1), (0x0eb4, 0x0ebc),
    (0x0ec8, 0x0ecd), (0x0f18, 0x0f19), (0x0f35, 0x0f35), (0x0f37, 0x0f37), (0x0f39, 0x0f39),
    (0x0f71, 0x0f84), (0x0f86, 0x0f87), (0x0f8d, 0x0f97), (0x0f99, 0x0fbc), (0x0fc6, 0x0fc6),
    (0x102d, 0x103e), (0x1056, 0x1059), (0x105e, 0x1060), (0x1062, 0x1064), (0x1067, 0x106d),
    (0x1071, 0x1074), (0x1082, 0x1084), (0x1087, 0x108d), (0x108f, 0x108f), (0x109a, 0x109d),
    (0x135d, 0x1360), (0x1712, 0x1714), (0x1732, 0x1734), (0x1752, 0x1753), (0x1772, 0x1773),
    (0x17b4, 0x17d3), (0x180b, 0x180d), (0x1885, 0x1886), (0x18a9, 0x18a9), (0x1920, 0x193b),
    (0x1a17, 0x1a1b), (0x1a55, 0x1a5e), (0x1a60, 0x1a60), (0x1a62, 0x1a6e), (0x1a75, 0x1a7f),
    (0x1ab0, 0x1abe), (0x1b00, 0x1b04), (0x1b34, 0x1b34), (0x1b36, 0x1b44), (0x1b6b, 0x1b73),
    (0x1b80, 0x1b83), (0x1ba1, 0x1bad), (0x1be6, 0x1be6), (0x1be8, 0x1bf3), (0x1c24, 0x1c37),
    (0x1cd0, 0x1cf9), (0x1dc0, 0x1dff), (0x20d0, 0x20f0), (0x2cef, 0x2cf1), (0x2d7f, 0x2d7f),
    (0x2de0, 0x2dff), (0x302a, 0x302f), (0x3099, 0x309a), (0xa66f, 0xa672), (0xa674, 0xa67d),
    (0xa69e, 0xa69f), (0xa6f0, 0xa6f1), (0xa802, 0xa802), (0xa806, 0xa806), (0xa80b, 0xa80b),
    (0xa823, 0xa827), (0xa880, 0xa881), (0xa8b4, 0xa8c5), (0xa8e0, 0xa8f1), (0xa8ff, 0xa8ff),
    (0xa926, 0xa92f), (0xa947, 0xa953), (0xa980, 0xa983), (0xa9b3, 0xa9b3), (0xa9b6, 0xa9b9),
    (0xa9bc, 0xa9bc), (0xa9be, 0xa9cd), (0xa9e5, 0xa9e5), (0xaa29, 0xaa36), (0xaa43, 0xaa43),
    (0xaa4c, 0xaa4d), (0xaa7b, 0xaa7d), (0xaab0, 0xaab0), (0xaab2, 0xaab4), (0xaab7, 0xaab8)]"

definition mark_ranges_high :: "(uchar \<times> uchar) list" where
  "mark_ranges_high = [
    (0xaabe, 0xaabf), (0xaac1, 0xaac1), (0xaaec, 0xaaf1), (0xaaf5, 0xaaf5), (0xabe3, 0xabed),
    (0xfb1e, 0xfb1e), (0xfe20, 0xfe2f), (0x101fd, 0x101fd), (0x102e0, 0x102e0), (0x10376, 0x1037a),
    (0x10a01, 0x10a0f), (0x10a38, 0x10a3f), (0x10ae5, 0x10ae5), (0x10d24, 0x10d24), (0x10eab, 0x10eac),
    (0x10f46, 0x10f50), (0x11001, 0x11001), (0x11038, 0x11046), (0x11070, 0x11074), (0x1107f, 0x1107f),
    (0x11080, 0x11082), (0x110b0, 0x110ba), (0x11100, 0x11103), (0x11127, 0x11134), (0x11145, 0x11146),
    (0x11173, 0x11173), (0x11180, 0x11182), (0x111b3, 0x111c0), (0x111c9, 0x111c9), (0x111cb, 0x111cb),
    (0x1122c, 0x11237), (0x1123e, 0x1123e), (0x112df, 0x112df), (0x112e3, 0x112ea), (0x11300, 0x11303),
    (0x1133b, 0x1134f), (0x11357, 0x11357), (0x11362, 0x1136c), (0x11370, 0x11374), (0x11435, 0x11446),
    (0x1145e, 0x1145e), (0x114b0, 0x114c3), (0x114c6, 0x114c6), (0x114c8, 0x114cf), (0x114da, 0x114da),
    (0x115af, 0x115be), (0x115dc, 0x115dd), (0x11630, 0x11644), (0x116ab, 0x116ab), (0x116ad, 0x116ad),
    (0x116b0, 0x116b6), (0x116b8, 0x116b8), (0x1171d, 0x1172b), (0x11740, 0x11740), (0x11747, 0x11747),
    (0x1182c, 0x1183b), (0x1183f, 0x1183f), (0x11930, 0x1193f), (0x11941, 0x11941), (0x11943, 0x11946),
    (0x119d1, 0x119df), (0x119e3, 0x119e3), (0x119e5, 0x119e5), (0x119e7, 0x119e8), (0x119ea, 0x119ef),
    (0x119f1, 0x119f2), (0x119f4, 0x119f4), (0x11a01, 0x11a0a), (0x11a33, 0x11a3e), (0x11a47, 0x11a47),
    (0x11a51, 0x11a5b), (0x11a8a, 0x11a96), (0x11a98, 0x11a9f), (0x11c30, 0x11c3f), (0x11c41, 0x11c4a),
    (0x11d31, 0x11d46), (0x11d47, 0x11d47), (0x11d90, 0x11d96), (0x11ef3, 0x11ef6), (0x11f00, 0x11f03),
    (0x11f11, 0x11f11), (0x11f34, 0x11f3f), (0x13447, 0x13447), (0x16af0, 0x16af4), (0x16b30, 0x16b3f),
    (0x16f4f, 0x16f4f), (0x16f51, 0x16f87), (0x16f8f, 0x16f92), (0x16fe4, 0x16fe4), (0x1bc9d, 0x1bc9e),
    (0x1cf00, 0x1cf2d), (0x1d165, 0x1d169), (0x1d16d, 0x1d172), (0x1d17b, 0x1d182), (0x1d185, 0x1d18b),
    (0x1d1aa, 0x1d1ad), (0x1d242, 0x1d244), (0x1da00, 0x1da36), (0x1da3b, 0x1da6c), (0x1da75, 0x1da75),
    (0x1da84, 0x1da84), (0x1da9b, 0x1daa0), (0x1daa2, 0x1dab0), (0x1e000, 0x1e02a), (0x1e08f, 0x1e08f),
    (0x1e130, 0x1e136), (0x1e2ec, 0x1e2ef), (0x1e4ec, 0x1e4ef), (0x1e5ee, 0x1e5ef), (0x1e8d0, 0x1e8d6),
    (0x1e944, 0x1e94a), (0xe0100, 0xe01ef)]"

definition mark_ranges :: "(uchar \<times> uchar) list" where
  "mark_ranges = mark_ranges_low @ mark_ranges_high"

definition is_default_ignorable :: "uchar \<Rightarrow> bool" where
  "is_default_ignorable c \<longleftrightarrow> in_ranges default_ignorable_ranges c"

definition is_bidi_control :: "uchar \<Rightarrow> bool" where
  "is_bidi_control c \<longleftrightarrow> in_ranges bidi_control_ranges c"

definition is_line_separator :: "uchar \<Rightarrow> bool" where
  "is_line_separator c \<longleftrightarrow> c = 0x2028 \<or> c = 0x2029"

definition is_mark :: "uchar \<Rightarrow> bool" where
  "is_mark c \<longleftrightarrow> in_ranges mark_ranges c"

section \<open>The sanitiser\<close>

definition MAX_SAFE_TITLE_SCALARS :: nat where
  "MAX_SAFE_TITLE_SCALARS = 512"

datatype TextError = TooLong | InvalidScalar | Normalization

text \<open>Characters dropped_char without a trace.\<close>

definition dropped_char :: "uchar \<Rightarrow> bool" where
  "dropped_char n \<longleftrightarrow> n \<le> 0x1f \<or> (0x7f \<le> n \<and> n \<le> 0x9f) \<or> is_bidi_control n \<or> is_line_separator n
     \<or> is_default_ignorable n"

definition kept_punctuation :: "uchar \<Rightarrow> bool" where
  "kept_punctuation c \<longleftrightarrow> c \<in> set (lit ''!&'' @ [39] @ lit ''()+,-.:?[]_'')"

definition kept_char :: "unicode_db \<Rightarrow> uchar \<Rightarrow> bool" where
  "kept_char U c \<longleftrightarrow> is_alphabetic U c \<or> is_mark c \<or> is_numeric U c \<or> kept_punctuation c"

text \<open>The character loop; the state is the pending separator and the text so far.\<close>

fun sanitize_loop :: "unicode_db \<Rightarrow> bool \<Rightarrow> ustr \<Rightarrow> ustr \<Rightarrow> TextError + ustr" where
  "sanitize_loop U pending_space plain [] = Inr plain"
| "sanitize_loop U pending_space plain (c # cs) =
     (if 0x10ffff < c then Inl InvalidScalar
      else if is_ws c then sanitize_loop U True plain cs
      else if dropped_char c then sanitize_loop U pending_space plain cs
      else
        (let plain1 = (if pending_space \<and> plain \<noteq> [] then plain @ [sp] else plain)
         in if kept_char U c then sanitize_loop U False (plain1 @ [c]) cs
            else sanitize_loop U True plain1 cs))"

definition drop_final_spaces :: "ustr \<Rightarrow> ustr" where
  "drop_final_spaces s = rev (dropWhile (\<lambda>c. c = sp) (rev s))"

definition markdown_char :: "uchar \<Rightarrow> bool" where
  "markdown_char c \<longleftrightarrow> c \<in> set [92, 96, 42, 95, 126, 124, 62, 91, 93, 40, 41, 35]"

definition escape_char :: "uchar \<Rightarrow> ustr" where
  "escape_char c = (if markdown_char c then [92, c] else [c])"

definition escape :: "ustr \<Rightarrow> ustr" where
  "escape s = concat (map escape_char s)"

definition sanitize :: "unicode_db \<Rightarrow> ustr \<Rightarrow> TextError + ustr" where
  "sanitize U raw =
     (let normalized = nfc U raw in
      if MAX_SAFE_TITLE_SCALARS < length normalized then Inl TooLong
      else case sanitize_loop U False [] normalized of
          Inl e \<Rightarrow> Inl e
        | Inr plain \<Rightarrow> Inr (escape (drop_final_spaces plain)))"

definition scalar_len :: "ustr \<Rightarrow> nat" where
  "scalar_len s = length s"

section \<open>What the sanitiser lets through\<close>

definition shown_char :: "unicode_db \<Rightarrow> uchar \<Rightarrow> bool" where
  "shown_char U c \<longleftrightarrow> c = sp \<or> (c \<le> 0x10ffff \<and> kept_char U c \<and> \<not> dropped_char c \<and> \<not> is_ws c)"

lemma sanitize_loop_shown:
  "sanitize_loop U p plain cs = Inr out \<Longrightarrow> \<forall>c \<in> set plain. shown_char U c \<Longrightarrow> \<forall>c \<in> set out. shown_char U c"
proof (induction U p plain cs rule: sanitize_loop.induct)
  case (2 U p plain c cs)
  have ext: "\<forall>d \<in> set (if p \<and> plain \<noteq> [] then plain @ [sp] else plain). shown_char U d"
    using 2 by (auto simp: shown_char_def)
  from 2 ext show ?case
    by (auto simp: Let_def shown_char_def split: if_splits)
qed simp

lemma sanitize_loop_length:
  "sanitize_loop U p plain cs = Inr out \<Longrightarrow> length out \<le> length plain + 2 * length cs"
  by (induction U p plain cs arbitrary: out rule: sanitize_loop.induct)
    (force simp: Let_def split: if_splits)+

lemma drop_final_subset: "set (drop_final_spaces s) \<subseteq> set s"
  unfolding drop_final_spaces_def by (metis set_dropWhileD set_rev subsetI)

lemma drop_final_length: "length (drop_final_spaces s) \<le> length s"
  unfolding drop_final_spaces_def by (metis length_dropWhile_le length_rev)

lemma escape_length: "length (escape s) \<le> 2 * length s"
  by (induction s) (auto simp: escape_def escape_char_def)

text \<open>Every markdown character of an escaped text stands behind a backslash.\<close>

fun well_escaped :: "ustr \<Rightarrow> bool" where
  "well_escaped [] = True"
| "well_escaped (c # cs) =
     (if c = 92 then (case cs of [] \<Rightarrow> False | d # ds \<Rightarrow> markdown_char d \<and> well_escaped ds)
      else \<not> markdown_char c \<and> well_escaped cs)"

lemma escape_well_escaped: "well_escaped (escape s)"
proof (induction s)
  case (Cons c s)
  have "c = 92 \<Longrightarrow> markdown_char c" by (simp add: markdown_char_def)
  with Cons show ?case by (auto simp: escape_def escape_char_def)
qed (simp add: escape_def)

lemma escape_plain: "\<forall>c \<in> set s. \<not> markdown_char c \<Longrightarrow> escape s = s"
  by (induction s) (simp_all add: escape_def escape_char_def)

lemma sanitize_Inr:
  assumes "sanitize U raw = Inr t"
  obtains plain where "t = escape plain" "\<forall>c \<in> set plain. shown_char U c" "length plain \<le> 1024"
proof -
  from assms obtain out where out: "sanitize_loop U False [] (nfc U raw) = Inr out"
    "t = escape (drop_final_spaces out)" "length (nfc U raw) \<le> 512"
    by (auto simp: sanitize_def Let_def MAX_SAFE_TITLE_SCALARS_def split: if_splits sum.splits)
  have "\<forall>c \<in> set out. shown_char U c" using sanitize_loop_shown [OF out(1)] by simp
  moreover have "length out \<le> 1024" using sanitize_loop_length [OF out(1)] out(3) by simp
  ultimately show thesis
    using that [of "drop_final_spaces out"] out(2) drop_final_subset [of out] drop_final_length [of out]
    by auto
qed

section \<open>Properties\<close>

text \<open>A sanitised title cannot break out of the message: it has at most 2048 scalars, every
  markdown character in it is escaped, and each of its characters is an escape, a plain space,
  or a letter, mark, number or listed punctuation sign that is neither a control, a bidirectional
  override, a line separator nor invisible.\<close>

theorem sanitize_safe:
  assumes "sanitize U raw = Inr t"
  shows "length t \<le> 2048 \<and> well_escaped t \<and> set t \<subseteq> {92} \<union> {c. shown_char U c}"
proof -
  from assms obtain plain where p: "t = escape plain" "\<forall>c \<in> set plain. shown_char U c" "length plain \<le> 1024"
    by (rule sanitize_Inr)
  have "set (escape plain) \<subseteq> {92} \<union> set plain"
    by (auto simp: escape_def escape_char_def split: if_splits)
  with p show ?thesis using escape_length [of plain] by (auto simp: escape_well_escaped)
qed

text \<open>A database for examples: ASCII letters and digits, texts already normal.\<close>

definition ascii_db :: unicode_db where
  "ascii_db = \<lparr>nfc = (\<lambda>s. s), is_alphabetic = is_ascii_alpha, is_numeric = is_ascii_digit\<rparr>"

lemmas sanitize_eval = sanitize_def MAX_SAFE_TITLE_SCALARS_def ascii_db_def Let_def is_ws_def
  dropped_char_def is_bidi_control_def is_line_separator_def is_default_ignorable_def in_ranges_def
  bidi_control_ranges_def default_ignorable_ranges_def kept_char_def kept_punctuation_def is_mark_def
  mark_ranges_def mark_ranges_low_def mark_ranges_high_def ascii_class_defs drop_final_spaces_def escape_def escape_char_def markdown_char_def

lemma sanitize_show_2020: "sanitize ascii_db (lit ''Show (2)'') = Inr (lit ''Show '' @ [92] @ lit ''(2'' @ [92] @ lit '')'')"
  by (simp add: lit_eval sanitize_eval)

theorem sanitize_safe_witness:
  "well_escaped (lit ''Show '' @ [92] @ lit ''(2'' @ [92] @ lit '')'')"
  using sanitize_safe [OF sanitize_show_2020] by simp

text \<open>Sanitising is not idempotent on escaped titles: a title with a bracket is escaped,
  and sanitising the escaped text again drops the backslash, leaves a space and escapes anew.\<close>

theorem sanitize_not_idempotent:
  "sanitize ascii_db (lit ''A(B'') = Inr (lit ''A'' @ [92] @ lit ''(B'')
   \<and> sanitize ascii_db (lit ''A'' @ [92] @ lit ''(B'') = Inr (lit ''A '' @ [92] @ lit ''(B'')"
  by (simp add: lit_eval sanitize_eval)

end
