(* ===== verification/Report.thy ===== *)
theory Report
  imports "HOL-Library.Product_Lexorder" "HOL-Library.List_Lexorder" "HOL-Library.Option_ord"
    "HOL-Library.Sublist" "HOL-Library.Multiset" Text Json
begin

text \<open>
  \<open>src/discord_types.rs\<close> and \<open>src/discord_state_codec.rs\<close>: the typed report of one episode run,
  its canonical byte encoding, and the bounded collections built from it. SHA-256 is the
  parameter \<open>sha\<close> and the JSON reader of \<open>decode_report\<close> the parameter \<open>from_slice\<close>.
  Constructors return \<open>error + value\<close> as the code returns \<open>Result\<close>.
\<close>

section \<open>Data\<close>

definition MAX_TARGETS_PER_REPORT :: nat where "MAX_TARGETS_PER_REPORT = 32"
definition MAX_PASS_REPORTS :: nat where "MAX_PASS_REPORTS = 128"
definition MAX_PASS_REPORT_BYTES :: nat where "MAX_PASS_REPORT_BYTES = 2 * 1024 * 1024"
definition MAX_REPORT_BYTES :: nat where "MAX_REPORT_BYTES = 16 * 1024"
definition MAX_GENERATION_MODELS :: nat where "MAX_GENERATION_MODELS = 3"
definition MAX_GENERATION_MODEL_SCALARS :: nat where "MAX_GENERATION_MODEL_SCALARS = 48"
definition MAX_GENERATION_METHOD_SCALARS :: nat where "MAX_GENERATION_METHOD_SCALARS = 112"

datatype EpisodeKind = Series | Movie
datatype ItemFailure = ISource | IStorage | IUnknown
datatype MissingLanguage = ReportedButUnusable
datatype NoTargetCase = Paused | NoConfiguredTargets | NoMissingTargets | AllTargetsAlreadyPresent
datatype WarningClass = WUpload | WUnknown
datatype FailureClass = FSource | FTranscription | FTranslation | FStorage | FUnknown
datatype TargetStatus =
    Completed "WarningClass option"
  | Failed FailureClass
  | Missing MissingLanguage
datatype AggregateDisposition = AComplete | ACompleteWithWarning | APartial | AFailed
datatype GenerationSource = ExistingSubtitle | Sidecar | Jimaku | Whisper
datatype ReportConstructionError =
    TooManyTargets | InvalidLanguage | InvalidArtifactDigest | InvalidStatusCombination
  | InvalidTitle | CounterOverflow

text \<open>\<open>TargetLanguage::parse\<close>: lower-cased, one to 32 ASCII letters and digits.\<close>

definition TargetLanguage_parse :: "ustr \<Rightarrow> ReportConstructionError + ustr" where
  "TargetLanguage_parse raw =
     (let value = to_ascii_lower raw in
      if value = [] \<or> 32 < byte_len value
         \<or> \<not> list_all (\<lambda>c. is_ascii_lower c \<or> is_ascii_digit c) value
      then Inl InvalidLanguage else Inr value)"

record GenerationMethod =
  gm_source :: GenerationSource
  whisper_models :: "ustr list"
  llm_models :: "ustr list"

definition sanitize_model :: "ustr \<Rightarrow> ustr option" where
  "sanitize_model raw =
     (let trimmed = trim raw; lowered = to_ascii_lower trimmed in
      if trimmed = [] \<or> contains (lit ''://'') lowered \<or> starts_with (lit ''http'') lowered
         \<or> contains (lit ''api_key'') lowered \<or> contains (lit ''key_env'') lowered
      then None
      else let clean = filter (\<lambda>c. is_ascii_alnum c \<or> c \<in> set (lit ''/:.-_'')) trimmed
           in if clean = [] then None else Some (take MAX_GENERATION_MODEL_SCALARS clean))"

definition bounded_model_names :: "ustr list \<Rightarrow> ustr list" where
  "bounded_model_names raw =
     take MAX_GENERATION_MODELS (remdups_adj (sort_key utf8 (List.map_filter sanitize_model raw)))"

definition GenerationMethod_new :: "GenerationSource \<Rightarrow> ustr list \<Rightarrow> ustr list \<Rightarrow> GenerationMethod" where
  "GenerationMethod_new s ws ls =
     \<lparr>gm_source = s, whisper_models = bounded_model_names ws, llm_models = bounded_model_names ls\<rparr>"

definition existing_subtitle :: GenerationMethod where
  "existing_subtitle = GenerationMethod_new ExistingSubtitle [] []"

definition display_models :: "string \<Rightarrow> ustr list \<Rightarrow> ustr option" where
  "display_models label models =
     (if models = [] then None else Some (lit label @ lit '': '' @ join (lit '', '') models))"

definition append_translation :: "ustr \<Rightarrow> ustr option \<Rightarrow> ustr" where
  "append_translation source llm =
     (case llm of Some l \<Rightarrow> source @ [sp, 0x2192, sp] @ l | None \<Rightarrow> source)"

definition method_display :: "GenerationMethod \<Rightarrow> ustr" where
  "method_display g =
     (let llm = display_models ''LLM'' (llm_models g);
          rendered =
            (case gm_source g of
               ExistingSubtitle \<Rightarrow> lit ''Existing subtitle''
             | Sidecar \<Rightarrow> append_translation (lit ''Sidecar'') llm
             | Jimaku \<Rightarrow> append_translation (lit ''Jimaku'') llm
             | Whisper \<Rightarrow>
                 append_translation
                   (case display_models ''Whisper'' (whisper_models g) of
                      Some s \<Rightarrow> s | None \<Rightarrow> lit ''Whisper'') llm)
      in if MAX_GENERATION_METHOD_SCALARS < length rendered
         then take MAX_GENERATION_METHOD_SCALARS rendered else rendered)"

record TargetRunResult =
  tr_language :: ustr
  tr_status :: TargetStatus
  artifact_sha256 :: "bytes option"
  generation_method :: "GenerationMethod option"

fun is_completed :: "TargetStatus \<Rightarrow> bool" where
  "is_completed (Completed _) = True"
| "is_completed _ = False"

definition try_new_with_method ::
    "ustr \<Rightarrow> TargetStatus \<Rightarrow> bytes option \<Rightarrow> GenerationMethod option
      \<Rightarrow> ReportConstructionError + TargetRunResult" where
  "try_new_with_method lang status artifact gm =
     (if is_completed status \<noteq> (artifact \<noteq> None) then Inl InvalidArtifactDigest
      else Inr \<lparr>tr_language = lang, tr_status = status, artifact_sha256 = artifact,
                generation_method = gm\<rparr>)"

definition TargetRunResult_try_new ::
    "ustr \<Rightarrow> TargetStatus \<Rightarrow> bytes option \<Rightarrow> ReportConstructionError + TargetRunResult" where
  "TargetRunResult_try_new lang status artifact = try_new_with_method lang status artifact None"

definition severity :: "TargetRunResult \<Rightarrow> nat" where
  "severity t =
     (case tr_status t of
        Failed _ \<Rightarrow> 0 | Missing _ \<Rightarrow> 0 | Completed (Some _) \<Rightarrow> 1 | Completed None \<Rightarrow> 2)"

text \<open>\<open>BoundedTargets::try_from\<close>: a stable sort by severity and language; duplicate languages
  are looked for among neighbours only.\<close>

definition target_key :: "TargetRunResult \<Rightarrow> nat \<times> bytes" where
  "target_key t = (severity t, utf8 (tr_language t))"

fun adjacent_dup :: "TargetRunResult list \<Rightarrow> bool" where
  "adjacent_dup (a # b # r) \<longleftrightarrow> tr_language a = tr_language b \<or> adjacent_dup (b # r)"
| "adjacent_dup _ = False"

definition BoundedTargets_try_from ::
    "TargetRunResult list \<Rightarrow> ReportConstructionError + TargetRunResult list" where
  "BoundedTargets_try_from items =
     (if items = [] \<or> MAX_TARGETS_PER_REPORT < length items then Inl TooManyTargets
      else let values = sort_key target_key items in
        if adjacent_dup values then Inl InvalidLanguage else Inr values)"

text \<open>The report itself. \<open>title\<close> is a sanitised text.\<close>

record EpisodeRunReport =
  r_kind :: EpisodeKind
  episode_id :: int
  title :: ustr
  season :: "u32 option"
  episode :: "u32 option"
  targets :: "TargetRunResult list"
  item_failure :: "ItemFailure option"
  aggregate :: AggregateDisposition
  pipeline_commit_id :: "ustr option"

section \<open>The canonical encoding\<close>

text \<open>\<open>hex\<close> and \<open>hex_lower\<close>: two lower-case digits a byte.\<close>

definition hex_digit :: "nat \<Rightarrow> uchar" where
  "hex_digit d = (if d < 10 then 48 + d else 87 + d)"

definition hex :: "bytes \<Rightarrow> ustr" where
  "hex bs = concat (map (\<lambda>b. [hex_digit (unat (drop_bit 4 b)), hex_digit (unat (b AND 15))]) bs)"

definition json_escape :: "uchar \<Rightarrow> bytes" where
  "json_escape c =
     (if c = 34 then utf8 [92, 34]
      else if c = 92 then utf8 [92, 92]
      else if c \<le> 0x1f then utf8 (92 # lit ''u00'' @ [hex_digit (c div 16), hex_digit (c mod 16)])
      else if c = 0x2028 then utf8 (92 # lit ''u2028'')
      else if c = 0x2029 then utf8 (92 # lit ''u2029'')
      else utf8_char c)"

definition encode_string :: "ustr \<Rightarrow> bytes" where
  "encode_string value = utf8 [34] @ concat (map json_escape value) @ utf8 [34]"

definition domain_hash :: "(bytes \<Rightarrow> bytes) \<Rightarrow> bytes \<Rightarrow> bytes \<Rightarrow> bytes" where
  "domain_hash sha domain bs = sha (domain @ [0] @ bs)"

definition opt_u32 :: "u32 option \<Rightarrow> bytes" where
  "opt_u32 v = (case v of Some n \<Rightarrow> utf8 (dec (unat n)) | None \<Rightarrow> utf8 (lit ''null''))"

fun status_name :: "TargetStatus \<Rightarrow> string" where
  "status_name (Completed None) = ''ok''"
| "status_name (Completed (Some WUpload)) = ''warn-upload''"
| "status_name (Completed (Some WUnknown)) = ''warn-unknown''"
| "status_name (Failed FSource) = ''fail-source''"
| "status_name (Failed FTranscription) = ''fail-transcription''"
| "status_name (Failed FTranslation) = ''fail-translation''"
| "status_name (Failed FStorage) = ''fail-storage''"
| "status_name (Failed FUnknown) = ''fail-unknown''"
| "status_name (Missing ReportedButUnusable) = ''fail-language''"

fun item_failure_name :: "ItemFailure \<Rightarrow> string" where
  "item_failure_name ISource = ''source''"
| "item_failure_name IStorage = ''storage''"
| "item_failure_name IUnknown = ''unknown''"

fun aggregate_name :: "AggregateDisposition \<Rightarrow> string" where
  "aggregate_name AComplete = ''complete''"
| "aggregate_name ACompleteWithWarning = ''complete-with-warning''"
| "aggregate_name APartial = ''partial''"
| "aggregate_name AFailed = ''failed''"

definition kind_name :: "EpisodeKind \<Rightarrow> string" where
  "kind_name k = (if k = Series then ''series'' else ''movie'')"

definition ascii :: "string \<Rightarrow> bytes" where
  "ascii s = utf8 (lit s)"

definition encode_target :: "TargetRunResult \<Rightarrow> bytes" where
  "encode_target t =
     ascii ''{\"language\":'' @ encode_string (tr_language t)
     @ ascii '',\"status\":'' @ encode_string (lit (status_name (tr_status t)))
     @ ascii '',\"artifact_sha256\":''
     @ (case artifact_sha256 t of Some d \<Rightarrow> encode_string (hex d) | None \<Rightarrow> ascii ''null'')
     @ ascii ''}''"

fun encode_targets :: "TargetRunResult list \<Rightarrow> bytes" where
  "encode_targets [] = []"
| "encode_targets [t] = encode_target t"
| "encode_targets (t # u # ts) = encode_target t @ ascii '','' @ encode_targets (u # ts)"

definition encode_report :: "EpisodeRunReport \<Rightarrow> bytes" where
  "encode_report r =
     ascii ''{\"schema\":\"report-v1\",\"kind\":'' @ encode_string (lit (kind_name (r_kind r)))
     @ ascii '',\"episode_id\":'' @ utf8 (dec_int (episode_id r))
     @ ascii '',\"title\":'' @ encode_string (title r)
     @ ascii '',\"season\":'' @ opt_u32 (season r)
     @ ascii '',\"episode\":'' @ opt_u32 (episode r)
     @ ascii '',\"targets\":['' @ encode_targets (targets r)
     @ ascii ''],\"item_failure\":''
     @ (case item_failure r of Some v \<Rightarrow> encode_string (lit (item_failure_name v)) | None \<Rightarrow> ascii ''null'')
     @ ascii '',\"aggregate\":'' @ encode_string (lit (aggregate_name (aggregate r)))
     @ ascii ''}''"

section \<open>Constructors\<close>

definition commit_id_of :: "(bytes \<Rightarrow> bytes) \<Rightarrow> bytes \<Rightarrow> ustr" where
  "commit_id_of sha bs =
     lit ''asrsub-pipeline-v1-'' @ hex (sha (ascii ''asrsub-pipeline-v1'' @ [0] @ bs))"

definition expected_aggregate :: "TargetRunResult list \<Rightarrow> ItemFailure option \<Rightarrow> AggregateDisposition" where
  "expected_aggregate ts fail =
     (let completed = length (filter (\<lambda>t. is_completed (tr_status t)) ts);
          warning = list_ex (\<lambda>t. case tr_status t of Completed (Some _) \<Rightarrow> True | _ \<Rightarrow> False) ts
      in if completed = length ts \<and> fail = None then
           (if warning then ACompleteWithWarning else AComplete)
         else if 0 < completed then APartial else AFailed)"

definition EpisodeRunReport_try_new ::
    "(bytes \<Rightarrow> bytes) \<Rightarrow> EpisodeKind \<Rightarrow> int \<Rightarrow> ustr \<Rightarrow> u32 option \<Rightarrow> u32 option \<Rightarrow> TargetRunResult list
      \<Rightarrow> ItemFailure option \<Rightarrow> AggregateDisposition \<Rightarrow> ReportConstructionError + EpisodeRunReport" where
  "EpisodeRunReport_try_new sha k i t s e ts fail ag =
     (let completed = length (filter (\<lambda>t. is_completed (tr_status t)) ts);
          failed = length ts - completed
      in if expected_aggregate ts fail \<noteq> ag \<or> (failed = 0 \<and> fail \<noteq> None \<and> completed = 0)
         then Inl InvalidStatusCombination
         else
           let report = \<lparr>r_kind = k, episode_id = i, title = t, season = s, episode = e, targets = ts,
                         item_failure = fail, aggregate = ag, pipeline_commit_id = None\<rparr>;
               bs = encode_report report
           in if MAX_REPORT_BYTES < length bs then Inl CounterOverflow
              else Inr (report\<lparr>pipeline_commit_id := Some (commit_id_of sha bs)\<rparr>))"

definition without_commit_id :: "EpisodeRunReport \<Rightarrow> EpisodeRunReport" where
  "without_commit_id r = r\<lparr>pipeline_commit_id := None\<rparr>"

text \<open>\<open>report_order\<close> and \<open>BoundedReports::from_reports\<close>. The byte total cannot overflow \<open>usize\<close>:
  it stays within the 2 MiB cap.\<close>

definition report_key ::
    "EpisodeRunReport \<Rightarrow> nat \<times> int \<times> u32 option \<times> u32 option \<times> bytes \<times> bytes" where
  "report_key r =
     (if r_kind r = Series then 0 else 1, episode_id r, season r, episode r, utf8 (title r),
      encode_report r)"

fun keep_reports ::
    "EpisodeRunReport list \<Rightarrow> EpisodeRunReport list \<Rightarrow> nat \<Rightarrow> u64
      \<Rightarrow> ReportConstructionError + (EpisodeRunReport list \<times> u64)" where
  "keep_reports [] kept bs omitted = Inr (kept, omitted)"
| "keep_reports (r # rs) kept bs omitted =
     (let size = length (encode_report r) in
      if MAX_REPORT_BYTES < size \<or> length kept = MAX_PASS_REPORTS \<or> MAX_PASS_REPORT_BYTES < bs + size
      then (case checked_add omitted 1 of
              None \<Rightarrow> Inl CounterOverflow
            | Some omitted' \<Rightarrow> keep_reports rs kept bs omitted')
      else keep_reports rs (kept @ [r]) (bs + size) omitted)"

definition from_reports ::
    "EpisodeRunReport list \<Rightarrow> ReportConstructionError + (EpisodeRunReport list \<times> u64)" where
  "from_reports reports = keep_reports (sort_key report_key reports) [] 0 0"

datatype EpisodeRunResult =
    RReport EpisodeRunReport
  | RNoTarget NoTargetCase

section \<open>Decoding\<close>

datatype NotificationStateError =
    NMissing | Corrupt | Contradiction | Capacity | NClock | NIo | NDisabled | InvalidInput | StaleView
  | Fenced

definition named :: "('a \<times> string) list \<Rightarrow> ustr \<Rightarrow> 'a option" where
  "named tab s = map_option fst (List.find (\<lambda>(_, n). lit n = s) tab)"

definition status_table :: "(TargetStatus \<times> string) list" where
  "status_table = map (\<lambda>s. (s, status_name s))
     [Completed None, Completed (Some WUpload), Completed (Some WUnknown), Failed FSource,
      Failed FTranscription, Failed FTranslation, Failed FStorage, Failed FUnknown,
      Missing ReportedButUnusable]"

definition item_failure_table :: "(ItemFailure \<times> string) list" where
  "item_failure_table = map (\<lambda>v. (v, item_failure_name v)) [ISource, IStorage, IUnknown]"

definition aggregate_table :: "(AggregateDisposition \<times> string) list" where
  "aggregate_table = map (\<lambda>v. (v, aggregate_name v)) [AComplete, ACompleteWithWarning, APartial, AFailed]"

text \<open>A digest of 64 lower-case hexadecimal digits.\<close>

definition hex_value :: "uchar \<Rightarrow> nat option" where
  "hex_value c = (if is_ascii_digit c then Some (c - 48)
                  else if 97 \<le> c \<and> c \<le> 102 then Some (c - 87) else None)"

fun unhex_pairs :: "ustr \<Rightarrow> bytes option" where
  "unhex_pairs [] = Some []"
| "unhex_pairs [_] = Some []"
| "unhex_pairs (a # b # cs) =
     (case (hex_value a, hex_value b) of
        (Some x, Some y) \<Rightarrow> map_option (\<lambda>r. of_nat (16 * x + y) # r) (unhex_pairs cs)
      | _ \<Rightarrow> None)"

definition parse_hex32 :: "ustr \<Rightarrow> bytes option" where
  "parse_hex32 s =
     (if byte_len s \<noteq> 64 \<or> \<not> list_all (\<lambda>c. hex_value c \<noteq> None) s then None else unhex_pairs s)"

definition decode_digest :: "json option \<Rightarrow> NotificationStateError + bytes option" where
  "decode_digest v =
     (case v of
        Some JNull \<Rightarrow> Inr None
      | Some (JStr s) \<Rightarrow> (case parse_hex32 s of None \<Rightarrow> Inl Corrupt | Some d \<Rightarrow> Inr (Some d))
      | _ \<Rightarrow> Inl Corrupt)"

fun is_object :: "json \<Rightarrow> bool" where
  "is_object (JObj _) = True"
| "is_object _ = False"

definition get_str :: "string \<Rightarrow> json \<Rightarrow> ustr option" where
  "get_str k o' = Option.bind (json_get (lit k) o') as_str"

definition decode_target :: "json \<Rightarrow> NotificationStateError + TargetRunResult" where
  "decode_target t =
     (if \<not> is_object t then Inl Corrupt
      else case get_str ''language'' t of None \<Rightarrow> Inl Corrupt | Some l \<Rightarrow>
        (case TargetLanguage_parse l of Inl _ \<Rightarrow> Inl Corrupt | Inr lang \<Rightarrow>
        (case Option.bind (get_str ''status'' t) (named status_table) of None \<Rightarrow> Inl Corrupt
         | Some status \<Rightarrow>
        (case decode_digest (json_get (lit ''artifact_sha256'') t) of Inl e \<Rightarrow> Inl e | Inr d \<Rightarrow>
        (case TargetRunResult_try_new lang status d of Inl _ \<Rightarrow> Inl Corrupt | Inr r \<Rightarrow> Inr r)))))"

fun decode_targets :: "json list \<Rightarrow> NotificationStateError + TargetRunResult list" where
  "decode_targets [] = Inr []"
| "decode_targets (t # ts) =
     (case decode_target t of Inl e \<Rightarrow> Inl e | Inr r \<Rightarrow>
        (case decode_targets ts of Inl e \<Rightarrow> Inl e | Inr rs \<Rightarrow> Inr (r # rs)))"

text \<open>An optional \<open>u32\<close>: absent for anything that is not an unsigned integer.\<close>

definition decode_opt_u32 :: "json option \<Rightarrow> NotificationStateError + u32 option" where
  "decode_opt_u32 v =
     (case v of None \<Rightarrow> Inl Corrupt
      | Some j \<Rightarrow>
          (case as_u64 j of None \<Rightarrow> Inr None
           | Some n \<Rightarrow> if n < 2 ^ 32 then Inr (Some (of_nat n)) else Inl Corrupt))"

text \<open>A named value of a field: \<open>None\<close> where the field holds no string.\<close>

definition decode_kind :: "json \<Rightarrow> EpisodeKind option" where
  "decode_kind o' =
     (case get_str ''kind'' o' of None \<Rightarrow> None
      | Some s \<Rightarrow> if s = lit ''series'' then Some Series else if s = lit ''movie'' then Some Movie else None)"

definition decode_item_failure :: "json \<Rightarrow> NotificationStateError + ItemFailure option" where
  "decode_item_failure o' =
     (case json_get (lit ''item_failure'') o' of None \<Rightarrow> Inl Corrupt
      | Some v \<Rightarrow>
          (case as_str v of None \<Rightarrow> Inr None
           | Some s \<Rightarrow> (case named item_failure_table s of None \<Rightarrow> Inl Corrupt | Some f \<Rightarrow> Inr (Some f))))"

fun object_len :: "json \<Rightarrow> nat" where
  "object_len (JObj kvs) = length kvs"
| "object_len _ = 0"

definition decode_title :: "unicode_db \<Rightarrow> json \<Rightarrow> ustr option" where
  "decode_title U o' =
     (case get_str ''title'' o' of None \<Rightarrow> None
      | Some raw \<Rightarrow> (case sanitize U raw of Inl _ \<Rightarrow> None | Inr t \<Rightarrow> if t = raw then Some t else None))"

definition decode_report ::
    "(bytes \<Rightarrow> bytes) \<Rightarrow> unicode_db \<Rightarrow> (bytes \<Rightarrow> json option) \<Rightarrow> bytes
      \<Rightarrow> NotificationStateError + EpisodeRunReport" where
  "decode_report sha U from_slice bs =
     (case from_slice bs of None \<Rightarrow> Inl Corrupt | Some o' \<Rightarrow>
      if \<not> is_object o' \<or> object_len o' \<noteq> 9 \<or> get_str ''schema'' o' \<noteq> Some (lit ''report-v1'') then Inl Corrupt
      else case decode_kind o' of None \<Rightarrow> Inl Corrupt | Some k \<Rightarrow>
      (case Option.bind (json_get (lit ''episode_id'') o') as_i64 of None \<Rightarrow> Inl Corrupt | Some i \<Rightarrow>
      (case decode_title U o' of None \<Rightarrow> Inl Corrupt | Some t \<Rightarrow>
      (case decode_opt_u32 (json_get (lit ''season'') o') of Inl e \<Rightarrow> Inl e | Inr s \<Rightarrow>
      (case decode_opt_u32 (json_get (lit ''episode'') o') of Inl e \<Rightarrow> Inl e | Inr ep \<Rightarrow>
      (case Option.bind (json_get (lit ''targets'') o') as_array of None \<Rightarrow> Inl Corrupt | Some js \<Rightarrow>
      (case decode_targets js of Inl e \<Rightarrow> Inl e | Inr items \<Rightarrow>
      (case decode_item_failure o' of Inl e \<Rightarrow> Inl e | Inr fail \<Rightarrow>
      (case Option.bind (get_str ''aggregate'' o') (named aggregate_table) of None \<Rightarrow> Inl Corrupt | Some ag \<Rightarrow>
      (case BoundedTargets_try_from items of Inl _ \<Rightarrow> Inl Corrupt | Inr ts \<Rightarrow>
      (case EpisodeRunReport_try_new sha k i t s ep ts fail ag of Inl _ \<Rightarrow> Inl Corrupt | Inr r \<Rightarrow>
       if encode_report r \<noteq> bs then Inl Contradiction else Inr r)))))))))))"

section \<open>Round trips\<close>

lemma hex_value_digit [simp]: "d < 16 \<Longrightarrow> hex_value (hex_digit d) = Some d"
  by (auto simp: hex_value_def hex_digit_def is_ascii_digit_def)

lemma unat_nibbles: "unat (drop_bit 4 (b::byte)) < 16" "unat (b AND 15) < 16"
  "16 * unat (drop_bit 4 b) + unat (b AND 15) = unat b"
proof -
  have hi: "unat (drop_bit 4 b) = unat b div 16" by (simp add: unat_drop_bit_eq drop_bit_eq_div [of 4 "unat b"])
  have "b AND 15 = take_bit 4 b" by (simp add: take_bit_eq_mask mask_numeral)
  then have lo: "unat (b AND 15) = unat b mod 16" by (simp add: take_bit_eq_mod unat_mod_distrib)
  have "unat b < 2 ^ LENGTH(8)" by (rule unsigned_less)
  then show "unat (drop_bit 4 b) < 16" "unat (b AND 15) < 16"
    "16 * unat (drop_bit 4 b) + unat (b AND 15) = unat b"
    by (simp_all add: hi lo div_less_iff_less_mult)
qed

lemma hex_Cons: "hex (b # bs) = hex_digit (unat (drop_bit 4 b)) # hex_digit (unat (b AND 15)) # hex bs"
  by (simp add: hex_def)

lemma unhex_hex: "unhex_pairs (hex bs) = Some bs"
proof (induction bs)
  case (Cons b bs)
  have "(of_nat (16 * unat (drop_bit 4 b) + unat (b AND 15)) :: byte) = b"
    unfolding unat_nibbles(3) by simp
  with Cons show ?case by (simp add: hex_Cons unat_nibbles del: of_nat_add of_nat_mult)
qed (simp add: hex_def)

lemma hex_digit_small: "d < 16 \<Longrightarrow> hex_digit d < 0x80"
  by (simp add: hex_digit_def)

lemma hex_chars: "c \<in> set (hex bs) \<Longrightarrow> hex_value c \<noteq> None \<and> c < 0x80"
  using unat_nibbles(1,2) by (auto simp: hex_def hex_digit_small)

lemma length_hex [simp]: "length (hex bs) = 2 * length bs"
  by (induction bs) (simp_all add: hex_def)

lemma parse_hex32_hex [simp]: "length d = 32 \<Longrightarrow> parse_hex32 (hex d) = Some d"
  using hex_chars [of _ d]
  by (auto simp: parse_hex32_def unhex_hex byte_len_ascii list_all_iff)

lemma named_status [simp]: "named status_table (lit (status_name s)) = Some s"
  by (cases s rule: status_name.cases) (simp_all add: named_def status_table_def)

lemma named_item_failure [simp]: "named item_failure_table (lit (item_failure_name v)) = Some v"
  by (cases v) (simp_all add: named_def item_failure_table_def)

lemma named_aggregate [simp]: "named aggregate_table (lit (aggregate_name v)) = Some v"
  by (cases v) (simp_all add: named_def aggregate_table_def)

text \<open>The JSON value a canonical encoding denotes.\<close>

definition opt_json :: "('a \<Rightarrow> json) \<Rightarrow> 'a option \<Rightarrow> json" where
  "opt_json f v = (case v of None \<Rightarrow> JNull | Some x \<Rightarrow> f x)"

definition target_json :: "TargetRunResult \<Rightarrow> json" where
  "target_json t = JObj
     [(lit ''language'', JStr (tr_language t)),
      (lit ''status'', JStr (lit (status_name (tr_status t)))),
      (lit ''artifact_sha256'', opt_json (\<lambda>d. JStr (hex d)) (artifact_sha256 t))]"

definition report_json :: "EpisodeRunReport \<Rightarrow> json" where
  "report_json r = JObj
     [(lit ''schema'', JStr (lit ''report-v1'')),
      (lit ''kind'', JStr (lit (kind_name (r_kind r)))),
      (lit ''episode_id'', JInt (episode_id r)),
      (lit ''title'', JStr (title r)),
      (lit ''season'', opt_json (\<lambda>n. JInt (int (unat n))) (season r)),
      (lit ''episode'', opt_json (\<lambda>n. JInt (int (unat n))) (episode r)),
      (lit ''targets'', JArr (map target_json (targets r))),
      (lit ''item_failure'', opt_json (\<lambda>v. JStr (lit (item_failure_name v))) (item_failure r)),
      (lit ''aggregate'', JStr (lit (aggregate_name (aggregate r))))]"

definition forget_method :: "TargetRunResult \<Rightarrow> TargetRunResult" where
  "forget_method t = t\<lparr>generation_method := None\<rparr>"

definition forget_methods :: "EpisodeRunReport \<Rightarrow> EpisodeRunReport" where
  "forget_methods r = r\<lparr>targets := map forget_method (targets r)\<rparr>"

definition wf_target :: "TargetRunResult \<Rightarrow> bool" where
  "wf_target t \<longleftrightarrow> TargetLanguage_parse (tr_language t) = Inr (tr_language t)
     \<and> is_completed (tr_status t) = (artifact_sha256 t \<noteq> None)
     \<and> (case artifact_sha256 t of None \<Rightarrow> True | Some d \<Rightarrow> length d = 32)"

lemma TargetLanguage_parse_idem: "TargetLanguage_parse raw = Inr v \<Longrightarrow> TargetLanguage_parse v = Inr v"
proof -
  assume a: "TargetLanguage_parse raw = Inr v"
  then have "list_all (\<lambda>c. is_ascii_lower c \<or> is_ascii_digit c) v"
    by (auto simp: TargetLanguage_parse_def Let_def split: if_splits)
  then have "to_ascii_lower v = v"
    unfolding to_ascii_lower_def
    by (intro map_idI) (auto simp: list_all_iff ascii_lower_def ascii_class_defs)
  with a show ?thesis by (auto simp: TargetLanguage_parse_def Let_def split: if_splits)
qed

lemma decode_target_json: "wf_target t \<Longrightarrow> decode_target (target_json t) = Inr (forget_method t)"
  by (cases "artifact_sha256 t")
    (auto simp: wf_target_def decode_target_def target_json_def get_str_def opt_json_def decode_digest_def
      TargetRunResult_try_new_def try_new_with_method_def forget_method_def)

lemma decode_targets_json:
  "\<forall>t \<in> set ts. wf_target t \<Longrightarrow> decode_targets (map target_json ts) = Inr (map forget_method ts)"
  by (induction ts) (simp_all add: decode_target_json)

lemma decode_opt_u32_json:
  "decode_opt_u32 (Some (opt_json (\<lambda>n. JInt (int (unat n))) v)) = Inr v"
proof (cases v)
  case (Some n)
  have "unat n < 2 ^ 32" using unsigned_less [of n] by simp
  have "uint n < 2 ^ LENGTH(32)" by (rule unsigned_less)
  then have "as_u64 (JInt (int (unat n))) = Some (unat n)" by simp
  with \<open>unat n < 2 ^ 32\<close> show ?thesis
    using Some by (simp add: decode_opt_u32_def opt_json_def del: as_u64.simps)
qed (simp add: decode_opt_u32_def opt_json_def)

lemma decode_opt_u32_uint [simp]: "decode_opt_u32 (Some (opt_json (\<lambda>n. JInt (uint n)) v)) = Inr v"
  using decode_opt_u32_json [of v] by simp

section \<open>Bounded targets\<close>

lemma sort_key_sorted: "sorted (map f xs) \<Longrightarrow> sort_key f xs = xs"
  by (induction xs) (simp_all add: insort_is_Cons)

lemma target_key_forget [simp]: "target_key (forget_method t) = target_key t"
  by (simp add: target_key_def severity_def forget_method_def)

lemma adjacent_dup_forget: "adjacent_dup (map forget_method ts) = adjacent_dup ts"
  by (induction ts rule: adjacent_dup.induct) (simp_all add: forget_method_def)

lemma BoundedTargets_Inr:
  "BoundedTargets_try_from items = Inr ts \<longleftrightarrow>
     items \<noteq> [] \<and> length items \<le> 32 \<and> ts = sort_key target_key items \<and> \<not> adjacent_dup ts"
  by (auto simp: BoundedTargets_try_from_def MAX_TARGETS_PER_REPORT_def Let_def)

lemma BoundedTargets_again:
  assumes "BoundedTargets_try_from items = Inr ts"
  shows "BoundedTargets_try_from (map forget_method ts) = Inr (map forget_method ts)"
proof -
  have "ts \<noteq> []" "length ts \<le> 32" "\<not> adjacent_dup ts" "sorted (map target_key ts)"
    using assms by (auto simp: BoundedTargets_Inr) (metis set_empty set_sort)
  moreover from this(4) have "sort_key target_key (map forget_method ts) = map forget_method ts"
    by (intro sort_key_sorted) (simp add: comp_def)
  ultimately show ?thesis by (simp add: BoundedTargets_Inr adjacent_dup_forget)
qed

lemma encode_target_forget [simp]: "encode_target (forget_method t) = encode_target t"
  by (simp add: encode_target_def forget_method_def)

lemma encode_targets_forget [simp]: "encode_targets (map forget_method ts) = encode_targets ts"
  by (induction ts rule: encode_targets.induct) simp_all

lemma encode_report_forget [simp]: "encode_report (forget_methods r) = encode_report r"
  by (simp add: encode_report_def forget_methods_def)

lemma encode_report_id [simp]: "encode_report (r\<lparr>pipeline_commit_id := c\<rparr>) = encode_report r"
  by (simp add: encode_report_def)

lemma encode_report_no_id:
  "encode_report \<lparr>r_kind = k, episode_id = i, title = t, season = s, episode = e, targets = ts,
     item_failure = f, aggregate = a, pipeline_commit_id = Some c\<rparr>
   = encode_report \<lparr>r_kind = k, episode_id = i, title = t, season = s, episode = e, targets = ts,
     item_failure = f, aggregate = a, pipeline_commit_id = None\<rparr>"
  by (simp add: encode_report_def)

lemma expected_aggregate_forget [simp]: "expected_aggregate (map forget_method ts) f = expected_aggregate ts f"
  by (simp add: expected_aggregate_def filter_map comp_def list_ex_iff forget_method_def)

lemma try_new_Inr:
  assumes "EpisodeRunReport_try_new sha k i t s e ts fail ag = Inr r"
  shows "r_kind r = k" "episode_id r = i" "title r = t" "season r = s" "episode r = e" "targets r = ts"
    "item_failure r = fail" "aggregate r = ag" "ag = expected_aggregate ts fail"
    "length (encode_report r) \<le> MAX_REPORT_BYTES"
    "pipeline_commit_id r = Some (commit_id_of sha (encode_report r))"
  using assms by (auto simp: EpisodeRunReport_try_new_def Let_def encode_report_no_id split: if_splits)

lemma try_new_forget:
  assumes "EpisodeRunReport_try_new sha k i t s e ts fail ag = Inr r"
  shows "EpisodeRunReport_try_new sha k i t s e (map forget_method ts) fail ag = Inr (forget_methods r)"
proof -
  let ?r = "\<lparr>r_kind = k, episode_id = i, title = t, season = s, episode = e, targets = ts,
               item_failure = fail, aggregate = ag, pipeline_commit_id = None\<rparr>"
  have "encode_report (?r\<lparr>targets := map forget_method ts\<rparr>) = encode_report ?r"
    by (simp add: encode_report_def)
  moreover have "length (filter (\<lambda>t. is_completed (tr_status t)) (map forget_method ts))
      = length (filter (\<lambda>t. is_completed (tr_status t)) ts)"
    by (simp add: filter_map comp_def forget_method_def)
  ultimately show ?thesis
    using assms by (auto simp: EpisodeRunReport_try_new_def Let_def forget_methods_def split: if_splits)
qed

section \<open>Bounded report lists\<close>

definition report_size :: "EpisodeRunReport \<Rightarrow> nat" where
  "report_size r = length (encode_report r)"

definition total_size :: "EpisodeRunReport list \<Rightarrow> nat" where
  "total_size rs = sum_list (map report_size rs)"

definition within_bounds :: "EpisodeRunReport list \<Rightarrow> bool" where
  "within_bounds rs \<longleftrightarrow> length rs \<le> MAX_PASS_REPORTS \<and> total_size rs \<le> MAX_PASS_REPORT_BYTES
     \<and> list_all (\<lambda>r. report_size r \<le> MAX_REPORT_BYTES) rs"

lemma total_size_simps [simp]:
  "total_size [] = 0" "total_size (rs @ [r]) = total_size rs + report_size r"
  by (simp_all add: total_size_def)

lemma keep_reports_spec:
  assumes "within_bounds kept" and "bs = total_size kept" and "unat om + length rs < 2 ^ 64"
  shows "\<exists>k o'. keep_reports rs kept bs om = Inr (kept @ k, o') \<and> subseq k rs
    \<and> length k + unat o' = length rs + unat om \<and> within_bounds (kept @ k)"
  using assms
proof (induction rs arbitrary: kept bs om)
  case (Cons r rs)
  show ?case
  proof (cases "MAX_REPORT_BYTES < report_size r \<or> length kept = MAX_PASS_REPORTS
      \<or> MAX_PASS_REPORT_BYTES < bs + report_size r")
    case True
    have "unat om + 1 < 2 ^ 64" using Cons.prems(3) by simp
    then obtain om' where om': "checked_add om 1 = Some om'" by (simp add: checked_add_def)
    then have "unat om' = unat om + 1" by (drule_tac checked_add_Some) simp
    with Cons.IH [OF Cons.prems(1,2), of om'] Cons.prems(3) obtain k o' where
      "keep_reports rs kept bs om' = Inr (kept @ k, o')" "subseq k rs"
      "length k + unat o' = length rs + (unat om + 1)" "within_bounds (kept @ k)" by auto
    moreover have "keep_reports (r # rs) kept bs om = keep_reports rs kept bs om'"
      using True om' by (auto simp: report_size_def)
    ultimately show ?thesis by (auto intro: list_emb_Cons)
  next
    case False
    then have "within_bounds (kept @ [r])"
      using Cons.prems(1,2) by (auto simp: within_bounds_def)
    moreover have "bs + report_size r = total_size (kept @ [r])" using Cons.prems(2) by simp
    ultimately obtain k o' where
      "keep_reports rs (kept @ [r]) (bs + report_size r) om = Inr ((kept @ [r]) @ k, o')" "subseq k rs"
      "length k + unat o' = length rs + unat om" "within_bounds ((kept @ [r]) @ k)"
      using Cons.IH [of "kept @ [r]" "bs + report_size r" om] Cons.prems(3) by auto
    moreover have "keep_reports (r # rs) kept bs om = keep_reports rs (kept @ [r]) (bs + report_size r) om"
      using False by (simp add: report_size_def)
    ultimately show ?thesis by (intro exI [of _ "r # k"] exI [of _ o']) simp
  qed
qed simp

lemma keep_reports_all:
  "list_all (\<lambda>r. report_size r \<le> MAX_REPORT_BYTES) (kept @ rs) \<Longrightarrow> bs = total_size kept
    \<Longrightarrow> length kept + length rs \<le> MAX_PASS_REPORTS
    \<Longrightarrow> keep_reports rs kept bs om = Inr (kept @ rs, om)"
proof (induction rs arbitrary: kept bs)
  case (Cons r rs)
  have "total_size xs \<le> length xs * MAX_REPORT_BYTES" if "list_all (\<lambda>r. report_size r \<le> MAX_REPORT_BYTES) xs" for xs
    using that by (induction xs) (auto simp: total_size_def)
  from this [of "kept @ [r]"] Cons.prems have
    "bs + report_size r \<le> Suc (length kept) * MAX_REPORT_BYTES" "Suc (length kept) \<le> MAX_PASS_REPORTS"
    by auto
  then have "bs + report_size r \<le> MAX_PASS_REPORT_BYTES"
    by (simp add: MAX_REPORT_BYTES_def MAX_PASS_REPORT_BYTES_def MAX_PASS_REPORTS_def)
  then have "keep_reports (r # rs) kept bs om = keep_reports rs (kept @ [r]) (bs + report_size r) om"
    using Cons.prems by (auto simp: report_size_def)
  with Cons.IH [of "kept @ [r]" "bs + report_size r"] Cons.prems show ?case by simp
qed simp

lemma decode_encode:
  assumes "EpisodeRunReport_try_new sha k i t s e ts fail ag = Inr r"
    and "BoundedTargets_try_from items = Inr ts" and "\<forall>x \<in> set items. wf_target x"
    and "sanitize U t = Inr t" and "- (2 ^ 63) \<le> i" and "i < 2 ^ 63"
    and "from_slice (encode_report r) = Some (report_json r)"
  shows "decode_report sha U from_slice (encode_report r) = Inr (forget_methods r)"
proof -
  note r = try_new_Inr [OF assms(1)]
  have "\<forall>x \<in> set ts. wf_target x"
    using assms(2,3) by (auto simp: BoundedTargets_Inr)
  then have ts: "decode_targets (map target_json ts) = Inr (map forget_method ts)"
    by (rule decode_targets_json)
  have kind: "decode_kind (report_json r) = Some k"
    by (cases k) (simp_all add: decode_kind_def get_str_def report_json_def r kind_name_def)
  have title: "decode_title U (report_json r) = Some t"
    using assms(4) by (simp add: decode_title_def get_str_def report_json_def r)
  have fail: "decode_item_failure (report_json r) = Inr fail"
    by (cases fail) (simp_all add: decode_item_failure_def report_json_def r opt_json_def)
  have fields: "is_object (report_json r)" "object_len (report_json r) = 9"
    "get_str ''schema'' (report_json r) = Some (lit ''report-v1'')"
    "json_get (lit ''episode_id'') (report_json r) = Some (JInt i)"
    "json_get (lit ''season'') (report_json r) = Some (opt_json (\<lambda>n. JInt (int (unat n))) s)"
    "json_get (lit ''episode'') (report_json r) = Some (opt_json (\<lambda>n. JInt (int (unat n))) e)"
    "json_get (lit ''targets'') (report_json r) = Some (JArr (map target_json ts))"
    "get_str ''aggregate'' (report_json r) = Some (lit (aggregate_name ag))"
    by (simp_all add: get_str_def report_json_def r)
  show ?thesis
    using assms(5,6)
    by (simp add: decode_report_def assms(7) fields kind title ts fail
        BoundedTargets_again [OF assms(2)] try_new_forget [OF assms(1)])
qed

section \<open>Properties\<close>


definition no_sha :: "bytes \<Rightarrow> bytes" where
  "no_sha bs = replicate 32 0"

definition sample_target :: "TargetRunResult" where
  "sample_target = \<lparr>tr_language = lit ''id'', tr_status = Completed None,
     artifact_sha256 = Some (replicate 32 7), generation_method = None\<rparr>"

definition sample_report :: "ustr \<Rightarrow> EpisodeRunReport" where
  "sample_report t = \<lparr>r_kind = Series, episode_id = 7, title = t, season = Some 1, episode = None,
     targets = [sample_target], item_failure = None, aggregate = AComplete,
     pipeline_commit_id = None\<rparr>"

lemma wf_sample_target: "wf_target sample_target"
  by (simp add: wf_target_def sample_target_def TargetLanguage_parse_def to_ascii_lower_def lit_eval
      ascii_lower_def ascii_class_defs byte_len_def utf8_def utf8_char_def)

lemma sample_targets: "BoundedTargets_try_from [sample_target] = Inr [sample_target]"
  by (simp add: BoundedTargets_Inr)

lemma dec_small: "dec (Suc 0) = lit ''1''" "dec 7 = lit ''7''"
  by (simp_all add: dec.simps lit_eval)

lemma utf8_lit: "\<forall>c \<in> set s. of_char c < (0x80::nat) \<Longrightarrow> length (utf8 (lit s)) = length s"
  using byte_len_ascii [of "lit s"] by (auto simp: byte_len_def lit_def)

lemma json_escape_length: "length (json_escape c) \<le> 6"
  using hex_digit_small [of "c div 16"] hex_digit_small [of "c mod 16"]
  by (auto simp: json_escape_def utf8_def utf8_char_def lit_eval)

lemma encode_string_length: "length (encode_string s) \<le> 6 * length s + 2"
proof -
  have "length (concat (map json_escape s)) \<le> 6 * length s"
    by (induction s) (use json_escape_length in \<open>auto intro: add_mono\<close>)
  then show ?thesis by (simp add: encode_string_def utf8_def utf8_char_def)
qed

lemma sample_report_size: "length t \<le> 8 \<Longrightarrow> length (encode_report (sample_report t)) \<le> MAX_REPORT_BYTES"
proof -
  assume t: "length t \<le> 8"
  have h: "length (hex (replicate 32 (7::byte))) = 64" by simp
  have "length (encode_string (hex (replicate 32 7))) \<le> 386"
    using encode_string_length [of "hex (replicate 32 7)"] unfolding h by simp
  moreover have "length (encode_string t) \<le> 50" using encode_string_length [of t] t by simp
  moreover have "length (encode_string (lit s)) \<le> 6 * length s + 2" for s
    using encode_string_length [of "lit s"] by simp
  note this [of "''id''"] this [of "''ok''"] this [of "''series''"] this [of "''complete''"]
  ultimately show ?thesis
    by (simp add: encode_report_def sample_report_def encode_target_def sample_target_def kind_name_def
        ascii_def utf8_lit opt_u32_def dec_int_def dec_small MAX_REPORT_BYTES_def)
qed

lemma sample_report_new:
  "length t \<le> 8 \<Longrightarrow> EpisodeRunReport_try_new sha Series 7 t (Some 1) None [sample_target] None AComplete
     = Inr (sample_report t\<lparr>pipeline_commit_id := Some (commit_id_of sha (encode_report (sample_report t)))\<rparr>)"
  using sample_report_size [of t]
  by (simp add: EpisodeRunReport_try_new_def Let_def expected_aggregate_def sample_report_def) (simp add: sample_target_def)

definition read_sample :: "ustr \<Rightarrow> bytes \<Rightarrow> json option" where
  "read_sample t bs = (if bs = encode_report (sample_report t) then Some (report_json (sample_report t)) else None)"

lemma read_sample:
  "read_sample t (encode_report (sample_report t\<lparr>pipeline_commit_id := c\<rparr>))
     = Some (report_json (sample_report t\<lparr>pipeline_commit_id := c\<rparr>))"
  by (simp add: read_sample_def) (simp add: report_json_def)

lemma sanitize_plain_title: "sanitize ascii_db (lit ''A title'') = Inr (lit ''A title'')"
  by (simp add: lit_eval sanitize_eval)


lemma decode_escaped_title:
  assumes "from_slice (encode_report r) = Some (report_json r)" and "sanitize U (title r) \<noteq> Inr (title r)"
  shows "decode_report sha U from_slice (encode_report r) = Inl Corrupt"
proof -
  have "decode_title U (report_json r) = None"
    using assms(2) by (auto simp: decode_title_def get_str_def report_json_def split: sum.splits)
  moreover have "decode_kind (report_json r) = Some (r_kind r)"
    by (cases "r_kind r") (simp_all add: decode_kind_def get_str_def report_json_def kind_name_def)
  ultimately show ?thesis
    using assms(1) by (auto simp: decode_report_def split: option.splits)
qed

text \<open>A report whose title the sanitiser would change again is unreadable: the decoder
  sanitises the stored, already escaped title a second time and answers \<open>Corrupt\<close>. Every title
  with a bracket, a parenthesis or an underscore is of this kind.\<close>

theorem escaped_title_unreadable:
  assumes "from_slice (encode_report r) = Some (report_json r)" and "sanitize U (title r) \<noteq> Inr (title r)"
  shows "decode_report sha U from_slice (encode_report r) = Inl Corrupt"
  using assms by (rule decode_escaped_title)

theorem escaped_title_unreadable_witness:
  "\<exists>t r. sanitize ascii_db (lit ''A(B'') = Inr t
     \<and> EpisodeRunReport_try_new no_sha Series 7 t (Some 1) None [sample_target] None AComplete = Inr r
     \<and> decode_report no_sha ascii_db (read_sample t) (encode_report r) = Inl Corrupt"
proof -
  let ?t = "lit ''A'' @ [92] @ lit ''(B''"
  let ?r = "sample_report ?t\<lparr>pipeline_commit_id := Some (commit_id_of no_sha (encode_report (sample_report ?t)))\<rparr>"
  have t: "sanitize ascii_db (lit ''A(B'') = Inr ?t" "sanitize ascii_db ?t \<noteq> Inr ?t"
    by (simp_all add: lit_eval sanitize_eval)
  have "EpisodeRunReport_try_new no_sha Series 7 ?t (Some 1) None [sample_target] None AComplete = Inr ?r"
    by (rule sample_report_new) simp
  moreover have "decode_report no_sha ascii_db (read_sample ?t) (encode_report ?r) = Inl Corrupt"
    by (rule escaped_title_unreadable) (rule read_sample, use t(2) in \<open>simp add: sample_report_def\<close>)
  ultimately show ?thesis using t(1) by blast
qed

text \<open>The aggregate of a report is determined by its targets: complete only without any
  failure, complete with a warning only when every target completed and some target warned,
  failed exactly when no target completed, partial otherwise; and its commit id is the digest
  of its canonical bytes, which fit the size limit.\<close>

theorem report_aggregate:
  assumes "EpisodeRunReport_try_new sha k i t s e ts fail ag = Inr r" and "ts \<noteq> []"
  shows "(ag = AComplete \<longleftrightarrow> fail = None \<and> (\<forall>x \<in> set ts. tr_status x = Completed None))
    \<and> (ag = ACompleteWithWarning \<longleftrightarrow> fail = None \<and> (\<forall>x \<in> set ts. is_completed (tr_status x))
         \<and> (\<exists>x \<in> set ts. tr_status x \<noteq> Completed None))
    \<and> (ag = AFailed \<longleftrightarrow> (\<forall>x \<in> set ts. \<not> is_completed (tr_status x)))
    \<and> pipeline_commit_id r = Some (commit_id_of sha (encode_report r))
    \<and> report_size r \<le> MAX_REPORT_BYTES"
proof -
  note r = try_new_Inr [OF assms(1)]
  define n where "n = length (filter (\<lambda>x. is_completed (tr_status x)) ts)"
  have all: "n = length ts \<longleftrightarrow> (\<forall>x \<in> set ts. is_completed (tr_status x))"
    unfolding n_def by (metis (no_types, lifting) filter_id_conv length_filter_less less_irrefl)
  have none: "n = 0 \<longleftrightarrow> (\<forall>x \<in> set ts. \<not> is_completed (tr_status x))"
    by (simp add: n_def filter_empty_conv)
  have warn: "list_ex (\<lambda>t. case tr_status t of Completed (Some _) \<Rightarrow> True | _ \<Rightarrow> False) ts
      \<longleftrightarrow> (\<exists>x \<in> set ts. tr_status x \<noteq> Completed None)" if "\<forall>x \<in> set ts. is_completed (tr_status x)"
  proof -
    have "(case st of Completed (Some _) \<Rightarrow> True | _ \<Rightarrow> False) \<longleftrightarrow> st \<noteq> Completed None" if "is_completed st" for st
      using that by (cases st) (auto split: option.splits)
    with that show ?thesis by (simp add: list_ex_iff)
  qed
  have ag: "ag = (if n = length ts \<and> fail = None then
      (if list_ex (\<lambda>t. case tr_status t of Completed (Some _) \<Rightarrow> True | _ \<Rightarrow> False) ts
       then ACompleteWithWarning else AComplete) else if 0 < n then APartial else AFailed)"
    unfolding r(9) expected_aggregate_def n_def Let_def by simp
  have pos: "0 < length ts" using assms(2) by simp
  have comp: "is_completed (Completed None)" by simp
  have parts: "(ag = AComplete \<longleftrightarrow> fail = None \<and> (\<forall>x \<in> set ts. tr_status x = Completed None))"
    "(ag = ACompleteWithWarning \<longleftrightarrow> fail = None \<and> (\<forall>x \<in> set ts. is_completed (tr_status x))
         \<and> (\<exists>x \<in> set ts. tr_status x \<noteq> Completed None))"
    "(ag = AFailed \<longleftrightarrow> (\<forall>x \<in> set ts. \<not> is_completed (tr_status x)))"
    using all none warn comp pos by (auto simp: ag)
  with r(10,11) show ?thesis by (simp add: report_size_def)
qed

theorem report_aggregate_witness:
  "pipeline_commit_id (sample_report (lit ''x'')\<lparr>pipeline_commit_id :=
       Some (commit_id_of no_sha (encode_report (sample_report (lit ''x''))))\<rparr>)
     = Some (commit_id_of no_sha (encode_report (sample_report (lit ''x''))))"
  using report_aggregate [OF sample_report_new [of "lit ''x''" no_sha]] by simp

text \<open>Accepted targets are between one and 32, sorted by severity and language, and a
  permutation of the input.\<close>

theorem bounded_targets_ok:
  assumes "BoundedTargets_try_from items = Inr ts"
  shows "1 \<le> length ts \<and> length ts \<le> 32 \<and> sorted (map target_key ts) \<and> mset ts = mset items"
  using assms by (auto simp: BoundedTargets_Inr Suc_le_eq)

theorem bounded_targets_ok_witness: "sorted (map target_key [sample_target])"
  using bounded_targets_ok [OF sample_targets] by blast

text \<open>The duplicate check looks at neighbours after sorting by severity first, so a language
  that is both failed and completed is accepted when another target stands between.\<close>

definition failed_target :: "string \<Rightarrow> TargetRunResult" where
  "failed_target l = \<lparr>tr_language = lit l, tr_status = Failed FSource, artifact_sha256 = None,
     generation_method = None\<rparr>"

theorem duplicate_language_accepted:
  "BoundedTargets_try_from [failed_target ''id'', failed_target ''ja'', sample_target]
     = Inr [failed_target ''id'', failed_target ''ja'', sample_target]
   \<and> tr_language (failed_target ''id'') = tr_language sample_target"
proof -
  have "utf8 (lit ''id'') < utf8 (lit ''ja'')"
    by (simp add: lit_eval utf8_def utf8_char_def)
  then have "sorted (map target_key [failed_target ''id'', failed_target ''ja'', sample_target])"
    by (auto simp: target_key_def severity_def failed_target_def sample_target_def)
  then have "sort_key target_key [failed_target ''id'', failed_target ''ja'', sample_target]
      = [failed_target ''id'', failed_target ''ja'', sample_target]"
    by (rule sort_key_sorted)
  then show ?thesis
    by (simp add: BoundedTargets_Inr del: sort_key_simps) (simp add: failed_target_def sample_target_def)
qed

text \<open>The reports of a pass are bounded and counted: the kept ones are a subsequence of the
  sorted input within all three limits, and kept plus omitted is the input's length. When every
  report fits the size limit, as the constructor guarantees, exactly the first 128 are kept.\<close>

theorem from_reports_bounded:
  assumes "length reports < 2 ^ 64"
  shows "\<exists>rs om. from_reports reports = Inr (rs, om) \<and> within_bounds rs
    \<and> subseq rs (sort_key report_key reports) \<and> length rs + unat om = length reports
    \<and> (list_all (\<lambda>r. report_size r \<le> MAX_REPORT_BYTES) reports \<and> length reports \<le> MAX_PASS_REPORTS
        \<longrightarrow> rs = sort_key report_key reports)"
proof -
  have "within_bounds []" by (simp add: within_bounds_def)
  then obtain rs om where rs: "from_reports reports = Inr (rs, om)" "within_bounds rs"
    "subseq rs (sort_key report_key reports)" "length rs + unat om = length reports"
    using keep_reports_spec [of "[]" 0 0 "sort_key report_key reports"] assms
    by (auto simp: from_reports_def)
  moreover have "rs = sort_key report_key reports"
    if "list_all (\<lambda>r. report_size r \<le> MAX_REPORT_BYTES) reports \<and> length reports \<le> MAX_PASS_REPORTS"
    using keep_reports_all [of "[]" "sort_key report_key reports" 0 0] that rs(1)
    by (simp add: from_reports_def list_all_iff)
  ultimately show ?thesis by blast
qed

theorem from_reports_bounded_witness:
  "\<exists>rs om. from_reports [sample_report (lit ''x'')] = Inr (rs, om) \<and> length rs + unat om = 1"
  using from_reports_bounded [of "[sample_report (lit ''x'')]"] by auto
end
