(* ===== verification/Clock.thy ===== *)
theory Clock
  imports Prelude
begin

text \<open>
  \<open>src/discord_state_clock.rs\<close> and the clock types of \<open>src/discord_state_schema.rs\<close>: the retry
  cadence of the notification lane, in checked \<open>u64\<close> arithmetic.
\<close>

definition ATTEMPT_WINDOW_NS :: u64 where
  "ATTEMPT_WINDOW_NS = 900 * 1000000000"

definition MAX_BACKOFF_SECONDS :: u64 where
  "MAX_BACKOFF_SECONDS = 86400"

definition next_backoff :: "u64 \<Rightarrow> u64 option" where
  "next_backoff previous =
     (if previous = 0 then Some 900
      else map_option (\<lambda>d. min d MAX_BACKOFF_SECONDS) (checked_mul previous 2))"

definition next_deadline :: "u64 \<Rightarrow> u64 \<Rightarrow> u64 \<Rightarrow> u64 option \<Rightarrow> u64 option" where
  "next_deadline attempt_start response_epoch backoff retry_after =
     (case checked_add attempt_start ATTEMPT_WINDOW_NS of None \<Rightarrow> None | Some floor_ns \<Rightarrow>
     (case checked_mul backoff 1000000000 of None \<Rightarrow> None | Some b \<Rightarrow>
     (case checked_add response_epoch b of None \<Rightarrow> None | Some retry \<Rightarrow>
     (case checked_mul (case retry_after of None \<Rightarrow> 0 | Some r \<Rightarrow> r) 1000000000 of None \<Rightarrow> None | Some h \<Rightarrow>
     (case checked_add h response_epoch of None \<Rightarrow> None | Some header \<Rightarrow>
        Some (max (max floor_ns retry) header))))))"

text \<open>\<open>BootId::parse\<close>: the 36 bytes of a lower-case UUID.\<close>

definition boot_id_char :: "nat \<Rightarrow> uchar \<Rightarrow> bool" where
  "boot_id_char i b \<longleftrightarrow>
     (if i \<in> set [8, 13, 18, 23] then b = 45 else is_ascii_digit b \<or> (97 \<le> b \<and> b \<le> 102))"

definition BootId_parse :: "ustr \<Rightarrow> ustr option" where
  "BootId_parse raw =
     (if byte_len raw = 36 \<and> list_all (\<lambda>(i, b). boot_id_char i b) (enumerate 0 raw) then Some raw else None)"

record ClockSample =
  boot_id :: ustr
  epoch_ns :: u64
  monotonic_ns :: u64
  synchronized :: bool

text \<open>\<open>RetryAfterSeconds::parse\<close>.\<close>

definition RetryAfterSeconds_parse :: "ustr \<Rightarrow> u32 option" where
  "RetryAfterSeconds_parse raw =
     (case parse_unsigned 64 raw of None \<Rightarrow> None
      | Some v \<Rightarrow> if 86400 < v then None else Some (of_nat v))"

section \<open>Bounds\<close>

lemma next_backoff_Some:
  assumes "next_backoff p = Some b"
  shows "900 \<le> unat b \<or> unat b = 2 * unat p" "unat b \<le> 86400 \<or> p = 0" "0 < unat b"
proof -
  have c: "unat d = unat p * 2" if "checked_mul p 2 = Some d" for d
    using checked_mul_Some [OF that] by simp
  have m: "unat (min d MAX_BACKOFF_SECONDS) = min (unat d) 86400" for d
    by (simp add: MAX_BACKOFF_SECONDS_def min_def word_le_nat_alt)
  have p: "p \<noteq> 0 \<Longrightarrow> 0 < unat p" by (simp add: unat_gt_0)
  from assms show "900 \<le> unat b \<or> unat b = 2 * unat p" "unat b \<le> 86400 \<or> p = 0" "0 < unat b"
    using c m p by (auto simp: next_backoff_def split: if_splits)
qed

lemma next_backoff_defined: "unat p \<le> 86400 \<Longrightarrow> \<exists>b. next_backoff p = Some b"
  by (auto simp: next_backoff_def checked_mul_def)

lemma next_deadline_Some:
  assumes "next_deadline a r b h = Some d"
  shows "unat a + unat ATTEMPT_WINDOW_NS \<le> unat d"
    and "unat r + unat b * 1000000000 \<le> unat d"
    and "unat r + (case h of None \<Rightarrow> 0 | Some s \<Rightarrow> unat s) * 1000000000 \<le> unat d"
proof -
  from assms obtain f b' t h' k where
    f: "checked_add a ATTEMPT_WINDOW_NS = Some f" and b: "checked_mul b 1000000000 = Some b'"
    and t: "checked_add r b' = Some t"
    and h: "checked_mul (case h of None \<Rightarrow> 0 | Some s \<Rightarrow> s) 1000000000 = Some h'"
    and k: "checked_add h' r = Some k" and d: "d = max (max f t) k"
    by (auto simp: next_deadline_def split: option.splits)
  have "unat f \<le> unat d" "unat t \<le> unat d" "unat k \<le> unat d"
    unfolding d by (simp_all add: word_le_nat_alt [symmetric] le_max_iff_disj)
  moreover have "unat b' = unat b * 1000000000" "unat h' = unat (case h of None \<Rightarrow> 0 | Some s \<Rightarrow> s) * 1000000000"
    using checked_mul_Some [OF b] checked_mul_Some [OF h] by simp_all
  moreover have "unat (case h of None \<Rightarrow> 0 | Some s \<Rightarrow> s) = (case h of None \<Rightarrow> 0 | Some s \<Rightarrow> unat s)"
    by (simp split: option.splits)
  ultimately show "unat a + unat ATTEMPT_WINDOW_NS \<le> unat d"
    "unat r + unat b * 1000000000 \<le> unat d"
    "unat r + (case h of None \<Rightarrow> 0 | Some s \<Rightarrow> unat s) * 1000000000 \<le> unat d"
    using checked_add_Some [OF f] checked_add_Some [OF t] checked_add_Some [OF k] by simp_all
qed

text \<open>The cadence never overflows before the year 2262: it is total on realistic samples.\<close>

lemma next_deadline_defined:
  assumes "unat a < 2 ^ 63" "unat r < 2 ^ 63" "unat b \<le> 86400"
    and "case h of None \<Rightarrow> True | Some s \<Rightarrow> unat s \<le> 86400"
  shows "\<exists>d. next_deadline a r b h = Some d"
proof -
  let ?h = "case h of None \<Rightarrow> 0 | Some s \<Rightarrow> s"
  have h: "unat ?h \<le> 86400" using assms(4) by (simp split: option.splits)
  have window: "unat ATTEMPT_WINDOW_NS = 900000000000" by (simp add: ATTEMPT_WINDOW_NS_def)
  obtain f where f: "checked_add a ATTEMPT_WINDOW_NS = Some f"
    using assms(1) window by (simp add: checked_add_def)
  obtain b' where b': "checked_mul b 1000000000 = Some b'"
    using assms(3) by (simp add: checked_mul_def)
  obtain h' where h': "checked_mul ?h 1000000000 = Some h'"
    using h by (simp add: checked_mul_def)
  have "unat b' \<le> 86400000000000" "unat h' \<le> 86400000000000"
    using checked_mul_Some [OF b'] checked_mul_Some [OF h'] h assms(3) by simp_all
  then obtain t k where "checked_add r b' = Some t" "checked_add h' r = Some k"
    using assms(2) by (simp add: checked_add_def)
  with f b' h' show ?thesis by (simp add: next_deadline_def)
qed

section \<open>Properties\<close>

text \<open>The backoff doubles from 15 minutes up to a day: from any value the lane can hold, the
  next one exists, is at least 15 minutes or the double, and never exceeds a day.\<close>

theorem next_backoff_bounds:
  assumes "p = 0 \<or> 900 \<le> unat p" and "unat p \<le> 86400"
  shows "\<exists>b. next_backoff p = Some b \<and> 900 \<le> unat b \<and> unat b \<le> 86400 \<and> unat p \<le> unat b
    \<and> (unat b = 86400 \<or> unat b = (if p = 0 then 900 else 2 * unat p))"
proof (cases "p = 0")
  case False
  have "checked_mul p 2 = Some (p * 2)" using assms(2) by (simp add: checked_mul_def)
  moreover from checked_mul_Some [OF this] have "unat (p * 2) = 2 * unat p" by simp
  moreover have "unat (min d MAX_BACKOFF_SECONDS) = min (unat d) 86400" for d
    by (simp add: MAX_BACKOFF_SECONDS_def min_def word_le_nat_alt)
  ultimately show ?thesis using assms False by (simp add: next_backoff_def min_def)
qed (simp add: next_backoff_def)

theorem next_backoff_bounds_witness: "next_backoff 57600 = Some 86400"
proof -
  have "\<exists>b. next_backoff 57600 = Some b \<and> 900 \<le> unat b \<and> unat b \<le> 86400 \<and> unat (57600::u64) \<le> unat b
      \<and> (unat b = 86400 \<or> unat b = (if (57600::u64) = 0 then 900 else 2 * unat (57600::u64)))"
    by (rule next_backoff_bounds) simp_all
  then obtain b where "next_backoff 57600 = Some b" "unat b = 86400" by auto
  moreover from this(2) have "b = 86400" by (simp add: word_unat_eq_iff)
  ultimately show ?thesis by simp
qed

text \<open>The next attempt honours all three floors (a full window after the attempt, the backoff
  and the server's \<open>Retry-After\<close> after the response), and the computation is defined for every
  clock before the year 2262.\<close>

theorem next_deadline_floors:
  assumes "unat a < 2 ^ 63" "unat r < 2 ^ 63" "unat b \<le> 86400"
    and "case h of None \<Rightarrow> True | Some s \<Rightarrow> unat s \<le> 86400"
  shows "\<exists>d. next_deadline a r b h = Some d \<and> unat a + 900000000000 \<le> unat d
    \<and> unat r + unat b * 1000000000 \<le> unat d
    \<and> unat r + (case h of None \<Rightarrow> 0 | Some s \<Rightarrow> unat s) * 1000000000 \<le> unat d"
proof -
  obtain d where d: "next_deadline a r b h = Some d" using next_deadline_defined [OF assms] by blast
  have "unat ATTEMPT_WINDOW_NS = 900000000000" by (simp add: ATTEMPT_WINDOW_NS_def)
  with d next_deadline_Some [OF d] show ?thesis by simp
qed

theorem next_deadline_floors_witness:
  "\<exists>d. next_deadline 1000 2000 1800 (Some 3600) = Some d \<and> 3600000002000 \<le> unat d"
  using next_deadline_floors [of 1000 2000 1800 "Some 3600"] by auto

end
