(* ===== verification/Lane.thy ===== *)
theory Lane
  imports Report Clock
begin

text \<open>
  \<open>src/discord_state_lane.rs\<close> with the types of \<open>src/discord_state_schema.rs\<close>: the serialized
  queue of notification reports, its one outstanding delivery reservation, and the canonical
  state file it is persisted to. Each operation is a function from the lane to the new lane and
  a result; the parameters of \<open>lane_env\<close> are SHA-256, the JSON reader and the Unicode tables,
  and each operation that writes takes the outcome of the write. The mutex serialises the
  operations, so a lane is one value; a poisoned mutex is not modelled.
\<close>

record lane_env =
  sha256 :: "bytes \<Rightarrow> bytes"
  from_slice :: "bytes \<Rightarrow> json option"
  udb :: unicode_db

section \<open>State\<close>

definition MAX_PAYLOAD_BYTES :: nat where "MAX_PAYLOAD_BYTES = 65536"
definition MAX_STATE_BYTES :: nat where "MAX_STATE_BYTES = 4 * 1024 * 1024"

datatype SafeDeliveryError =
    DTransport | DTimeout | DConnectionReset | DRetryableResponse | DPermanentResponse
  | DClock | DWrite | DCorrupt | DDisabled

definition PayloadBytes_try_from :: "bytes \<Rightarrow> NotificationStateError + bytes" where
  "PayloadBytes_try_from bs =
     (if bs = [] \<or> MAX_PAYLOAD_BYTES < length bs then Inl Capacity else Inr bs)"

definition payload_sha256 :: "lane_env \<Rightarrow> bytes \<Rightarrow> bytes" where
  "payload_sha256 env bs = sha256 env (ascii ''asrsub-payload-v1'' @ [0] @ bs)"

record OverflowSummary =
  attention_reports :: u64
  warning_reports :: u64
  completed_reports :: u64
  target_outcomes :: u64
  pre_admission_drops :: u64
  blocked_admissions :: u64

definition OverflowSummary_default :: OverflowSummary where
  "OverflowSummary_default = \<lparr>attention_reports = 0, warning_reports = 0, completed_reports = 0,
     target_outcomes = 0, pre_admission_drops = 0, blocked_admissions = 0\<rparr>"

record Reservation =
  res_id :: bytes
  payload :: bytes
  captured :: "ustr list"
  attempt_started_epoch_ns :: u64
  attempt_started_monotonic_ns :: u64
  reserved_next_attempt_epoch_ns :: u64

record LaneState =
  generation :: u64
  reports :: "EpisodeRunReport list"
  blocked :: "EpisodeRunReport list"
  reservation :: "Reservation option"
  disabled :: bool
  operation_id :: u64
  fenced :: bool
  overflow :: OverflowSummary
  last_attempt_epoch_ns :: "u64 option"
  next_attempt_epoch_ns :: "u64 option"
  backoff_seconds :: u64
  disk :: "bytes option"
  quarantined :: "(ustr \<times> bytes) list"

text \<open>The outcome of installing the state file: done, failed before the rename, or failed after
  it (the directory sync).\<close>

datatype persist_io = IoDone | IoBefore | IoAfter

record DeliveryView =
  view_generation :: u64
  view_overflow :: OverflowSummary
  view_reports :: "EpisodeRunReport list"

datatype InspectDueResult = Idle | Ready DeliveryView

record StateCommit =
  commit_generation :: u64
  commit_hash :: bytes

record ReservedDelivery = StateCommit +
  rd_reservation_id :: bytes
  rd_payload_sha256 :: bytes

record ResumedReservation = StateCommit +
  rr_reservation_id :: bytes
  rr_payload :: bytes

record BlockedRetryResult = StateCommit +
  promoted :: u32

record StateSnapshotBytes =
  canonical_bytes :: bytes
  source_state_hash :: bytes

record StateSnapshot =
  snap_generation :: u64
  snap_hash :: bytes
  snap_overflow :: OverflowSummary
  snap_disabled :: bool

record FenceWitness =
  fw_operation_id :: u64
  fence_generation :: u64
  queue_drained :: u32
  in_flight :: u32
  last_durable_state_hash :: bytes

definition StateSnapshotBytes_new :: "bytes \<Rightarrow> bytes \<Rightarrow> NotificationStateError + StateSnapshotBytes" where
  "StateSnapshotBytes_new bs h =
     (if MAX_STATE_BYTES < length bs then Inl Capacity
      else Inr \<lparr>canonical_bytes = bs, source_state_hash = h\<rparr>)"

section \<open>The canonical state\<close>

definition opt_u64 :: "u64 option \<Rightarrow> bytes" where
  "opt_u64 v = (case v of None \<Rightarrow> ascii ''null'' | Some n \<Rightarrow> utf8 (dec (unat n)))"

definition hex_report :: "EpisodeRunReport \<Rightarrow> bytes" where
  "hex_report r = encode_string (hex (encode_report r))"

fun comma_sep :: "bytes list \<Rightarrow> bytes" where
  "comma_sep [] = []"
| "comma_sep [b] = b"
| "comma_sep (b # c # r) = b @ ascii '','' @ comma_sep (c # r)"

definition canonical_reservation :: "Reservation \<Rightarrow> bytes" where
  "canonical_reservation r =
     ascii ''{\"id\":'' @ encode_string (hex (res_id r))
     @ ascii '',\"payload\":'' @ encode_string (hex (payload r))
     @ ascii '',\"captured\":['' @ comma_sep (map encode_string (captured r)) @ ascii '']''
     @ ascii '',\"attempt_started_epoch_ns\":'' @ utf8 (dec (unat (attempt_started_epoch_ns r)))
     @ ascii '',\"attempt_started_monotonic_ns\":'' @ utf8 (dec (unat (attempt_started_monotonic_ns r)))
     @ ascii '',\"reserved_next_attempt_epoch_ns\":'' @ utf8 (dec (unat (reserved_next_attempt_epoch_ns r)))
     @ ascii ''}''"

definition canonical_state :: "LaneState \<Rightarrow> bytes" where
  "canonical_state s =
     ascii ''{\"schema\":\"state-v1\",\"state_generation\":'' @ utf8 (dec (unat (generation s)))
     @ ascii '',\"disabled\":'' @ ascii (if disabled s then ''true'' else ''false'')
     @ ascii '',\"last_attempt_epoch_ns\":'' @ opt_u64 (last_attempt_epoch_ns s)
     @ ascii '',\"next_attempt_epoch_ns\":'' @ opt_u64 (next_attempt_epoch_ns s)
     @ ascii '',\"backoff_seconds\":'' @ utf8 (dec (unat (backoff_seconds s)))
     @ ascii '',\"reports\":['' @ comma_sep (map hex_report (reports s))
     @ ascii ''],\"blocked\":['' @ comma_sep (map hex_report (blocked s))
     @ ascii ''],\"reservation\":''
     @ (case reservation s of None \<Rightarrow> ascii ''null'' | Some r \<Rightarrow> canonical_reservation r)
     @ ascii ''}''"

definition state_hash :: "lane_env \<Rightarrow> LaneState \<Rightarrow> bytes" where
  "state_hash env s = domain_hash (sha256 env) (ascii ''asrsub-state-v1'') (canonical_state s)"

text \<open>\<open>persist\<close> and \<open>commit\<close>.\<close>

definition persist :: "persist_io \<Rightarrow> LaneState \<Rightarrow> LaneState \<times> (NotificationStateError + unit)" where
  "persist io s =
     (case io of
        IoDone \<Rightarrow> (s\<lparr>disk := Some (canonical_state s)\<rparr>, Inr ())
      | IoBefore \<Rightarrow> (s, Inl NIo)
      | IoAfter \<Rightarrow> (s\<lparr>disk := Some (canonical_state s)\<rparr>, Inl NIo))"

definition commit_of :: "lane_env \<Rightarrow> LaneState \<Rightarrow> StateCommit" where
  "commit_of env s = \<lparr>commit_generation = generation s, commit_hash = state_hash env s\<rparr>"

definition commit :: "lane_env \<Rightarrow> persist_io \<Rightarrow> LaneState \<Rightarrow> LaneState \<times> (NotificationStateError + StateCommit)" where
  "commit env io s =
     (case checked_add (generation s) 1 of
        None \<Rightarrow> (s, Inl Capacity)
      | Some g \<Rightarrow>
          (case persist io (s\<lparr>generation := g\<rparr>) of
             (s', Inl e) \<Rightarrow> (s', Inl e)
           | (s', Inr _) \<Rightarrow> (s', Inr (commit_of env s'))))"

definition ensure_open :: "LaneState \<Rightarrow> NotificationStateError option" where
  "ensure_open s = (if fenced s then Some Fenced else None)"

definition validate_clock :: "ClockSample \<Rightarrow> NotificationStateError option" where
  "validate_clock now = (if \<not> synchronized now \<or> boot_id now = [] then Some NClock else None)"

definition not_due :: "LaneState \<Rightarrow> ClockSample \<Rightarrow> bool" where
  "not_due s now \<longleftrightarrow>
     (case next_attempt_epoch_ns s of None \<Rightarrow> False | Some deadline \<Rightarrow> epoch_ns now < deadline)"

section \<open>Operations\<close>

definition inspect_due :: "LaneState \<Rightarrow> ClockSample \<Rightarrow> NotificationStateError + InspectDueResult" where
  "inspect_due s now =
     (if fenced s then Inl Fenced
      else if disabled s then Inl NDisabled
      else case validate_clock now of Some e \<Rightarrow> Inl e
      | None \<Rightarrow>
          if reservation s \<noteq> None \<or> reports s = [] then Inr Idle
          else if not_due s now then Inr Idle
          else case from_reports (reports s) of
              Inl _ \<Rightarrow> Inl Capacity
            | Inr (rs, _) \<Rightarrow> Inr (Ready \<lparr>view_generation = generation s, view_overflow = overflow s,
                                     view_reports = rs\<rparr>))"

text \<open>The admission loop of \<open>enqueue\<close>: a report already queued is skipped, a report that finds
  the queue full is blocked, and the loop stops at the first report without an id or without
  room, keeping what it has admitted so far.\<close>

fun admit :: "EpisodeRunReport list \<Rightarrow> LaneState \<Rightarrow> LaneState \<times> NotificationStateError option" where
  "admit [] s = (s, None)"
| "admit (r # rs) s =
     (case pipeline_commit_id r of
        None \<Rightarrow> (s, Some InvalidInput)
      | Some i \<Rightarrow>
          if list_ex (\<lambda>old. pipeline_commit_id old = Some i) (reports s) then admit rs s
          else if 128 \<le> length (reports s) then
            (if 16 \<le> length (blocked s) then (s, Some Capacity)
             else admit rs (s\<lparr>blocked := blocked s @ [r]\<rparr>))
          else admit rs (s\<lparr>reports := reports s @ [r]\<rparr>))"

definition enqueue ::
    "lane_env \<Rightarrow> persist_io \<Rightarrow> EpisodeRunReport list \<Rightarrow> ClockSample \<Rightarrow> LaneState
      \<Rightarrow> LaneState \<times> (NotificationStateError + StateCommit)" where
  "enqueue env io rs now s =
     (case ensure_open s of Some e \<Rightarrow> (s, Inl e) | None \<Rightarrow>
     (case validate_clock now of Some e \<Rightarrow> (s, Inl e) | None \<Rightarrow>
        if rs = [] then (s, Inr (commit_of env s))
        else case admit rs s of
            (s', Some e) \<Rightarrow> (s', Inl e)
          | (s', None) \<Rightarrow> commit env io s'))"

text \<open>\<open>u64::to_le_bytes\<close>.\<close>

definition le_bytes :: "u64 \<Rightarrow> bytes" where
  "le_bytes n = map (\<lambda>k. of_nat (unat n div 256 ^ k mod 256)) [0..<8]"

definition reservation_id_of :: "lane_env \<Rightarrow> u64 \<Rightarrow> bytes \<Rightarrow> bytes" where
  "reservation_id_of env g p = sha256 env (ascii ''asrsub-reservation-v1'' @ [0] @ le_bytes g @ p)"

definition reserve_rendered ::
    "lane_env \<Rightarrow> persist_io \<Rightarrow> ClockSample \<Rightarrow> DeliveryView \<Rightarrow> bytes \<Rightarrow> LaneState
      \<Rightarrow> LaneState \<times> (NotificationStateError + ReservedDelivery)" where
  "reserve_rendered env io now view p s =
     (case ensure_open s of Some e \<Rightarrow> (s, Inl e) | None \<Rightarrow>
     (case validate_clock now of Some e \<Rightarrow> (s, Inl e) | None \<Rightarrow>
        if reservation s \<noteq> None \<or> view_generation view \<noteq> generation s then (s, Inl StaleView)
        else if not_due s now then (s, Inl NClock)
        else case checked_add (epoch_ns now) ATTEMPT_WINDOW_NS of
            None \<Rightarrow> (s, Inl NClock)
          | Some deadline \<Rightarrow>
              (let i = reservation_id_of env (generation s) p;
                   r = \<lparr>res_id = i, payload = p,
                        captured = List.map_filter pipeline_commit_id (reports s),
                        attempt_started_epoch_ns = epoch_ns now,
                        attempt_started_monotonic_ns = monotonic_ns now,
                        reserved_next_attempt_epoch_ns = deadline\<rparr>;
                   s1 = s\<lparr>reservation := Some r, last_attempt_epoch_ns := Some (epoch_ns now),
                          next_attempt_epoch_ns := Some deadline\<rparr>
               in case commit env io s1 of
                    (s', Inl e) \<Rightarrow> (s', Inl e)
                  | (s', Inr c) \<Rightarrow>
                      (s', Inr \<lparr>commit_generation = commit_generation c, commit_hash = commit_hash c,
                                rd_reservation_id = i, rd_payload_sha256 = payload_sha256 env p\<rparr>))))"

text \<open>\<open>resume_reservation\<close> updates the attempt times of the reservation before it computes the
  deadline, so a clock overflow leaves those two fields changed.\<close>

definition resume_reservation ::
    "lane_env \<Rightarrow> persist_io \<Rightarrow> ClockSample \<Rightarrow> LaneState
      \<Rightarrow> LaneState \<times> (NotificationStateError + ResumedReservation option)" where
  "resume_reservation env io now s =
     (case ensure_open s of Some e \<Rightarrow> (s, Inl e) | None \<Rightarrow>
     (case validate_clock now of Some e \<Rightarrow> (s, Inl e) | None \<Rightarrow>
        if not_due s now then (s, Inr None)
        else case reservation s of None \<Rightarrow> (s, Inr None)
        | Some r \<Rightarrow>
            (let r1 = r\<lparr>attempt_started_epoch_ns := epoch_ns now,
                        attempt_started_monotonic_ns := monotonic_ns now\<rparr>
             in case checked_add (epoch_ns now) ATTEMPT_WINDOW_NS of
                  None \<Rightarrow> (s\<lparr>reservation := Some r1\<rparr>, Inl NClock)
                | Some deadline \<Rightarrow>
                    (let s1 = s\<lparr>reservation := Some (r1\<lparr>reserved_next_attempt_epoch_ns := deadline\<rparr>),
                               last_attempt_epoch_ns := Some (epoch_ns now),
                               next_attempt_epoch_ns := Some deadline\<rparr>
                     in case commit env io s1 of
                          (s', Inl e) \<Rightarrow> (s', Inl e)
                        | (s', Inr c) \<Rightarrow>
                            (s', Inr (Some \<lparr>commit_generation = commit_generation c,
                                            commit_hash = commit_hash c,
                                            rr_reservation_id = res_id r, rr_payload = payload r\<rparr>))))))"

definition is_captured :: "Reservation \<Rightarrow> EpisodeRunReport \<Rightarrow> bool" where
  "is_captured r rep = (case pipeline_commit_id rep of None \<Rightarrow> False | Some i \<Rightarrow> i \<in> set (captured r))"

definition acknowledge ::
    "lane_env \<Rightarrow> persist_io \<Rightarrow> bytes \<Rightarrow> bytes \<Rightarrow> LaneState
      \<Rightarrow> LaneState \<times> (NotificationStateError + StateCommit)" where
  "acknowledge env io i h s =
     (case ensure_open s of Some e \<Rightarrow> (s, Inl e) | None \<Rightarrow>
     (case reservation s of None \<Rightarrow> (s, Inl InvalidInput)
      | Some r \<Rightarrow>
          if res_id r \<noteq> i \<or> payload_sha256 env (payload r) \<noteq> h then (s, Inl InvalidInput)
          else commit env io (s\<lparr>reservation := None,
                 reports := filter (\<lambda>rep. \<not> is_captured r rep) (reports s), backoff_seconds := 0\<rparr>)))"

definition permanent :: "SafeDeliveryError \<Rightarrow> bool" where
  "permanent c \<longleftrightarrow> c = DPermanentResponse \<or> c = DDisabled \<or> c = DCorrupt"

text \<open>\<open>record_attempt_failure\<close> clears the reservation before it computes the next deadline.\<close>

definition record_attempt_failure ::
    "lane_env \<Rightarrow> persist_io \<Rightarrow> bytes \<Rightarrow> SafeDeliveryError \<Rightarrow> ClockSample \<Rightarrow> u32 option \<Rightarrow> LaneState
      \<Rightarrow> LaneState \<times> (NotificationStateError + StateCommit)" where
  "record_attempt_failure env io i class sample retry_after s =
     (case ensure_open s of Some e \<Rightarrow> (s, Inl e) | None \<Rightarrow>
        if map_option res_id (reservation s) \<noteq> Some i then (s, Inl InvalidInput)
        else case validate_clock sample of Some e \<Rightarrow> (s, Inl e) | None \<Rightarrow>
        (let s1 = s\<lparr>reservation := None\<rparr>
         in if permanent class then commit env io (s1\<lparr>disabled := True\<rparr>)
            else case next_backoff (backoff_seconds s) of None \<Rightarrow> (s1, Inl NClock)
            | Some b \<Rightarrow>
                (case next_deadline (epoch_ns sample) (epoch_ns sample) b (map_option ucast retry_after) of
                   None \<Rightarrow> (s1, Inl NClock)
                 | Some d \<Rightarrow>
                     commit env io (s1\<lparr>backoff_seconds := b,
                       last_attempt_epoch_ns := Some (epoch_ns sample),
                       next_attempt_epoch_ns := Some d\<rparr>))))"

text \<open>The promotion loop of \<open>retry_blocked\<close>; at most 16 blocked reports, so the counter cannot
  overflow.\<close>

fun promote :: "EpisodeRunReport list \<Rightarrow> EpisodeRunReport list \<Rightarrow> u32
    \<Rightarrow> EpisodeRunReport list \<times> EpisodeRunReport list \<times> u32 option" where
  "promote reps [] n = (reps, [], Some n)"
| "promote reps (b # bs) n =
     (if length reps < 128 then
        (if list_ex (\<lambda>old. pipeline_commit_id old = pipeline_commit_id b) reps then promote reps bs n
         else case checked_add n 1 of
             None \<Rightarrow> (reps @ [b], bs, None)
           | Some n' \<Rightarrow> promote (reps @ [b]) bs n')
      else (reps, b # bs, Some n))"

definition retry_blocked ::
    "lane_env \<Rightarrow> persist_io \<Rightarrow> ClockSample \<Rightarrow> LaneState
      \<Rightarrow> LaneState \<times> (NotificationStateError + BlockedRetryResult)" where
  "retry_blocked env io now s =
     (case ensure_open s of Some e \<Rightarrow> (s, Inl e) | None \<Rightarrow>
     (case validate_clock now of Some e \<Rightarrow> (s, Inl e) | None \<Rightarrow>
     (case promote (reports s) (blocked s) 0 of (reps, bs, n) \<Rightarrow>
       (let s1 = s\<lparr>reports := reps, blocked := bs\<rparr>
        in case n of None \<Rightarrow> (s1, Inl Capacity)
           | Some n \<Rightarrow>
               if 0 < n then
                 (case commit env io s1 of
                    (s', Inl e) \<Rightarrow> (s', Inl e)
                  | (s', Inr c) \<Rightarrow> (s', Inr \<lparr>commit_generation = commit_generation c,
                                            commit_hash = commit_hash c, promoted = n\<rparr>))
               else (s1, Inr \<lparr>commit_generation = generation s1, commit_hash = state_hash env s1,
                              promoted = 0\<rparr>)))))"

definition reset_delivery ::
    "lane_env \<Rightarrow> persist_io \<Rightarrow> bytes \<Rightarrow> LaneState \<Rightarrow> LaneState \<times> (NotificationStateError + StateCommit)" where
  "reset_delivery env io expected s =
     (if state_hash env s \<noteq> expected then (s, Inl InvalidInput)
      else commit env io (s\<lparr>disabled := False\<rparr>))"

definition inspect :: "lane_env \<Rightarrow> LaneState \<Rightarrow> StateSnapshot" where
  "inspect env s = \<lparr>snap_generation = generation s, snap_hash = state_hash env s,
     snap_overflow = OverflowSummary_default, snap_disabled = disabled s\<rparr>"

definition snapshot :: "lane_env \<Rightarrow> LaneState \<Rightarrow> NotificationStateError + StateSnapshotBytes" where
  "snapshot env s = StateSnapshotBytes_new (canonical_state s) (state_hash env s)"

definition fence :: "lane_env \<Rightarrow> LaneState \<Rightarrow> LaneState \<times> (NotificationStateError + FenceWitness)" where
  "fence env s =
     (let s1 = s\<lparr>fenced := True\<rparr>
      in case checked_add (operation_id s) 1 of
           None \<Rightarrow> (s1, Inl Capacity)
         | Some n \<Rightarrow>
             (let s2 = s1\<lparr>operation_id := n\<rparr>
              in (s2, Inr \<lparr>fw_operation_id = n, fence_generation = generation s2, queue_drained = 0,
                           in_flight = 0, last_durable_state_hash = state_hash env s2\<rparr>)))"

section \<open>Loading\<close>

text \<open>\<open>decode_hex\<close> with the digits \<open>u8::from_str_radix\<close> takes: either case, and a plus sign in
  front of a single digit.\<close>

definition radix16_value :: "byte \<Rightarrow> nat option" where
  "radix16_value b =
     (let c = unat b in
      if is_ascii_digit c then Some (c - 48)
      else if 97 \<le> c \<and> c \<le> 102 then Some (c - 87)
      else if 65 \<le> c \<and> c \<le> 70 then Some (c - 55) else None)"

definition radix16_pair :: "byte \<Rightarrow> byte \<Rightarrow> byte option" where
  "radix16_pair a b =
     (if a = 43 then map_option of_nat (radix16_value b)
      else case (radix16_value a, radix16_value b) of
          (Some x, Some y) \<Rightarrow> Some (of_nat (16 * x + y))
        | _ \<Rightarrow> None)"

fun decode_hex_bytes :: "bytes \<Rightarrow> bytes option" where
  "decode_hex_bytes [] = Some []"
| "decode_hex_bytes [_] = None"
| "decode_hex_bytes (a # b # r) =
     (case radix16_pair a b of None \<Rightarrow> None
      | Some x \<Rightarrow> map_option (\<lambda>xs. x # xs) (decode_hex_bytes r))"

definition decode_hex :: "ustr \<Rightarrow> bytes option" where
  "decode_hex v = decode_hex_bytes (utf8 v)"

fun decode_reports :: "lane_env \<Rightarrow> json list \<Rightarrow> NotificationStateError + EpisodeRunReport list" where
  "decode_reports env [] = Inr []"
| "decode_reports env (j # js) =
     (case Option.bind (as_str j) decode_hex of None \<Rightarrow> Inl Corrupt | Some bs \<Rightarrow>
     (case decode_report (sha256 env) (udb env) (from_slice env) bs of Inl e \<Rightarrow> Inl e | Inr r \<Rightarrow>
     (case decode_reports env js of Inl e \<Rightarrow> Inl e | Inr rs \<Rightarrow> Inr (r # rs))))"

definition get_u64 :: "string \<Rightarrow> json \<Rightarrow> u64 option" where
  "get_u64 k o' = map_option of_nat (Option.bind (json_get (lit k) o') as_u64)"

definition get_hex :: "string \<Rightarrow> json \<Rightarrow> bytes option" where
  "get_hex k o' = Option.bind (get_str k o') decode_hex"

definition parse_reservation :: "u64 option \<Rightarrow> json \<Rightarrow> NotificationStateError + Reservation" where
  "parse_reservation next v =
     (if \<not> is_object v then Inl Corrupt
      else case get_hex ''id'' v of None \<Rightarrow> Inl Corrupt | Some i \<Rightarrow>
      if length i \<noteq> 32 then Inl Corrupt
      else case get_hex ''payload'' v of None \<Rightarrow> Inl Corrupt | Some praw \<Rightarrow>
      (case PayloadBytes_try_from praw of Inl e \<Rightarrow> Inl e | Inr p \<Rightarrow>
       (let cap = (case Option.bind (json_get (lit ''captured'') v) as_array of
                     None \<Rightarrow> [] | Some js \<Rightarrow> List.map_filter as_str js);
            started = (case get_u64 ''attempt_started_epoch_ns'' v of
                         Some n \<Rightarrow> n
                       | None \<Rightarrow> sat_sub (case next of Some n \<Rightarrow> n | None \<Rightarrow> 0) ATTEMPT_WINDOW_NS);
            mono = (case get_u64 ''attempt_started_monotonic_ns'' v of Some n \<Rightarrow> n | None \<Rightarrow> 0);
            deadline = (case get_u64 ''reserved_next_attempt_epoch_ns'' v of
                          Some n \<Rightarrow> n
                        | None \<Rightarrow> (case next of Some n \<Rightarrow> n | None \<Rightarrow> sat_add started ATTEMPT_WINDOW_NS))
        in Inr \<lparr>res_id = i, payload = p, captured = cap, attempt_started_epoch_ns = started,
                attempt_started_monotonic_ns = mono, reserved_next_attempt_epoch_ns = deadline\<rparr>)))"

record ParsedState =
  ps_reports :: "EpisodeRunReport list"
  ps_disabled :: bool
  ps_reservation :: "Reservation option"
  ps_blocked :: "EpisodeRunReport list"

definition parse_state_bytes :: "lane_env \<Rightarrow> bytes \<Rightarrow> NotificationStateError + ParsedState" where
  "parse_state_bytes env bs =
     (case from_slice env bs of None \<Rightarrow> Inl Corrupt | Some o' \<Rightarrow>
      if \<not> is_object o' \<or> get_str ''schema'' o' \<noteq> Some (lit ''state-v1'') then Inl Corrupt
      else
       (let dis = (case Option.bind (json_get (lit ''disabled'') o') as_bool of None \<Rightarrow> False | Some b \<Rightarrow> b);
            next = get_u64 ''next_attempt_epoch_ns'' o'
        in case Option.bind (json_get (lit ''reports'') o') as_array of None \<Rightarrow> Inl Corrupt | Some js \<Rightarrow>
        (case decode_reports env js of Inl e \<Rightarrow> Inl e | Inr reps \<Rightarrow>
        (case (case Option.bind (json_get (lit ''blocked'') o') as_array of
                 None \<Rightarrow> Inr [] | Some bjs \<Rightarrow> decode_reports env bjs) of Inl e \<Rightarrow> Inl e | Inr bl \<Rightarrow>
        (case (case json_get (lit ''reservation'') o' of
                 None \<Rightarrow> Inr None
               | Some v \<Rightarrow> if v = JNull then Inr None
                           else (case parse_reservation next v of Inl e \<Rightarrow> Inl e | Inr r \<Rightarrow> Inr (Some r)))
         of Inl e \<Rightarrow> Inl e
          | Inr res \<Rightarrow> Inr \<lparr>ps_reports = reps, ps_disabled = dis, ps_reservation = res,
                            ps_blocked = bl\<rparr>)))))"

text \<open>\<open>load_state\<close> sets the generation before it parses the rest.\<close>

definition load_state :: "lane_env \<Rightarrow> bytes \<Rightarrow> LaneState \<Rightarrow> LaneState \<times> NotificationStateError option" where
  "load_state env bs s =
     (case from_slice env bs of None \<Rightarrow> (s, Some Corrupt) | Some v \<Rightarrow>
     (case get_u64 ''state_generation'' v of None \<Rightarrow> (s, Some Corrupt) | Some g \<Rightarrow>
      (let s1 = s\<lparr>generation := g\<rparr>
       in case parse_state_bytes env bs of
            Inl e \<Rightarrow> (s1, Some e)
          | Inr p \<Rightarrow>
              (s1\<lparr>reports := ps_reports p, disabled := ps_disabled p, reservation := ps_reservation p,
                  blocked := ps_blocked p,
                  last_attempt_epoch_ns := get_u64 ''last_attempt_epoch_ns'' v,
                  next_attempt_epoch_ns := get_u64 ''next_attempt_epoch_ns'' v,
                  backoff_seconds := (case get_u64 ''backoff_seconds'' v of None \<Rightarrow> 0 | Some n \<Rightarrow> n)\<rparr>, None))))"

definition quarantine_name :: "lane_env \<Rightarrow> bytes \<Rightarrow> ustr" where
  "quarantine_name env bs =
     lit ''state-'' @ hex (domain_hash (sha256 env) (ascii ''asrsub-quarantine-v1'') bs) @ lit ''.json''"

definition quarantine :: "lane_env \<Rightarrow> bool \<Rightarrow> LaneState \<Rightarrow> LaneState" where
  "quarantine env moved s =
     (case disk s of
        Some bs \<Rightarrow> if moved then s\<lparr>disk := None, quarantined := (quarantine_name env bs, bs) # quarantined s\<rparr> else s
      | None \<Rightarrow> s)"

definition empty_lane :: "bytes option \<Rightarrow> LaneState" where
  "empty_lane file = \<lparr>generation = 0, reports = [], blocked = [], reservation = None, disabled = False,
     operation_id = 0, fenced = False, overflow = OverflowSummary_default,
     last_attempt_epoch_ns = None, next_attempt_epoch_ns = None, backoff_seconds = 0,
     disk = file, quarantined = []\<rparr>"

text \<open>\<open>open\<close>: a file that cannot be read or parsed is moved to quarantine and the lane starts
  disabled. \<open>readable\<close> and \<open>moved\<close> are the outcomes of reading and renaming the file.\<close>

definition open_lane ::
    "lane_env \<Rightarrow> bool \<Rightarrow> bool \<Rightarrow> bool \<Rightarrow> persist_io \<Rightarrow> bytes option
      \<Rightarrow> LaneState \<times> (NotificationStateError + unit)" where
  "open_lane env setup_ok readable moved io file =
     (let s = empty_lane file in
      if \<not> setup_ok then (s, Inl NIo)
      else case file of None \<Rightarrow> persist io s
      | Some bs \<Rightarrow>
          (case (if readable then load_state env bs s else (s, Some NIo)) of
             (s1, None) \<Rightarrow> (s1, Inr ())
           | (s1, Some _) \<Rightarrow>
               persist io ((quarantine env (readable \<and> moved) s1)\<lparr>disabled := True\<rparr>)))"

definition restore ::
    "lane_env \<Rightarrow> persist_io \<Rightarrow> StateSnapshotBytes \<Rightarrow> bytes \<Rightarrow> u64 \<Rightarrow> LaneState
      \<Rightarrow> LaneState \<times> (NotificationStateError + StateCommit)" where
  "restore env io snap expected_hash expected_generation s =
     (if state_hash env s \<noteq> expected_hash \<or> generation s \<noteq> expected_generation then (s, Inl StaleView)
      else case parse_state_bytes env (canonical_bytes snap) of Inl _ \<Rightarrow> (s, Inl Corrupt)
      | Inr p \<Rightarrow>
          (let s1 = s\<lparr>reports := ps_reports p\<rparr>
           in case checked_add (generation s) 1 of None \<Rightarrow> (s1, Inl Capacity)
           | Some g \<Rightarrow>
               (case persist io (s1\<lparr>generation := g, reservation := None\<rparr>) of
                  (s', Inl e) \<Rightarrow> (s', Inl e)
                | (s', Inr _) \<Rightarrow> (s', Inr (commit_of env s')))))"

section \<open>Writes\<close>

lemma canonical_state_disk [simp]: "canonical_state (s\<lparr>disk := d\<rparr>) = canonical_state s"
  by (simp add: canonical_state_def)

definition durable :: "LaneState \<Rightarrow> bool" where
  "durable s \<longleftrightarrow> disk s = Some (canonical_state s)"

lemma persist_Inr: "persist io s = (s', Inr u) \<Longrightarrow> s' = s\<lparr>disk := Some (canonical_state s)\<rparr>"
  by (cases io) (auto simp: persist_def)

text \<open>Post-processing the result of a write leaves the state alone.\<close>

lemma fst_result_map [simp]:
  "fst (case p of (s', Inl e) \<Rightarrow> (s', Inl e) | (s', Inr c) \<Rightarrow> (s', Inr (f c))) = fst p"
  by (simp split: prod.splits sum.splits)

lemma snd_result_map:
  "(case p of (s', Inl e) \<Rightarrow> (s', Inl e) | (s', Inr c) \<Rightarrow> (s', Inr (f c))) = (t, Inr x)
    \<longleftrightarrow> (\<exists>c. p = (t, Inr c) \<and> x = f c)"
  by (auto split: prod.splits sum.splits)

lemma commit_Inr:
  assumes "commit env io s = (s', Inr c)"
  shows "durable s'" "unat (generation s') = unat (generation s) + 1" "c = commit_of env s'"
    "s' = s\<lparr>generation := generation s', disk := disk s'\<rparr>"
  using assms checked_add_Some [of "generation s" 1]
  by (auto simp: commit_def durable_def dest!: persist_Inr split: option.splits prod.splits sum.splits)

lemma commit_generation_mono: "generation s \<le> generation (fst (commit env io s))"
  using checked_add_mono [of "generation s" 1]
  by (cases io) (auto simp: commit_def persist_def split: option.splits)

section \<open>Invariants\<close>

definition queue_ids :: "LaneState \<Rightarrow> ustr option list" where
  "queue_ids s = map pipeline_commit_id (reports s)"

definition queue_inv :: "LaneState \<Rightarrow> bool" where
  "queue_inv s \<longleftrightarrow> length (reports s) \<le> 128 \<and> length (blocked s) \<le> 16
     \<and> None \<notin> set (queue_ids s) \<and> None \<notin> set (map pipeline_commit_id (blocked s))
     \<and> distinct (queue_ids s)"

fun reservation_ok :: "Reservation option \<Rightarrow> ustr option set \<Rightarrow> u64 option \<Rightarrow> bool" where
  "reservation_ok None ids next = True"
| "reservation_ok (Some r) ids next \<longleftrightarrow>
     Some ` set (captured r) \<subseteq> ids \<and> next = Some (reserved_next_attempt_epoch_ns r)"

fun spacing_ok :: "u64 option \<Rightarrow> u64 option \<Rightarrow> bool" where
  "spacing_ok None next = True"
| "spacing_ok (Some t) None = False"
| "spacing_ok (Some t) (Some d) \<longleftrightarrow> unat t + unat ATTEMPT_WINDOW_NS \<le> unat d"

definition lane_inv :: "LaneState \<Rightarrow> bool" where
  "lane_inv s \<longleftrightarrow> queue_inv s
     \<and> reservation_ok (reservation s) (set (queue_ids s)) (next_attempt_epoch_ns s)
     \<and> spacing_ok (last_attempt_epoch_ns s) (next_attempt_epoch_ns s)"

lemmas inv_defs = lane_inv_def queue_inv_def queue_ids_def

lemma reservation_ok_mono: "reservation_ok r ids n \<Longrightarrow> ids \<subseteq> ids' \<Longrightarrow> reservation_ok r ids' n"
  by (cases r) auto

lemma lane_inv_write [simp]:
  "lane_inv (s\<lparr>generation := g\<rparr>) = lane_inv s" "lane_inv (s\<lparr>disk := d\<rparr>) = lane_inv s"
  by (simp_all add: inv_defs)

lemma commit_inv [simp]: "lane_inv (fst (commit env io s)) = lane_inv s"
  by (cases io) (auto simp: commit_def persist_def split: option.splits)

lemma admit_inv: "lane_inv s \<Longrightarrow> lane_inv (fst (admit rs s))"
proof (induction rs s rule: admit.induct)
  case (2 r rs s)
  show ?case
  proof (cases "pipeline_commit_id r")
    case (Some i)
    show ?thesis
    proof (cases "list_ex (\<lambda>old. pipeline_commit_id old = Some i) (reports s)")
      case True
      with 2 Some show ?thesis by simp
    next
      case False
      then have new: "Some i \<notin> set (queue_ids s)" by (auto simp: queue_ids_def list_ex_iff)
      show ?thesis
      proof (cases "128 \<le> length (reports s)")
        case full: True
        have "length (blocked s) < 16 \<Longrightarrow> lane_inv (s\<lparr>blocked := blocked s @ [r]\<rparr>)"
          using "2.prems" Some by (auto simp: inv_defs)
        with 2 Some False full show ?thesis by (auto simp: not_le)
      next
        case room: False
        have "lane_inv (s\<lparr>reports := reports s @ [r]\<rparr>)"
          using "2.prems" Some new room by (auto simp: inv_defs elim: reservation_ok_mono)
        with 2 Some False room show ?thesis by auto
      qed
    qed
  qed (use 2 in simp)
qed simp

lemma promote_inv:
  assumes "promote reps bs n = (reps', bs', n')" and "None \<notin> set (map pipeline_commit_id reps)"
    and "None \<notin> set (map pipeline_commit_id bs)" and "distinct (map pipeline_commit_id reps)"
    and "length reps \<le> 128"
  shows "length reps' \<le> 128 \<and> length bs' \<le> length bs \<and> None \<notin> set (map pipeline_commit_id reps')
    \<and> None \<notin> set (map pipeline_commit_id bs') \<and> distinct (map pipeline_commit_id reps')
    \<and> set (map pipeline_commit_id reps) \<subseteq> set (map pipeline_commit_id reps')"
  using assms
proof (induction reps bs n rule: promote.induct)
  case (2 reps b bs n)
  show ?case
  proof (cases "length reps < 128")
    case True
    show ?thesis
    proof (cases "list_ex (\<lambda>old. pipeline_commit_id old = pipeline_commit_id b) reps")
      case True
      with 2 \<open>length reps < 128\<close> show ?thesis by auto
    next
      case False
      then have new: "pipeline_commit_id b \<notin> set (map pipeline_commit_id reps)"
        by (auto simp: list_ex_iff)
      with 2 \<open>length reps < 128\<close> False show ?thesis
        by (cases "checked_add n 1") auto
    qed
  qed (use 2 in auto)
qed auto

lemma enqueue_inv: "lane_inv s \<Longrightarrow> lane_inv (fst (enqueue env io rs now s))"
  using admit_inv [of s rs]
  by (auto simp: enqueue_def split: option.splits prod.splits)

lemma map_filter_ids: "Some ` set (List.map_filter pipeline_commit_id rs) \<subseteq> set (map pipeline_commit_id rs)"
  by (force simp: List.map_filter_def)

lemma reserve_inv: "lane_inv s \<Longrightarrow> lane_inv (fst (reserve_rendered env io now view p s))"
  using map_filter_ids [of "reports s"]
  by (auto simp: reserve_rendered_def Let_def split: option.splits)
    (auto simp: inv_defs dest!: checked_add_Some)

lemma resume_inv: "lane_inv s \<Longrightarrow> lane_inv (fst (resume_reservation env io now s))"
  by (auto simp: resume_reservation_def Let_def split: option.splits)
    (auto simp: inv_defs dest!: checked_add_Some)

lemma acknowledge_inv: "lane_inv s \<Longrightarrow> lane_inv (fst (acknowledge env io i h s))"
  by (auto simp: acknowledge_def split: option.splits)
    (auto simp: inv_defs distinct_map_filter intro: le_trans [OF length_filter_le])

lemma failure_inv: "lane_inv s \<Longrightarrow> lane_inv (fst (record_attempt_failure env io i c now ra s))"
  by (auto simp: record_attempt_failure_def Let_def split: option.splits)
    (auto simp: inv_defs dest!: next_deadline_Some(1))

lemma retry_inv: "lane_inv s \<Longrightarrow> lane_inv (fst (retry_blocked env io now s))"
proof -
  assume inv: "lane_inv s"
  obtain reps bs n where p: "promote (reports s) (blocked s) 0 = (reps, bs, n)"
    using prod_cases3 by blast
  have "lane_inv (s\<lparr>reports := reps, blocked := bs\<rparr>)"
    using promote_inv [OF p] inv by (auto simp: inv_defs elim: reservation_ok_mono)
  with inv show ?thesis by (auto simp: retry_blocked_def Let_def p split: option.splits)
qed

lemma reset_inv: "lane_inv s \<Longrightarrow> lane_inv (fst (reset_delivery env io h s))"
proof -
  assume "lane_inv s"
  then have "lane_inv (s\<lparr>disabled := False\<rparr>)" by (simp add: inv_defs)
  with \<open>lane_inv s\<close> show ?thesis by (simp add: reset_delivery_def)
qed

lemma fence_inv: "lane_inv s \<Longrightarrow> lane_inv (fst (fence env s))"
  by (simp add: fence_def Let_def inv_defs split: option.splits)

lemmas operation_inv = enqueue_inv reserve_inv resume_inv acknowledge_inv failure_inv retry_inv
  reset_inv fence_inv

section \<open>Reachable lanes\<close>

text \<open>One operation of the serialized lane, with any arguments and any write outcome.
  (\<open>restore\<close> replaces the queue by the contents of a snapshot and is treated apart.)\<close>

inductive lane_step :: "lane_env \<Rightarrow> LaneState \<Rightarrow> LaneState \<Rightarrow> bool" for env where
  st_enqueue: "lane_step env s (fst (enqueue env io rs now s))"
| st_reserve: "lane_step env s (fst (reserve_rendered env io now view p s))"
| st_resume: "lane_step env s (fst (resume_reservation env io now s))"
| st_ack: "lane_step env s (fst (acknowledge env io i h s))"
| st_failure: "lane_step env s (fst (record_attempt_failure env io i c now ra s))"
| st_retry: "lane_step env s (fst (retry_blocked env io now s))"
| st_reset: "lane_step env s (fst (reset_delivery env io h s))"
| st_fence: "lane_step env s (fst (fence env s))"

inductive_cases lane_stepE: "lane_step env s s'"

inductive lane_run :: "lane_env \<Rightarrow> LaneState \<Rightarrow> LaneState \<Rightarrow> bool" for env s where
  run_refl: "lane_run env s s"
| run_step: "lane_run env s t \<Longrightarrow> lane_step env t u \<Longrightarrow> lane_run env s u"

lemma lane_step_inv: "lane_step env s s' \<Longrightarrow> lane_inv s \<Longrightarrow> lane_inv s'"
  by (elim lane_stepE) (simp_all add: operation_inv)

lemma lane_run_inv: "lane_run env s t \<Longrightarrow> lane_inv s \<Longrightarrow> lane_inv t"
  by (induction rule: lane_run.induct) (auto intro: lane_step_inv)

lemma fresh_inv: "lane_inv (fst (open_lane env ok rd mv io None))"
  by (cases io) (auto simp: open_lane_def empty_lane_def persist_def Let_def inv_defs)

lemma admit_frame:
  "fst (admit rs s) = s\<lparr>reports := reports (fst (admit rs s)), blocked := blocked (fst (admit rs s))\<rparr>"
proof (induction rs s rule: admit.induct)
  case (2 r rs s)
  then show ?case
    by (auto split: option.splits)
qed simp

lemma admit_generation [simp]: "generation (fst (admit rs s)) = generation s" "fenced (fst (admit rs s)) = fenced s"
  by (subst admit_frame; simp)+

lemma commit_fenced [simp]: "fenced (fst (commit env io s)) = fenced s"
  by (cases io) (auto simp: commit_def persist_def split: option.splits)

lemma commit_mono: "generation s = g \<Longrightarrow> g \<le> generation (fst (commit env io s))"
  using commit_generation_mono by blast

lemma enqueue_state:
  "fst (enqueue env io rs now s) = s \<or> fst (enqueue env io rs now s) = fst (admit rs s)
    \<or> fst (enqueue env io rs now s) = fst (commit env io (fst (admit rs s)))"
  by (auto simp: enqueue_def split: option.splits prod.splits)

lemma retry_state:
  obtains "fst (retry_blocked env io now s) = s"
  | reps bs where "fst (retry_blocked env io now s) = s\<lparr>reports := reps, blocked := bs\<rparr>"
  | reps bs where "fst (retry_blocked env io now s) = fst (commit env io (s\<lparr>reports := reps, blocked := bs\<rparr>))"
proof -
  obtain reps bs n where p: "promote (reports s) (blocked s) 0 = (reps, bs, n)"
    using prod_cases3 by blast
  have "fst (retry_blocked env io now s) \<in> {s, s\<lparr>reports := reps, blocked := bs\<rparr>,
      fst (commit env io (s\<lparr>reports := reps, blocked := bs\<rparr>))}"
    by (simp add: retry_blocked_def p Let_def split: option.splits)
  with that show thesis by blast
qed

lemma lane_step_generation: "lane_step env s s' \<Longrightarrow> generation s \<le> generation s'"
proof (elim lane_stepE)
  fix io rs now assume "s' = fst (enqueue env io rs now s)"
  then show ?thesis
    using enqueue_state [of env io rs now s] commit_generation_mono [of "fst (admit rs s)" env io] by auto
next
  fix io now assume "s' = fst (retry_blocked env io now s)"
  then show ?thesis by (cases rule: retry_state [of env io now s]) (auto intro!: commit_mono)
qed (auto simp: reserve_rendered_def resume_reservation_def acknowledge_def record_attempt_failure_def
    reset_delivery_def fence_def Let_def intro!: commit_mono split: option.splits)

lemma lane_step_fenced: "lane_step env s s' \<Longrightarrow> fenced s \<Longrightarrow> fenced s'"
proof (elim lane_stepE)
  fix io rs now assume "s' = fst (enqueue env io rs now s)" "fenced s"
  then show ?thesis using enqueue_state [of env io rs now s] by auto
next
  fix io now assume "s' = fst (retry_blocked env io now s)" "fenced s"
  then show ?thesis by (cases rule: retry_state [of env io now s]) auto
qed (auto simp: reserve_rendered_def resume_reservation_def acknowledge_def record_attempt_failure_def
    reset_delivery_def fence_def Let_def split: option.splits)

lemma lane_run_generation: "lane_run env s t \<Longrightarrow> generation s \<le> generation t"
  by (induction rule: lane_run.induct) (auto dest: lane_step_generation)

lemma lane_run_fenced: "lane_run env s t \<Longrightarrow> fenced s \<Longrightarrow> fenced t"
  by (induction rule: lane_run.induct) (auto dest: lane_step_fenced)

section \<open>Successful operations\<close>

lemma reserve_Inr:
  assumes "reserve_rendered env io now view p s = (s', Inr rd)"
  obtains d c where "reservation s = None" "\<not> not_due s now" "\<not> fenced s" "synchronized now"
    "view_generation view = generation s"
    "checked_add (epoch_ns now) ATTEMPT_WINDOW_NS = Some d"
    "commit env io (s\<lparr>reservation := Some \<lparr>res_id = reservation_id_of env (generation s) p, payload = p,
        captured = List.map_filter pipeline_commit_id (reports s), attempt_started_epoch_ns = epoch_ns now,
        attempt_started_monotonic_ns = monotonic_ns now, reserved_next_attempt_epoch_ns = d\<rparr>,
        last_attempt_epoch_ns := Some (epoch_ns now), next_attempt_epoch_ns := Some d\<rparr>) = (s', Inr c)"
    "rd_reservation_id rd = reservation_id_of env (generation s) p" "rd_payload_sha256 rd = payload_sha256 env p"
    "commit_generation rd = commit_generation c"
  using assms
  by (auto simp: reserve_rendered_def Let_def snd_result_map ensure_open_def validate_clock_def
      split: option.splits if_splits)

lemma resume_Some:
  assumes "resume_reservation env io now s = (s', Inr (Some rr))"
  obtains r d c where "reservation s = Some r" "\<not> not_due s now" "\<not> fenced s"
    "checked_add (epoch_ns now) ATTEMPT_WINDOW_NS = Some d"
    "commit env io (s\<lparr>reservation := Some (r\<lparr>attempt_started_epoch_ns := epoch_ns now,
        attempt_started_monotonic_ns := monotonic_ns now, reserved_next_attempt_epoch_ns := d\<rparr>),
        last_attempt_epoch_ns := Some (epoch_ns now), next_attempt_epoch_ns := Some d\<rparr>) = (s', Inr c)"
    "rr_reservation_id rr = res_id r" "rr_payload rr = payload r"
  using assms
  by (auto simp: resume_reservation_def Let_def snd_result_map ensure_open_def validate_clock_def
      split: option.splits if_splits)

lemma acknowledge_Inr:
  assumes "acknowledge env io i h s = (s', Inr c)"
  obtains r where "reservation s = Some r" "res_id r = i" "payload_sha256 env (payload r) = h" "\<not> fenced s"
    "commit env io (s\<lparr>reservation := None, reports := filter (\<lambda>rep. \<not> is_captured r rep) (reports s),
       backoff_seconds := 0\<rparr>) = (s', Inr c)"
  using assms by (auto simp: acknowledge_def ensure_open_def split: option.splits if_splits)

lemma commit_frame:
  assumes "commit env io s = (s', Inr c)"
  shows "reports s' = reports s" "blocked s' = blocked s" "reservation s' = reservation s"
    "last_attempt_epoch_ns s' = last_attempt_epoch_ns s" "next_attempt_epoch_ns s' = next_attempt_epoch_ns s"
    "disabled s' = disabled s" "backoff_seconds s' = backoff_seconds s" "fenced s' = fenced s"
  using commit_Inr(4) [OF assms] by (metis LaneState.simps LaneState.surjective)+

text \<open>An attempt that starts is a full window after the last recorded one.\<close>

lemma due_after_window:
  assumes "spacing_ok (last_attempt_epoch_ns s) (next_attempt_epoch_ns s)" and "\<not> not_due s now"
    and "last_attempt_epoch_ns s = Some t"
  shows "unat t + unat ATTEMPT_WINDOW_NS \<le> unat (epoch_ns now)"
  using assms by (cases "next_attempt_epoch_ns s") (auto simp: not_due_def word_le_nat_alt not_less)

text \<open>Admission appends: what was queued stays in front.\<close>

lemma admit_reports: "\<exists>new. reports (fst (admit rs s)) = reports s @ new
    \<and> (\<forall>r \<in> set new. pipeline_commit_id r \<noteq> None \<and> pipeline_commit_id r \<notin> set (queue_ids s))"
proof (induction rs s rule: admit.induct)
  case (2 r rs s)
  show ?case
  proof (cases "pipeline_commit_id r")
    case (Some i)
    show ?thesis
    proof (cases "list_ex (\<lambda>old. pipeline_commit_id old = Some i) (reports s)")
      case True
      with 2 Some show ?thesis by simp
    next
      case False
      then have fresh: "Some i \<notin> set (queue_ids s)" by (auto simp: queue_ids_def list_ex_iff)
      show ?thesis
      proof (cases "128 \<le> length (reports s)")
        case True
        with 2 Some False show ?thesis by (auto simp: queue_ids_def)
      next
        case room: False
        from "2.IH"(3) [OF Some False room] obtain new where
          "reports (fst (admit rs (s\<lparr>reports := reports s @ [r]\<rparr>))) = reports s @ [r] @ new"
          "\<forall>x \<in> set new. pipeline_commit_id x \<noteq> None \<and> pipeline_commit_id x \<notin> set (queue_ids s)"
          by (auto simp: queue_ids_def)
        with Some False room fresh show ?thesis by (intro exI [of _ "r # new"]) auto
      qed
    qed
  qed simp
qed simp

section \<open>Restart\<close>

lemma utf8_ascii: "\<forall>c \<in> set s. c < 0x80 \<Longrightarrow> utf8 s = map of_nat s"
  by (induction s) (simp_all add: utf8_Cons utf8_char_def)

lemma unat_hex_digit: "d < 16 \<Longrightarrow> unat (of_nat (hex_digit d) :: byte) = hex_digit d"
  using hex_digit_small [of d] by (simp add: unat_of_nat take_bit_nat_eq_self_iff)

lemma radix16_value_digit [simp]: "d < 16 \<Longrightarrow> radix16_value (of_nat (hex_digit d)) = Some d"
  unfolding radix16_value_def Let_def by (simp only: unat_hex_digit)
    (auto simp: hex_digit_def is_ascii_digit_def)

lemma hex_digit_not_plus: "d < 16 \<Longrightarrow> (of_nat (hex_digit d) :: byte) \<noteq> 43"
proof
  assume d: "d < 16" and "(of_nat (hex_digit d) :: byte) = 43"
  then have "unat (of_nat (hex_digit d) :: byte) = 43" by simp
  then have "hex_digit d = 43" by (simp only: unat_hex_digit [OF d])
  with d show False by (auto simp: hex_digit_def split: if_splits)
qed

lemma decode_hex_hex [simp]: "decode_hex (hex bs) = Some bs"
proof -
  have "decode_hex_bytes (map of_nat (hex bs)) = Some bs"
  proof (induction bs)
    case (Cons b bs)
    have "(of_nat (16 * unat (drop_bit 4 b) + unat (b AND 15)) :: byte) = b"
      unfolding unat_nibbles(3) by simp
    with Cons show ?case
      by (simp add: hex_Cons radix16_pair_def unat_nibbles hex_digit_not_plus del: of_nat_add of_nat_mult)
  qed (simp add: hex_def)
  moreover have "utf8 (hex bs) = map of_nat (hex bs)"
    using hex_chars by (blast intro: utf8_ascii)
  ultimately show ?thesis by (simp add: decode_hex_def)
qed

definition report_hex_json :: "EpisodeRunReport \<Rightarrow> json" where
  "report_hex_json r = JStr (hex (encode_report r))"

definition u64_json :: "u64 \<Rightarrow> json" where
  "u64_json n = JInt (uint n)"

definition reservation_json :: "Reservation \<Rightarrow> json" where
  "reservation_json r = JObj
     [(lit ''id'', JStr (hex (res_id r))),
      (lit ''payload'', JStr (hex (payload r))),
      (lit ''captured'', JArr (map JStr (captured r))),
      (lit ''attempt_started_epoch_ns'', u64_json (attempt_started_epoch_ns r)),
      (lit ''attempt_started_monotonic_ns'', u64_json (attempt_started_monotonic_ns r)),
      (lit ''reserved_next_attempt_epoch_ns'', u64_json (reserved_next_attempt_epoch_ns r))]"

text \<open>The JSON value the canonical state denotes.\<close>

definition state_json :: "LaneState \<Rightarrow> json" where
  "state_json s = JObj
     [(lit ''schema'', JStr (lit ''state-v1'')),
      (lit ''state_generation'', u64_json (generation s)),
      (lit ''disabled'', JBool (disabled s)),
      (lit ''last_attempt_epoch_ns'', opt_json u64_json (last_attempt_epoch_ns s)),
      (lit ''next_attempt_epoch_ns'', opt_json u64_json (next_attempt_epoch_ns s)),
      (lit ''backoff_seconds'', u64_json (backoff_seconds s)),
      (lit ''reports'', JArr (map report_hex_json (reports s))),
      (lit ''blocked'', JArr (map report_hex_json (blocked s))),
      (lit ''reservation'', opt_json reservation_json (reservation s))]"

definition readable_report :: "lane_env \<Rightarrow> EpisodeRunReport \<Rightarrow> bool" where
  "readable_report env r \<longleftrightarrow>
     decode_report (sha256 env) (udb env) (from_slice env) (encode_report r) = Inr (forget_methods r)"

lemma as_u64_u64_json [simp]: "as_u64 (u64_json n) = Some (unat n)"
proof -
  have "uint n < 2 ^ LENGTH(64)" by (rule unsigned_less)
  then show ?thesis by (simp add: u64_json_def)
qed

lemma decode_reports_all:
  "\<forall>r \<in> set rs. readable_report env r
    \<Longrightarrow> decode_reports env (map report_hex_json rs) = Inr (map forget_methods rs)"
  by (induction rs) (simp_all add: report_hex_json_def readable_report_def)

lemma decode_reports_fails:
  "r \<in> set rs \<Longrightarrow> decode_report (sha256 env) (udb env) (from_slice env) (encode_report r) = Inl e
    \<Longrightarrow> \<exists>e'. decode_reports env (map report_hex_json rs) = Inl e'"
  by (induction rs) (auto simp: report_hex_json_def split: sum.splits)

definition wf_reservation :: "Reservation \<Rightarrow> bool" where
  "wf_reservation r \<longleftrightarrow> length (res_id r) = 32 \<and> payload r \<noteq> [] \<and> length (payload r) \<le> MAX_PAYLOAD_BYTES"

lemma map_filter_as_str [simp]: "List.map_filter as_str (map JStr xs) = xs"
  by (induction xs) (simp_all add: List.map_filter_def)

lemma parse_reservation_json:
  "wf_reservation r \<Longrightarrow> parse_reservation next (reservation_json r) = Inr r"
  by (auto simp: wf_reservation_def parse_reservation_def reservation_json_def get_hex_def get_str_def
      get_u64_def PayloadBytes_try_from_def Let_def)

text \<open>What a restart recovers: everything durable, with the provenance removed from reports.\<close>

definition recovered :: "LaneState \<Rightarrow> LaneState" where
  "recovered s = \<lparr>generation = generation s, reports = map forget_methods (reports s),
     blocked = map forget_methods (blocked s), reservation = reservation s, disabled = disabled s,
     operation_id = 0, fenced = False, overflow = OverflowSummary_default,
     last_attempt_epoch_ns = last_attempt_epoch_ns s, next_attempt_epoch_ns = next_attempt_epoch_ns s,
     backoff_seconds = backoff_seconds s, disk = Some (canonical_state s), quarantined = []\<rparr>"

lemma opt_u64_json:
  "map_option of_nat (as_u64 (opt_json u64_json v)) = v"
  by (cases v) (simp_all add: opt_json_def)

lemma state_json_fields:
  "is_object (state_json s)" "get_str ''schema'' (state_json s) = Some (lit ''state-v1'')"
  "get_u64 ''state_generation'' (state_json s) = Some (generation s)"
  "json_get (lit ''disabled'') (state_json s) = Some (JBool (disabled s))"
  "get_u64 ''last_attempt_epoch_ns'' (state_json s) = last_attempt_epoch_ns s"
  "get_u64 ''next_attempt_epoch_ns'' (state_json s) = next_attempt_epoch_ns s"
  "get_u64 ''backoff_seconds'' (state_json s) = Some (backoff_seconds s)"
  "json_get (lit ''reports'') (state_json s) = Some (JArr (map report_hex_json (reports s)))"
  "json_get (lit ''blocked'') (state_json s) = Some (JArr (map report_hex_json (blocked s)))"
  "json_get (lit ''reservation'') (state_json s) = Some (opt_json reservation_json (reservation s))"
  by (simp_all add: state_json_def get_str_def get_u64_def opt_u64_json)

lemma load_state_recovers:
  assumes "from_slice env (canonical_state s) = Some (state_json s)"
    and "\<forall>r \<in> set (reports s) \<union> set (blocked s). readable_report env r"
    and "case reservation s of None \<Rightarrow> True | Some r \<Rightarrow> wf_reservation r"
  shows "load_state env (canonical_state s) (empty_lane (Some (canonical_state s))) = (recovered s, None)"
proof -
  have reps: "decode_reports env (map report_hex_json (reports s)) = Inr (map forget_methods (reports s))"
    "decode_reports env (map report_hex_json (blocked s)) = Inr (map forget_methods (blocked s))"
    using assms(2) by (simp_all add: decode_reports_all)
  have "(case Some (opt_json reservation_json (reservation s)) of
                 None \<Rightarrow> Inr None
               | Some v \<Rightarrow> if v = JNull then Inr None
                           else (case parse_reservation (next_attempt_epoch_ns s) v of Inl e \<Rightarrow> Inl e | Inr r \<Rightarrow> Inr (Some r)))
      = Inr (reservation s)"
    using assms(3) parse_reservation_json
    by (cases "reservation s") (simp_all add: opt_json_def, simp add: reservation_json_def)
  then have "parse_state_bytes env (canonical_state s) = Inr \<lparr>ps_reports = map forget_methods (reports s),
      ps_disabled = disabled s, ps_reservation = reservation s, ps_blocked = map forget_methods (blocked s)\<rparr>"
    by (simp add: parse_state_bytes_def assms(1) state_json_fields reps Let_def)
  then show ?thesis
    by (simp add: load_state_def assms(1) state_json_fields Let_def empty_lane_def recovered_def)
qed

lemma load_state_poisoned:
  assumes "from_slice env (canonical_state s) = Some (state_json s)" and "r \<in> set (reports s)"
    and "decode_report (sha256 env) (udb env) (from_slice env) (encode_report r) = Inl e"
  shows "\<exists>e'. load_state env (canonical_state s) t = (t\<lparr>generation := generation s\<rparr>, Some e')"
proof -
  obtain e' where "decode_reports env (map report_hex_json (reports s)) = Inl e'"
    using decode_reports_fails [OF assms(2,3)] by blast
  then have "parse_state_bytes env (canonical_state s) = Inl e'"
    by (simp add: parse_state_bytes_def assms(1) state_json_fields Let_def)
  then show ?thesis
    by (simp add: load_state_def assms(1) state_json_fields Let_def)
qed

lemma set_map_filter: "set (List.map_filter f xs) = {y. \<exists>x \<in> set xs. f x = Some y}"
  by (induction xs) (auto simp: List.map_filter_def split: option.splits)

section \<open>Properties\<close>

definition void_env :: lane_env where
  "void_env = \<lparr>sha256 = no_sha, from_slice = (\<lambda>_. None), udb = ascii_db\<rparr>"

definition sample_now :: "u64 \<Rightarrow> ClockSample" where
  "sample_now t = \<lparr>boot_id = lit ''b'', epoch_ns = t, monotonic_ns = t, synchronized = True\<rparr>"



text \<open>A fence is final: the generation of a lane never decreases, a fenced lane stays fenced,
  and it refuses every delivery operation without changing.\<close>

theorem fenced_lane_refuses:
  assumes "lane_run env s t" and "fenced s"
  shows "generation s \<le> generation t \<and> fenced t
    \<and> inspect_due t now = Inl Fenced
    \<and> enqueue env io rs now t = (t, Inl Fenced)
    \<and> reserve_rendered env io now view p t = (t, Inl Fenced)
    \<and> resume_reservation env io now t = (t, Inl Fenced)
    \<and> acknowledge env io i h t = (t, Inl Fenced)
    \<and> record_attempt_failure env io i c now ra t = (t, Inl Fenced)
    \<and> retry_blocked env io now t = (t, Inl Fenced)"
  using lane_run_generation [OF assms(1)] lane_run_fenced [OF assms]
  by (simp add: inspect_due_def enqueue_def reserve_rendered_def resume_reservation_def acknowledge_def
      record_attempt_failure_def retry_blocked_def ensure_open_def)

theorem fenced_lane_refuses_witness:
  "retry_blocked void_env IoDone (sample_now 0) (fst (fence void_env (empty_lane None)))
     = (fst (fence void_env (empty_lane None)), Inl Fenced)"
proof -
  have "fenced (fst (fence void_env (empty_lane None)))"
    by (simp add: fence_def Let_def split: option.splits)
  from fenced_lane_refuses [OF run_refl this] show ?thesis by blast
qed


lemma enqueue_appends:
  assumes "enqueue env io rs now s1 = (s2, Inr c)"
  shows "\<exists>new. reports s2 = reports s1 @ new \<and> (\<forall>r \<in> set new. pipeline_commit_id r \<noteq> None \<and>
      pipeline_commit_id r \<notin> set (queue_ids s1)) \<and> reservation s2 = reservation s1"
proof (cases "rs = []")
  case True
  with assms show ?thesis by (auto simp: enqueue_def split: option.splits)
next
  case False
  with assms obtain u where "admit rs s1 = (u, None)" "commit env io u = (s2, Inr c)"
    by (auto simp: enqueue_def split: option.splits prod.splits)
  moreover from this have "reservation u = reservation s1"
    using admit_frame [of rs s1] by (metis LaneState.select_convs(4) LaneState.surjective
        LaneState.update_convs(2,3) fst_conv)
  ultimately show ?thesis
    using admit_reports [of rs s1] commit_frame(1,3) [of env io u s2 c] by simp
qed

text \<open>C21: acknowledging a delivery removes exactly the reports that were queued when it was
  reserved: reports admitted in between stay queued, in order, and everything is on disk.\<close>

theorem acknowledge_exact:
  assumes "lane_inv s" and "reserve_rendered env io1 now1 view p s = (s1, Inr rd)"
    and "enqueue env io2 rs now2 s1 = (s2, Inr c2)"
    and "acknowledge env io3 (rd_reservation_id rd) (rd_payload_sha256 rd) s2 = (s3, Inr c3)"
  shows "\<exists>new. reports s2 = reports s @ new \<and> reports s3 = new \<and> reservation s3 = None
    \<and> backoff_seconds s3 = 0 \<and> durable s3"
proof -
  from assms(2) obtain d c1 where c1: "commit env io1 (s\<lparr>reservation := Some \<lparr>res_id =
      reservation_id_of env (generation s) p, payload = p,
      captured = List.map_filter pipeline_commit_id (reports s), attempt_started_epoch_ns = epoch_ns now1,
      attempt_started_monotonic_ns = monotonic_ns now1, reserved_next_attempt_epoch_ns = d\<rparr>,
      last_attempt_epoch_ns := Some (epoch_ns now1), next_attempt_epoch_ns := Some d\<rparr>) = (s1, Inr c1)"
    by (rule reserve_Inr)
  then have s1: "reports s1 = reports s" "\<exists>r. reservation s1 = Some r \<and> captured r = List.map_filter pipeline_commit_id (reports s)"
    by (auto dest: commit_frame)
  have s2: "\<exists>new. reports s2 = reports s1 @ new \<and> (\<forall>r \<in> set new. pipeline_commit_id r \<noteq> None \<and>
      pipeline_commit_id r \<notin> set (queue_ids s1)) \<and> reservation s2 = reservation s1"
    by (rule enqueue_appends [OF assms(3)])
  then obtain new where new: "reports s2 = reports s1 @ new" "reservation s2 = reservation s1"
    "\<forall>r \<in> set new. pipeline_commit_id r \<noteq> None \<and> pipeline_commit_id r \<notin> set (queue_ids s1)" by blast
  from assms(4) obtain r where r: "reservation s2 = Some r"
    "commit env io3 (s2\<lparr>reservation := None, reports := filter (\<lambda>rep. \<not> is_captured r rep) (reports s2),
       backoff_seconds := 0\<rparr>) = (s3, Inr c3)"
    by (rule acknowledge_Inr)
  have cap: "captured r = List.map_filter pipeline_commit_id (reports s)"
    using s1(2) new(2) r(1) by auto
  have ids: "x \<in> set (List.map_filter pipeline_commit_id (reports s)) \<longleftrightarrow> Some x \<in> set (queue_ids s)" for x
    by (auto simp: set_map_filter queue_ids_def) (metis image_eqI)
  have old: "is_captured r rep" if "rep \<in> set (reports s)" for rep
  proof -
    have "pipeline_commit_id rep \<noteq> None" using that assms(1) by (force simp: inv_defs)
    then show ?thesis
      using that ids by (auto simp: is_captured_def cap queue_ids_def intro: rev_image_eqI split: option.splits)
  qed
  have fresh: "\<not> is_captured r rep" if "rep \<in> set new" for rep
    using that new(3) ids s1(1) by (auto simp: is_captured_def cap queue_ids_def split: option.splits)
  have "filter (\<lambda>rep. \<not> is_captured r rep) (reports s2) = new"
    using old fresh by (simp add: new(1) s1(1) filter_empty_conv filter_id_conv)
  then show ?thesis
    using commit_frame [OF r(2)] commit_Inr(1) [OF r(2)] new(1) s1(1) by auto
qed


text \<open>One queued report that the decoder rejects, such as any with a bracket in its title,
  costs the whole queue at the next start: the file goes to quarantine and the lane comes up
  disabled and empty.\<close>

theorem poisoned_restart:
  assumes "from_slice env (canonical_state s) = Some (state_json s)" and "r \<in> set (reports s)"
    and "decode_report (sha256 env) (udb env) (from_slice env) (encode_report r) = Inl e"
  shows "\<exists>s'. open_lane env True True True IoDone (Some (canonical_state s)) = (s', Inr ())
    \<and> disabled s' \<and> reports s' = [] \<and> blocked s' = [] \<and> reservation s' = None
    \<and> map snd (quarantined s') = [canonical_state s]"
proof -
  obtain e' where "load_state env (canonical_state s) (empty_lane (Some (canonical_state s)))
      = ((empty_lane (Some (canonical_state s)))\<lparr>generation := generation s\<rparr>, Some e')"
    using load_state_poisoned [OF assms] by blast
  then show ?thesis
    by (simp add: open_lane_def Let_def persist_def) (simp add: quarantine_def empty_lane_def)
qed

text \<open>A rejected batch is not undone: when a queue with 128 reports and one free blocked slot is
  offered two new reports, the call fails with \<open>Capacity\<close>, the first report stays blocked in
  memory, and neither the generation nor the file changes.\<close>

theorem enqueue_partial:
  assumes "\<not> fenced s" "validate_clock now = None" "length (reports s) = 128" "length (blocked s) = 15"
    and "pipeline_commit_id a = Some i" "pipeline_commit_id b = Some j"
    and "Some i \<notin> set (queue_ids s)" "Some j \<notin> set (queue_ids s)"
  shows "enqueue env io [a, b] now s = (s\<lparr>blocked := blocked s @ [a]\<rparr>, Inl Capacity)"
proof -
  have "\<not> list_ex (\<lambda>old. pipeline_commit_id old = Some k) (reports s)" if "Some k \<notin> set (queue_ids s)" for k
    using that by (force simp: list_ex_iff queue_ids_def)
  with assms show ?thesis by (simp add: enqueue_def ensure_open_def)
qed

section \<open>Witnesses\<close>

definition sample_view :: "u64 \<Rightarrow> DeliveryView" where
  "sample_view g = \<lparr>view_generation = g, view_overflow = OverflowSummary_default, view_reports = []\<rparr>"

definition sample_ready :: "ustr \<Rightarrow> EpisodeRunReport" where
  "sample_ready t = sample_report t\<lparr>pipeline_commit_id := Some (commit_id_of (\<lambda>_. replicate 32 0) (encode_report (sample_report t)))\<rparr>"

lemmas lane_eval = reserve_rendered_def resume_reservation_def enqueue_def acknowledge_def ensure_open_def
  validate_clock_def not_due_def commit_def persist_def checked_add_def ATTEMPT_WINDOW_NS_def
  sample_now_def sample_view_def empty_lane_def Let_def

lemma fresh_lane: "fst (open_lane env True True True IoDone None) = empty_lane None\<lparr>disk := Some (canonical_state (empty_lane None))\<rparr>"
  by (simp add: open_lane_def persist_def Let_def)

lemma sample_reserve:
  "\<exists>s1 rd. reserve_rendered env IoDone (sample_now 1000) (sample_view 0) [1] (fst (open_lane env True True True IoDone None)) = (s1, Inr rd)
     \<and> last_attempt_epoch_ns s1 = Some 1000 \<and> next_attempt_epoch_ns s1 = Some 900000001000
     \<and> generation s1 = 1 \<and> \<not> fenced s1 \<and> reports s1 = [] \<and> blocked s1 = []
     \<and> (\<exists>r. reservation s1 = Some r \<and> res_id r = rd_reservation_id rd
          \<and> payload_sha256 env (payload r) = rd_payload_sha256 rd)"
  unfolding fresh_lane by (simp add: lane_eval)


theorem acknowledge_exact_witness:
  "\<exists>s3. reports s3 = [sample_ready (lit ''x'')] \<and> durable s3"
proof -
  let ?env = "\<lparr>sha256 = (\<lambda>_. []), from_slice = (\<lambda>_. None), udb = ascii_db\<rparr>"
  let ?s = "fst (open_lane ?env True True True IoDone None)"
  obtain s1 rd r where s1: "reserve_rendered ?env IoDone (sample_now 1000) (sample_view 0) [1] ?s = (s1, Inr rd)"
    "generation s1 = 1" "\<not> fenced s1" "reports s1 = []" "blocked s1 = []"
    "reservation s1 = Some r" "res_id r = rd_reservation_id rd" "payload_sha256 ?env (payload r) = rd_payload_sha256 rd"
    using sample_reserve [of ?env] by auto
  have pid: "pipeline_commit_id (sample_ready (lit ''x'')) \<noteq> None" by (simp add: sample_ready_def)
  obtain s2 c2 where s2: "enqueue ?env IoDone [sample_ready (lit ''x'')] (sample_now 2000) s1 = (s2, Inr c2)"
    "generation s2 = 2" "\<not> fenced s2" "reservation s2 = Some r" "reports s2 = [sample_ready (lit ''x'')]"
    using s1(2-6) pid by (auto simp: lane_eval)
  obtain s3 c3 where s3: "acknowledge ?env IoDone (rd_reservation_id rd) (rd_payload_sha256 rd) s2 = (s3, Inr c3)"
    using s2(2-4) s1(7,8) by (auto simp: lane_eval)
  have "reports ?s = []" by (simp add: fresh_lane empty_lane_def)
  with acknowledge_exact [OF fresh_inv s1(1) s2(1) s3] s2(5) show ?thesis by auto
qed

definition sample_lane :: "ustr \<Rightarrow> LaneState" where
  "sample_lane t = (empty_lane None)\<lparr>generation := 3, reports := [sample_ready t]\<rparr>"

definition sample_env :: "ustr \<Rightarrow> lane_env" where
  "sample_env t = \<lparr>sha256 = (\<lambda>_. replicate 32 0),
     from_slice = (\<lambda>bs. if bs = encode_report (sample_ready t) then Some (report_json (sample_ready t))
                        else if bs = canonical_state (sample_lane t) then Some (state_json (sample_lane t)) else None),
     udb = ascii_db\<rparr>"

lemma canonical_not_report: "canonical_state s \<noteq> encode_report r"
proof -
  have "canonical_state s ! 12 \<noteq> encode_report r ! 12"
    by (simp add: canonical_state_def encode_report_def ascii_def lit_eval utf8_def utf8_char_def)
  then show ?thesis by metis
qed

lemma sample_env_reads: "from_slice (sample_env t) (canonical_state (sample_lane t)) = Some (state_json (sample_lane t))"
  by (simp add: sample_env_def canonical_not_report)

lemma sample_readable: "readable_report (sample_env (lit ''A title'')) (sample_ready (lit ''A title''))"
proof -
  have new: "EpisodeRunReport_try_new (sha256 (sample_env (lit ''A title''))) Series 7 (lit ''A title'') (Some 1) None
      [sample_target] None AComplete = Inr (sample_ready (lit ''A title''))"
    by (simp add: sample_ready_def sample_report_new sample_env_def)
  show ?thesis
    unfolding readable_report_def
    by (rule decode_encode [OF new sample_targets _ _ _ _])
      (simp_all add: wf_sample_target sample_env_def sanitize_plain_title)
qed


theorem poisoned_restart_witness:
  "\<exists>t s'. sanitize ascii_db (lit ''A(B'') = Inr t
     \<and> open_lane (sample_env t) True True True IoDone (Some (canonical_state (sample_lane t))) = (s', Inr ())
     \<and> disabled s' \<and> reports s' = []"
proof -
  let ?t = "lit ''A'' @ [92] @ lit ''(B''"
  have t: "sanitize ascii_db (lit ''A(B'') = Inr ?t" "sanitize ascii_db ?t \<noteq> Inr ?t"
    by (simp_all add: lit_eval sanitize_eval)
  have "decode_report (sha256 (sample_env ?t)) (udb (sample_env ?t)) (from_slice (sample_env ?t))
      (encode_report (sample_ready ?t)) = Inl Corrupt"
    by (rule decode_escaped_title) (use t(2) in \<open>simp_all add: sample_env_def sample_ready_def sample_report_def\<close>)
  from poisoned_restart [OF sample_env_reads _ this] t(1) show ?thesis
    by (auto simp: sample_lane_def)
qed

theorem enqueue_partial_witness:
  "\<exists>s. snd (enqueue void_env IoDone [sample_report []\<lparr>pipeline_commit_id := Some (lit ''a'')\<rparr>,
       sample_report []\<lparr>pipeline_commit_id := Some (lit ''b'')\<rparr>] (sample_now 0) s) = Inl Capacity
     \<and> disk (fst (enqueue void_env IoDone [sample_report []\<lparr>pipeline_commit_id := Some (lit ''a'')\<rparr>,
       sample_report []\<lparr>pipeline_commit_id := Some (lit ''b'')\<rparr>] (sample_now 0) s)) = disk s"
proof -
  let ?r = "\<lambda>i. sample_report []\<lparr>pipeline_commit_id := Some (lit i)\<rparr>"
  let ?s = "(empty_lane None)\<lparr>reports := replicate 128 (?r ''c''), blocked := replicate 15 (?r ''c'')\<rparr>"
  have "enqueue void_env IoDone [?r ''a'', ?r ''b''] (sample_now 0) ?s = (?s\<lparr>blocked := blocked ?s @ [?r ''a'']\<rparr>, Inl Capacity)"
    by (rule enqueue_partial [where i = "lit ''a''" and j = "lit ''b''"])
      (simp_all add: empty_lane_def validate_clock_def sample_now_def queue_ids_def)
  then show ?thesis by (intro exI [of _ ?s]) (simp add: empty_lane_def)
qed

end
