(* ===== verification/Renderer.thy ===== *)
theory Renderer
  imports Lane
begin

text \<open>
  \<open>src/discord_renderer.rs\<close>: the deterministic, bounded digest of a delivery view. The layout
  (rows, omission markers, the two shrinking loops) is \<open>digest\<close>; \<open>render\<close> wraps its lines into
  the payload bytes.
\<close>

section \<open>Rows\<close>

definition MAX_ROW_SCALARS :: nat where "MAX_ROW_SCALARS = 160"
definition MAX_FIELD_VALUE_SCALARS :: nat where "MAX_FIELD_VALUE_SCALARS = 900"
definition MAX_EMBED_TEXT_SCALARS :: nat where "MAX_EMBED_TEXT_SCALARS = 4000"
definition MAX_ROWS :: nat where "MAX_ROWS = 8"
definition MAX_TARGET_ENTRIES :: nat where "MAX_TARGET_ENTRIES = 6"

definition mid_dot :: ustr where "mid_dot = [sp, 0xb7, sp]"
definition COMPLETE_USERNAME :: ustr where "COMPLETE_USERNAME = lit ''ASRSub'' @ mid_dot @ lit ''Complete''"
definition PARTIAL_USERNAME :: ustr where "PARTIAL_USERNAME = lit ''ASRSub'' @ mid_dot @ lit ''Partial''"
definition ATTENTION_USERNAME :: ustr where "ATTENTION_USERNAME = lit ''ASRSub'' @ mid_dot @ lit ''Attention''"
definition COMPLETE_AVATAR_URL :: ustr where
  "COMPLETE_AVATAR_URL = lit ''https://emojiapi.dev/api/v1/2705/128.png''"
definition WARNING_AVATAR_URL :: ustr where
  "WARNING_AVATAR_URL = lit ''https://emojiapi.dev/api/v1/26a0/128.png''"
definition ATTENTION_AVATAR_URL :: ustr where
  "ATTENTION_AVATAR_URL = lit ''https://emojiapi.dev/api/v1/274c/128.png''"

datatype RenderError = RTooLarge | RCannotFit

record Row =
  row_text :: ustr
  row_severity :: nat
  attention :: bool

text \<open>\<open>status_token\<close>: the tokens are the codec's status names.\<close>

definition status_severity :: "TargetStatus \<Rightarrow> nat" where
  "status_severity st =
     (case st of Completed None \<Rightarrow> 2 | Completed (Some _) \<Rightarrow> 1 | Failed _ \<Rightarrow> 0 | Missing _ \<Rightarrow> 0)"

definition status_token :: "TargetStatus \<Rightarrow> ustr \<times> nat" where
  "status_token st = (lit (status_name st), status_severity st)"

definition item_token :: "ItemFailure \<Rightarrow> ustr" where
  "item_token i = lit ''item:'' @ lit (item_failure_name i)"

definition two_digits :: "u32 option \<Rightarrow> ustr" where
  "two_digits v = (case v of Some n \<Rightarrow> dec_pad 2 (unat n) | None \<Rightarrow> lit ''?'')"

definition metadata :: "EpisodeRunReport \<Rightarrow> ustr" where
  "metadata r =
     (case r_kind r of
        Movie \<Rightarrow> lit ''movie''
      | Series \<Rightarrow> lit ''S'' @ two_digits (season r) @ lit ''E'' @ two_digits (episode r))"

definition TRUNCATED :: ustr where "TRUNCATED = [0x2026] @ lit ''[truncated]''"

definition truncate_title :: "ustr \<Rightarrow> nat \<Rightarrow> ustr" where
  "truncate_title t capacity =
     (if length t \<le> capacity then t
      else if capacity \<le> length TRUNCATED then take capacity TRUNCATED
      else take (capacity - length TRUNCATED) t @ TRUNCATED)"

definition formatted_row :: "ustr \<Rightarrow> ustr \<Rightarrow> ustr \<Rightarrow> ustr list \<Rightarrow> ustr" where
  "formatted_row kind t meta entries =
     lit ''**'' @ kind @ lit '' '' @ t @ lit '' '' @ meta @ lit ''** - '' @ join (lit '' | '') entries"

definition replace_str :: "ustr \<Rightarrow> ustr \<Rightarrow> ustr \<Rightarrow> ustr" where
  "replace_str from to s = join to (split_str from s)"

definition target_entry :: "TargetRunResult \<Rightarrow> ustr" where
  "target_entry t =
     tr_language t @ lit '':'' @ fst (status_token (tr_status t))
     @ (case generation_method t of None \<Rightarrow> []
        | Some g \<Rightarrow> lit '' | '' @ replace_str [sp, 0x2192, sp] (lit '' -> '')
                       (replace_str mid_dot (lit '' | '') (method_display g)))"

definition entry_key :: "nat \<times> ustr \<times> ustr \<Rightarrow> nat \<times> bytes" where
  "entry_key e = (fst e, utf8 (fst (snd e)))"

text \<open>\<open>target_rows\<close>: the six most severe targets, and how many were left out.\<close>

definition target_rows :: "EpisodeRunReport \<Rightarrow> RenderError + (ustr list \<times> nat option)" where
  "target_rows r =
     (let indexed = sort_key entry_key
            (map (\<lambda>t. (snd (status_token (tr_status t)), tr_language t, target_entry t)) (targets r));
          omitted = length indexed - MAX_TARGET_ENTRIES;
          selected = map (\<lambda>e. snd (snd e)) (take MAX_TARGET_ENTRIES indexed)
            @ (if 0 < omitted then [lit ''+'' @ dec omitted @ lit '' more targets''] else []);
          omitted_attention = (0 < omitted \<and> list_ex (\<lambda>e. fst e = 0) (drop MAX_TARGET_ENTRIES indexed))
      in if omitted_attention \<and> selected = [] then Inl RCannotFit
         else Inr (selected, if 0 < omitted then Some omitted else None))"

definition worst_severity :: "TargetRunResult list \<Rightarrow> nat" where
  "worst_severity ts = (if ts = [] then 2 else Min (set (map (\<lambda>t. status_severity (tr_status t)) ts)))"

definition any_attention :: "TargetRunResult list \<Rightarrow> bool" where
  "any_attention ts \<longleftrightarrow> list_ex (\<lambda>t. status_severity (tr_status t) < 2) ts"

definition make_row :: "EpisodeRunReport \<Rightarrow> RenderError + Row" where
  "make_row r =
     (let kind = lit (kind_name (r_kind r)); meta = metadata r;
          t = (if title r = [] then lit ''Untitled'' else title r)
      in case target_rows r of Inl e \<Rightarrow> Inl e
       | Inr (ts, omitted) \<Rightarrow>
          (let entries = (case item_failure r of Some i \<Rightarrow> [item_token i] | None \<Rightarrow> []) @ ts;
               txt = formatted_row kind t meta entries
           in if entries = [] then Inl RCannotFit
              else if length txt \<le> MAX_ROW_SCALARS then
                Inr \<lparr>row_text = txt,
                     row_severity = (if item_failure r \<noteq> None then 0 else worst_severity (targets r)),
                     attention = (item_failure r \<noteq> None \<or> any_attention (targets r))\<rparr>
              else
                let title_budget = MAX_ROW_SCALARS - (length (formatted_row kind [] meta entries) + 1);
                    txt' = formatted_row kind (truncate_title t (min title_budget 120)) meta entries
                in if title_budget = 0 then Inl RCannotFit
                   else if MAX_ROW_SCALARS < length txt' then Inl RCannotFit
                   else Inr \<lparr>row_text = txt',
                     row_severity = (if item_failure r \<noteq> None \<or> omitted \<noteq> None then 0
                                     else worst_severity (targets r)),
                     attention = (item_failure r \<noteq> None \<or> omitted \<noteq> None \<or> any_attention (targets r))\<rparr>))"

fun make_rows :: "EpisodeRunReport list \<Rightarrow> RenderError + Row list" where
  "make_rows [] = Inr []"
| "make_rows (r # rs) =
     (case make_row r of Inl e \<Rightarrow> Inl e
      | Inr row \<Rightarrow> (case make_rows rs of Inl e \<Rightarrow> Inl e | Inr rows \<Rightarrow> Inr (row # rows)))"

section \<open>Summaries and the outcome\<close>

definition summary_line :: "string \<Rightarrow> u64 \<Rightarrow> string \<Rightarrow> ustr list" where
  "summary_line label n what =
     (if 0 < n then [lit label @ lit '' at least '' @ dec (unat n) @ lit what] else [])"

definition summary_rows :: "OverflowSummary \<Rightarrow> ustr list \<times> ustr list" where
  "summary_rows s =
     (summary_line ''**Attention:**'' (attention_reports s) '' additional attention reports''
      @ summary_line ''**Warning:**'' (warning_reports s) '' additional warning reports''
      @ summary_line ''**Blocked:**'' (blocked_admissions s) '' committed reports awaiting capacity''
      @ summary_line ''**Targets:**'' (target_outcomes s) '' additional target outcomes''
      @ summary_line ''**State capacity:**'' (pre_admission_drops s) '' reports rejected by state capacity'',
      summary_line ''**Completed:**'' (completed_reports s) '' additional completed reports'')"

definition outcome :: "OverflowSummary \<Rightarrow> Row list \<Rightarrow> ustr \<times> ustr \<times> nat" where
  "outcome s rows =
     (if 0 < attention_reports s \<or> 0 < target_outcomes s \<or> 0 < pre_admission_drops s
         \<or> 0 < blocked_admissions s \<or> list_ex (\<lambda>r. row_severity r = 0) rows
      then (ATTENTION_USERNAME, ATTENTION_AVATAR_URL, 0xED4245)
      else if 0 < warning_reports s \<or> list_ex (\<lambda>r. row_severity r = 1) rows
      then (PARTIAL_USERNAME, WARNING_AVATAR_URL, 0xFEE75C)
      else (COMPLETE_USERNAME, COMPLETE_AVATAR_URL, 0x57F287))"

definition more_marker :: "nat \<Rightarrow> string \<Rightarrow> ustr list" where
  "more_marker n what =
     (if 0 < n then [lit ''_+'' @ dec n @ lit '' more '' @ lit what @ lit '' episodes_''] else [])"

definition result_lines ::
    "ustr list \<Rightarrow> ustr list \<Rightarrow> ustr list \<Rightarrow> ustr list \<Rightarrow> nat \<Rightarrow> nat \<Rightarrow> ustr list" where
  "result_lines att att_rows cpl comp_rows om_att om_comp =
     att @ att_rows @ more_marker om_att ''attention'' @ cpl @ comp_rows @ more_marker om_comp ''completed''"

section \<open>The layout\<close>

text \<open>One shrinking step: the last completed row goes first, then the last attention row.\<close>

definition pop_row :: "ustr list \<times> ustr list \<Rightarrow> (ustr list \<times> ustr list) option" where
  "pop_row p =
     (case p of (att, cpl) \<Rightarrow>
        if cpl \<noteq> [] then Some (att, butlast cpl)
        else if att \<noteq> [] then Some (butlast att, cpl)
        else None)"

definition markers :: "nat \<Rightarrow> nat \<Rightarrow> ustr list \<times> ustr list \<Rightarrow> nat" where
  "markers total_att total_comp p =
     (if 0 < total_att - length (fst p) then 1 else 0) + (if 0 < total_comp - length (snd p) then 1 else 0)"

lemma pop_row_shorter: "pop_row p = Some q \<Longrightarrow> length (fst q) + length (snd q) < length (fst p) + length (snd p)"
  by (cases p) (auto simp: pop_row_def split: if_splits)

text \<open>The first loop: at most \<open>slots\<close> rows and markers.\<close>

function fit_slots :: "nat \<Rightarrow> nat \<Rightarrow> nat \<Rightarrow> ustr list \<times> ustr list \<Rightarrow> (ustr list \<times> ustr list) option" where
  "fit_slots slots ta tc p =
     (if length (fst p) + length (snd p) + markers ta tc p \<le> slots then Some p
      else case pop_row p of None \<Rightarrow> None | Some q \<Rightarrow> fit_slots slots ta tc q)"
  by pat_completeness auto
termination
  by (relation "measure (\<lambda>(_, _, _, p). length (fst p) + length (snd p))") (auto dest: pop_row_shorter)

declare fit_slots.simps [simp del]

text \<open>The second loop: at most 900 scalars.\<close>

definition lines_of :: "ustr list \<Rightarrow> ustr list \<Rightarrow> nat \<Rightarrow> nat \<Rightarrow> ustr list \<times> ustr list \<Rightarrow> ustr list" where
  "lines_of att cpl ta tc p =
     result_lines att (fst p) cpl (snd p) (ta - length (fst p)) (tc - length (snd p))"

function fit_text ::
    "ustr list \<Rightarrow> ustr list \<Rightarrow> nat \<Rightarrow> nat \<Rightarrow> ustr list \<times> ustr list \<Rightarrow> (ustr list \<times> ustr list) option" where
  "fit_text att cpl ta tc p =
     (if length (join [nl] (lines_of att cpl ta tc p)) \<le> MAX_FIELD_VALUE_SCALARS then Some p
      else case pop_row p of None \<Rightarrow> None | Some q \<Rightarrow> fit_text att cpl ta tc q)"
  by pat_completeness auto
termination
  by (relation "measure (\<lambda>(_, _, _, _, p). length (fst p) + length (snd p))") (auto dest: pop_row_shorter)

declare fit_text.simps [simp del]

definition row_key :: "Row \<Rightarrow> nat \<times> bytes" where
  "row_key r = (row_severity r, utf8 (row_text r))"

definition digest :: "DeliveryView \<Rightarrow> RenderError + (Row list \<times> (ustr list \<times> ustr list) \<times> ustr list)" where
  "digest view =
     (case make_rows (view_reports view) of Inl e \<Rightarrow> Inl e
      | Inr rows0 \<Rightarrow>
         (let rows = sort_key row_key rows0; (att, cpl) = summary_rows (view_overflow view);
              att_rows = map row_text (filter attention rows);
              comp_rows = map row_text (filter (\<lambda>r. \<not> attention r) rows);
              mandatory = length att + length cpl;
              ta = length att_rows; tc = length comp_rows
          in if MAX_ROWS < mandatory then Inl RCannotFit
             else case fit_slots (MAX_ROWS - mandatory) ta tc (att_rows, comp_rows) of None \<Rightarrow> Inl RCannotFit
             | Some p \<Rightarrow>
                if lines_of att cpl ta tc p = [] then Inl RCannotFit
                else case fit_text att cpl ta tc p of None \<Rightarrow> Inl RTooLarge
                | Some q \<Rightarrow> Inr (rows, q, lines_of att cpl ta tc q)))"

definition render :: "DeliveryView \<Rightarrow> RenderError + bytes" where
  "render view =
     (case digest view of Inl e \<Rightarrow> Inl e
      | Inr (rows, _, lines) \<Rightarrow>
         (let results = join [nl] lines in
          if results = [] \<or> results = lit ''none'' then Inl RCannotFit
          else case outcome (view_overflow view) rows of (username, avatar_url, color) \<Rightarrow>
            if MAX_EMBED_TEXT_SCALARS < length results then Inl RTooLarge
            else case PayloadBytes_try_from
                (ascii ''{\"username\":'' @ encode_string username
                 @ ascii '',\"avatar_url\":'' @ encode_string avatar_url
                 @ ascii '',\"embeds\":[{\"description\":'' @ encode_string results
                 @ ascii '',\"color\":'' @ utf8 (dec color)
                 @ ascii ''}],\"allowed_mentions\":{\"parse\":[]}}'') of
              Inl _ \<Rightarrow> Inl RTooLarge | Inr p \<Rightarrow> Inr p))"

section \<open>What a digest shows\<close>

lemma make_row_bounds: "make_row r = Inr row \<Longrightarrow> length (row_text row) \<le> MAX_ROW_SCALARS"
  by (auto simp: make_row_def Let_def split: sum.splits if_splits)

lemma make_row_attention:
  "make_row r = Inr row \<Longrightarrow> item_failure r \<noteq> None \<or> any_attention (targets r) \<Longrightarrow> attention row"
  by (auto simp: make_row_def Let_def split: sum.splits if_splits)

lemma worst_severity_attention: "worst_severity ts < 2 \<Longrightarrow> any_attention ts"
proof -
  assume w: "worst_severity ts < 2"
  then have ne: "ts \<noteq> []" by (auto simp: worst_severity_def)
  let ?S = "set (map (\<lambda>t. status_severity (tr_status t)) ts)"
  have "Min ?S \<in> ?S" using ne by (intro Min_in) auto
  then obtain t where "t \<in> set ts" "Min ?S = status_severity (tr_status t)" by auto
  with w ne show ?thesis by (force simp: worst_severity_def any_attention_def list_ex_iff)
qed

lemma make_row_severity: "make_row r = Inr row \<Longrightarrow> row_severity row < 2 \<Longrightarrow> attention row"
  using worst_severity_attention
  by (auto simp: make_row_def Let_def split: sum.splits if_splits)

lemma make_rows_member:
  "make_rows rs = Inr rows \<Longrightarrow> r \<in> set rs \<Longrightarrow> \<exists>row \<in> set rows. make_row r = Inr row"
  by (induction rs arbitrary: rows) (auto split: sum.splits)

lemma make_rows_Inl: "r \<in> set rs \<Longrightarrow> make_row r = Inl e \<Longrightarrow> \<exists>e'. make_rows rs = Inl e'"
  by (induction rs) (auto split: sum.splits)

text \<open>The rows still shown are a prefix of each class, and completed rows go first.\<close>

definition shown_of :: "ustr list \<Rightarrow> ustr list \<Rightarrow> ustr list \<times> ustr list \<Rightarrow> bool" where
  "shown_of att cpl p \<longleftrightarrow> prefix (fst p) att \<and> prefix (snd p) cpl \<and> (snd p = [] \<or> fst p = att)"

lemma prefix_butlast: "prefix xs ys \<Longrightarrow> prefix (butlast xs) ys"
  by (meson prefix_order.trans prefixeq_butlast)

lemma pop_row_shown: "pop_row p = Some q \<Longrightarrow> shown_of att cpl p \<Longrightarrow> shown_of att cpl q"
  by (cases p) (auto simp: pop_row_def shown_of_def prefix_butlast split: if_splits)

lemma pop_row_markers:
  assumes "pop_row p = Some q" "length (fst p) \<le> ta" "length (snd p) \<le> tc"
  shows "length (fst q) + length (snd q) + markers ta tc q \<le> length (fst p) + length (snd p) + markers ta tc p"
    "length (fst q) \<le> ta" "length (snd q) \<le> tc"
proof -
  obtain a b where p: "p = (a, b)" by (cases p)
  show "length (fst q) + length (snd q) + markers ta tc q \<le> length (fst p) + length (snd p) + markers ta tc p"
    "length (fst q) \<le> ta" "length (snd q) \<le> tc"
    using assms by (cases a rule: rev_cases; cases b rule: rev_cases; auto simp: p pop_row_def markers_def)+
qed

lemma fit_slots_Some:
  "fit_slots n ta tc p = Some q \<Longrightarrow> shown_of att cpl p \<Longrightarrow>
    shown_of att cpl q \<and> length (fst q) + length (snd q) + markers ta tc q \<le> n"
proof (induction n ta tc p rule: fit_slots.induct)
  case (1 n ta tc p)
  show ?case
  proof (cases "length (fst p) + length (snd p) + markers ta tc p \<le> n")
    case True
    with "1.prems" show ?thesis by (simp add: fit_slots.simps [of n ta tc p])
  next
    case False
    with "1.prems"(1) obtain u where "pop_row p = Some u" "fit_slots n ta tc u = Some q"
      by (auto simp: fit_slots.simps [of n ta tc p] split: option.splits)
    with 1 False show ?thesis by (blast intro: pop_row_shown)
  qed
qed

lemma fit_text_Some:
  assumes "fit_text a c ta tc p = Some q" and "shown_of att cpl p" and "length (fst p) \<le> ta" and "length (snd p) \<le> tc"
  shows "shown_of att cpl q \<and> length (join [nl] (lines_of a c ta tc q)) \<le> MAX_FIELD_VALUE_SCALARS
    \<and> length (fst q) + length (snd q) + markers ta tc q \<le> length (fst p) + length (snd p) + markers ta tc p"
  using assms
proof (induction a c ta tc p rule: fit_text.induct)
  case (1 a c ta tc p)
  show ?case
  proof (cases "length (join [nl] (lines_of a c ta tc p)) \<le> MAX_FIELD_VALUE_SCALARS")
    case True
    with "1.prems" show ?thesis by (simp add: fit_text.simps [of a c ta tc p])
  next
    case False
    with "1.prems"(1) obtain u where u: "pop_row p = Some u" "fit_text a c ta tc u = Some q"
      by (auto simp: fit_text.simps [of a c ta tc p] split: option.splits)
    from "1.IH" [OF False u(1) u(2) pop_row_shown [OF u(1) "1.prems"(2)]]
      pop_row_markers [OF u(1) "1.prems"(3,4)]
    show ?thesis by simp
  qed
qed

lemma length_lines_of:
  "length (lines_of att cpl ta tc p) = length att + length cpl + (length (fst p) + length (snd p) + markers ta tc p)"
  by (simp add: lines_of_def result_lines_def more_marker_def markers_def)

lemma digest_Inr:
  assumes "digest view = Inr (rows, q, ls)"
  obtains rows0 att cpl where "make_rows (view_reports view) = Inr rows0" "rows = sort_key row_key rows0"
    "summary_rows (view_overflow view) = (att, cpl)"
    "shown_of (map row_text (filter attention rows)) (map row_text (filter (\<lambda>r. \<not> attention r) rows)) q"
    "ls = lines_of att cpl (length (filter attention rows)) (length (filter (\<lambda>r. \<not> attention r) rows)) q"
    "length ls \<le> MAX_ROWS" "length (join [nl] ls) \<le> MAX_FIELD_VALUE_SCALARS"
proof -
  obtain rows0 where rows0: "make_rows (view_reports view) = Inr rows0"
    using assms by (auto simp: digest_def split: sum.splits)
  obtain att cpl where s: "summary_rows (view_overflow view) = (att, cpl)" by fastforce
  define R where "R = sort_key row_key rows0"
  define A where "A = map row_text (filter attention R)"
  define C where "C = map row_text (filter (\<lambda>r. \<not> attention r) R)"
  from assms obtain p where p: "length att + length cpl \<le> MAX_ROWS"
    "fit_slots (MAX_ROWS - (length att + length cpl)) (length A) (length C) (A, C) = Some p"
    "fit_text att cpl (length A) (length C) p = Some q" "rows = R"
    "ls = lines_of att cpl (length A) (length C) q"
    by (auto simp: digest_def rows0 s Let_def R_def [symmetric] A_def [symmetric] C_def [symmetric]
        split: option.splits if_splits)
  have sh: "shown_of A C (A, C)" by (simp add: shown_of_def)
  note 1 = fit_slots_Some [OF p(2) sh]
  then have len: "length (fst p) \<le> length A" "length (snd p) \<le> length C"
    by (auto simp: shown_of_def prefix_length_le)
  note 2 = fit_text_Some [OF p(3) _ len, of A C]
  have ls: "length ls \<le> MAX_ROWS"
    using conjunct2 [OF 1] 2 [OF conjunct1 [OF 1]] p(1) unfolding p(5) length_lines_of by linarith
  show thesis
    by (rule that [OF rows0 _ s]) (use 1 2 ls in \<open>simp_all add: p(4,5) R_def A_def C_def\<close>)
qed

section \<open>Properties\<close>

text \<open>A rendered digest has at most eight lines and 900 scalars; attention rows are only left
  out once no completed row is left, what is shown of each class is its most severe prefix, and
  every failed, missing or warned target or item failure makes its report an attention row.\<close>

theorem digest_bounded:
  assumes "digest view = Inr (rows, (att, cpl), ls)"
  shows "length ls \<le> 8 \<and> length (join [nl] ls) \<le> 900
    \<and> prefix att (map row_text (filter attention rows))
    \<and> prefix cpl (map row_text (filter (\<lambda>r. \<not> attention r) rows))
    \<and> (cpl = [] \<or> att = map row_text (filter attention rows))
    \<and> (\<forall>r \<in> set (view_reports view). \<exists>row \<in> set rows. make_row r = Inr row \<and> length (row_text row) \<le> 160
          \<and> (item_failure r \<noteq> None \<or> any_attention (targets r) \<longrightarrow> attention row))"
proof -
  obtain rows0 where d: "make_rows (view_reports view) = Inr rows0" "rows = sort_key row_key rows0"
    "shown_of (map row_text (filter attention rows)) (map row_text (filter (\<lambda>r. \<not> attention r) rows)) (att, cpl)"
    "length ls \<le> MAX_ROWS" "length (join [nl] ls) \<le> MAX_FIELD_VALUE_SCALARS"
    using assms by (rule digest_Inr)
  have "\<exists>row \<in> set rows. make_row r = Inr row" if "r \<in> set (view_reports view)" for r
    using make_rows_member [OF d(1) that] d(2) by simp
  then show ?thesis
    using d(3-5) make_row_bounds make_row_attention
    by (fastforce simp: shown_of_def MAX_ROWS_def MAX_FIELD_VALUE_SCALARS_def MAX_ROW_SCALARS_def)
qed

text \<open>The colour never understates: a digest that is shown as complete contains no failed,
  missing or warned target and no item failure, and its summary counts nothing but completed
  reports.\<close>

theorem complete_is_complete:
  assumes "digest view = Inr (rows, q, ls)" and "fst (outcome (view_overflow view) rows) = COMPLETE_USERNAME"
  shows "(\<forall>r \<in> set (view_reports view). item_failure r = None
        \<and> (\<forall>t \<in> set (targets r). tr_status t = Completed None))
    \<and> attention_reports (view_overflow view) = 0 \<and> warning_reports (view_overflow view) = 0
    \<and> blocked_admissions (view_overflow view) = 0 \<and> pre_admission_drops (view_overflow view) = 0"
proof -
  obtain rows0 where d: "make_rows (view_reports view) = Inr rows0" "rows = sort_key row_key rows0"
    using assms(1) by (rule digest_Inr)
  have names: "ATTENTION_USERNAME \<noteq> COMPLETE_USERNAME" "PARTIAL_USERNAME \<noteq> COMPLETE_USERNAME"
    by (simp_all add: ATTENTION_USERNAME_def PARTIAL_USERNAME_def COMPLETE_USERNAME_def)
  from assms(2) have o: "\<not> list_ex (\<lambda>r. row_severity r = 0) rows" "\<not> list_ex (\<lambda>r. row_severity r = 1) rows"
    "attention_reports (view_overflow view) = 0" "warning_reports (view_overflow view) = 0"
    "blocked_admissions (view_overflow view) = 0" "pre_admission_drops (view_overflow view) = 0"
    using names by (auto simp: outcome_def word_gt_0 split: if_splits)
  have clean: "item_failure r = None \<and> \<not> any_attention (targets r)" if r: "r \<in> set (view_reports view)" for r
  proof -
    obtain row where row: "row \<in> set rows" "make_row r = Inr row"
      using make_rows_member [OF d(1) r] d(2) by auto
    then have "row_severity row \<noteq> 0" "row_severity row \<noteq> 1" using o(1,2) by (auto simp: list_ex_iff)
    then have "\<not> row_severity row < 2" by arith
    moreover have "worst_severity (targets r) < 2" if "any_attention (targets r)"
    proof -
      from that obtain t where t: "t \<in> set (targets r)" "status_severity (tr_status t) < 2"
        by (auto simp: any_attention_def list_ex_iff)
      then have "Min (set (map (\<lambda>t. status_severity (tr_status t)) (targets r))) \<le> status_severity (tr_status t)"
        by (intro Min_le) auto
      moreover have "worst_severity (targets r) = Min (set (map (\<lambda>t. status_severity (tr_status t)) (targets r)))"
        using t(1) unfolding worst_severity_def by (auto simp del: set_map)
      ultimately show ?thesis using t(2) by linarith
    qed
    ultimately show ?thesis
      using row(2) by (auto simp: make_row_def Let_def split: sum.splits if_splits)
  qed
  have "st = Completed None" if "\<not> status_severity st < 2" for st
    using that by (auto simp: status_severity_def split: TargetStatus.splits option.splits)
  with clean o show ?thesis by (auto simp: any_attention_def list_ex_iff)
qed

text \<open>One report that cannot be laid out costs the whole digest.\<close>

theorem unrenderable_report_blocks_digest:
  assumes "r \<in> set (view_reports view)" and "make_row r = Inl e"
  shows "\<exists>e'. render view = Inl e'"
  using make_rows_Inl [OF assms] by (auto simp: render_def digest_def)

section \<open>Witnesses\<close>

lemma sample_row: "make_row (sample_report (lit ''x'')) = Inr \<lparr>row_text = lit ''**series x S01E?** - id:ok'',
    row_severity = 2, attention = False\<rparr>"
proof -
  have "dec_pad 2 (Suc 0) = lit ''01''" by (simp add: dec_pad_def dec_small lit_eval)
  then show ?thesis
    by (simp add: make_row_def sample_report_def kind_name_def metadata_def two_digits_def target_rows_def
        sample_target_def target_entry_def status_token_def status_severity_def formatted_row_def Let_def
        MAX_TARGET_ENTRIES_def MAX_ROW_SCALARS_def worst_severity_def any_attention_def lit_append [symmetric])
qed

definition one_view :: DeliveryView where
  "one_view = \<lparr>view_generation = 0, view_overflow = OverflowSummary_default,
     view_reports = [sample_report (lit ''x'')]\<rparr>"

lemma one_digest: "digest one_view = Inr
    ([\<lparr>row_text = lit ''**series x S01E?** - id:ok'', row_severity = 2, attention = False\<rparr>],
     ([], [lit ''**series x S01E?** - id:ok'']), [lit ''**series x S01E?** - id:ok''])"
  by (simp add: digest_def one_view_def sample_row summary_rows_def summary_line_def OverflowSummary_default_def
      fit_slots.simps markers_def fit_text.simps lines_of_def result_lines_def more_marker_def
      MAX_ROWS_def MAX_FIELD_VALUE_SCALARS_def)

theorem digest_bounded_witness: "length (join [nl] [lit ''**series x S01E?** - id:ok'']) \<le> 900"
  using digest_bounded [OF one_digest] by blast

theorem complete_is_complete_witness:
  "item_failure (sample_report (lit ''x'')) = None"
  using complete_is_complete [OF one_digest]
  by (simp add: one_view_def outcome_def OverflowSummary_default_def)

text \<open>A report whose metadata and targets alone exceed a row.\<close>

definition wide_target :: "string \<Rightarrow> TargetRunResult" where
  "wide_target l = \<lparr>tr_language = lit l, tr_status = Failed FTranscription, artifact_sha256 = None,
     generation_method = None\<rparr>"

definition wide_report :: EpisodeRunReport where
  "wide_report = sample_report (lit ''x'')\<lparr>targets :=
     map wide_target [''de'', ''en'', ''es'', ''fr'', ''id'', ''ja'']\<rparr>"

lemma wide_targets: "BoundedTargets_try_from (targets wide_report) = Inr (targets wide_report)"
proof -
  have "sorted (map target_key (targets wide_report))"
    by (simp add: wide_report_def target_key_def severity_def wide_target_def utf8_def utf8_char_def lit_eval)
  then have "sort_key target_key (targets wide_report) = targets wide_report" by (rule sort_key_sorted)
  then show ?thesis
    by (simp add: BoundedTargets_Inr del: sort_key_simps) (simp add: wide_report_def wide_target_def)
qed

lemma wide_row: "make_row wide_report = Inl RCannotFit"
proof -
  let ?e = "\<lambda>l. (0::nat, lit l, lit l @ lit '':fail-transcription'')"
  let ?es = "map ?e [''de'', ''en'', ''es'', ''fr'', ''id'', ''ja'']"
  have "sorted (map entry_key ?es)"
    by (simp add: entry_key_def utf8_def utf8_char_def lit_eval)
  then have sort: "sort_key entry_key ?es = ?es" by (rule sort_key_sorted)
  have "map (\<lambda>t. (snd (status_token (tr_status t)), tr_language t, target_entry t)) (targets wide_report) = ?es"
    by (simp add: wide_report_def wide_target_def target_entry_def status_token_def status_severity_def
        lit_append [symmetric])
  then have "target_rows wide_report = Inr (map (\<lambda>l. lit l @ lit '':fail-transcription'')
      [''de'', ''en'', ''es'', ''fr'', ''id'', ''ja''], None)"
    by (simp only: target_rows_def sort Let_def) (simp add: MAX_TARGET_ENTRIES_def)
  moreover have "dec_pad 2 (Suc 0) = lit ''01''" by (simp add: dec_pad_def dec_small lit_eval)
  ultimately show ?thesis
    by (simp add: make_row_def metadata_def two_digits_def formatted_row_def Let_def MAX_ROW_SCALARS_def)
      (simp add: wide_report_def sample_report_def kind_name_def two_digits_def)
qed

theorem unrenderable_report_blocks_digest_witness:
  "\<exists>e. BoundedTargets_try_from (targets wide_report) = Inr (targets wide_report)
     \<and> render (one_view\<lparr>view_reports := [sample_report (lit ''x''), wide_report]\<rparr>) = Inl e"
  using unrenderable_report_blocks_digest [OF _ wide_row] wide_targets by simp
end
