(* ===== verification/Ledger.thy ===== *)
theory Ledger
  imports Lane Lang
begin

text \<open>
  \<open>src/pipeline_commit.rs\<close>: the two append-only JSON-lines ledgers (registry and state) that
  record a finished target, and the commit protocol that keeps them in step. A file system maps
  a path to a regular file's text or to something else; the outcome of each read, write and
  restore, and the symbolic links, canonical directories and file identities the alias check asks
  for, are parameters, as are the JSON reader and printer.
\<close>

section \<open>Rows and identities\<close>

record LedgerIdentity =
  li_kind :: ustr
  li_episode_id :: int
  li_language :: ustr
  li_artifact :: bytes

datatype CommitLedgerError = LIo | LStorage | LContradiction | LInvalidInput

record CommitWitness =
  cw_pipeline_commit_id :: ustr
  report_hash :: bytes

definition parse_hex :: "ustr \<Rightarrow> bytes option" where
  "parse_hex s = (if byte_len s \<noteq> 64 then None else decode_hex s)"

definition row_identity :: "json \<Rightarrow> LedgerIdentity option" where
  "row_identity v =
     (if \<not> is_object v then None
      else case first_some (json_get (lit ''episode_id'') v) (json_get (lit ''sonarrEpisodeId'') v) of
          None \<Rightarrow> None
        | Some idv \<Rightarrow>
            (case as_i64 idv of None \<Rightarrow> None | Some i \<Rightarrow>
            (case Option.bind (get_str ''artifact_sha256'' v) parse_hex of None \<Rightarrow> None | Some d \<Rightarrow>
              Some \<lparr>li_kind = (case get_str ''kind'' v of Some k \<Rightarrow> k | None \<Rightarrow> lit ''series''),
                    li_episode_id = i,
                    li_language =
                      (case Option.bind (first_some (json_get (lit ''language'') v) (json_get (lit ''lang'') v)) as_str of
                         Some l \<Rightarrow> normalize_lang l | None \<Rightarrow> []),
                    li_artifact = d\<rparr>)))"

fun remove_ts :: "json \<Rightarrow> json" where
  "remove_ts (JObj kvs) = JObj (filter (\<lambda>(k, _). k \<noteq> lit ''ts'') kvs)"
| "remove_ts v = v"

definition rows_equal_ignoring_timestamp :: "json \<Rightarrow> json \<Rightarrow> bool" where
  "rows_equal_ignoring_timestamp l r \<longleftrightarrow> remove_ts l = remove_ts r"

definition canonical_line :: "json_lib \<Rightarrow> json \<Rightarrow> ustr" where
  "canonical_line lib v = print_json lib v @ [nl]"

definition row_digest :: "(bytes \<Rightarrow> bytes) \<Rightarrow> json_lib \<Rightarrow> json \<Rightarrow> bytes" where
  "row_digest sha lib v = sha (utf8 (print_json lib v))"

section \<open>Appending\<close>

text \<open>What a ledger path names: a regular file (possibly through a link) with its text, a symbolic
  link whose target does not exist, or something that opens but cannot be read as a file, such as
  a directory.\<close>

datatype ledger_entry = LFile ustr | LDangling | LOther

type_synonym ledger_fs = "ustr \<Rightarrow> ledger_entry option"

text \<open>The outcome of the write: done, the open failed, the first \<open>n\<close> characters were written, or
  everything was written but the sync failed.\<close>

datatype write_io = WDone | WOpenFails | WTorn nat | WSyncFails

record append_io =
  openable :: bool
  lines_ok :: bool
  write_out :: write_io

text \<open>The scan of the existing rows: every line must parse, the last row with the identity
  counts.\<close>

fun scan_rows :: "json_lib \<Rightarrow> LedgerIdentity \<Rightarrow> json option \<Rightarrow> ustr list \<Rightarrow> CommitLedgerError + json option" where
  "scan_rows lib ident found [] = Inr found"
| "scan_rows lib ident found (l # ls) =
     (case parse_json lib l of
        None \<Rightarrow> Inl LStorage
      | Some v \<Rightarrow> scan_rows lib ident (if row_identity v = Some ident then Some v else found) ls)"

definition entry_text :: "ledger_entry option \<Rightarrow> ustr" where
  "entry_text e = (case e of Some (LFile t) \<Rightarrow> t | _ \<Rightarrow> [])"

definition existing_row ::
    "json_lib \<Rightarrow> append_io \<Rightarrow> LedgerIdentity \<Rightarrow> ledger_entry option \<Rightarrow> CommitLedgerError + json option" where
  "existing_row lib io ident e =
     (case e of None \<Rightarrow> Inr None
      | Some LDangling \<Rightarrow> Inr None
      | Some _ \<Rightarrow>
          if \<not> openable io then Inr None
          else if \<not> lines_ok io then Inl LIo
          else scan_rows lib ident None (str_lines (entry_text e)))"

definition append_if_absent ::
    "json_lib \<Rightarrow> append_io \<Rightarrow> ustr \<Rightarrow> LedgerIdentity \<Rightarrow> json \<Rightarrow> ledger_fs
      \<Rightarrow> ledger_fs \<times> (CommitLedgerError + unit)" where
  "append_if_absent lib io p ident row fs =
     (if fs p = Some LOther then (fs, Inl LIo)
      else case existing_row lib io ident (fs p) of
          Inl e \<Rightarrow> (fs, Inl e)
        | Inr (Some existing) \<Rightarrow>
            if existing = row \<or> rows_equal_ignoring_timestamp existing row then (fs, Inr ())
            else (fs, Inl LContradiction)
        | Inr None \<Rightarrow>
            (let text = entry_text (fs p); line = canonical_line lib row
             in case write_out io of
                  WOpenFails \<Rightarrow> (fs, Inl LIo)
                | WTorn n \<Rightarrow> (fs(p \<mapsto> LFile (text @ take n line)), Inl LIo)
                | WSyncFails \<Rightarrow> (fs(p \<mapsto> LFile (text @ line)), Inl LIo)
                | WDone \<Rightarrow> (fs(p \<mapsto> LFile (text @ line)), Inr ())))"

section \<open>The commit protocol\<close>

text \<open>The outcome of a restore: done, failed before it touched the file, or failed after the
  truncation with the first \<open>n\<close> characters written.\<close>

datatype restore_io = RestoreDone | RestoreFails | RestoreTorn nat

text \<open>A ledger that was neither missing nor a readable file is not restored.\<close>

definition restore_ledger ::
    "restore_io \<Rightarrow> ustr \<Rightarrow> ledger_entry option \<Rightarrow> ledger_fs \<Rightarrow> ledger_fs \<times> (CommitLedgerError + unit)" where
  "restore_ledger io p snap fs =
     (case snap of
        None \<Rightarrow> (case io of RestoreDone \<Rightarrow> (fs(p := None), Inr ()) | _ \<Rightarrow> (fs, Inl LIo))
      | Some (LFile t) \<Rightarrow>
          (case io of
             RestoreDone \<Rightarrow> (fs(p \<mapsto> LFile t), Inr ())
           | RestoreFails \<Rightarrow> (fs, Inl LIo)
           | RestoreTorn n \<Rightarrow> (fs(p \<mapsto> LFile (take n t)), Inl LIo))
      | Some _ \<Rightarrow> (fs, Inr ()))"

text \<open>\<open>absolute_normalized\<close> on the components of an absolute path: dots are dropped, a parent
  component removes its predecessor and stops at the root.\<close>

fun normalize_components :: "ustr list \<Rightarrow> ustr list \<Rightarrow> ustr list" where
  "normalize_components done [] = done"
| "normalize_components done (c # cs) =
     (if c = lit ''.'' then normalize_components done cs
      else if c = lit ''..'' then normalize_components (butlast done) cs
      else normalize_components (done @ [c]) cs)"

record path_env =
  current_dir :: "ustr list option"
  canonicalize :: "ustr list \<Rightarrow> ustr list option"
  read_link :: "ustr list \<Rightarrow> ustr option option"
  same_inode :: "ustr \<Rightarrow> ustr \<Rightarrow> bool"

definition components :: "ustr \<Rightarrow> ustr list" where
  "components p = filter (\<lambda>c. c \<noteq> []) (split_str (lit ''/'') p)"

definition absolute_normalized :: "path_env \<Rightarrow> ustr \<Rightarrow> CommitLedgerError + ustr list" where
  "absolute_normalized env p =
     (if starts_with (lit ''/'') p then Inr (normalize_components [] (components p))
      else case current_dir env of
          None \<Rightarrow> Inl LInvalidInput
        | Some d \<Rightarrow> Inr (normalize_components [] (d @ components p)))"

text \<open>\<open>resolve\<close> of \<open>comparison_path\<close>: symbolic links are followed 17 times at most, then the path
  stands as it is. \<open>read_link\<close> gives nothing for a path that is no link, and \<open>Some None\<close> for a link
  that cannot be read.\<close>

fun resolve :: "path_env \<Rightarrow> nat \<Rightarrow> ustr list \<Rightarrow> CommitLedgerError + ustr list" where
  "resolve env 0 p = Inr p"
| "resolve env (Suc n) p =
     (if p = [] then Inl LInvalidInput
      else case read_link env p of
          None \<Rightarrow> Inr ((case canonicalize env (butlast p) of Some d \<Rightarrow> d | None \<Rightarrow> butlast p) @ [last p])
        | Some None \<Rightarrow> Inl LInvalidInput
        | Some (Some t) \<Rightarrow>
            resolve env n (normalize_components []
              (if starts_with (lit ''/'') t then components t else butlast p @ components t)))"

definition comparison_path :: "path_env \<Rightarrow> ustr \<Rightarrow> CommitLedgerError + ustr list" where
  "comparison_path env p =
     (case absolute_normalized env p of Inl e \<Rightarrow> Inl e | Inr c \<Rightarrow> resolve env 17 c)"

definition paths_alias :: "path_env \<Rightarrow> ustr \<Rightarrow> ustr \<Rightarrow> CommitLedgerError + bool" where
  "paths_alias env l r =
     (case comparison_path env l of Inl e \<Rightarrow> Inl e | Inr a \<Rightarrow>
      (case comparison_path env r of Inl e \<Rightarrow> Inl e | Inr b \<Rightarrow> Inr (a = b \<or> same_inode env l r)))"

definition validate_pair_request ::
    "(ustr \<Rightarrow> ustr \<Rightarrow> CommitLedgerError + bool) \<Rightarrow> ustr \<Rightarrow> ustr \<Rightarrow> LedgerIdentity \<Rightarrow> json \<Rightarrow> json
      \<Rightarrow> CommitLedgerError + unit" where
  "validate_pair_request aliased rp sp' ident rrow srow =
     (case aliased rp sp' of
        Inl e \<Rightarrow> Inl e
      | Inr True \<Rightarrow> Inl LInvalidInput
      | Inr False \<Rightarrow>
          if row_identity rrow \<noteq> Some ident \<or> row_identity srow \<noteq> Some ident then Inl LInvalidInput
          else Inr ())"

definition witness_of :: "(bytes \<Rightarrow> bytes) \<Rightarrow> json_lib \<Rightarrow> json \<Rightarrow> CommitWitness" where
  "witness_of sha lib row =
     (let h = row_digest sha lib row
      in \<lparr>cw_pipeline_commit_id = lit ''asrsub-pipeline-v1-'' @ hex (sha (ascii ''asrsub-pipeline-v1'' @ [0] @ h)),
          report_hash = h\<rparr>)"

record pair_io =
  locks_ok :: bool
  snapshots_ok :: bool
  registry_io :: append_io
  state_io :: append_io
  registry_restore :: restore_io
  state_restore :: restore_io

definition commit_pair ::
    "(bytes \<Rightarrow> bytes) \<Rightarrow> json_lib \<Rightarrow> (ustr \<Rightarrow> ustr \<Rightarrow> CommitLedgerError + bool) \<Rightarrow> pair_io
      \<Rightarrow> ustr \<Rightarrow> ustr \<Rightarrow> LedgerIdentity \<Rightarrow> json \<Rightarrow> json \<Rightarrow> ledger_fs
      \<Rightarrow> ledger_fs \<times> (CommitLedgerError + CommitWitness)" where
  "commit_pair sha lib aliased io rp sp' ident rrow srow fs =
     (case validate_pair_request aliased rp sp' ident rrow srow of Inl e \<Rightarrow> (fs, Inl e) | Inr _ \<Rightarrow>
      if \<not> locks_ok io \<or> \<not> snapshots_ok io then (fs, Inl LIo)
      else
       (let rsnap = fs rp; ssnap = fs sp';
            (fs2, r) = (case append_if_absent lib (registry_io io) rp ident rrow fs of
                          (fs1, Inl e) \<Rightarrow> (fs1, Inl e)
                        | (fs1, Inr _) \<Rightarrow> append_if_absent lib (state_io io) sp' ident srow fs1)
        in case r of
             Inr _ \<Rightarrow> (fs2, Inr (witness_of sha lib rrow))
           | Inl e \<Rightarrow>
               (case restore_ledger (registry_restore io) rp rsnap fs2 of (fs3, r1) \<Rightarrow>
               (case restore_ledger (state_restore io) sp' ssnap fs3 of (fs4, r2) \<Rightarrow>
                  (fs4, Inl (if r1 \<noteq> Inr () \<or> r2 \<noteq> Inr () then LIo else e))))))"

definition commit_one ::
    "(bytes \<Rightarrow> bytes) \<Rightarrow> json_lib \<Rightarrow> bool \<Rightarrow> append_io \<Rightarrow> ustr \<Rightarrow> LedgerIdentity \<Rightarrow> json \<Rightarrow> ledger_fs
      \<Rightarrow> ledger_fs \<times> (CommitLedgerError + CommitWitness)" where
  "commit_one sha lib lock_ok io p ident row fs =
     (if \<not> lock_ok then (fs, Inl LIo)
      else case append_if_absent lib io p ident row fs of
          (fs1, Inl e) \<Rightarrow> (fs1, Inl e)
        | (fs1, Inr _) \<Rightarrow> (fs1, Inr (witness_of sha lib row)))"

datatype LedgerCommitRequest =
    TargetLedgerCommit ustr ustr LedgerIdentity json json
  | ErrorMarkerCommit ustr LedgerIdentity json

definition commit_target_ledgers ::
    "(bytes \<Rightarrow> bytes) \<Rightarrow> json_lib \<Rightarrow> path_env \<Rightarrow> pair_io
      \<Rightarrow> LedgerCommitRequest \<Rightarrow> ledger_fs \<Rightarrow> ledger_fs \<times> (CommitLedgerError + CommitWitness)" where
  "commit_target_ledgers sha lib env io req fs =
     (case req of
        TargetLedgerCommit rp sp' ident rrow srow \<Rightarrow> commit_pair sha lib (paths_alias env) io rp sp' ident rrow srow fs
      | ErrorMarkerCommit p ident row \<Rightarrow> commit_one sha lib (locks_ok io) (state_io io) p ident row fs)"

section \<open>The store interface\<close>

text \<open>What the protocol needs from a ledger: a write touches only its own slot, a slot can be put
  back, slots of separate requests are independent, a successful write is recorded, and writing
  what is recorded changes nothing.\<close>

locale rollback_store =
  fixes put :: "'a \<Rightarrow> 's \<Rightarrow> 's \<times> ('e + unit)"
    and slot :: "'a \<Rightarrow> 's \<Rightarrow> 'c"
    and set_slot :: "'a \<Rightarrow> 'c \<Rightarrow> 's \<Rightarrow> 's"
    and separate :: "'a \<Rightarrow> 'a \<Rightarrow> bool"
    and ready :: "'a \<Rightarrow> 's \<Rightarrow> bool"
    and holds :: "'a \<Rightarrow> 's \<Rightarrow> bool"
  assumes put_frame: "put a s = (s', r) \<Longrightarrow> s' = set_slot a (slot a s') s"
    and set_set: "set_slot a c (set_slot a d s) = set_slot a c s"
    and set_same: "set_slot a (slot a s) s = s"
    and set_commute: "separate a b \<Longrightarrow> set_slot a c (set_slot b d s) = set_slot b d (set_slot a c s)"
    and put_holds: "ready a s \<Longrightarrow> put a s = (s', Inr u) \<Longrightarrow> holds a s'"
    and holds_put: "ready a s \<Longrightarrow> holds a s \<Longrightarrow> put a s = (s, Inr ())"
    and ready_frame: "separate a b \<Longrightarrow> ready b (set_slot a c s) = ready b s"
    and holds_frame: "separate a b \<Longrightarrow> holds a (set_slot b d s) = holds a s"
begin

lemma rollback_first:
  "put a s = (s1, r) \<Longrightarrow> separate a b \<Longrightarrow> set_slot b (slot b s) (set_slot a (slot a s) s1) = s"
  using put_frame [of a s s1 r] by (metis set_set set_same)

lemma rollback_second:
  assumes "put a s = (s1, r1)" and "put b s1 = (s2, r2)" and "separate a b"
  shows "set_slot b (slot b s) (set_slot a (slot a s) s2) = s"
proof -
  obtain c where c: "s1 = set_slot a c s" using put_frame [OF assms(1)] by blast
  obtain d where d: "s2 = set_slot b d s1" using put_frame [OF assms(2)] by blast
  have "set_slot a (slot a s) s2 = set_slot b d (set_slot a (slot a s) s1)"
    by (simp add: d set_commute [OF assms(3)])
  also have "\<dots> = set_slot b d s" by (simp add: c set_set set_same)
  finally show ?thesis by (simp add: set_set set_same)
qed

lemma both_held:
  assumes "ready a s" "ready b s" "separate a b" "put a s = (s1, Inr u)" "put b s1 = (s2, Inr v)"
  shows "holds a s2 \<and> holds b s2"
proof -
  have "s1 = set_slot a (slot a s1) s" using put_frame [OF assms(4)] .
  then have "ready b s1" using ready_frame [OF assms(3)] assms(2) by metis
  then have "holds b s2" using put_holds assms(5) by blast
  moreover have "holds a s2"
    using put_holds [OF assms(1,4)] holds_frame [OF assms(3)] put_frame [OF assms(5)] by metis
  ultimately show ?thesis by simp
qed

lemma both_again:
  assumes "ready a s" "ready b s" "holds a s" "holds b s"
  shows "put a s = (s, Inr ()) \<and> put b s = (s, Inr ())"
  using assms holds_put by blast

end

section \<open>The ledger file as a store\<close>

record put_request =
  rq_lib :: json_lib
  rq_io :: append_io
  rq_path :: ustr
  rq_identity :: LedgerIdentity
  rq_row :: json

definition put_row :: "put_request \<Rightarrow> ledger_fs \<Rightarrow> ledger_fs \<times> (CommitLedgerError + unit)" where
  "put_row q = append_if_absent (rq_lib q) (rq_io q) (rq_path q) (rq_identity q) (rq_row q)"

text \<open>A row prints as one line that reads back as the row.\<close>

definition prints_line :: "json_lib \<Rightarrow> json \<Rightarrow> bool" where
  "prints_line lib row \<longleftrightarrow> parse_json lib (print_json lib row) = Some row \<and> nl \<notin> set (print_json lib row)
     \<and> (print_json lib row = [] \<or> last (print_json lib row) \<noteq> cr)"

text \<open>A ledger file ends with a complete line.\<close>

definition terminated :: "ledger_entry option \<Rightarrow> bool" where
  "terminated e \<longleftrightarrow>
     (case e of None \<Rightarrow> True | Some LDangling \<Rightarrow> True | Some LOther \<Rightarrow> False | Some (LFile t) \<Rightarrow> t = [] \<or> last t = nl)"

definition row_ready :: "put_request \<Rightarrow> ledger_fs \<Rightarrow> bool" where
  "row_ready q fs \<longleftrightarrow> openable (rq_io q) \<and> lines_ok (rq_io q) \<and> prints_line (rq_lib q) (rq_row q)
     \<and> row_identity (rq_row q) = Some (rq_identity q) \<and> terminated (fs (rq_path q))"

definition recorded :: "json_lib \<Rightarrow> LedgerIdentity \<Rightarrow> json \<Rightarrow> ledger_entry option \<Rightarrow> bool" where
  "recorded lib ident row e \<longleftrightarrow>
     (\<exists>t v. e = Some (LFile t) \<and> scan_rows lib ident None (str_lines t) = Inr (Some v)
        \<and> (v = row \<or> rows_equal_ignoring_timestamp v row))"

definition row_recorded :: "put_request \<Rightarrow> ledger_fs \<Rightarrow> bool" where
  "row_recorded q fs \<longleftrightarrow> recorded (rq_lib q) (rq_identity q) (rq_row q) (fs (rq_path q))"

lemma scan_rows_snoc:
  "scan_rows lib ident found (ls @ [l]) =
     (case scan_rows lib ident found ls of Inl e \<Rightarrow> Inl e
      | Inr f \<Rightarrow> (case parse_json lib l of None \<Rightarrow> Inl LStorage
                 | Some v \<Rightarrow> Inr (if row_identity v = Some ident then Some v else f)))"
  by (induction ls arbitrary: found) (auto split: option.splits)

lemma append_frame:
  "append_if_absent lib io p ident row fs = (fs', r) \<Longrightarrow> fs' = fs(p := fs' p)"
  by (auto simp: append_if_absent_def Let_def split: if_splits sum.splits option.splits write_io.splits)

lemma str_lines_Nil [simp]: "str_lines [] = []"
  by (simp add: str_lines_def split_str_end starts_with_def)

lemma append_recorded:
  assumes "openable io" "lines_ok io" "prints_line lib row" "row_identity row = Some ident" "terminated (fs p)"
    and "append_if_absent lib io p ident row fs = (fs', Inr u)"
  shows "recorded lib ident row (fs' p)"
proof -
  define t where "t = entry_text (fs p)"
  have entry: "fs p = None \<and> t = [] \<or> fs p = Some LDangling \<and> t = [] \<or> fs p = Some (LFile t)"
    using assms(5) by (auto simp: t_def entry_text_def terminated_def split: option.splits ledger_entry.splits)
  then have scan: "existing_row lib io ident (fs p) = scan_rows lib ident None (str_lines t)"
    using assms(1,2) by (auto simp: existing_row_def entry_text_def)
  have not_other: "fs p \<noteq> Some LOther" using entry by auto
  show ?thesis
  proof (cases "scan_rows lib ident None (str_lines t)")
    case (Inl e)
    then show ?thesis using assms(6) scan not_other by (simp add: append_if_absent_def)
  next
    case (Inr found)
    show ?thesis
    proof (cases found)
      case (Some v)
      with Inr have "fs p = Some (LFile t)" using entry by (auto simp: str_lines_def split_str_end starts_with_def)
      then show ?thesis
        using assms(6) scan not_other Inr Some
        by (auto simp: append_if_absent_def recorded_def split: if_splits)
    next
      case None
      have "t = [] \<or> last t = nl" using assms(5) entry by (auto simp: terminated_def)
      then have "str_lines (t @ print_json lib row @ [nl]) = str_lines t @ [print_json lib row]"
        using assms(3) by (intro str_lines_append) (auto simp: prints_line_def)
      then have "scan_rows lib ident None (str_lines (t @ canonical_line lib row)) = Inr (Some row)"
        using assms(3,4) Inr None by (simp add: canonical_line_def scan_rows_snoc prints_line_def)
      moreover have "fs' p = Some (LFile (t @ canonical_line lib row))"
        using assms(6) scan not_other Inr None
        by (auto simp: append_if_absent_def Let_def t_def [symmetric] split: write_io.splits)
      ultimately show ?thesis by (simp add: recorded_def)
    qed
  qed
qed

lemma append_again:
  assumes "openable io" "lines_ok io" "recorded lib ident row (fs p)"
  shows "append_if_absent lib io p ident row fs = (fs, Inr ())"
  using assms by (auto simp: append_if_absent_def recorded_def existing_row_def entry_text_def)

interpretation ledger: rollback_store put_row "\<lambda>q fs. fs (rq_path q)" "\<lambda>q e fs. fs(rq_path q := e)"
    "\<lambda>a b. rq_path a \<noteq> rq_path b" row_ready row_recorded
proof unfold_locales
  fix a :: put_request and s s' r
  assume "put_row a s = (s', r)"
  then show "s' = s(rq_path a := s' (rq_path a))" unfolding put_row_def by (rule append_frame)
next
  fix a s s' u assume "row_ready a s" "put_row a s = (s', Inr u)"
  then show "row_recorded a s'"
    unfolding row_ready_def put_row_def row_recorded_def by (blast intro: append_recorded)
next
  fix a s assume "row_ready a s" "row_recorded a s"
  then show "put_row a s = (s, Inr ())"
    unfolding row_ready_def put_row_def row_recorded_def by (blast intro: append_again)
qed (auto simp: row_ready_def row_recorded_def fun_upd_twist)

section \<open>Properties\<close>

lemma upd_same [simp]: "f x = y \<Longrightarrow> f(x := y) = f"
  by auto

lemma restore_ok: "restore_ledger RestoreDone p snap fs =
    ((if snap = Some LOther \<or> snap = Some LDangling then fs else fs(p := snap)), Inr ())"
  by (cases snap) (auto simp: restore_ledger_def split: ledger_entry.splits)

definition registry_put :: "json_lib \<Rightarrow> pair_io \<Rightarrow> ustr \<Rightarrow> LedgerIdentity \<Rightarrow> json \<Rightarrow> put_request" where
  "registry_put lib io p ident row =
     \<lparr>rq_lib = lib, rq_io = registry_io io, rq_path = p, rq_identity = ident, rq_row = row\<rparr>"

definition state_put :: "json_lib \<Rightarrow> pair_io \<Rightarrow> ustr \<Rightarrow> LedgerIdentity \<Rightarrow> json \<Rightarrow> put_request" where
  "state_put lib io p ident row =
     \<lparr>rq_lib = lib, rq_io = state_io io, rq_path = p, rq_identity = ident, rq_row = row\<rparr>"

lemma commit_pair_puts:
  assumes "aliased rp sp' = Inr False" "row_identity rrow = Some ident" "row_identity srow = Some ident"
    and "locks_ok io" "snapshots_ok io"
  shows "commit_pair sha lib aliased io rp sp' ident rrow srow fs =
    (case put_row (registry_put lib io rp ident rrow) fs of
       (fs1, Inl e) \<Rightarrow>
         (case restore_ledger (registry_restore io) rp (fs rp) fs1 of (fs3, r1) \<Rightarrow>
          (case restore_ledger (state_restore io) sp' (fs sp') fs3 of (fs4, r2) \<Rightarrow>
            (fs4, Inl (if r1 \<noteq> Inr () \<or> r2 \<noteq> Inr () then LIo else e))))
     | (fs1, Inr _) \<Rightarrow>
         (case put_row (state_put lib io sp' ident srow) fs1 of
            (fs2, Inr _) \<Rightarrow> (fs2, Inr (witness_of sha lib rrow))
          | (fs2, Inl e) \<Rightarrow>
             (case restore_ledger (registry_restore io) rp (fs rp) fs2 of (fs3, r1) \<Rightarrow>
              (case restore_ledger (state_restore io) sp' (fs sp') fs3 of (fs4, r2) \<Rightarrow>
                (fs4, Inl (if r1 \<noteq> Inr () \<or> r2 \<noteq> Inr () then LIo else e))))))"
  using assms
  by (simp add: commit_pair_def validate_pair_request_def put_row_def registry_put_def state_put_def Let_def
      split: prod.splits sum.splits)

lemma commit_pair_undone:
  assumes "commit_pair sha lib aliased io rp sp' ident rrow srow fs = (fs', Inl e)"
    and "registry_restore io = RestoreDone" "state_restore io = RestoreDone" "rp \<noteq> sp'"
    and "fs rp \<noteq> Some LDangling" "fs sp' \<noteq> Some LDangling"
  shows "fs' = fs"
proof (cases "aliased rp sp' = Inr False \<and> row_identity rrow = Some ident \<and> row_identity srow = Some ident
    \<and> locks_ok io \<and> snapshots_ok io")
  case False
  with assms(1) show ?thesis
    by (auto simp: commit_pair_def validate_pair_request_def split: sum.splits bool.splits if_splits)
next
  case True
  let ?a = "registry_put lib io rp ident rrow" and ?b = "state_put lib io sp' ident srow"
  have paths: "rq_path ?a = rp" "rq_path ?b = sp'" by (simp_all add: registry_put_def state_put_def)
  obtain fs1 r1 where p1: "put_row ?a fs = (fs1, r1)" by fastforce
  obtain fs2 r2 where p2: "put_row ?b fs1 = (fs2, r2)" by fastforce
  have same: "put_row q s = (s', r) \<Longrightarrow> s (rq_path q) = Some LOther \<Longrightarrow> s' = s \<and> r = Inl LIo" for q s s' r
    by (simp add: put_row_def append_if_absent_def)
  have other: "fs1 sp' = fs sp'" and dangling: "fs rp \<noteq> Some LDangling" "fs sp' \<noteq> Some LDangling"
    using ledger.put_frame [OF p1] assms(4-6) paths by (metis fun_upd_apply)+
  show ?thesis
  proof (cases r1)
    case (Inl e1)
    have "fs1(rp := fs rp, sp' := fs sp') = fs"
      using ledger.rollback_first [OF p1, of ?b] assms(4) paths by simp
    with same [OF p1] show ?thesis
      using assms True p1 Inl other paths
      by (auto simp: commit_pair_puts restore_ok split: if_splits)
  next
    case (Inr u)
    show ?thesis
    proof (cases r2)
      case (Inl e2)
      have "fs2(rp := fs rp, sp' := fs sp') = fs"
        using ledger.rollback_second [OF p1 p2] assms(4) paths by simp
      with same [OF p1] same [OF p2] show ?thesis
        using assms True p1 p2 Inl Inr other paths
        by (auto simp: commit_pair_puts restore_ok split: if_splits)
    next
      case (Inr v)
      with assms True p1 p2 \<open>r1 = Inr u\<close> show ?thesis by (simp add: commit_pair_puts)
    qed
  qed
qed

text \<open>C3: the pair commit is atomic: when it fails, for whatever reason and at whatever point (a
  contradiction, an unreadable row, a torn or unsynced write of either ledger), the restores
  themselves succeed and neither ledger is a dangling link, the file system is exactly what it
  was.\<close>

theorem commit_pair_atomic:
  assumes "commit_pair sha lib aliased io rp sp' ident rrow srow fs = (fs', Inl e)"
    and "registry_restore io = RestoreDone" "state_restore io = RestoreDone" "rp \<noteq> sp'"
    and "fs rp \<noteq> Some LDangling" "fs sp' \<noteq> Some LDangling"
  shows "fs' = fs"
  using assms by (rule commit_pair_undone)

definition entry_lines :: "ledger_entry option \<Rightarrow> ustr set" where
  "entry_lines e = set (str_lines (entry_text e))"

lemma append_lines:
  assumes "prints_line lib row" "terminated (fs p)" "append_if_absent lib io p ident row fs = (fs', Inr u)"
  shows "entry_lines (fs' p) \<subseteq> insert (print_json lib row) (entry_lines (fs p))"
proof -
  let ?t = "entry_text (fs p)"
  have "?t = [] \<or> last ?t = nl"
    using assms(2) by (auto simp: entry_text_def terminated_def split: option.splits ledger_entry.splits)
  then have "str_lines (?t @ canonical_line lib row) = str_lines ?t @ [print_json lib row]"
    unfolding canonical_line_def using assms(1) by (intro str_lines_append) (auto simp: prints_line_def)
  moreover have "fs' p = fs p \<or> fs' p = Some (LFile (?t @ canonical_line lib row))"
    using assms(3) by (auto simp: append_if_absent_def Let_def split: if_splits sum.splits option.splits write_io.splits)
  ultimately show ?thesis by (auto simp: entry_lines_def entry_text_def [of "Some (LFile _)"])
qed

text \<open>What a successful commit leaves behind.\<close>

lemma commit_pair_recorded:
  assumes "commit_pair sha lib aliased io rp sp' ident rrow srow fs = (fs', Inr w)" and "rp \<noteq> sp'"
    and "openable (registry_io io)" "lines_ok (registry_io io)" "openable (state_io io)" "lines_ok (state_io io)"
    and "prints_line lib rrow" "prints_line lib srow" "terminated (fs rp)" "terminated (fs sp')"
  shows "recorded lib ident rrow (fs' rp) \<and> recorded lib ident srow (fs' sp') \<and> fs' = fs(rp := fs' rp, sp' := fs' sp')
    \<and> entry_lines (fs' rp) \<subseteq> insert (print_json lib rrow) (entry_lines (fs rp))
    \<and> entry_lines (fs' sp') \<subseteq> insert (print_json lib srow) (entry_lines (fs sp'))"
proof -
  let ?a = "registry_put lib io rp ident rrow" and ?b = "state_put lib io sp' ident srow"
  have valid: "aliased rp sp' = Inr False" "row_identity rrow = Some ident" "row_identity srow = Some ident"
    "locks_ok io" "snapshots_ok io"
    using assms(1) by (auto simp: commit_pair_def validate_pair_request_def split: sum.splits bool.splits if_splits)
  obtain fs1 r1 where p1: "put_row ?a fs = (fs1, r1)" by fastforce
  obtain fs2 r2 where p2: "put_row ?b fs1 = (fs2, r2)" by fastforce
  from assms(1) have ok: "r1 = Inr ()" "r2 = Inr ()" "fs2 = fs'"
    unfolding commit_pair_puts [where aliased = aliased and rp = rp and sp' = sp', OF valid] by (auto simp: p1 p2 split: sum.splits prod.splits)
  have ready: "row_ready ?a fs" "row_ready ?b fs"
    using assms valid by (simp_all add: row_ready_def registry_put_def state_put_def)
  have sep: "rq_path ?a \<noteq> rq_path ?b" using assms(2) by (simp add: registry_put_def state_put_def)
  have "row_recorded ?a fs' \<and> row_recorded ?b fs'"
    using ledger.both_held [OF ready sep] p1 p2 ok by blast
  moreover have f: "fs1 = fs(rp := fs1 rp)" "fs' = fs1(sp' := fs' sp')"
    using ledger.put_frame [OF p1] ledger.put_frame [OF p2] ok(3) by (simp_all add: registry_put_def state_put_def)
  moreover have same: "fs' rp = fs1 rp" "fs1 sp' = fs sp'" using f assms(2) by (metis fun_upd_apply)+
  moreover have "entry_lines (fs1 rp) \<subseteq> insert (print_json lib rrow) (entry_lines (fs rp))"
    using append_lines [where fs = fs and p = rp, OF assms(7,9)] p1 ok(1) by (simp add: put_row_def registry_put_def)
  moreover have "entry_lines (fs' sp') \<subseteq> insert (print_json lib srow) (entry_lines (fs1 sp'))"
    using append_lines [where fs = fs1 and p = sp', OF assms(8)] assms(10) same(2) p2 ok
    by (simp add: put_row_def state_put_def)
  moreover have "fs' = fs(rp := fs' rp, sp' := fs' sp')" using f(2) f(1) same by (metis fun_upd_idem fun_upd_upd)
  ultimately show ?thesis by (auto simp: row_recorded_def registry_put_def state_put_def)
qed


text \<open>C5: a successful pair commit is recorded in both ledgers and touches nothing else, and
  committing the same rows again (with another timestamp) succeeds without writing.\<close>

theorem commit_pair_durable:
  assumes "commit_pair sha lib aliased io rp sp' ident rrow srow fs = (fs', Inr w)" and "rp \<noteq> sp'"
    and "openable (registry_io io)" "lines_ok (registry_io io)" "openable (state_io io)" "lines_ok (state_io io)"
    and "prints_line lib rrow" "prints_line lib srow" "terminated (fs rp)" "terminated (fs sp')"
    and "row_identity rrow2 = Some ident" "rows_equal_ignoring_timestamp rrow rrow2"
    and "row_identity srow2 = Some ident" "rows_equal_ignoring_timestamp srow srow2"
  shows "recorded lib ident rrow (fs' rp) \<and> recorded lib ident srow (fs' sp')
    \<and> fs' = fs(rp := fs' rp, sp' := fs' sp')
    \<and> commit_pair sha lib aliased io rp sp' ident rrow2 srow2 fs' = (fs', Inr (witness_of sha lib rrow2))"
proof -
  have valid: "aliased rp sp' = Inr False" "row_identity rrow = Some ident" "row_identity srow = Some ident"
    "locks_ok io" "snapshots_ok io"
    using assms(1) by (auto simp: commit_pair_def validate_pair_request_def split: sum.splits bool.splits if_splits)
  have rec: "recorded lib ident rrow (fs' rp)" "recorded lib ident srow (fs' sp')"
    and frame: "fs' = fs(rp := fs' rp, sp' := fs' sp')"
    using commit_pair_recorded [OF assms(1-10)] by blast+
  have again: "recorded lib ident r2 e" if "recorded lib ident r1 e" "rows_equal_ignoring_timestamp r1 r2" for r1 r2 e
    using that by (auto simp: recorded_def rows_equal_ignoring_timestamp_def)
  have "append_if_absent lib (registry_io io) rp ident rrow2 fs' = (fs', Inr ())"
    by (rule append_again [where fs = fs' and p = rp, OF assms(3,4) again [OF rec(1) assms(12)]])
  moreover have "append_if_absent lib (state_io io) sp' ident srow2 fs' = (fs', Inr ())"
    by (rule append_again [where fs = fs' and p = sp', OF assms(5,6) again [OF rec(2) assms(14)]])
  ultimately have "commit_pair sha lib aliased io rp sp' ident rrow2 srow2 fs' = (fs', Inr (witness_of sha lib rrow2))"
    using valid assms(11,13) by (simp add: commit_pair_def validate_pair_request_def Let_def)
  with rec frame show ?thesis by blast
qed

text \<open>A commit that contradicts a recorded row is refused and changes nothing: the row on
  record with the same identity must be the same row up to its timestamp.\<close>

theorem contradiction_refused:
  assumes "scan_rows lib ident None (str_lines t) = Inr (Some old)" and "fs rp = Some (LFile t)"
    and "\<not> rows_equal_ignoring_timestamp old rrow"
    and "aliased rp sp' = Inr False" "row_identity rrow = Some ident" "row_identity srow = Some ident"
    and "locks_ok io" "snapshots_ok io" "openable (registry_io io)" "lines_ok (registry_io io)"
    and "registry_restore io = RestoreDone" "state_restore io = RestoreDone"
  shows "commit_pair sha lib aliased io rp sp' ident rrow srow fs = (fs, Inl LContradiction)"
proof -
  have "old \<noteq> rrow" using assms(3) by (auto simp: rows_equal_ignoring_timestamp_def)
  then have "append_if_absent lib (registry_io io) rp ident rrow fs = (fs, Inl LContradiction)"
    using assms(1-3,9,10) by (simp add: append_if_absent_def existing_row_def entry_text_def)
  then show ?thesis
    using assms(4-8,11,12) by (simp add: commit_pair_def validate_pair_request_def Let_def restore_ok)
qed

text \<open>A ledger whose last line lost its newline (a torn tail that still parses) is corrupted
  by the next append: the new row is glued to it, and the ledger no longer reads.\<close>

theorem unterminated_ledger_corrupted:
  assumes "parse_json lib a = Some va" "row_identity va \<noteq> Some ident" "nl \<notin> set a" "a \<noteq> []"
    and "prints_line lib row" "row_identity row = Some ident" "parse_json lib (a @ print_json lib row) = None"
    and "openable io" "lines_ok io" "write_out io = WDone" "fs p = Some (LFile a)"
  shows "\<exists>fs'. append_if_absent lib io p ident row fs = (fs', Inr ())
    \<and> append_if_absent lib io p ident row fs' = (fs', Inl LStorage)"
proof -
  have one: "str_lines x = [x]" if "nl \<notin> set x" "x \<noteq> []" for x
    using that by (simp add: str_lines_def split_str_end split_once_char_notin)
  have line: "str_lines (a @ print_json lib row @ [nl]) = [a @ print_json lib row]"
  proof -
    have "a @ print_json lib row = [] \<or> last (a @ print_json lib row) \<noteq> cr \<or> print_json lib row = []"
      using assms(5) by (auto simp: prints_line_def)
    moreover have "print_json lib row \<noteq> []" using assms(1,2,5,6,7) by (auto simp: prints_line_def)
    ultimately have "last (a @ print_json lib row) \<noteq> cr" using assms(4) by auto
    then show ?thesis
      using str_lines_append [of "[]" "a @ print_json lib row"] assms(3,5) by (simp add: prints_line_def)
  qed
  have first: "append_if_absent lib io p ident row fs = (fs(p \<mapsto> LFile (a @ canonical_line lib row)), Inr ())"
    using assms by (simp add: append_if_absent_def existing_row_def entry_text_def one Let_def)
  show ?thesis
    by (intro exI conjI, rule first)
      (use assms line in \<open>simp add: append_if_absent_def existing_row_def entry_text_def canonical_line_def\<close>)
qed

lemma normalized_error: "absolute_normalized env p = Inl e \<Longrightarrow> e = LInvalidInput"
  by (auto simp: absolute_normalized_def split: if_splits option.splits)

lemma resolve_error: "resolve env n p = Inl e \<Longrightarrow> e = LInvalidInput"
  by (induction env n p rule: resolve.induct) (auto split: if_splits option.splits)

lemma comparison_error: "comparison_path env p = Inl e \<Longrightarrow> e = LInvalidInput"
  by (auto simp: comparison_path_def split: sum.splits dest: normalized_error resolve_error)

text \<open>Two ledger paths that compare equal once they are made absolute, their dots removed and
  their links followed are refused before any lock or write; a commit can never be asked to use
  one file as both ledgers under two spellings.\<close>

theorem same_ledger_refused:
  assumes "comparison_path env rp = comparison_path env sp'"
  shows "commit_target_ledgers sha lib env io (TargetLedgerCommit rp sp' ident rrow srow) fs = (fs, Inl LInvalidInput)"
proof -
  have "paths_alias env rp sp' = Inl LInvalidInput \<or> paths_alias env rp sp' = Inr True"
    using assms comparison_error by (auto simp: paths_alias_def split: sum.splits)
  then show ?thesis
    by (auto simp: commit_target_ledgers_def commit_pair_def validate_pair_request_def)
qed

text \<open>The exception to atomicity: a registry path that is a dangling link is created by the append
  and not removed when the state ledger fails afterwards.\<close>

lemma dangling_registry_keeps_row:
  assumes "aliased rp sp' = Inr False" "row_identity rrow = Some ident" "row_identity srow = Some ident"
    and "locks_ok io" "snapshots_ok io" "write_out (registry_io io) = WDone"
    and "fs rp = Some LDangling" "fs sp' = Some LOther" "rp \<noteq> sp'"
  shows "commit_pair sha lib aliased io rp sp' ident rrow srow fs
    = (fs(rp \<mapsto> LFile (canonical_line lib rrow)), Inl LIo)"
  using assms
  by (simp add: commit_pair_def validate_pair_request_def Let_def append_if_absent_def existing_row_def
      entry_text_def restore_ledger_def)

section \<open>Witnesses\<close>

definition row_obj :: "string \<Rightarrow> json" where
  "row_obj ts = JObj [(lit ''artifact_sha256'', JStr (replicate 64 48)), (lit ''episode_id'', JInt 7),
     (lit ''lang'', JStr (lit ''ja'')), (lit ''ts'', JStr (lit ts))]"

definition row_ident :: LedgerIdentity where
  "row_ident = \<lparr>li_kind = lit ''series'', li_episode_id = 7, li_language = normalize_lang (lit ''ja''),
     li_artifact = replicate 32 0\<rparr>"

definition row_lib :: json_lib where
  "row_lib = \<lparr>parse_json = (\<lambda>s. if s = lit ''a'' then Some (row_obj ''1'') else if s = lit ''b'' then Some (row_obj ''2'')
       else if s = lit ''n'' then Some JNull else None),
     print_json = (\<lambda>v. if v = row_obj ''1'' then lit ''a'' else lit ''b'')\<rparr>"

definition good_io :: append_io where
  "good_io = \<lparr>openable = True, lines_ok = True, write_out = WDone\<rparr>"

definition good_pair :: pair_io where
  "good_pair = \<lparr>locks_ok = True, snapshots_ok = True, registry_io = good_io, state_io = good_io,
     registry_restore = RestoreDone, state_restore = RestoreDone\<rparr>"

lemma zero_hex: "parse_hex (replicate 64 48) = Some (replicate 32 0)"
proof -
  have "replicate 64 48 = hex (replicate 32 0)"
    by (simp add: hex_def hex_digit_def numeral_eq_Suc)
  then have "decode_hex (replicate 64 48) = Some (replicate 32 0)"
    by (simp only: decode_hex_hex)
  then show ?thesis
    by (simp add: parse_hex_def byte_len_ascii)
qed

lemma row_obj_identity: "row_identity (row_obj ts) = Some row_ident"
  using zero_hex by (simp add: row_identity_def row_obj_def get_str_def first_some_def row_ident_def)

lemma row_lib_prints: "prints_line row_lib (row_obj ''1'')" "prints_line row_lib (row_obj ''2'')"
  by (simp_all add: prints_line_def row_lib_def row_obj_def lit_eval)

lemma row_objs_equal: "rows_equal_ignoring_timestamp (row_obj a) (row_obj b)"
  by (simp add: rows_equal_ignoring_timestamp_def row_obj_def)

lemma sample_commit:
  "\<exists>fs'. commit_pair no_sha row_lib (\<lambda>_ _. Inr False) good_pair (lit ''r'') (lit ''s'') row_ident (row_obj ''1'') (row_obj ''1'')
     (\<lambda>_. None) = (fs', Inr (witness_of no_sha row_lib (row_obj ''1'')))"
  by (simp add: commit_pair_def validate_pair_request_def row_obj_identity good_pair_def good_io_def
      append_if_absent_def existing_row_def Let_def)

theorem commit_pair_durable_witness:
  "\<exists>fs'. recorded row_lib row_ident (row_obj ''1'') (fs' (lit ''r''))
     \<and> commit_pair no_sha row_lib (\<lambda>_ _. Inr False) good_pair (lit ''r'') (lit ''s'') row_ident (row_obj ''2'') (row_obj ''2'') fs'
         = (fs', Inr (witness_of no_sha row_lib (row_obj ''2'')))"
proof -
  obtain fs' where fs': "commit_pair no_sha row_lib (\<lambda>_ _. Inr False) good_pair (lit ''r'') (lit ''s'') row_ident
      (row_obj ''1'') (row_obj ''1'') (\<lambda>_. None) = (fs', Inr (witness_of no_sha row_lib (row_obj ''1'')))"
    using sample_commit by blast
  have io: "openable good_io" "lines_ok good_io" "registry_io good_pair = good_io" "state_io good_pair = good_io"
    by (simp_all add: good_pair_def good_io_def)
  have "recorded row_lib row_ident (row_obj ''1'') (fs' (lit ''r''))
      \<and> recorded row_lib row_ident (row_obj ''1'') (fs' (lit ''s''))
      \<and> fs' = (\<lambda>_. None)(lit ''r'' := fs' (lit ''r''), lit ''s'' := fs' (lit ''s''))
      \<and> commit_pair no_sha row_lib (\<lambda>_ _. Inr False) good_pair (lit ''r'') (lit ''s'') row_ident (row_obj ''2'') (row_obj ''2'') fs'
         = (fs', Inr (witness_of no_sha row_lib (row_obj ''2'')))"
    by (rule commit_pair_durable [OF fs'])
      (simp_all add: io row_lib_prints row_obj_identity row_objs_equal terminated_def)
  then show ?thesis by blast
qed

theorem commit_pair_atomic_witness:
  "\<exists>e. commit_pair no_sha row_lib (\<lambda>_ _. Inr False)
     (good_pair\<lparr>state_io := good_io\<lparr>write_out := WTorn 1\<rparr>\<rparr>) (lit ''r'') (lit ''s'') row_ident (row_obj ''1'') (row_obj ''1'')
     (\<lambda>_. None) = ((\<lambda>_. None), Inl e)"
proof -
  let ?io = "good_pair\<lparr>state_io := good_io\<lparr>write_out := WTorn 1\<rparr>\<rparr>"
  obtain fs' e where c: "commit_pair no_sha row_lib (\<lambda>_ _. Inr False) ?io (lit ''r'') (lit ''s'') row_ident
      (row_obj ''1'') (row_obj ''1'') (\<lambda>_. None) = (fs', Inl e)"
    by (simp add: commit_pair_def validate_pair_request_def row_obj_identity good_pair_def good_io_def
        append_if_absent_def existing_row_def Let_def restore_ok)
  have "fs' = (\<lambda>_. None)"
    by (rule commit_pair_atomic [OF c]) (simp_all add: good_pair_def)
  with c show ?thesis by blast
qed

definition other_row :: json where
  "other_row = JObj [(lit ''artifact_sha256'', JStr (replicate 64 48)), (lit ''episode_id'', JInt 7),
     (lit ''lang'', JStr (lit ''ja'')), (lit ''source'', JStr (lit ''x''))]"

lemma other_row_identity: "row_identity other_row = Some row_ident"
  using zero_hex by (simp add: row_identity_def other_row_def get_str_def first_some_def row_ident_def)

theorem contradiction_refused_witness:
  "commit_pair no_sha row_lib (\<lambda>_ _. Inr False) good_pair (lit ''r'') (lit ''s'') row_ident other_row other_row
     (\<lambda>p. if p = lit ''r'' then Some (LFile (lit ''a'' @ [nl])) else None)
   = ((\<lambda>p. if p = lit ''r'' then Some (LFile (lit ''a'' @ [nl])) else None), Inl LContradiction)"
proof (rule contradiction_refused)
  have "str_lines (lit ''a'' @ [nl]) = [lit ''a'']"
    using str_lines_append [of "[]" "lit ''a''"] by (simp add: lit_eval)
  then show "scan_rows row_lib row_ident None (str_lines (lit ''a'' @ [nl])) = Inr (Some (row_obj ''1''))"
    by (simp add: row_lib_def row_obj_identity)
qed (simp_all add: row_obj_def other_row_def other_row_identity [unfolded other_row_def]
    rows_equal_ignoring_timestamp_def good_pair_def good_io_def)

theorem unterminated_ledger_corrupted_witness:
  "\<exists>fs'. append_if_absent row_lib good_io (lit ''r'') row_ident (row_obj ''1'') (\<lambda>_. Some (LFile (lit ''n''))) = (fs', Inr ())
     \<and> append_if_absent row_lib good_io (lit ''r'') row_ident (row_obj ''1'') fs' = (fs', Inl LStorage)"
  by (rule unterminated_ledger_corrupted [where a = "lit ''n''" and va = JNull])
    (simp_all add: row_lib_prints row_obj_identity, simp_all add: row_lib_def row_identity_def good_io_def lit_eval)

definition link_env :: path_env where
  "link_env = \<lparr>current_dir = Some [lit ''d''], canonicalize = Some,
     read_link = (\<lambda>p. if p = [lit ''d'', lit ''l''] then Some (Some (lit ''../d/./r'')) else None),
     same_inode = (\<lambda>_ _. False)\<rparr>"

lemma components_link: "components (lit ''l'') = [lit ''l'']" "components (lit ''/d/r'') = [lit ''d'', lit ''r'']"
    "components (lit ''../d/./r'') = [lit ''..'', lit ''d'', lit ''.'', lit ''r'']"
  by (simp_all add: components_def lit_eval split_str.simps starts_with_def)

theorem same_ledger_refused_witness:
  "commit_target_ledgers no_sha row_lib link_env good_pair
     (TargetLedgerCommit (lit ''l'') (lit ''/d/r'') row_ident (row_obj ''1'') (row_obj ''1'')) (\<lambda>_. None)
   = ((\<lambda>_. None), Inl LInvalidInput)"
proof (rule same_ledger_refused)
  let ?l = "[lit ''d'', lit ''l'']" and ?r = "[lit ''d'', lit ''r'']"
  have paths: "absolute_normalized link_env (lit ''l'') = Inr ?l" "absolute_normalized link_env (lit ''/d/r'') = Inr ?r"
    unfolding absolute_normalized_def components_link by (simp_all add: link_env_def lit_eval starts_with_def)
  have target: "normalize_components [lit ''d''] (components (lit ''../d/./r'')) = ?r"
    unfolding components_link by (simp add: lit_eval)
  have link: "read_link link_env ?l = Some (Some (lit ''../d/./r''))" "read_link link_env ?r = None"
      "canonicalize link_env [lit ''d''] = Some [lit ''d'']" "\<not> starts_with (lit ''/'') (lit ''../d/./r'')"
    by (simp_all add: link_env_def lit_eval starts_with_def)
  have step: "resolve link_env (Suc n) ?r = Inr ?r" "resolve link_env (Suc (Suc n)) ?l = Inr ?r" for n
    by (simp_all add: link target)
  have "resolve link_env 17 ?l = Inr ?r" "resolve link_env 17 ?r = Inr ?r"
    using step(1) [of 16] step(2) [of 15] by simp_all
  then show "comparison_path link_env (lit ''l'') = comparison_path link_env (lit ''/d/r'')"
    by (simp add: comparison_path_def paths)
qed

end
