(* ===== verification/Providers.thy ===== *)
theory Providers
  imports Prelude F64 "HOL-Library.Sublist"
begin

text \<open>
  \<open>src/providers.rs\<close> and \<open>src/provider_config.rs\<close>: the pool of remote endpoints, their key
  resolution and order, and the circuit breaker of each endpoint. The process environment is a
  function from names to values; a deserialised provider file is a parameter (the deserialiser
  is generated code), and so is the file system of the search for it.
\<close>

section \<open>The provider file\<close>

record LlmProvider =
  endpoint :: ustr
  model :: ustr
  key_env :: ustr
  api_key_field :: ustr
  probe_latency_s :: f64
  thinking_param_accepted :: bool

record WhisperProvider =
  wp_endpoint :: ustr
  wp_model :: ustr
  wp_key_env :: ustr
  wp_api_key_field :: ustr

record ProvidersFile =
  llm_translation_models :: "LlmProvider list"
  whisper_stt :: "WhisperProvider option"
  whisper_stt_fallbacks :: "WhisperProvider list"

type_synonym environment = "ustr \<Rightarrow> ustr option"

text \<open>\<open>config::env_str\<close>: a variable that is empty once trimmed counts as unset.\<close>

definition env_str :: "environment \<Rightarrow> ustr \<Rightarrow> ustr option" where
  "env_str env k =
     (case env k of None \<Rightarrow> None | Some v \<Rightarrow> if trim v = [] then None else Some (trim v))"

definition resolve_key :: "environment \<Rightarrow> ustr \<Rightarrow> ustr \<Rightarrow> ustr" where
  "resolve_key env key var =
     (if key \<noteq> [] then key
      else if var \<noteq> [] then (case env_str env var of Some v \<Rightarrow> v | None \<Rightarrow> [])
      else [])"

definition api_key :: "environment \<Rightarrow> LlmProvider \<Rightarrow> ustr" where
  "api_key env p = resolve_key env (api_key_field p) (key_env p)"

definition whisper_api_key :: "environment \<Rightarrow> WhisperProvider \<Rightarrow> ustr" where
  "whisper_api_key env p = resolve_key env (wp_api_key_field p) (wp_key_env p)"

datatype load_error = NotFound "ustr list" | Unreadable ustr | Unparsable ustr

record provider_fs =
  exists_file :: "ustr \<Rightarrow> bool"
  read_text :: "ustr \<Rightarrow> ustr option"
  exe_dir :: "ustr option"
  decode_file :: "ustr \<Rightarrow> ProvidersFile option"

definition load_exact :: "provider_fs \<Rightarrow> ustr \<Rightarrow> load_error + ProvidersFile" where
  "load_exact fs p =
     (case read_text fs p of None \<Rightarrow> Inl (Unreadable p)
      | Some t \<Rightarrow>
          (case decode_file fs t of None \<Rightarrow> Inl (Unparsable p)
           | Some v \<Rightarrow>
               Inr (v\<lparr>llm_translation_models := sort_key probe_latency_s (llm_translation_models v)\<rparr>)))"

definition PROVIDERS_NAME :: ustr where "PROVIDERS_NAME = lit ''asrsub_providers.json''"

fun load_first :: "provider_fs \<Rightarrow> ustr \<Rightarrow> ustr list \<Rightarrow> ustr list \<Rightarrow> load_error + ProvidersFile" where
  "load_first fs p tried [] = Inl (NotFound tried)"
| "load_first fs p tried (c # cs) =
     (if c = p then load_first fs p tried cs
      else if exists_file fs c then load_exact fs c
      else load_first fs p (tried @ [c]) cs)"

definition load :: "provider_fs \<Rightarrow> ustr \<Rightarrow> load_error + ProvidersFile" where
  "load fs p =
     (if exists_file fs p then load_exact fs p
      else if starts_with (lit ''/'') p then Inl (NotFound [p])
      else load_first fs p [p]
        (PROVIDERS_NAME # (case exe_dir fs of Some d \<Rightarrow> [d @ lit ''/'' @ PROVIDERS_NAME] | None \<Rightarrow> [])))"

section \<open>Timeouts\<close>

text \<open>Durations in seconds.\<close>

record LlmTimeouts =
  connect_s :: nat
  read_s :: nat
  request_s :: nat
  translation_s :: nat

definition clamp :: "nat \<Rightarrow> nat \<Rightarrow> nat \<Rightarrow> nat" where
  "clamp lo hi n = (if n < lo then lo else if hi < n then hi else n)"

definition env_duration :: "environment \<Rightarrow> string \<Rightarrow> nat \<Rightarrow> nat \<Rightarrow> nat \<Rightarrow> nat" where
  "env_duration env k dflt lo hi =
     clamp lo hi (case Option.bind (env_str env (lit k)) (parse_unsigned 64) of Some n \<Rightarrow> n | None \<Rightarrow> dflt)"

definition timeouts_from_env :: "environment \<Rightarrow> LlmTimeouts" where
  "timeouts_from_env env =
     (let request = env_duration env ''LLM_TIMEOUT_S'' 300 30 900
      in \<lparr>connect_s = env_duration env ''LLM_CONNECT_TIMEOUT_S'' 10 1 request,
          read_s = env_duration env ''LLM_READ_TIMEOUT_S'' 120 1 request,
          request_s = request,
          translation_s = env_duration env ''TRANSLATION_TIMEOUT_S'' 900 30 3600\<rparr>)"

definition whisper_timeout :: "environment \<Rightarrow> nat" where
  "whisper_timeout env =
     clamp 60 1800 (case Option.bind (env_str env (lit ''WHISPER_TIMEOUT_S'')) (parse_unsigned 64) of
        Some n \<Rightarrow> n | None \<Rightarrow> 600)"

section \<open>The circuit breaker\<close>

text \<open>One endpoint's consecutive failures and the epoch millisecond until which it is skipped.
  The counter and the sum wrap as the atomics and the release build do.\<close>

record EndpointHealth =
  failures :: u32
  banned_until :: u64

definition EndpointHealth_new :: EndpointHealth where
  "EndpointHealth_new = \<lparr>failures = 0, banned_until = 0\<rparr>"

definition banned :: "u64 \<Rightarrow> EndpointHealth \<Rightarrow> bool" where
  "banned now h \<longleftrightarrow> now < banned_until h"

definition health_success :: "EndpointHealth \<Rightarrow> EndpointHealth" where
  "health_success h = h\<lparr>failures := 0\<rparr>"

definition health_failure :: "u64 \<Rightarrow> EndpointHealth \<Rightarrow> EndpointHealth" where
  "health_failure now h =
     (let n = failures h + 1
      in if 3 \<le> n then h\<lparr>failures := 0, banned_until := now + 60000\<rparr> else h\<lparr>failures := n\<rparr>)"

section \<open>The pool\<close>

record ProviderPool =
  providers :: "LlmProvider list"
  health :: "EndpointHealth list"
  whisper :: "WhisperProvider list"
  whisper_health :: "EndpointHealth list"
  llm_timeouts :: LlmTimeouts
  llm_permits :: nat
  whisper_permits :: nat

definition permits_of :: "environment \<Rightarrow> string \<Rightarrow> nat" where
  "permits_of env k =
     (case Option.bind (env_str env (lit k)) (parse_unsigned 64) of Some n \<Rightarrow> n | None \<Rightarrow> 4)"

definition pool_new :: "environment \<Rightarrow> ProvidersFile \<Rightarrow> LlmTimeouts \<Rightarrow> ProviderPool" where
  "pool_new env file t =
     (let ws = (case whisper_stt file of Some w \<Rightarrow> [w] | None \<Rightarrow> []) @ whisper_stt_fallbacks file
      in \<lparr>providers = llm_translation_models file,
          health = map (\<lambda>_. EndpointHealth_new) (llm_translation_models file),
          whisper = ws, whisper_health = map (\<lambda>_. EndpointHealth_new) ws,
          llm_timeouts = t,
          llm_permits = permits_of env ''LLM_PER_ENDPOINT_CONCURRENCY'',
          whisper_permits = permits_of env ''WHISPER_CONCURRENCY''\<rparr>)"

definition keyed_len :: "environment \<Rightarrow> ProviderPool \<Rightarrow> nat" where
  "keyed_len env pool = length (filter (\<lambda>p. api_key env p \<noteq> []) (providers pool))"

definition whisper_keyed_len :: "environment \<Rightarrow> ProviderPool \<Rightarrow> nat" where
  "whisper_keyed_len env pool = length (filter (\<lambda>p. whisper_api_key env p \<noteq> []) (whisper pool))"

definition llm_models :: "ProviderPool \<Rightarrow> ustr list" where
  "llm_models pool = map model (providers pool)"

text \<open>The attempt order: the endpoints that are not banned, or all of them when every one is.\<close>

definition attempt_order :: "u64 \<Rightarrow> EndpointHealth list \<Rightarrow> 'a list \<Rightarrow> (nat \<times> 'a) list" where
  "attempt_order now hs ps =
     (let v = filter (\<lambda>(i, _). \<not> banned now (hs ! i)) (enumerate 0 ps)
      in if v = [] then enumerate 0 ps else v)"

definition ordered :: "u64 \<Rightarrow> ProviderPool \<Rightarrow> (nat \<times> LlmProvider) list" where
  "ordered now pool = attempt_order now (health pool) (providers pool)"

definition ordered_whisper :: "u64 \<Rightarrow> ProviderPool \<Rightarrow> (nat \<times> WhisperProvider) list" where
  "ordered_whisper now pool = attempt_order now (whisper_health pool) (whisper pool)"

definition whisper_banned :: "u64 \<Rightarrow> ProviderPool \<Rightarrow> bool" where
  "whisper_banned now pool \<longleftrightarrow> whisper pool \<noteq> [] \<and> list_all (banned now) (whisper_health pool)"

text \<open>An index that is out of range panics in the source; the callers take it from \<open>ordered\<close>.\<close>

definition update_at :: "nat \<Rightarrow> ('a \<Rightarrow> 'a) \<Rightarrow> 'a list \<Rightarrow> 'a list" where
  "update_at i f xs = (if i < length xs then xs[i := f (xs ! i)] else xs)"

definition record_success :: "nat \<Rightarrow> ProviderPool \<Rightarrow> ProviderPool" where
  "record_success i pool = pool\<lparr>health := update_at i health_success (health pool)\<rparr>"

definition record_failure :: "u64 \<Rightarrow> nat \<Rightarrow> ProviderPool \<Rightarrow> ProviderPool" where
  "record_failure now i pool = pool\<lparr>health := update_at i (health_failure now) (health pool)\<rparr>"

definition record_whisper_success :: "nat \<Rightarrow> ProviderPool \<Rightarrow> ProviderPool" where
  "record_whisper_success i pool = pool\<lparr>whisper_health := update_at i health_success (whisper_health pool)\<rparr>"

definition record_whisper_failure :: "u64 \<Rightarrow> nat \<Rightarrow> ProviderPool \<Rightarrow> ProviderPool" where
  "record_whisper_failure now i pool =
     pool\<lparr>whisper_health := update_at i (health_failure now) (whisper_health pool)\<rparr>"

section \<open>The breaker interface\<close>

text \<open>What the pool relies on: an endpoint counts its consecutive failures, opens its circuit at the
  limit for a window that the failure's time fixes, and a success only resets the count.\<close>

datatype call_event = Succeeded | FailedAt u64

fun is_failure :: "call_event \<Rightarrow> bool" where
  "is_failure Succeeded = False"
| "is_failure (FailedAt _) = True"

fun failure_time :: "call_event \<Rightarrow> u64" where
  "failure_time Succeeded = 0"
| "failure_time (FailedAt t) = t"

locale breaker =
  fixes fresh :: 'h
    and succeed :: "'h \<Rightarrow> 'h"
    and fail :: "u64 \<Rightarrow> 'h \<Rightarrow> 'h"
    and open_at :: "u64 \<Rightarrow> 'h \<Rightarrow> bool"
    and strikes :: "'h \<Rightarrow> nat"
    and limit :: nat
    and window :: "u64 \<Rightarrow> u64 \<Rightarrow> bool"
  assumes limit_pos: "0 < limit"
    and fresh_closed: "strikes fresh = 0" "\<not> open_at u fresh"
    and succeed_resets: "strikes (succeed h) = 0"
    and succeed_keeps: "open_at u (succeed h) = open_at u h"
    and fail_counts: "Suc (strikes h) < limit \<Longrightarrow> strikes (fail t h) = Suc (strikes h)"
    and fail_keeps: "Suc (strikes h) < limit \<Longrightarrow> open_at u (fail t h) = open_at u h"
    and trip_resets: "Suc (strikes h) = limit \<Longrightarrow> strikes (fail t h) = 0"
    and trip_opens: "Suc (strikes h) = limit \<Longrightarrow> open_at u (fail t h) = window t u"
begin

fun event_step :: "call_event \<Rightarrow> 'h \<Rightarrow> 'h" where
  "event_step Succeeded h = succeed h"
| "event_step (FailedAt t) h = fail t h"

definition after :: "call_event list \<Rightarrow> 'h" where
  "after es = fold event_step es fresh"

lemma after_snoc: "after (es @ [e]) = event_step e (after es)"
  by (simp add: after_def)

lemma after_Nil: "after [] = fresh"
  by (simp add: after_def)

lemma strikes_suffix:
  "strikes (after es) < limit \<and> (\<exists>pre fs. es = pre @ fs \<and> length fs = strikes (after es) \<and> list_all is_failure fs)"
proof (induction es rule: rev_induct)
  case Nil
  then show ?case by (simp add: after_Nil fresh_closed limit_pos)
next
  case (snoc e es)
  then obtain pre fs where IH: "strikes (after es) < limit" "es = pre @ fs" "length fs = strikes (after es)"
    "list_all is_failure fs" by blast
  show ?case
  proof (cases e)
    case Succeeded
    then show ?thesis by (simp add: after_snoc succeed_resets limit_pos)
  next
    case (FailedAt t)
    show ?thesis
    proof (cases "Suc (strikes (after es)) < limit")
      case True
      have count: "strikes (after (es @ [e])) = Suc (strikes (after es))"
        using FailedAt True by (simp add: after_snoc fail_counts)
      have "es @ [e] = pre @ (fs @ [e])" "length (fs @ [e]) = strikes (after (es @ [e]))" "list_all is_failure (fs @ [e])"
        unfolding count using IH FailedAt by simp_all
      with True show ?thesis unfolding count by blast
    next
      case False
      then have "Suc (strikes (after es)) = limit" using IH(1) by simp
      then show ?thesis using FailedAt by (simp add: after_snoc trip_resets limit_pos)
    qed
  qed
qed

lemma open_has_run:
  assumes "open_at u (after es)"
  shows "\<exists>pre fs post. es = pre @ fs @ post \<and> length fs = limit \<and> list_all is_failure fs
    \<and> window (failure_time (last fs)) u"
  using assms
proof (induction es rule: rev_induct)
  case Nil
  then show ?case by (simp add: after_Nil fresh_closed)
next
  case (snoc e es)
  show ?case
  proof (cases "open_at u (after es)")
    case True
    then obtain pre fs post where "es = pre @ fs @ post" and rest: "length fs = limit" "list_all is_failure fs"
      "window (failure_time (last fs)) u" using snoc.IH by blast
    then have "es @ [e] = pre @ fs @ (post @ [e])" by simp
    with rest show ?thesis by blast
  next
    case False
    obtain t where e: "e = FailedAt t"
      using snoc.prems False by (cases e) (auto simp: after_snoc succeed_keeps)
    have "\<not> Suc (strikes (after es)) < limit"
      using snoc.prems False e fail_keeps by (force simp: after_snoc)
    then have full: "Suc (strikes (after es)) = limit" using strikes_suffix [of es] by simp
    obtain pre fs where fs: "strikes (after es) < limit" "es = pre @ fs" "length fs = strikes (after es)"
      "list_all is_failure fs" using strikes_suffix by blast
    have "window t u" using snoc.prems e trip_opens [OF full] by (simp add: after_snoc)
    with full fs e have "es @ [e] = pre @ (fs @ [e]) @ [] \<and> length (fs @ [e]) = limit \<and> list_all is_failure (fs @ [e])
        \<and> window (failure_time (last (fs @ [e]))) u" by simp
    then show ?thesis by blast
  qed
qed

lemma run_opens:
  assumes "strikes h = 0" "list_all is_failure fs" "length fs = limit"
  shows "strikes (fold event_step fs h) = 0 \<and> open_at u (fold event_step fs h) = window (failure_time (last fs)) u"
proof -
  have count: "length gs < limit \<Longrightarrow> list_all is_failure gs \<Longrightarrow> strikes (fold event_step gs h) = length gs" for gs
  proof (induction gs rule: rev_induct)
    case (snoc e gs)
    then show ?case by (cases e) (simp_all add: fail_counts)
  qed (simp add: assms(1))
  obtain gs e where fs: "fs = gs @ [e]" using assms(3) limit_pos by (metis length_0_conv not_less0 rev_exhaust)
  then have "strikes (fold event_step gs h) = length gs" "limit = Suc (length gs)"
    using count [of gs] assms(2,3) by simp_all
  moreover obtain t where "e = FailedAt t" using assms(2) fs by (cases e) auto
  ultimately show ?thesis by (simp add: fs trip_resets trip_opens)
qed

lemma successes_keep: "open_at u (fold event_step (replicate n Succeeded) h) = open_at u h"
  by (induction n arbitrary: h) (simp_all add: succeed_keeps)

end

lemma failures_Suc:
  fixes n :: u32
  assumes "unat n < 3"
  shows "unat (n + 1) = Suc (unat n)" and "3 \<le> n + 1 \<longleftrightarrow> unat n = 2"
proof -
  have "n + 1 \<noteq> 0"
  proof
    assume "n + 1 = 0"
    then have "n = - 1" by (simp add: eq_neg_iff_add_eq_0)
    then show False using assms by (simp add: unsigned_minus_1_eq_mask mask_eq_exp_minus_1)
  qed
  then show suc: "unat (n + 1) = Suc (unat n)" using unatSuc [of n] by (simp add: add.commute)
  have "3 \<le> n + 1 \<longleftrightarrow> unat (3::u32) \<le> unat (n + 1)" by (rule word_le_nat_alt)
  then show "3 \<le> n + 1 \<longleftrightarrow> unat n = 2" using suc assms by auto
qed

lemma health_failure_counts:
  "Suc (unat (failures h)) < 3 \<Longrightarrow> health_failure t h = h\<lparr>failures := failures h + 1\<rparr>
     \<and> unat (failures h + 1) = Suc (unat (failures h))"
  "Suc (unat (failures h)) = 3 \<Longrightarrow> health_failure t h = h\<lparr>failures := 0, banned_until := t + 60000\<rparr>"
  using failures_Suc [of "failures h"] by (simp_all add: health_failure_def Let_def)

interpretation endpoint: breaker EndpointHealth_new health_success health_failure banned
    "\<lambda>h. unat (failures h)" 3 "\<lambda>t u. u < t + 60000"
  by unfold_locales (simp_all add: EndpointHealth_new_def health_success_def banned_def health_failure_counts)

section \<open>The pool's endpoints\<close>

datatype pool_event = LlmOk nat | LlmFailed u64 nat | WhisperOk nat | WhisperFailed u64 nat

fun pool_step :: "pool_event \<Rightarrow> ProviderPool \<Rightarrow> ProviderPool" where
  "pool_step (LlmOk i) = record_success i"
| "pool_step (LlmFailed now i) = record_failure now i"
| "pool_step (WhisperOk i) = record_whisper_success i"
| "pool_step (WhisperFailed now i) = record_whisper_failure now i"

definition pool_after :: "ProviderPool \<Rightarrow> pool_event list \<Rightarrow> ProviderPool" where
  "pool_after pool es = fold pool_step es pool"

text \<open>The events of one endpoint.\<close>

fun llm_event :: "nat \<Rightarrow> pool_event \<Rightarrow> call_event option" where
  "llm_event i (LlmOk j) = (if i = j then Some Succeeded else None)"
| "llm_event i (LlmFailed t j) = (if i = j then Some (FailedAt t) else None)"
| "llm_event i _ = None"

lemma length_update_at [simp]: "length (update_at i f xs) = length xs"
  by (simp add: update_at_def)

lemma nth_update_at: "j < length xs \<Longrightarrow> update_at i f xs ! j = (if i = j then f (xs ! j) else xs ! j)"
  by (simp add: update_at_def nth_list_update)

lemmas record_defs = record_success_def record_failure_def record_whisper_success_def record_whisper_failure_def

lemma pool_step_keeps:
  "providers (pool_step e pool) = providers pool" "whisper (pool_step e pool) = whisper pool"
  "length (health (pool_step e pool)) = length (health pool)"
  "length (whisper_health (pool_step e pool)) = length (whisper_health pool)"
  by (cases e; simp add: record_defs)+

lemma pool_after_keeps:
  "providers (pool_after pool es) = providers pool" "whisper (pool_after pool es) = whisper pool"
  "length (health (pool_after pool es)) = length (health pool)"
  "length (whisper_health (pool_after pool es)) = length (whisper_health pool)"
  by (induction es arbitrary: pool) (simp_all add: pool_after_def pool_step_keeps)

lemma pool_new_fields:
  "providers (pool_new env file t) = llm_translation_models file"
  "health (pool_new env file t) = map (\<lambda>_. EndpointHealth_new) (llm_translation_models file)"
  by (simp_all add: pool_new_def Let_def)

lemma pool_health_after:
  assumes "i < length (health pool)"
  shows "health (pool_after pool es) ! i = fold endpoint.event_step (List.map_filter (llm_event i) es) (health pool ! i)"
  using assms
proof (induction es arbitrary: pool)
  case (Cons e es)
  have "health (pool_step e pool) ! i = (case llm_event i e of None \<Rightarrow> health pool ! i
      | Some c \<Rightarrow> endpoint.event_step c (health pool ! i))"
    using Cons.prems by (cases e) (auto simp: record_defs nth_update_at)
  with Cons show ?case
    by (simp add: pool_after_def pool_step_keeps map_filter_simps split: option.splits)
qed (simp add: pool_after_def map_filter_simps)

lemma attempt_order_cases:
  "attempt_order now hs ps = (if \<forall>i < length ps. banned now (hs ! i) then enumerate 0 ps
     else filter (\<lambda>(i, _). \<not> banned now (hs ! i)) (enumerate 0 ps))"
proof -
  have "filter (\<lambda>(i, _). \<not> banned now (hs ! i)) (enumerate 0 ps) = [] \<longleftrightarrow> (\<forall>i < length ps. banned now (hs ! i))"
    by (auto simp: filter_empty_conv in_set_enumerate_eq)
  then show ?thesis by (simp add: attempt_order_def Let_def)
qed

lemma attempt_order_subseq: "subseq (attempt_order now hs ps) (enumerate 0 ps)"
  by (simp add: attempt_order_cases subseq_filter_left)

lemma attempt_order_nonempty: "ps \<noteq> [] \<Longrightarrow> attempt_order now hs ps \<noteq> []"
  by (cases ps) (simp_all add: attempt_order_def Let_def)

lemma attempt_order_skips:
  "(i, p) \<in> set (attempt_order now hs ps) \<Longrightarrow>
     i < length ps \<and> ps ! i = p \<and> (banned now (hs ! i) \<longrightarrow> (\<forall>j < length ps. banned now (hs ! j)))"
  by (auto simp: attempt_order_cases in_set_enumerate_eq split: if_splits)

lemma sorted_subseq: "subseq xs ys \<Longrightarrow> sorted ys \<Longrightarrow> sorted xs"
  by (induction xs ys rule: list_emb.induct) (auto dest: list_emb_set)

lemma attempt_order_sorted:
  assumes "sorted (map f ps)"
  shows "sorted (map (f \<circ> snd) (attempt_order now hs ps))"
proof (rule sorted_subseq [OF subseq_map [OF attempt_order_subseq]])
  show "sorted (map (f \<circ> snd) (enumerate 0 ps))"
    using assms by (metis list.map_comp map_snd_enumerate)
qed

definition llm_calls :: "nat \<Rightarrow> pool_event list \<Rightarrow> call_event list" where
  "llm_calls i es = List.map_filter (llm_event i) es"

section \<open>Properties\<close>

text \<open>An endpoint is skipped only because it failed three times without a success in
  between, the last time less than a minute before; three failures in a row after a success skip
  it for exactly that minute, whatever succeeds meanwhile.\<close>

theorem breaker_bans_after_three:
  assumes "i < length (llm_translation_models file)"
  shows "(banned now (health (pool_after (pool_new env file t) es) ! i) \<longrightarrow>
      (\<exists>pre a b c post. llm_calls i es = pre @ [FailedAt a, FailedAt b, FailedAt c] @ post \<and> now < c + 60000))
    \<and> (llm_calls i es = pre @ Succeeded # [FailedAt a, FailedAt b, FailedAt c] @ replicate n Succeeded \<longrightarrow>
        (banned now (health (pool_after (pool_new env file t) es) ! i) \<longleftrightarrow> now < c + 60000))"
proof
  have run: "health (pool_after (pool_new env file t) es) ! i = endpoint.after (llm_calls i es)"
    using assms(1) by (simp add: llm_calls_def endpoint.after_def pool_health_after pool_new_fields)
  show "banned now (health (pool_after (pool_new env file t) es) ! i) \<longrightarrow>
      (\<exists>pre a b c post. llm_calls i es = pre @ [FailedAt a, FailedAt b, FailedAt c] @ post \<and> now < c + 60000)"
  proof
    assume "banned now (health (pool_after (pool_new env file t) es) ! i)"
    then obtain pre fs post where fs: "llm_calls i es = pre @ fs @ post" "length fs = 3" "list_all is_failure fs"
      "now < failure_time (last fs) + 60000" using endpoint.open_has_run unfolding run by blast
    then obtain x y z where xyz: "fs = [x, y, z]"
      by (auto simp: numeral_3_eq_3 length_Suc_conv)
    obtain a b c where "x = FailedAt a" "y = FailedAt b" "z = FailedAt c"
      using fs(3) unfolding xyz by (cases x; cases y; cases z) auto
    with fs(1,4) xyz have "llm_calls i es = pre @ [FailedAt a, FailedAt b, FailedAt c] @ post \<and> now < c + 60000"
      by simp
    then show "\<exists>pre a b c post. llm_calls i es = pre @ [FailedAt a, FailedAt b, FailedAt c] @ post \<and> now < c + 60000"
      by blast
  qed
  show "llm_calls i es = pre @ Succeeded # [FailedAt a, FailedAt b, FailedAt c] @ replicate n Succeeded \<longrightarrow>
      (banned now (health (pool_after (pool_new env file t) es) ! i) \<longleftrightarrow> now < c + 60000)"
  proof
    assume log: "llm_calls i es = pre @ Succeeded # [FailedAt a, FailedAt b, FailedAt c] @ replicate n Succeeded"
    let ?h = "endpoint.event_step Succeeded (endpoint.after pre)"
    have "health (pool_after (pool_new env file t) es) ! i = fold endpoint.event_step (replicate n Succeeded)
        (fold endpoint.event_step [FailedAt a, FailedAt b, FailedAt c] ?h)"
      by (simp add: run log endpoint.after_def)
    moreover have "unat (failures ?h) = 0" by (simp add: health_success_def)
    ultimately show "banned now (health (pool_after (pool_new env file t) es) ! i) \<longleftrightarrow> now < c + 60000"
      using endpoint.run_opens [of ?h "[FailedAt a, FailedAt b, FailedAt c]" now]
      by (simp only: endpoint.successes_keep) simp
  qed
qed

text \<open>Whatever happened to the endpoints of a loaded provider file, the attempt order is never
  empty, runs from the fastest probe to the slowest, and contains a banned endpoint only when
  every endpoint is banned.\<close>

theorem ordered_fastest_first:
  assumes "load fs path = Inr file" "llm_translation_models file \<noteq> []"
    and "pool = pool_after (pool_new env file t) es"
  shows "ordered now pool \<noteq> [] \<and> sorted (map (probe_latency_s \<circ> snd) (ordered now pool))
    \<and> (\<forall>(i, p) \<in> set (ordered now pool). i < length (providers pool) \<and> providers pool ! i = p
        \<and> (banned now (health pool ! i) \<longrightarrow> (\<forall>h \<in> set (health pool). banned now h)))"
proof -
  have exact: "load_exact fs q = Inr f \<Longrightarrow> sorted (map probe_latency_s (llm_translation_models f))" for fs q f
    by (auto simp: load_exact_def split: option.splits)
  have first: "load_first fs q tried cs = Inr f \<Longrightarrow> sorted (map probe_latency_s (llm_translation_models f))" for fs q tried cs f
    by (induction fs q tried cs rule: load_first.induct) (auto split: if_splits dest: exact)
  have sorted: "sorted (map probe_latency_s (providers pool))"
    using assms(1) by (auto simp: assms(3) pool_after_keeps pool_new_fields load_def split: if_splits dest: exact first)
  have len: "length (health pool) = length (providers pool)"
    by (simp add: assms(3) pool_after_keeps pool_new_fields)
  have "providers pool \<noteq> []" using assms(2) by (simp add: assms(3) pool_after_keeps pool_new_fields)
  then show ?thesis
    using attempt_order_nonempty attempt_order_sorted [OF sorted] attempt_order_skips len
    unfolding ordered_def by (fastforce simp: in_set_conv_nth)
qed

section \<open>Witnesses\<close>

definition no_env :: environment where
  "no_env = (\<lambda>_. None)"

definition sample_llm :: "string \<Rightarrow> f64 \<Rightarrow> LlmProvider" where
  "sample_llm name latency =
     \<lparr>endpoint = lit ''https://x/chat'', model = lit name, key_env = lit ''K'', api_key_field = lit ''k'',
      probe_latency_s = latency, thinking_param_accepted = False\<rparr>"

definition sample_file :: ProvidersFile where
  "sample_file = \<lparr>llm_translation_models = [sample_llm ''slow'' 5, sample_llm ''fast'' 1],
     whisper_stt = None, whisper_stt_fallbacks = []\<rparr>"

definition sample_fs :: provider_fs where
  "sample_fs = \<lparr>exists_file = (\<lambda>p. p = lit ''p''), read_text = (\<lambda>_. Some []), exe_dir = None,
     decode_file = (\<lambda>_. Some sample_file)\<rparr>"

theorem breaker_bans_after_three_witness:
  "banned 2000 (health (pool_after (pool_new no_env sample_file (timeouts_from_env no_env))
     [LlmOk 0, LlmFailed 10 0, LlmOk 1, LlmFailed 20 0, LlmFailed 30 0, LlmOk 0]) ! 0)"
  using breaker_bans_after_three [of 0 sample_file 2000 no_env "timeouts_from_env no_env"
      "[LlmOk 0, LlmFailed 10 0, LlmOk 1, LlmFailed 20 0, LlmFailed 30 0, LlmOk 0]" "[]" 10 20 30 1]
  by (simp add: sample_file_def llm_calls_def map_filter_simps)

lemma sample_load:
  "load sample_fs (lit ''p'') = Inr (sample_file\<lparr>llm_translation_models := [sample_llm ''fast'' 1, sample_llm ''slow'' 5]\<rparr>)"
  by (simp add: load_def load_exact_def sample_fs_def sample_file_def sample_llm_def)

theorem ordered_fastest_first_witness:
  "ordered 500 (pool_after (pool_new no_env
       (sample_file\<lparr>llm_translation_models := [sample_llm ''fast'' 1, sample_llm ''slow'' 5]\<rparr>)
       (timeouts_from_env no_env)) [LlmFailed 10 0, LlmFailed 20 0, LlmFailed 30 0]) \<noteq> []"
  by (rule conjunct1 [OF ordered_fastest_first [OF sample_load _ refl]]) (simp add: sample_file_def)

end
