(* ===== verification/Translate.thy ===== *)
theory Translate
  imports Providers Lang Srt Json "HOL-Library.List_Lexorder" "HOL-Library.Multiset"
begin

text \<open>
  \<open>src/translate.rs\<close>: the chat protocol over the provider pool, the acceptance of one chunk with
  its corrective retry, and the assembly of an episode from chunks and single lines. The network
  is a function of the call's number and request; the number also gives the time of each
  recorded health event. Calls of one task are in sequence; tasks run in any order.
\<close>

section \<open>Messages and replies\<close>

definition LANG_NAMES :: "(ustr \<times> ustr) list" where
  "LANG_NAMES = [(lit ''id'', lit ''Indonesian''), (lit ''en'', lit ''English''), (lit ''ja'', lit ''Japanese'')]"

definition lang_name :: "ustr \<Rightarrow> ustr" where
  "lang_name lang = (case map_of LANG_NAMES (normalize_lang lang) of Some v \<Rightarrow> v | None \<Rightarrow> lit ''Indonesian'')"

record ChatMsg =
  role :: ustr
  msg_content :: ustr

record ChatSuccess =
  content :: ustr
  cs_model :: ustr

record ChunkTranslation =
  ct_lines :: "ustr list"
  ct_models :: "ustr list"

record TranslationTrace =
  tt_lines :: "ustr list"
  tt_models :: "ustr list"

record chat_request =
  cr_endpoint :: ustr
  cr_key :: ustr
  cr_model :: ustr
  cr_thinking :: bool
  cr_messages :: "ChatMsg list"

text \<open>What the network does with a request: no headers in time, a transport failure, the overall
  deadline, or a status with a body. A body is late, undecodable, or the list of the choices'
  contents.\<close>

datatype chat_body = BodyLate | BodyBad | Choices "ustr option list"

datatype chat_reply = HeadersLate | TransportFailed | DeadlinePassed | Status nat chat_body

datatype ChatError =
    ConnectTimeout | Transport | HttpRetryable nat | HttpError nat | BodyTimeout | BodyDecode
  | MissingContent | OverallTimeout

record network =
  reply :: "nat \<Rightarrow> chat_request \<Rightarrow> chat_reply"
  clock :: "nat \<Rightarrow> u64"
  environ :: environment
  json_of :: json_lib

text \<open>The pool and the number of the next call.\<close>

type_synonym world = "ProviderPool \<times> nat"

definition system_prompt :: "ustr \<Rightarrow> ustr \<Rightarrow> ustr \<Rightarrow> ustr" where
  "system_prompt target source knowledge =
     lit ''You are a professional anime subtitle translator. Translate the provided '' @ source
     @ lit '' subtitle lines into '' @ target
     @ lit ''. Rules: (1) output ONLY a JSON array of strings, same count and order as input; (2) natural dialogue, keep honorifics and name suffixes (san/chan/kun); (3) each line <=42 characters; (4) do not add anything not in the source; (5) no timestamps, no numbering.''
     @ (if knowledge = [] then [] else [nl, nl] @ knowledge)"

section \<open>One call\<close>

definition judge_reply :: "chat_reply \<Rightarrow> (ChatError + ustr option)" where
  "judge_reply r =
     (case r of
        HeadersLate \<Rightarrow> Inl ConnectTimeout
      | TransportFailed \<Rightarrow> Inl Transport
      | DeadlinePassed \<Rightarrow> Inl OverallTimeout
      | Status code body \<Rightarrow>
          if code = 404 then Inr None
          else if code = 429 \<or> 500 \<le> code then Inl (HttpRetryable code)
          else if code \<noteq> 200 then Inl (HttpError code)
          else case body of
              BodyLate \<Rightarrow> Inl BodyTimeout
            | BodyBad \<Rightarrow> Inl BodyDecode
            | Choices cs \<Rightarrow> (case cs of Some c # _ \<Rightarrow> Inr (Some c) | _ \<Rightarrow> Inl MissingContent))"

text \<open>Only a delivered content is recorded as a success; every other end is one failure.\<close>

definition post_chat_once :: "network \<Rightarrow> nat \<Rightarrow> chat_request \<Rightarrow> world \<Rightarrow> world \<times> (ChatError + ustr option)" where
  "post_chat_once net i rq w =
     (case w of (pool, n) \<Rightarrow>
        let r = judge_reply (reply net n rq)
        in ((case r of Inr (Some _) \<Rightarrow> record_success i pool | _ \<Rightarrow> record_failure (clock net n) i pool, Suc n), r))"

section \<open>Across the providers\<close>

text \<open>Why a model was passed over.\<close>

datatype skip_reason = NoKey ustr | Gone ustr | Failed ustr ChatError

datatype TranslateError = NoProviders | Exhausted "skip_reason list" | NoValidLine | DeadlineExceeded

definition request_to :: "network \<Rightarrow> LlmProvider \<Rightarrow> ChatMsg list \<Rightarrow> chat_request" where
  "request_to net p msgs =
     \<lparr>cr_endpoint = endpoint p, cr_key = api_key (environ net) p, cr_model = model p,
      cr_thinking = thinking_param_accepted p, cr_messages = msgs\<rparr>"

fun try_providers ::
    "network \<Rightarrow> ChatMsg list \<Rightarrow> (nat \<times> LlmProvider) list \<Rightarrow> skip_reason list \<Rightarrow> world
      \<Rightarrow> world \<times> (TranslateError + ChatSuccess)" where
  "try_providers net msgs [] fails w = (w, Inl (if fails = [] then NoProviders else Exhausted fails))"
| "try_providers net msgs ((i, p) # ps) fails w =
     (if api_key (environ net) p = [] then try_providers net msgs ps (fails @ [NoKey (model p)]) w
      else case post_chat_once net i (request_to net p msgs) w of
          (w', Inr (Some c)) \<Rightarrow> (w', Inr \<lparr>content = c, cs_model = model p\<rparr>)
        | (w', Inr None) \<Rightarrow> try_providers net msgs ps (fails @ [Gone (model p)]) w'
        | (w', Inl e) \<Rightarrow> try_providers net msgs ps (fails @ [Failed (model p) e]) w')"

definition chat_across_providers ::
    "network \<Rightarrow> ChatMsg list \<Rightarrow> world \<Rightarrow> world \<times> (TranslateError + ChatSuccess)" where
  "chat_across_providers net msgs w =
     try_providers net msgs (ordered (clock net (snd w)) (fst w)) [] w"

section \<open>One chunk\<close>

definition echo_hit :: "ustr \<Rightarrow> bool" where
  "echo_hit t \<longleftrightarrow> list_ex is_cjk t"

definition is_placeholder :: "ustr list \<Rightarrow> ustr \<Rightarrow> bool" where
  "is_placeholder phs line \<longleftrightarrow> trim line \<noteq> [] \<and> list_ex (\<lambda>p. trim p = trim line) phs"

definition acceptable :: "ustr list \<Rightarrow> ustr \<Rightarrow> nat \<Rightarrow> ustr list \<Rightarrow> bool" where
  "acceptable phs target_name n parsed \<longleftrightarrow>
     length parsed = n
     \<and> \<not> list_ex (\<lambda>t. \<not> is_placeholder phs t \<and> wrong_script t target_name) parsed
     \<and> (target_name = lit ''Japanese''
        \<or> \<not> list_ex (\<lambda>t. \<not> is_placeholder phs t \<and> echo_hit t) (take 11 parsed))"

definition user_payload :: "ustr \<Rightarrow> ustr \<Rightarrow> ustr list \<Rightarrow> json" where
  "user_payload source target ls =
     JObj [(lit ''lines'', JArr (map JStr ls)), (lit ''source_language'', JStr source),
           (lit ''target_language'', JStr target)]"

definition msg :: "string \<Rightarrow> ustr \<Rightarrow> ChatMsg" where
  "msg r c = \<lparr>role = lit r, msg_content = c\<rparr>"

definition corrective :: "nat \<Rightarrow> ustr" where
  "corrective n =
     lit ''Your previous output was not a JSON array with exactly '' @ dec n
     @ lit '' strings. Output ONLY the JSON array, e.g. [\"...\", \"...\"], same count and order as the input.''"

record chunk_job =
  cj_target :: ustr
  cj_source :: ustr
  cj_knowledge :: ustr
  cj_placeholders :: "ustr list"

text \<open>\<open>attempt_chunk\<close>'s loop: at most the given number of rounds.\<close>

fun chunk_rounds ::
    "network \<Rightarrow> ustr list \<Rightarrow> ustr \<Rightarrow> nat \<Rightarrow> nat \<Rightarrow> ChatMsg list \<Rightarrow> ustr list \<Rightarrow> world
      \<Rightarrow> world \<times> (TranslateError + ChunkTranslation option)" where
  "chunk_rounds net phs target_name n 0 msgs models w = (w, Inr None)"
| "chunk_rounds net phs target_name n (Suc k) msgs models w =
     (case chat_across_providers net msgs w of
        (w', Inl e) \<Rightarrow> (w', Inl e)
      | (w', Inr s) \<Rightarrow>
          (let models' = models @ [cs_model s];
               parsed = extract_json_array (parse_json (json_of net)) (print_json (json_of net)) (content s)
           in case parsed of
                Some ls \<Rightarrow>
                  if acceptable phs target_name n ls then (w', Inr (Some \<lparr>ct_lines = ls, ct_models = models'\<rparr>))
                  else chunk_rounds net phs target_name n k
                    (msgs @ [msg ''assistant'' (content s), msg ''user'' (corrective n)]) models' w'
              | None \<Rightarrow> chunk_rounds net phs target_name n k
                    (msgs @ [msg ''assistant'' (content s), msg ''user'' (corrective n)]) models' w'))"

definition attempt_chunk ::
    "network \<Rightarrow> chunk_job \<Rightarrow> ustr list \<Rightarrow> world \<Rightarrow> world \<times> (TranslateError + ChunkTranslation option)" where
  "attempt_chunk net job chunk w =
     (let target_name = lang_name (cj_target job);
          source_name = (if cj_source job = lit ''ja'' then lit ''Japanese'' else cj_source job);
          user = print_json (json_of net) (user_payload source_name target_name chunk);
          system = system_prompt target_name source_name (cj_knowledge job)
      in chunk_rounds net (cj_placeholders job) target_name (length chunk) 2
           [msg ''system'' system, msg ''user'' user] [] w)"

definition strip_quote :: "ustr \<Rightarrow> ustr" where
  "strip_quote t = trim_start (dropWhile (\<lambda>c. c = 62) t)"

definition translate_single_line ::
    "network \<Rightarrow> chunk_job \<Rightarrow> ustr \<Rightarrow> world \<Rightarrow> world \<times> (TranslateError + ustr \<times> ustr list)" where
  "translate_single_line net job line w =
     (case attempt_chunk net job [line] w of
        (w', Inr (Some t)) \<Rightarrow>
          (case ct_lines t of [] \<Rightarrow> (w', Inl NoValidLine)
           | l # _ \<Rightarrow> (w', Inr (strip_quote l, ct_models t)))
      | (w', _) \<Rightarrow> (w', Inl NoValidLine))"

section \<open>An episode\<close>

record TranslateJob =
  tj_lines :: "ustr list"
  tj_target_lang :: ustr
  tj_source_lang :: ustr
  tj_knowledge :: ustr
  tj_chunk_size :: nat
  tj_skip_guard :: bool
  tj_placeholders :: "ustr list"

type_synonym chunk_result = "nat \<times> ustr list \<times> ustr list option"

text \<open>\<open>stitch_chunks\<close>, one chunk at a time in index order: the lines placed so far and the
  fallback work.\<close>

definition place :: "nat \<Rightarrow> ustr list \<Rightarrow> ustr list \<Rightarrow> ustr list" where
  "place pos vs out = take pos out @ vs @ drop (pos + length vs) out"

fun stitch_from ::
    "nat \<Rightarrow> chunk_result list \<Rightarrow> ustr list \<Rightarrow> (nat \<times> ustr) list \<Rightarrow> ustr list \<times> (nat \<times> ustr) list" where
  "stitch_from pos [] out pending = (out, pending)"
| "stitch_from pos ((_, chunk, parsed) # rs) out pending =
     (let (out', pending') =
        (case parsed of
           Some v \<Rightarrow> if length v = length chunk then (place pos v out, pending)
                     else (out, pending @ enumerate pos chunk)
         | None \<Rightarrow> (out, pending @ enumerate pos chunk))
      in stitch_from (pos + length chunk) rs out' pending')"

definition stitch_chunks :: "nat \<Rightarrow> chunk_result list \<Rightarrow> ustr list \<times> (nat \<times> ustr) list" where
  "stitch_chunks n_lines results = stitch_from 0 (sort_key fst results) (replicate n_lines []) []"

text \<open>\<open>try_join_all\<close>: the tasks in the order they come to run; the first error ends the join and
  cancels the tasks that are left.\<close>

fun join_all :: "('a \<Rightarrow> 'w \<Rightarrow> 'w \<times> ('e + 'b)) \<Rightarrow> 'a list \<Rightarrow> 'w \<Rightarrow> 'w \<times> ('e + ('a \<times> 'b) list)" where
  "join_all f [] w = (w, Inr [])"
| "join_all f (x # xs) w =
     (case f x w of
        (w', Inl e) \<Rightarrow> (w', Inl e)
      | (w', Inr y) \<Rightarrow>
          (case join_all f xs w' of
             (w'', Inl e) \<Rightarrow> (w'', Inl e)
           | (w'', Inr ys) \<Rightarrow> (w'', Inr ((x, y) # ys))))"

definition chunk_job_of :: "TranslateJob \<Rightarrow> chunk_job" where
  "chunk_job_of job =
     \<lparr>cj_target = normalize_lang (tj_target_lang job), cj_source = tj_source_lang job,
      cj_knowledge = tj_knowledge job, cj_placeholders = tj_placeholders job\<rparr>"

definition source_lines :: "TranslateJob \<Rightarrow> ustr list" where
  "source_lines job =
     (let ls = sanitize_lines (tj_lines job) 10
      in if tj_skip_guard job then ls else guard_foreign_lines ls (tj_placeholders job))"

definition apply_fallback :: "((nat \<times> ustr) \<times> ustr \<times> ustr list) list \<Rightarrow> ustr list \<Rightarrow> ustr list" where
  "apply_fallback fs out = fold (\<lambda>((i, _), t, _) out. out[i := t]) fs out"

text \<open>The order in which tasks run is a parameter: for a list of tasks, a list of the same tasks.\<close>

definition translate_lines_inner ::
    "network \<Rightarrow> (nat \<Rightarrow> nat list) \<Rightarrow> TranslateJob \<Rightarrow> world \<Rightarrow> world \<times> (TranslateError + TranslationTrace)" where
  "translate_lines_inner net order job w =
     (let ls = source_lines job; cj = chunk_job_of job in
      if ls = [] then (w, Inr \<lparr>tt_lines = [], tt_models = []\<rparr>)
      else
        let cs = chunks (max 1 (tj_chunk_size job)) ls
        in case join_all (\<lambda>(_, chunk). attempt_chunk net cj chunk) (map (\<lambda>i. (i, cs ! i)) (order (length cs))) w of
          (w1, Inl e) \<Rightarrow> (w1, Inl e)
        | (w1, Inr rs) \<Rightarrow>
            (let results = sort_key (fst \<circ> fst) rs;
                 models = concat (map (\<lambda>(_, t). case t of Some c \<Rightarrow> ct_models c | None \<Rightarrow> []) results);
                 (out, pending) = stitch_chunks (length ls)
                   (map (\<lambda>((ci, chunk), t). (ci, chunk, map_option ct_lines t)) results)
             in case join_all (\<lambda>(_, line). translate_single_line net cj line)
                       (map (\<lambda>i. pending ! i) (order (length pending))) w1 of
                  (w2, Inl e) \<Rightarrow> (w2, Inl e)
                | (w2, Inr fs) \<Rightarrow>
                    (w2, Inr \<lparr>tt_lines = apply_fallback fs out,
                              tt_models = remdups_adj (sort_key utf8 (models @ concat (map (\<lambda>(_, _, ms). ms) fs)))\<rparr>)))"

text \<open>The episode deadline cuts the whole translation.\<close>

definition translate_lines_with_trace ::
    "network \<Rightarrow> (nat \<Rightarrow> nat list) \<Rightarrow> bool \<Rightarrow> TranslateJob \<Rightarrow> world \<Rightarrow> TranslateError + TranslationTrace" where
  "translate_lines_with_trace net order late job w =
     (if late then Inl DeadlineExceeded else snd (translate_lines_inner net order job w))"

definition translate_lines ::
    "network \<Rightarrow> (nat \<Rightarrow> nat list) \<Rightarrow> bool \<Rightarrow> TranslateJob \<Rightarrow> world \<Rightarrow> TranslateError + ustr list" where
  "translate_lines net order late job w = map_sum id tt_lines (translate_lines_with_trace net order late job w)"

section \<open>Review\<close>

definition full_stop :: "uchar \<Rightarrow> bool" where
  "full_stop c \<longleftrightarrow> c = 46 \<or> c = 0xff0e"

text \<open>One line of the reviewer's answer for a chunk of \<open>k\<close> lines that starts at \<open>start\<close>.\<close>

definition review_line :: "nat \<Rightarrow> nat \<Rightarrow> ustr \<Rightarrow> ustr list \<Rightarrow> ustr list" where
  "review_line start k line out =
     (case split_once_if full_stop (trim line) of
        None \<Rightarrow> out
      | Some (n, text) \<Rightarrow>
          (case parse_unsigned 64 (trim n) of
             None \<Rightarrow> out
           | Some m \<Rightarrow> if 1 \<le> m \<and> m \<le> k then out[start + m - 1 := trim text] else out))"

definition REVIEW_SYSTEM :: ustr where
  "REVIEW_SYSTEM =
     lit ''You are a subtitle translation reviewer for an anime episode.'' @ [nl]
     @ lit ''The Japanese source line is ground truth. The current translation may contain mistakes. Fix ONLY: mistranslations, wrong character/term names, grammatical errors, awkward phrasing, or lines that do not match the Japanese meaning.'' @ [nl]
     @ lit ''Do NOT restyle lines that are already correct. Do NOT add or remove lines.'' @ [nl]
     @ lit ''Do NOT add commentary.'' @ [nl]
     @ lit ''Reply with corrected lines ONLY, one per line, format: \"i. corrected text\"'' @ [nl]
     @ lit ''where i is the original line number. If NO line needs correction, reply with'' @ [nl]
     @ lit ''exactly: NONE''"

definition review_user :: "ustr list \<Rightarrow> ustr list \<Rightarrow> ustr" where
  "review_user jc tc =
     lit ''Review these lines. Japanese source (JA) vs current translation (TR):'' @ [nl, nl]
     @ concat (map (\<lambda>(i, j, t). dec (i + 1) @ lit ''. JA: '' @ j @ lit '' | TR: '' @ t @ [nl]) (enumerate 0 (zip jc tc)))"

fun review_chunks ::
    "network \<Rightarrow> nat \<Rightarrow> nat \<Rightarrow> (ustr list \<times> ustr list) list \<Rightarrow> ustr list \<Rightarrow> world \<Rightarrow> world \<times> ustr list" where
  "review_chunks net step k [] out w = (w, out)"
| "review_chunks net step k ((jc, tc) # cs) out w =
     (case chat_across_providers net [msg ''system'' REVIEW_SYSTEM, msg ''user'' (review_user jc tc)] w of
        (w', Inl _) \<Rightarrow> review_chunks net step (k + 1) cs out w'
      | (w', Inr s) \<Rightarrow>
          review_chunks net step (k + 1) cs
            (if trim (content s) = lit ''NONE'' then out
             else fold (review_line (k * step) (length tc)) (str_lines (content s)) out) w')"

text \<open>A chunk size of 0 panics.\<close>

definition review_lines ::
    "network \<Rightarrow> ustr list \<Rightarrow> ustr list \<Rightarrow> nat \<Rightarrow> world \<Rightarrow> world \<times> ustr list option" where
  "review_lines net ja tr step w =
     (if step = 0 then (w, None)
      else map_prod id Some (review_chunks net step 0 (zip (chunks step ja) (chunks step tr)) tr w))"

section \<open>Calls\<close>

lemma post_chat_once_world:
  "post_chat_once net i rq w = (w', r) \<Longrightarrow>
     providers (fst w') = providers (fst w) \<and> snd w' = Suc (snd w) \<and> r = judge_reply (reply net (snd w) rq)"
  by (cases w) (auto simp: post_chat_once_def record_success_def record_failure_def Let_def
      split: sum.splits option.splits)

lemma try_providers_world:
  "try_providers net msgs ps fails w = (w', r) \<Longrightarrow>
     providers (fst w') = providers (fst w) \<and> snd w' \<le> snd w + length ps"
proof (induction ps arbitrary: fails w)
  case (Cons q ps)
  obtain i p where q: "q = (i, p)" by fastforce
  show ?case
  proof (cases "api_key (environ net) p = []")
    case True
    with Cons.prems Cons.IH q show ?thesis by fastforce
  next
    case False
    obtain w1 r1 where post: "post_chat_once net i (request_to net p msgs) w = (w1, r1)" by fastforce
    have "(w', r) = (w1, r) \<or> (\<exists>fs. try_providers net msgs ps fs w1 = (w', r))"
      using Cons.prems False post q by (auto split: sum.splits option.splits)
    with Cons.IH [of _ w1] post_chat_once_world [OF post] show ?thesis by auto
  qed
qed simp

lemma length_ordered: "length (ordered now pool) \<le> length (providers pool)"
  using length_filter_le [of _ "enumerate 0 (providers pool)"]
  by (simp add: ordered_def attempt_order_cases)

lemma chat_world:
  "chat_across_providers net msgs w = (w', r) \<Longrightarrow>
     providers (fst w') = providers (fst w) \<and> snd w' \<le> snd w + length (providers (fst w))"
  unfolding chat_across_providers_def
  using try_providers_world [of net msgs _ _ w w' r] length_ordered [of "clock net (snd w)" "fst w"]
  by (meson add_le_cancel_left le_trans)

lemma chunk_rounds_world:
  "chunk_rounds net phs tn n k msgs models w = (w', r) \<Longrightarrow>
     providers (fst w') = providers (fst w) \<and> snd w' \<le> snd w + k * length (providers (fst w))"
proof (induction k arbitrary: msgs models w)
  case (Suc k)
  obtain w1 r1 where chat: "chat_across_providers net msgs w = (w1, r1)" by fastforce
  note w1 = chat_world [OF chat]
  show ?case
  proof (cases r1)
    case (Inl e)
    with Suc.prems chat w1 show ?thesis by auto
  next
    case (Inr s)
    then have "(w', r) = (w1, r) \<or> (\<exists>ms mo. chunk_rounds net phs tn n k ms mo w1 = (w', r))"
      using Suc.prems chat by (auto simp: Let_def split: option.splits if_splits)
    then show ?thesis
    proof (elim disjE exE)
      fix ms mo assume "chunk_rounds net phs tn n k ms mo w1 = (w', r)"
      from Suc.IH [OF this] w1 show ?thesis by simp
    qed (use w1 in simp)
  qed
qed simp

text \<open>What an accepted chunk went through.\<close>

lemma chunk_rounds_accepts:
  "chunk_rounds net phs tn n k msgs models w = (w', Inr (Some c)) \<Longrightarrow> acceptable phs tn n (ct_lines c)"
proof (induction k arbitrary: msgs models w)
  case (Suc k)
  obtain w1 r1 where "chat_across_providers net msgs w = (w1, r1)" by fastforce
  with Suc show ?case by (cases r1) (auto simp: Let_def split: option.splits if_splits)
qed simp

lemma attempt_chunk_accepts:
  "attempt_chunk net cj chunk w = (w', Inr (Some c)) \<Longrightarrow>
     acceptable (cj_placeholders cj) (lang_name (cj_target cj)) (length chunk) (ct_lines c)"
  unfolding attempt_chunk_def Let_def by (rule chunk_rounds_accepts)

section \<open>Joining and stitching\<close>

lemma join_all_Inr:
  "join_all f xs w = (w', Inr ys) \<Longrightarrow>
     map fst ys = xs \<and> (\<forall>(x, y) \<in> set ys. \<exists>v v'. f x v = (v', Inr y))"
proof (induction xs arbitrary: w ys)
  case (Cons x xs)
  from Cons.prems obtain v y zs where "f x w = (v, Inr y)" "join_all f xs v = (w', Inr zs)" "ys = (x, y) # zs"
    by (auto split: prod.splits sum.splits)
  with Cons.IH [of v zs] show ?case by auto
qed simp

lemma sorted_unique:
  assumes "mset xs = mset ys" "sorted (map f xs)" "sorted (map f ys)" "distinct (map f ys)"
  shows "xs = ys"
proof -
  have "inj_on f (set xs)" using assms(1,4) by (metis distinct_map mset_eq_setD)
  then have "sort_key f xs = ys" using assms(1,3) by (simp add: sort_key_inj_key_eq)
  moreover have "sort_key f xs = xs" using assms(2) by (rule sort_key_id_if_sorted)
  ultimately show ?thesis by simp
qed

lemma sort_by_index:
  assumes "mset (map fst rs) = mset (enumerate 0 cs)"
  shows "map fst (sort_key (fst \<circ> fst) rs) = enumerate 0 cs"
proof (rule sorted_unique)
  show "mset (map fst (sort_key (fst \<circ> fst) rs)) = mset (enumerate 0 cs)"
    using assms by (metis mset_map mset_sort)
  show "sorted (map fst (map fst (sort_key (fst \<circ> fst) rs)))"
    using sorted_sort_key [of "fst \<circ> fst" rs] by simp
qed simp_all

text \<open>What stitching does with the chunks of the source: every position is either fallback work
  with its own source line, or holds the line that its chunk's answer has at the same place.\<close>

definition answered :: "chunk_result list \<Rightarrow> ustr \<Rightarrow> ustr \<Rightarrow> bool" where
  "answered rs l t \<longleftrightarrow>
     (\<exists>k chunk v m. (k, chunk, Some v) \<in> set rs \<and> length v = length chunk \<and> m < length chunk
        \<and> chunk ! m = l \<and> v ! m = t)"

lemma answered_Cons: "answered rs l t \<Longrightarrow> answered (r # rs) l t"
  by (auto simp: answered_def)

lemma answered_head: "length v = length chunk \<Longrightarrow> m < length chunk \<Longrightarrow> answered ((k, chunk, Some v) # rs) (chunk ! m) (v ! m)"
  by (auto simp: answered_def)

definition stitched ::
    "nat \<Rightarrow> ustr list \<Rightarrow> chunk_result list \<Rightarrow> ustr list \<Rightarrow> (nat \<times> ustr) list \<Rightarrow> bool" where
  "stitched pos src rs out pending \<longleftrightarrow>
     length out = length src
     \<and> (\<forall>(i, l) \<in> set pending. pos \<le> i \<and> i < pos + length src \<and> l = src ! (i - pos))
     \<and> (\<forall>j < length src. (pos + j, src ! j) \<in> set pending \<or> answered rs (src ! j) (out ! j))"

lemma stitched_Cons:
  assumes rest: "stitched (pos + length chunk) src rs out pending" and v: "length v = length chunk"
    and head: "p = Some v \<and> here = [] \<or> here = enumerate pos chunk"
  shows "stitched pos (chunk @ src) ((k, chunk, p) # rs) (v @ out) (here @ pending)"
proof -
  have "(pos + j, (chunk @ src) ! j) \<in> set (here @ pending) \<or> answered ((k, chunk, p) # rs) ((chunk @ src) ! j) ((v @ out) ! j)"
    if j: "j < length (chunk @ src)" for j
  proof (cases "j < length chunk")
    case True
    then have "(pos + j, chunk ! j) \<in> set (enumerate pos chunk)" by (simp add: in_set_enumerate_eq)
    with True head v answered_head [OF v True] show ?thesis by (auto simp: nth_append)
  next
    case False
    then obtain i where i: "j = length chunk + i" "i < length src"
      using j by (metis le_Suc_ex length_append linorder_not_less nat_add_left_cancel_less)
    with rest have "(pos + length chunk + i, src ! i) \<in> set pending \<or> answered rs (src ! i) (out ! i)"
      by (simp add: stitched_def)
    then show ?thesis using i(1) v answered_Cons by (auto simp: nth_append add.assoc)
  qed
  moreover have "pos \<le> i \<and> i < pos + length (chunk @ src) \<and> l = (chunk @ src) ! (i - pos)"
    if "(i, l) \<in> set (here @ pending)" for i l
  proof (cases "(i, l) \<in> set here")
    case True
    with head show ?thesis by (auto simp: in_set_enumerate_eq nth_append)
  next
    case False
    with that have "(i, l) \<in> set pending" by simp
    with rest have "pos + length chunk \<le> i \<and> i < pos + length chunk + length src \<and> l = src ! (i - (pos + length chunk))"
      by (auto simp: stitched_def)
    then show ?thesis by (auto simp: nth_append)
  qed
  ultimately show ?thesis using rest v unfolding stitched_def by auto
qed

lemma stitch_from_stitched:
  assumes "length pre = pos" "map (fst \<circ> snd) rs = css"
  shows "\<exists>out more. stitch_from pos rs (pre @ replicate (length (concat css)) []) pending = (pre @ out, pending @ more)
    \<and> stitched pos (concat css) rs out more"
  using assms
proof (induction rs arbitrary: pos pre css pending)
  case Nil
  then show ?case by (auto simp: stitched_def)
next
  case (Cons r rs)
  obtain k chunk p where r: "r = (k, chunk, p)" by (cases r) auto
  with Cons.prems obtain css' where css: "css = chunk # css'" "map (fst \<circ> snd) rs = css'" by auto
  let ?rest = "replicate (length (concat css')) ([] :: ustr)"
  define v where "v = (case p of Some u \<Rightarrow> if length u = length chunk then u else replicate (length chunk) []
    | None \<Rightarrow> replicate (length chunk) [])"
  define here where "here = (case p of Some u \<Rightarrow> if length u = length chunk then [] else enumerate pos chunk
    | None \<Rightarrow> enumerate pos chunk)"
  have v: "length v = length chunk" by (simp add: v_def split: option.split)
  have step: "stitch_from pos (r # rs) (pre @ replicate (length (concat css)) []) pending
      = stitch_from (pos + length chunk) rs ((pre @ v) @ ?rest) (pending @ here)"
    using Cons.prems(1) by (auto simp: r css(1) v_def here_def place_def replicate_add split: option.splits)
  obtain out more where "stitch_from (pos + length chunk) rs ((pre @ v) @ ?rest) (pending @ here)
      = ((pre @ v) @ out, (pending @ here) @ more)" "stitched (pos + length chunk) (concat css') rs out more"
    using Cons.IH [of "pre @ v" "pos + length chunk" css' "pending @ here"] Cons.prems(1) css(2) v by auto
  moreover have "p = Some v \<and> here = [] \<or> here = enumerate pos chunk"
    by (auto simp: v_def here_def split: option.splits)
  ultimately show ?case
    using stitched_Cons [of pos chunk "concat css'" rs out more v p here k] v unfolding step by (auto simp: r css(1))
qed

lemma length_apply_fallback [simp]: "length (apply_fallback fs out) = length out"
  unfolding apply_fallback_def by (induction fs arbitrary: out) auto

lemma apply_fallback_snoc: "apply_fallback (fs @ [((i, l), t, ms)]) out = (apply_fallback fs out)[i := t]"
  by (simp add: apply_fallback_def)

lemma apply_fallback_nth:
  "i < length out \<Longrightarrow>
     (apply_fallback fs out ! i = out ! i \<and> (\<forall>x \<in> set fs. fst (fst x) \<noteq> i))
     \<or> (\<exists>l t ms. ((i, l), t, ms) \<in> set fs \<and> apply_fallback fs out ! i = t)"
proof (induction fs rule: rev_induct)
  case Nil
  then show ?case by (simp add: apply_fallback_def)
next
  case (snoc f fs)
  obtain k l t ms where f: "f = ((k, l), t, ms)" by (cases f) auto
  show ?case
  proof (cases "k = i")
    case True
    then show ?thesis using snoc.prems by (auto simp: f apply_fallback_snoc)
  next
    case False
    then show ?thesis using snoc by (auto simp: f apply_fallback_snoc)
  qed
qed

section \<open>The episode\<close>

text \<open>A line's translation: the line at the same place of an accepted answer to a chunk that
  contains it, or the stripped only line of an accepted answer to it alone.\<close>

definition translation_of :: "network \<Rightarrow> chunk_job \<Rightarrow> ustr \<Rightarrow> ustr \<Rightarrow> bool" where
  "translation_of net cj l t \<longleftrightarrow>
     (\<exists>w w' chunk c m. attempt_chunk net cj chunk w = (w', Inr (Some c)) \<and> m < length chunk \<and> chunk ! m = l
        \<and> t = ct_lines c ! m)
     \<or> (\<exists>w w' c. attempt_chunk net cj [l] w = (w', Inr (Some c)) \<and> t = strip_quote (hd (ct_lines c)))"

definition script_guarded :: "chunk_job \<Rightarrow> ustr \<Rightarrow> bool" where
  "script_guarded cj raw \<longleftrightarrow>
     is_placeholder (cj_placeholders cj) raw \<or> \<not> wrong_script raw (lang_name (cj_target cj))"

lemma acceptable_guarded:
  "acceptable (cj_placeholders cj) (lang_name (cj_target cj)) n ls \<Longrightarrow> t \<in> set ls \<Longrightarrow> script_guarded cj t"
  by (auto simp: acceptable_def script_guarded_def list_ex_iff)

lemma translation_of_guarded:
  assumes "translation_of net cj l t"
  shows "\<exists>raw. script_guarded cj raw \<and> (t = raw \<or> t = strip_quote raw)"
proof -
  have "script_guarded cj (ct_lines c ! m)"
    if "attempt_chunk net cj chunk w = (w', Inr (Some c))" "m < length chunk" for chunk w w' c m
    using attempt_chunk_accepts [OF that(1)] that(2) acceptable_guarded by (metis acceptable_def nth_mem)
  moreover have "script_guarded cj (hd (ct_lines c))"
    if "attempt_chunk net cj [l] w = (w', Inr (Some c))" for w w' c
    using attempt_chunk_accepts [OF that] acceptable_guarded
    by (metis acceptable_def hd_in_set length_0_conv length_Cons list.size(3) nat.distinct(1))
  ultimately show ?thesis using assms unfolding translation_of_def by blast
qed

lemma single_line_translation:
  assumes "translate_single_line net cj l w = (w', Inr (t, ms))"
  shows "translation_of net cj l t"
proof -
  obtain w1 r where att: "attempt_chunk net cj [l] w = (w1, r)" by fastforce
  with assms obtain c x xs where "r = Inr (Some c)" "ct_lines c = x # xs" "t = strip_quote x"
    by (auto simp: translate_single_line_def split: sum.splits option.splits list.splits)
  with att show ?thesis unfolding translation_of_def by (metis list.sel(1))
qed

lemma length_source_lines [simp]: "length (source_lines job) = length (tj_lines job)"
  by (simp add: source_lines_def sanitize_lines_def guard_foreign_lines_def Let_def)

lemma enumerate_nth: "enumerate 0 xs = map (\<lambda>i. (i, xs ! i)) [0..<length xs]"
  by (rule nth_equalityI) (simp_all add: nth_enumerate_eq)

lemma mset_schedule:
  assumes "\<And>n. mset (order n) = mset [0..<n]"
  shows "mset (map (\<lambda>i. xs ! i) (order (length xs))) = mset xs"
    and "mset (map (\<lambda>i. (i, xs ! i)) (order (length xs))) = mset (enumerate 0 xs)"
  by (metis assms map_nth mset_map) (metis assms enumerate_nth mset_map)

text \<open>The stages of a run over a text with lines: the chunks answered, the lines placed, the fallback.\<close>

lemma inner_stages:
  assumes "translate_lines_inner net order job w = (w', Inr tr)" and "\<And>n. mset (order n) = mset [0..<n]"
    and "source_lines job \<noteq> []"
  obtains crs out pending fs where "stitched 0 (source_lines job) crs out pending" "tt_lines tr = apply_fallback fs out"
    "fst ` set fs = set pending"
    "\<And>k chunk v. (k, chunk, Some v) \<in> set crs \<Longrightarrow> \<exists>c u u'. attempt_chunk net (chunk_job_of job) chunk u = (u', Inr (Some c)) \<and> v = ct_lines c"
    "\<And>i l t ms. ((i, l), t, ms) \<in> set fs \<Longrightarrow> \<exists>u u'. translate_single_line net (chunk_job_of job) l u = (u', Inr (t, ms))"
proof -
  let ?src = "source_lines job" and ?cj = "chunk_job_of job"
  let ?cs = "chunks (max 1 (tj_chunk_size job)) ?src"
  let ?tasks = "map (\<lambda>i. (i, ?cs ! i)) (order (length ?cs))"
  obtain w1 rs where join1: "join_all (\<lambda>(_, chunk). attempt_chunk net ?cj chunk) ?tasks w = (w1, Inr rs)"
    using assms(1,3) by (auto simp: translate_lines_inner_def Let_def split: prod.splits sum.splits)
  define results where "results = sort_key (fst \<circ> fst) rs"
  define crs where "crs = map (\<lambda>((ci, chunk), t). (ci, chunk, map_option ct_lines t)) results"
  obtain out pending where st: "stitch_chunks (length ?src) crs = (out, pending)" by fastforce
  obtain fs where join2: "join_all (\<lambda>(_, line). translate_single_line net ?cj line)
        (map (\<lambda>i. pending ! i) (order (length pending))) w1 = (w', Inr fs)"
      and tr: "tt_lines tr = apply_fallback fs out"
    using assms(1,3) join1 st
    by (auto simp: translate_lines_inner_def Let_def crs_def results_def split: prod.splits sum.splits)
  have keys: "map fst results = enumerate 0 ?cs"
    unfolding results_def using join_all_Inr [OF join1] mset_schedule(2) [OF assms(2)]
    by (intro sort_by_index) simp
  have crs: "map (\<lambda>(k, chunk, _). (k, chunk)) crs = enumerate 0 ?cs"
    unfolding keys [symmetric] crs_def by (simp add: comp_def split_def)
  have "map fst crs = map fst (enumerate 0 ?cs)" unfolding crs [symmetric] by (simp add: comp_def split_def)
  then have "sort_key fst crs = crs" by (intro sort_key_id_if_sorted) simp
  moreover have css: "map (fst \<circ> snd) crs = ?cs"
    using arg_cong [OF crs, of "map snd"] by (simp add: comp_def split_def)
  moreover have "concat ?cs = ?src" by (rule concat_chunks) simp
  ultimately have placed: "stitched 0 ?src crs out pending"
    using stitch_from_stitched [of "[]" 0 crs ?cs "[]"] st by (auto simp: stitch_chunks_def)
  have "map fst fs = map (\<lambda>i. pending ! i) (order (length pending))" using join_all_Inr [OF join2] by simp
  then have "fst ` set fs = set pending"
    using mset_schedule(1) [OF assms(2), of pending] by (metis mset_eq_setD set_map)
  moreover have "\<exists>c u u'. attempt_chunk net ?cj chunk u = (u', Inr (Some c)) \<and> v = ct_lines c" if "(k, chunk, Some v) \<in> set crs" for k chunk v
  proof -
    from that obtain c where "((k, chunk), Some c) \<in> set rs" "v = ct_lines c"
      by (auto simp: crs_def results_def eq_commute [of "Some _" "map_option _ _"])
    moreover from this bspec [OF join_all_Inr [OF join1, THEN conjunct2], of "((k, chunk), Some c)"]
    have "\<exists>u u'. attempt_chunk net ?cj chunk u = (u', Inr (Some c))" by simp
    ultimately show ?thesis by blast
  qed
  moreover have "\<exists>u u'. translate_single_line net ?cj l u = (u', Inr (t, ms))" if "((i, l), t, ms) \<in> set fs" for i l t ms
    using bspec [OF join_all_Inr [OF join2, THEN conjunct2] that] by simp
  ultimately show thesis using that [OF placed tr] by blast
qed

lemma inner_lines:
  assumes "translate_lines_inner net order job w = (w', Inr tr)" and "\<And>n. mset (order n) = mset [0..<n]"
    and "source_lines job \<noteq> []"
  shows "length (tt_lines tr) = length (source_lines job)
    \<and> (\<forall>i < length (tt_lines tr). translation_of net (chunk_job_of job) (source_lines job ! i) (tt_lines tr ! i))"
proof -
  let ?src = "source_lines job" and ?cj = "chunk_job_of job"
  obtain crs out pending fs where placed: "stitched 0 ?src crs out pending" and tr: "tt_lines tr = apply_fallback fs out"
      and pending: "fst ` set fs = set pending"
      and chunk: "\<And>k chunk v. (k, chunk, Some v) \<in> set crs \<Longrightarrow> \<exists>c u u'. attempt_chunk net ?cj chunk u = (u', Inr (Some c)) \<and> v = ct_lines c"
      and line: "\<And>i l t ms. ((i, l), t, ms) \<in> set fs \<Longrightarrow> \<exists>u u'. translate_single_line net ?cj l u = (u', Inr (t, ms))"
    using inner_stages [OF assms] by metis
  have "translation_of net ?cj (?src ! i) (apply_fallback fs out ! i)" if i: "i < length ?src" for i
  proof -
    have "i < length out" using placed i by (simp add: stitched_def)
    from apply_fallback_nth [OF this, of fs] consider
        (kept) "apply_fallback fs out ! i = out ! i" "i \<notin> fst ` set pending"
      | (single) l t ms where "((i, l), t, ms) \<in> set fs" "apply_fallback fs out ! i = t"
      unfolding pending [symmetric] by auto
    then show ?thesis
    proof cases
      case kept
      then have "(i, ?src ! i) \<notin> set pending" by (auto intro: rev_image_eqI)
      with placed i have "answered crs (?src ! i) (out ! i)" by (auto simp: stitched_def)
      then show ?thesis using chunk kept(1) unfolding answered_def translation_of_def by metis
    next
      case single
      then have "(i, l) \<in> set pending" using pending by force
      with placed have "l = ?src ! i" by (auto simp: stitched_def)
      with line [OF single(1)] single(2) show ?thesis using single_line_translation by metis
    qed
  qed
  with placed show ?thesis by (simp add: tr stitched_def)
qed

text \<open>C4: a translation that succeeds has exactly one line for each source line, in the source's order
  whatever order the tasks ran in; each is the provider's answer to that very line (at its place in
  a chunk, or alone), and the answer passed the script guard of the target or is a configured
  placeholder.\<close>

theorem translate_lines_aligned:
  assumes "translate_lines net order late job w = Inr ls" and "\<And>n. mset (order n) = mset [0..<n]"
  shows "length ls = length (tj_lines job)
    \<and> (\<forall>i < length ls. translation_of net (chunk_job_of job) (source_lines job ! i) (ls ! i)
        \<and> (\<exists>raw. script_guarded (chunk_job_of job) raw \<and> (ls ! i = raw \<or> ls ! i = strip_quote raw)))"
proof -
  obtain w' r where r: "translate_lines_inner net order job w = (w', r)" by fastforce
  with assms(1) obtain tr where inner: "translate_lines_inner net order job w = (w', Inr tr)" and ls: "ls = tt_lines tr"
    by (cases r) (auto simp: translate_lines_def translate_lines_with_trace_def split: if_splits)
  have "length ls = length (source_lines job) \<and> (\<forall>i < length ls. translation_of net (chunk_job_of job) (source_lines job ! i) (ls ! i))"
    using inner_lines [OF inner assms(2)] inner ls
    by (cases "source_lines job = []") (auto simp: translate_lines_inner_def Let_def)
  then show ?thesis using translation_of_guarded unfolding length_source_lines by blast
qed

text \<open>Failover. An endpoint with a key that is not banned and always answers yields an answer,
  whatever the endpoints before it do.\<close>

theorem one_working_provider_answers:
  assumes "(i, p) \<in> set (enumerate 0 (providers pool))" and "\<not> banned (clock net n) (health pool ! i)"
    and "api_key (environ net) p \<noteq> []"
    and "\<And>k. \<exists>c. judge_reply (reply net k (request_to net p msgs)) = Inr (Some c)"
  shows "\<exists>w s. chat_across_providers net msgs (pool, n) = (w, Inr s)"
proof -
  have "\<exists>w' s. try_providers net msgs ps fails w = (w', Inr s)" if "(i, p) \<in> set ps" for ps fails w
    using that
  proof (induction ps arbitrary: fails w)
    case (Cons q ps)
    obtain j p2 where q: "q = (j, p2)" by fastforce
    obtain w1 r where post: "post_chat_once net j (request_to net p2 msgs) w = (w1, r)" by fastforce
    show ?case
    proof (cases "\<exists>c. r = Inr (Some c) \<and> api_key (environ net) p2 \<noteq> []")
      case True
      with post show ?thesis by (auto simp: q)
    next
      case False
      then have "q \<noteq> (i, p)"
        using assms(3,4) post post_chat_once_world [OF post] by (auto simp: q)
      with Cons have rest: "\<exists>w' s. try_providers net msgs ps fs v = (w', Inr s)" for fs v by auto
      show ?thesis
        using False rest post by (auto simp: q split: sum.splits option.splits)
    qed
  qed simp
  moreover have "(i, p) \<in> set (ordered (clock net n) pool)"
    using assms(1,2) by (auto simp: ordered_def attempt_order_cases in_set_enumerate_eq)
  ultimately show ?thesis by (simp add: chat_across_providers_def)
qed

text \<open>C40: a chunk, its corrective retry included, costs at most two calls per configured endpoint,
  and asking never changes which endpoints are configured.\<close>

theorem attempt_chunk_calls:
  assumes "attempt_chunk net cj chunk (pool, n) = ((pool', n'), r)"
  shows "n' \<le> n + 2 * length (providers pool) \<and> providers pool' = providers pool"
  using assms chunk_rounds_world unfolding attempt_chunk_def Let_def by fastforce

lemma length_review_line [simp]: "length (review_line start k line out) = length out"
  by (simp add: review_line_def split: option.split)

lemma length_fold_review [simp]: "length (fold (review_line start k) ls out) = length out"
  by (induction ls arbitrary: out) simp_all

lemma review_chunks_length: "length (snd (review_chunks net step k cs out w)) = length out"
  by (induction net step k cs out w rule: review_chunks.induct) (auto split: prod.splits sum.splits)

lemma review_line_local:
  "j < start \<or> start + k \<le> j \<Longrightarrow> review_line start k line out ! j = out ! j"
  by (auto simp: review_line_def nth_list_update split: option.split)

text \<open>The review pass returns a text for every line it was given.\<close>

lemma review_lines_total: "0 < step \<Longrightarrow> \<exists>out. snd (review_lines net ja tr step w) = Some out \<and> length out = length tr"
  using review_chunks_length [of net step 0 "zip (chunks step ja) (chunks step tr)" tr w]
  by (auto simp: review_lines_def map_prod_def split: prod.splits)

text \<open>A target language outside Indonesian, English and Japanese is still requested by the name
  Indonesian, although such targets can be configured and have names of their own.\<close>

theorem unlisted_target_asked_in_indonesian:
  assumes "normalize_lang lang \<notin> {lit ''id'', lit ''en'', lit ''ja''}"
  shows "lang_name lang = lit ''Indonesian''"
  using assms by (simp add: lang_name_def LANG_NAMES_def)

section \<open>Witnesses\<close>

definition echo_net :: network where
  "echo_net = \<lparr>reply = (\<lambda>_ _. Status 200 (Choices [Some (lit ''[r]'')])), clock = (\<lambda>_. 7), environ = no_env,
     json_of = \<lparr>parse_json = (\<lambda>s. Some (JArr [JStr (lit ''Halo'')])), print_json = (\<lambda>_. [])\<rparr>\<rparr>"

definition echo_pool :: ProviderPool where
  "echo_pool = pool_new no_env sample_file (timeouts_from_env no_env)"

definition echo_job :: TranslateJob where
  "echo_job = \<lparr>tj_lines = [lit ''a'', lit ''b''], tj_target_lang = lit ''id'', tj_source_lang = lit ''ja'',
     tj_knowledge = [], tj_chunk_size = 1, tj_skip_guard = True, tj_placeholders = []\<rparr>"

lemma echo_order: "ordered now echo_pool = enumerate 0 [sample_llm ''slow'' 5, sample_llm ''fast'' 1]"
  by (simp add: ordered_def echo_pool_def pool_new_fields sample_file_def attempt_order_def Let_def banned_def
      EndpointHealth_new_def)

lemma echo_key: "api_key no_env (sample_llm m x) = lit ''k''"
  by (simp add: api_key_def resolve_key_def sample_llm_def lit_eval)

lemma echo_judge: "judge_reply (reply echo_net k rq) = Inr (Some (lit ''[r]''))"
  by (simp add: echo_net_def judge_reply_def)

theorem one_working_provider_answers_witness:
  "\<exists>w s. chat_across_providers echo_net [] (echo_pool, 3) = (w, Inr s)"
proof (rule one_working_provider_answers)
  show "(1, sample_llm ''fast'' 1) \<in> set (enumerate 0 (providers echo_pool))"
    by (simp add: echo_pool_def pool_new_fields sample_file_def)
  show "\<not> banned (clock echo_net 3) (health echo_pool ! 1)"
    by (simp add: echo_pool_def pool_new_fields sample_file_def banned_def EndpointHealth_new_def)
  show "api_key (environ echo_net) (sample_llm ''fast'' 1) \<noteq> []"
    using echo_key by (simp add: echo_net_def lit_eval)
  show "\<exists>c. judge_reply (reply echo_net k (request_to echo_net (sample_llm ''fast'' 1) [])) = Inr (Some c)" for k
    using echo_judge by blast
qed

lemma Halo_fine: "\<not> wrong_script (lit ''Halo'') n" "\<not> echo_hit (lit ''Halo'')"
  by (simp_all add: wrong_script_def has_non_latin_letter_def echo_hit_def is_cjk_def is_kana_def
      in_range_def is_ascii_alpha_def is_ascii_lower_def is_ascii_upper_def lit_eval)

definition keyed_pool :: "ProviderPool \<Rightarrow> bool" where
  "keyed_pool pool \<longleftrightarrow> providers pool \<noteq> [] \<and> list_all (\<lambda>p. api_key no_env p \<noteq> []) (providers pool)"

lemma echo_chat:
  assumes "keyed_pool (fst w)"
  shows "\<exists>w' m. chat_across_providers echo_net msgs w = (w', Inr \<lparr>content = lit ''[r]'', cs_model = m\<rparr>)"
proof -
  have "ordered (clock echo_net (snd w)) (fst w) \<noteq> []"
    using assms by (simp add: keyed_pool_def ordered_def attempt_order_nonempty)
  then obtain i p qs where o: "ordered (clock echo_net (snd w)) (fst w) = (i, p) # qs"
    by (metis list.exhaust surj_pair)
  then have "(i, p) \<in> set (attempt_order (clock echo_net (snd w)) (health (fst w)) (providers (fst w)))"
    by (simp add: ordered_def)
  then have "p \<in> set (providers (fst w))" using attempt_order_skips by (metis nth_mem)
  then have key: "api_key (environ echo_net) p \<noteq> []"
    using assms by (auto simp: keyed_pool_def list_all_iff echo_net_def)
  obtain w1 where "post_chat_once echo_net i (request_to echo_net p msgs) w = (w1, Inr (Some (lit ''[r]'')))"
    using post_chat_once_world [of echo_net i "request_to echo_net p msgs" w] echo_judge by (metis surj_pair)
  with o key show ?thesis by (simp add: chat_across_providers_def)
qed

lemma chunk_rounds_first:
  "chat_across_providers net msgs w = (w', Inr s) \<Longrightarrow>
     extract_json_array (parse_json (json_of net)) (print_json (json_of net)) (content s) = Some ls \<Longrightarrow>
     acceptable phs tn n ls \<Longrightarrow>
     chunk_rounds net phs tn n (Suc k) msgs models w
       = (w', Inr (Some \<lparr>ct_lines = ls, ct_models = models @ [cs_model s]\<rparr>))"
  by (simp add: Let_def)

lemma echo_chunk:
  assumes "keyed_pool (fst w)"
  shows "\<exists>w' ms. attempt_chunk echo_net cj [l] w = (w', Inr (Some \<lparr>ct_lines = [lit ''Halo''], ct_models = ms\<rparr>))
    \<and> keyed_pool (fst w')"
proof -
  have array: "extract_json_array (parse_json (json_of echo_net)) (print_json (json_of echo_net)) (lit ''[r]'') = Some [lit ''Halo'']"
    by (simp add: extract_json_array_def echo_net_def lit_eval trim_def trim_start_def trim_end_def is_ws_def rfind_char_def)
  have "acceptable phs n 1 [lit ''Halo'']" for phs n
    using Halo_fine by (simp add: acceptable_def)
  then have fine: "acceptable phs n (length [l]) [lit ''Halo'']" for phs n by simp
  obtain w' ms where att: "attempt_chunk echo_net cj [l] w = (w', Inr (Some \<lparr>ct_lines = [lit ''Halo''], ct_models = ms\<rparr>))"
  proof -
    assume goal: "\<And>w' ms. attempt_chunk echo_net cj [l] w = (w', Inr (Some \<lparr>ct_lines = [lit ''Halo''], ct_models = ms\<rparr>)) \<Longrightarrow> thesis"
    let ?tn = "lang_name (cj_target cj)" and ?sn = "if cj_source cj = lit ''ja'' then lit ''Japanese'' else cj_source cj"
    let ?msgs = "[msg ''system'' (system_prompt ?tn ?sn (cj_knowledge cj)),
        msg ''user'' (print_json (json_of echo_net) (user_payload ?sn ?tn [l]))]"
    obtain w' m where "chat_across_providers echo_net ?msgs w = (w', Inr \<lparr>content = lit ''[r]'', cs_model = m\<rparr>)"
      using echo_chat [OF assms] by blast
    from chunk_rounds_first [where k = 1 and models = "[]", OF this _ fine [of "cj_placeholders cj" ?tn]] array
    have "chunk_rounds echo_net (cj_placeholders cj) ?tn (length [l]) (Suc 1) ?msgs [] w
        = (w', Inr (Some \<lparr>ct_lines = [lit ''Halo''], ct_models = [] @ [m]\<rparr>))" by simp
    then show thesis by (intro goal) (simp only: attempt_chunk_def Let_def Suc_1)
  qed
  moreover have "providers (fst w') = providers (fst w)"
    using att unfolding attempt_chunk_def Let_def by (rule conjunct1 [OF chunk_rounds_world])
  ultimately show ?thesis using assms by (auto simp: keyed_pool_def)
qed

theorem attempt_chunk_calls_witness:
  "\<exists>pool' n' r. attempt_chunk echo_net (chunk_job_of echo_job) [lit ''a''] (echo_pool, 5) = ((pool', n'), r)
     \<and> n' \<le> 5 + 2 * length (providers echo_pool) \<and> providers pool' = providers echo_pool"
proof -
  obtain pool' n' r where "attempt_chunk echo_net (chunk_job_of echo_job) [lit ''a''] (echo_pool, 5) = ((pool', n'), r)"
    by (metis surj_pair)
  with attempt_chunk_calls [OF this] show ?thesis by blast
qed

lemma echo_pool_keyed: "keyed_pool echo_pool"
  using echo_key by (simp add: keyed_pool_def echo_pool_def pool_new_fields sample_file_def lit_eval)

lemma join_all_succeeds:
  assumes "\<And>x w. x \<in> set xs \<Longrightarrow> K w \<Longrightarrow> \<exists>w' y. f x w = (w', Inr y) \<and> K w'" and "K w"
  shows "\<exists>w' ys. join_all f xs w = (w', Inr ys) \<and> K w'"
  using assms
proof (induction xs arbitrary: w)
  case (Cons x xs)
  then obtain w1 y where 1: "f x w = (w1, Inr y)" "K w1" by (meson list.set_intros(1))
  with Cons obtain w2 ys where "join_all f xs w1 = (w2, Inr ys)" "K w2" by (meson list.set_intros(2))
  with 1 show ?case by simp
qed simp

lemma echo_single:
  "keyed_pool (fst w) \<Longrightarrow> \<exists>w' y. translate_single_line echo_net cj l w = (w', Inr y) \<and> keyed_pool (fst w')"
  using echo_chunk [of w cj l] by (auto simp: translate_single_line_def)

theorem translate_lines_aligned_witness:
  "\<exists>ls. translate_lines echo_net (\<lambda>n. rev [0..<n]) False echo_job (echo_pool, 0) = Inr ls \<and> length ls = 2"
proof -
  let ?cj = "chunk_job_of echo_job" and ?order = "\<lambda>n. rev [0..<n]"
  have src: "source_lines echo_job = [lit ''a'', lit ''b'']"
    by (simp add: source_lines_def echo_job_def sanitize_lines_def lit_eval)
  let ?cs = "chunks (max 1 (tj_chunk_size echo_job)) (source_lines echo_job)"
  have cs: "?cs = [[lit ''a''], [lit ''b'']]" unfolding src by (simp add: echo_job_def chunks.simps)
  have "\<exists>w' y. (\<lambda>(_, chunk). attempt_chunk echo_net ?cj chunk) x w = (w', Inr y) \<and> keyed_pool (fst w')"
    if x: "x \<in> set (map (\<lambda>i. (i, ?cs ! i)) (?order (length ?cs)))" and w: "keyed_pool (fst w)" for x w
  proof -
    obtain i l where "x = (i, [l])" using x unfolding cs by (auto simp: less_Suc_eq)
    with echo_chunk [OF w, of ?cj l] show ?thesis by auto
  qed
  with join_all_succeeds [where K = "\<lambda>w. keyed_pool (fst w)"] echo_pool_keyed
  obtain w1 rs where 1: "join_all (\<lambda>(_, chunk). attempt_chunk echo_net ?cj chunk)
      (map (\<lambda>i. (i, ?cs ! i)) (?order (length ?cs))) (echo_pool, 0) = (w1, Inr rs)" "keyed_pool (fst w1)"
    by (metis (no_types, lifting) fst_conv)
  have "\<exists>w' fs. join_all (\<lambda>(_, line). translate_single_line echo_net ?cj line) xs w1 = (w', Inr fs) \<and> keyed_pool (fst w')"
    for xs :: "(nat \<times> ustr) list"
    by (rule join_all_succeeds [where K = "\<lambda>w. keyed_pool (fst w)"]) (use echo_single 1 in auto)
  then have 2: "\<exists>w' fs. join_all (\<lambda>(_, line). translate_single_line echo_net ?cj line) xs w1 = (w', Inr fs)"
    for xs :: "(nat \<times> ustr) list" by blast
  have "\<exists>w2 tr. translate_lines_inner echo_net ?order echo_job (echo_pool, 0) = (w2, Inr tr)"
  proof -
    have ne: "source_lines echo_job \<noteq> []" by (simp add: src)
    show ?thesis
      unfolding translate_lines_inner_def Let_def if_not_P [OF ne] 1(1)
      using 2 by (auto split: prod.splits sum.splits) (metis Inl_Inr_False prod.inject)
  qed
  then obtain ls where ls: "translate_lines echo_net ?order False echo_job (echo_pool, 0) = Inr ls"
    by (auto simp: translate_lines_def translate_lines_with_trace_def)
  from translate_lines_aligned [OF this] have "length ls = 2" by (simp add: echo_job_def)
  with ls show ?thesis by blast
qed

lemma es_code: "normalize_lang (lit ''es'') = lit ''es''"
proof (rule normalize_wire_code)
  show "lit ''es'' \<in> wire_codes" by (simp add: wire_codes_raw WIRE_ACCEPTED_LANGS_raw_def)
qed

theorem unlisted_target_asked_in_indonesian_witness: "lang_name (lit ''es'') = lit ''Indonesian''"
  by (rule unlisted_target_asked_in_indonesian, subst es_code) (simp add: lit_eval)

end
