(* ===== verification/Asr.thy ===== *)
theory Asr
  imports Translate
begin

text \<open>
  \<open>src/asr.rs\<close>: the choice of the audio track and of the language a request carries, the Whisper
  requests over the pool, the guard of a pinned language, and the assembly of an episode's
  transcript from one request or from pieces. The media tools, the audio files and the network
  are functions of an environment; a failure is a constructor.
\<close>

section \<open>Tracks\<close>

definition MAX_CUE_MS :: u32 where "MAX_CUE_MS = 8000"
definition CHUNK_BYTES :: nat where "CHUNK_BYTES = 24 * 1024 * 1024"

record AudioStream =
  as_index :: u32
  as_language :: "ustr option"
  as_title :: "ustr option"

record AudioChoice =
  stream_index :: u32
  asr_lang :: "ustr option"
  needs_translate :: bool

definition wire_pin :: "AudioChoice \<Rightarrow> ustr option" where
  "wire_pin c = (case asr_lang c of Some l \<Rightarrow> if wire_accepts l then Some l else None | None \<Rightarrow> None)"

definition cache_key :: "AudioChoice \<Rightarrow> ustr" where
  "cache_key c = (case asr_lang c of Some l \<Rightarrow> l | None \<Rightarrow> lit ''detect@'' @ dec (unat (stream_index c)))"

text \<open>\<open>to_lowercase\<close> as far as ASCII letters are concerned: other scalars keep their place.\<close>

definition lower_char :: "uchar \<Rightarrow> ustr" where
  "lower_char c =
     (if c < 0x80 then [ascii_lower c] else if c = 0x130 then [105, 0x307] else if c = 0x212a then [107] else [c])"

definition is_commentary :: "AudioStream \<Rightarrow> bool" where
  "is_commentary s \<longleftrightarrow>
     (let hay = concat (map lower_char
            ((case as_language s of Some l \<Rightarrow> l | None \<Rightarrow> []) @ [sp] @ (case as_title s of Some t \<Rightarrow> t | None \<Rightarrow> [])))
      in list_ex (\<lambda>k. contains k hay)
           [lit ''commentary'', lit ''comment'', lit ''description'', lit ''descriptive'', lit ''sdh''])"

record MediaProbe =
  mp_streams :: "AudioStream list"
  mp_duration_s :: "f64 option"
  mp_bit_rate :: "nat option"

definition get_path :: "string \<Rightarrow> string \<Rightarrow> json \<Rightarrow> json option" where
  "get_path a b v = Option.bind (json_get (lit a) v) (json_get (lit b))"

definition probed_stream :: "json \<Rightarrow> AudioStream" where
  "probed_stream s =
     \<lparr>as_index = of_nat (case Option.bind (json_get (lit ''index'') s) as_u64 of Some n \<Rightarrow> n | None \<Rightarrow> 0),
      as_language = Option.bind (get_path ''tags'' ''language'' s) as_str,
      as_title = Option.bind (get_path ''tags'' ''title'' s) as_str\<rparr>"

text \<open>What \<open>probe_media\<close> reads from the tool's JSON; the parser of a decimal fraction is a
  parameter.\<close>

definition media_probe :: "(ustr \<Rightarrow> f64 option) \<Rightarrow> json \<Rightarrow> MediaProbe" where
  "media_probe parse_f64 v =
     (let streams = (case Option.bind (json_get (lit ''streams'') v) as_array of Some ss \<Rightarrow> ss | None \<Rightarrow> []) in
      \<lparr>mp_streams = map probed_stream
         (filter (\<lambda>s. Option.bind (json_get (lit ''codec_type'') s) as_str = Some (lit ''audio'')) streams),
       mp_duration_s = Option.bind (Option.bind (get_path ''format'' ''duration'' v) as_str) parse_f64,
       mp_bit_rate =
         (case get_path ''format'' ''bit_rate'' v of None \<Rightarrow> None
          | Some b \<Rightarrow> first_some (Option.bind (as_str b) (parse_unsigned 64)) (as_u64 b))\<rparr>)"

definition norm_tag :: "AudioStream \<Rightarrow> ustr option" where
  "norm_tag s = map_option normalize_lang (as_language s)"

definition named_tag :: "AudioStream \<Rightarrow> ustr option" where
  "named_tag s = (case norm_tag s of Some c \<Rightarrow> if identity_accepts c then Some c else None | None \<Rightarrow> None)"

definition find_track :: "AudioStream list \<Rightarrow> ustr \<Rightarrow> AudioStream option" where
  "find_track streams want = find (\<lambda>s. \<not> is_commentary s \<and> named_tag s = Some want) streams"

text \<open>An empty target is no target; an original language counts when it is one and differs from
  the target.\<close>

definition wanted_target :: "ustr \<Rightarrow> ustr option" where
  "wanted_target target_lang = (let t = normalize_lang target_lang in if t = [] then None else Some t)"

definition wanted_original :: "ustr \<Rightarrow> ustr option \<Rightarrow> ustr option" where
  "wanted_original target_lang original =
     (case map_option normalize_lang original of
        Some o' \<Rightarrow> if o' \<noteq> [] \<and> Some o' \<noteq> wanted_target target_lang then Some o' else None
      | None \<Rightarrow> None)"

definition choice_of :: "ustr \<Rightarrow> AudioStream \<Rightarrow> AudioChoice" where
  "choice_of target_lang picked =
     \<lparr>stream_index = as_index picked, asr_lang = named_tag picked,
      needs_translate = (case named_tag picked of Some l \<Rightarrow> Some l \<noteq> wanted_target target_lang | None \<Rightarrow> True)\<rparr>"

definition choose_source :: "AudioStream list \<Rightarrow> ustr \<Rightarrow> ustr option \<Rightarrow> AudioChoice option" where
  "choose_source streams target_lang original =
     map_option (choice_of target_lang)
       (first_some (Option.bind (wanted_target target_lang) (find_track streams))
        (first_some (Option.bind (wanted_original target_lang original) (find_track streams))
         (first_some (find_track streams (lit ''ja''))
          (first_some (find (\<lambda>s. \<not> is_commentary s \<and> (named_tag s = None \<or> named_tag s = Some (lit ''en''))) streams)
           (first_some (find (\<lambda>s. \<not> is_commentary s) streams)
            (case streams of [] \<Rightarrow> None | s # _ \<Rightarrow> Some s))))))"

section \<open>Requests\<close>

definition wire_lang :: "ustr option \<Rightarrow> ustr option" where
  "wire_lang lang =
     (case lang of Some l \<Rightarrow> if wire_accepts (trim l) then Some (trim l) else None | None \<Rightarrow> None)"

definition whisper_text_fields :: "ustr \<Rightarrow> ustr option \<Rightarrow> (ustr \<times> ustr) list" where
  "whisper_text_fields m lang =
     [(lit ''model'', m), (lit ''response_format'', lit ''verbose_json'')]
     @ (case wire_lang lang of Some l \<Rightarrow> [(lit ''language'', l)] | None \<Rightarrow> [])"

record whisper_request =
  wr_endpoint :: ustr
  wr_key :: ustr
  wr_fields :: "(ustr \<times> ustr) list"
  wr_file_name :: ustr
  wr_bytes :: bytes

datatype whisper_reply = WTransport | WStatus nat "json option"

datatype whisper_error = NotAttempted | WhisperTransport ustr | WhisperHttp ustr nat

datatype AsrError =
    ProbeFailed | TmpDirFailed | ExtractFailed | SplitFailed | AudioUnreadable | NoWhisperProvider
  | AllWhisperFailed whisper_error | CircuitOpen | DecodeFailed | NoDetectedLang | UnusableLang ustr
  | LangMismatch ustr ustr | NoPieces | CapPanics

record asr_env =
  w_reply :: "nat \<Rightarrow> whisper_request \<Rightarrow> whisper_reply"
  w_clock :: "nat \<Rightarrow> u64"
  w_environ :: environment
  tmp_ok :: bool
  extracts :: "ustr \<Rightarrow> u32 \<Rightarrow> ustr \<Rightarrow> bool"
  splits :: "ustr \<Rightarrow> u32 \<Rightarrow> ustr \<Rightarrow> f64 \<Rightarrow> f64 \<Rightarrow> bool"
  audio_size :: "ustr \<Rightarrow> nat"
  audio_bytes :: "ustr \<Rightarrow> bytes option"

definition detected_lang :: "json \<Rightarrow> AsrError + ustr" where
  "detected_lang v =
     (let raw = trim (case Option.bind (json_get (lit ''language'') v) as_str of Some l \<Rightarrow> l | None \<Rightarrow> []) in
      if raw = [] then Inl NoDetectedLang
      else let code = normalize_reported_lang raw in
        if 2 \<le> byte_len code \<and> byte_len code \<le> 3 \<and> list_all is_ascii_lower code \<and> \<not> is_uncertainty_marker code
        then Inr code else Inl (UnusableLang raw))"

definition effective_lang :: "ustr option \<Rightarrow> json \<Rightarrow> AsrError + ustr" where
  "effective_lang pinned v = (case pinned of Some l \<Rightarrow> Inr l | None \<Rightarrow> detected_lang v)"

definition check_pinned_lang :: "ustr \<Rightarrow> json \<Rightarrow> AsrError + unit" where
  "check_pinned_lang pinned v =
     (case Option.bind (json_get (lit ''language'') v) as_str of
        Some got \<Rightarrow>
          (let g = normalize_reported_lang got
           in if g \<noteq> [] \<and> g \<noteq> pinned then Inl (LangMismatch pinned g) else Inr ())
      | None \<Rightarrow> Inr ())"

text \<open>A success is recorded before the body is decoded; a body that does not decode ends the
  request without trying the endpoints that are left.\<close>

fun try_whisper ::
    "asr_env \<Rightarrow> bytes \<Rightarrow> ustr \<Rightarrow> ustr option \<Rightarrow> (nat \<times> WhisperProvider) list \<Rightarrow> whisper_error \<Rightarrow> world
      \<Rightarrow> world \<times> (AsrError + json \<times> ustr)" where
  "try_whisper env bs file lang [] last_err w = (w, Inl (AllWhisperFailed last_err))"
| "try_whisper env bs file lang ((i, p) # ps) last_err w =
     (if whisper_api_key (w_environ env) p = [] then try_whisper env bs file lang ps last_err w
      else
       (let (pool, n) = w;
            rq = \<lparr>wr_endpoint = wp_endpoint p, wr_key = whisper_api_key (w_environ env) p,
                  wr_fields = whisper_text_fields (wp_model p) lang, wr_file_name = file, wr_bytes = bs\<rparr>
        in case w_reply env n rq of
             WTransport \<Rightarrow>
               try_whisper env bs file lang ps (WhisperTransport (wp_endpoint p))
                 (record_whisper_failure (w_clock env n) i pool, Suc n)
           | WStatus code body \<Rightarrow>
               if \<not> (200 \<le> code \<and> code < 300) then
                 try_whisper env bs file lang ps (WhisperHttp (wp_endpoint p) code)
                   (record_whisper_failure (w_clock env n) i pool, Suc n)
               else ((record_whisper_success i pool, Suc n),
                     (case body of None \<Rightarrow> Inl DecodeFailed | Some v \<Rightarrow> Inr (v, wp_model p)))))"

definition whisper_request_all ::
    "asr_env \<Rightarrow> bytes \<Rightarrow> ustr \<Rightarrow> ustr option \<Rightarrow> world \<Rightarrow> world \<times> (AsrError + json \<times> ustr)" where
  "whisper_request_all env bs file lang w =
     (let es = ordered_whisper (w_clock env (snd w)) (fst w)
      in if es = [] then (w, Inl NoWhisperProvider) else try_whisper env bs file lang es NotAttempted w)"

section \<open>Cues\<close>

text \<open>\<open>Value::as_f64\<close> and the cast of seconds to milliseconds.\<close>

fun as_f64 :: "json \<Rightarrow> f64 option" where
  "as_f64 (JInt i) = Some (f64_round (of_int i))"
| "as_f64 (JReal r) = Some r"
| "as_f64 _ = None"

definition to_ms :: "f64 \<Rightarrow> u32" where
  "to_ms s = f64_to_u32 (f64_mul s 1000)"

definition seconds_of :: "string \<Rightarrow> json \<Rightarrow> f64" where
  "seconds_of k v = (case Option.bind (json_get (lit k) v) as_f64 of Some s \<Rightarrow> s | None \<Rightarrow> 0)"

definition segment_cue :: "u32 \<Rightarrow> json \<Rightarrow> cue option" where
  "segment_cue off s =
     (let text = trim (case Option.bind (json_get (lit ''text'') s) as_str of Some t \<Rightarrow> t | None \<Rightarrow> [])
      in if text = [] then None
         else Some (Cue_new (off + to_ms (seconds_of ''start'' s)) (off + to_ms (seconds_of ''end'' s)) text))"

definition cues_from_verbose :: "json \<Rightarrow> u32 \<Rightarrow> cue list" where
  "cues_from_verbose v off =
     (case Option.bind (json_get (lit ''segments'') v) as_array of
        Some segs \<Rightarrow> List.map_filter (segment_cue off) segs
      | None \<Rightarrow>
          (case Option.bind (json_get (lit ''text'') v) as_str of
             Some t \<Rightarrow> if trim t = [] then [] else [Cue_new off (off + 8000) (trim t)]
           | None \<Rightarrow> []))"

record Transcript =
  tr_cues :: "cue list"
  tr_lang :: ustr
  whisper_models :: "ustr list"

section \<open>One file\<close>

definition guard_pin :: "ustr option \<Rightarrow> json \<Rightarrow> AsrError + unit" where
  "guard_pin sent v = (case sent of Some p \<Rightarrow> check_pinned_lang p v | None \<Rightarrow> Inr ())"

definition post_file ::
    "asr_env \<Rightarrow> ustr \<Rightarrow> ustr \<Rightarrow> ustr option \<Rightarrow> world \<Rightarrow> world \<times> (AsrError + json \<times> ustr)" where
  "post_file env file shown lang w =
     (if whisper_banned (w_clock env (snd w)) (fst w) then (w, Inl CircuitOpen)
      else case audio_bytes env file of
          None \<Rightarrow> (w, Inl AudioUnreadable)
        | Some bs \<Rightarrow> whisper_request_all env bs shown lang w)"

definition transcribe_file ::
    "asr_env \<Rightarrow> ustr \<Rightarrow> ustr option \<Rightarrow> world \<Rightarrow> world \<times> (AsrError + Transcript)" where
  "transcribe_file env file lang w =
     (case post_file env file (lit ''full.mp3'') lang w of
        (w', Inl e) \<Rightarrow> (w', Inl e)
      | (w', Inr (v, m)) \<Rightarrow>
          (w', case guard_pin lang v of Inl e \<Rightarrow> Inl e
               | Inr _ \<Rightarrow> (case effective_lang lang v of Inl e \<Rightarrow> Inl e
                   | Inr l \<Rightarrow> Inr \<lparr>tr_cues = cues_from_verbose v 0, tr_lang = l, whisper_models = [m]\<rparr>)))"

section \<open>Pieces\<close>

definition piece_count :: "f64 \<Rightarrow> nat" where
  "piece_count dur = clamp 2 24 (nat \<lceil>f64_div dur 600\<rceil>)"

definition piece_start :: "f64 \<Rightarrow> nat \<Rightarrow> nat \<Rightarrow> f64" where
  "piece_start dur n k = f64_div (f64_mul (of_count k) dur) (of_count n)"

definition piece_file :: "ustr \<Rightarrow> nat \<Rightarrow> ustr" where
  "piece_file base k = base @ lit ''/part'' @ dec_pad 2 k @ lit ''.mp3''"

text \<open>The pieces with their offsets, or nothing when a split fails.\<close>

definition split_pieces :: "asr_env \<Rightarrow> ustr \<Rightarrow> ustr \<Rightarrow> u32 \<Rightarrow> f64 \<Rightarrow> (ustr \<times> u32) list option" where
  "split_pieces env base media idx dur =
     (let n = piece_count dur
      in if list_all (\<lambda>k. splits env media idx (piece_file base k) (piece_start dur n k) (f64_div dur (of_count n))) [0..<n]
         then Some (map (\<lambda>k. (piece_file base k, to_ms (piece_start dur n k))) [0..<n])
         else None)"

definition post_chunk :: "asr_env \<Rightarrow> ustr \<Rightarrow> ustr option \<Rightarrow> world \<Rightarrow> world \<times> (AsrError + json \<times> ustr)" where
  "post_chunk env file lang w = post_file env file (lit ''part.mp3'') lang w"

definition guarded_chunk ::
    "asr_env \<Rightarrow> ustr option \<Rightarrow> ustr \<times> u32 \<Rightarrow> world \<Rightarrow> world \<times> (AsrError + cue list \<times> ustr)" where
  "guarded_chunk env sent part w =
     (case part of (dest, off) \<Rightarrow>
        (case post_chunk env dest sent w of
           (w', Inl e) \<Rightarrow> (w', Inl e)
         | (w', Inr (v, m)) \<Rightarrow>
             (w', case guard_pin sent v of Inl e \<Rightarrow> Inl e | Inr _ \<Rightarrow> Inr (cues_from_verbose v off, m))))"

text \<open>The first piece when nothing is pinned: its report is the episode's language.\<close>

definition detect_first ::
    "asr_env \<Rightarrow> (ustr \<times> u32) list \<Rightarrow> world
      \<Rightarrow> world \<times> (AsrError + ustr \<times> cue list \<times> ustr list \<times> (ustr \<times> u32) list)" where
  "detect_first env parts w =
     (case parts of [] \<Rightarrow> (w, Inl NoPieces)
      | (dest, off) # rest \<Rightarrow>
          (case post_chunk env dest None w of
             (w', Inl e) \<Rightarrow> (w', Inl e)
           | (w', Inr (v, m)) \<Rightarrow>
               (w', case detected_lang v of Inl e \<Rightarrow> Inl e
                    | Inr l \<Rightarrow> Inr (l, cues_from_verbose v off, [m], rest))))"

definition transcribe_pieces ::
    "asr_env \<Rightarrow> (nat \<Rightarrow> nat list) \<Rightarrow> ustr \<Rightarrow> ustr \<Rightarrow> u32 \<Rightarrow> ustr option \<Rightarrow> f64 \<Rightarrow> world
      \<Rightarrow> world \<times> (AsrError + Transcript)" where
  "transcribe_pieces env order base media idx pinned dur w =
     (case split_pieces env base media idx dur of None \<Rightarrow> (w, Inl SplitFailed)
      | Some parts \<Rightarrow>
          (case (case pinned of Some p \<Rightarrow> (w, Inr (p, [], [], parts)) | None \<Rightarrow> detect_first env parts w) of
             (w1, Inl e) \<Rightarrow> (w1, Inl e)
           | (w1, Inr (lang, cues, models, rest)) \<Rightarrow>
               (let rest_pin = wire_lang (Some lang)
                in case join_all (\<lambda>(_, part). guarded_chunk env rest_pin part)
                       (map (\<lambda>i. (i, rest ! i)) (order (length rest))) w1 of
                     (w2, Inl e) \<Rightarrow> (w2, Inl e)
                   | (w2, Inr rs) \<Rightarrow>
                       (let results = map snd (sort_key (fst \<circ> fst) rs)
                        in (w2, Inr \<lparr>tr_cues = cues @ concat (map fst results), tr_lang = lang,
                                     whisper_models = remdups_adj (sort_key utf8 (models @ map snd results))\<rparr>)))))"

section \<open>One episode\<close>

record TranscribeJob =
  tj_tmp_dir :: ustr
  tj_media_path :: ustr
  tj_choice :: AudioChoice
  tj_episode_key :: ustr
  tj_duration_s :: "f64 option"
  tj_audio_bytes :: "nat option"
  tj_max_cue_ms :: u32

definition est_audio_bytes :: "f64 option \<Rightarrow> nat option \<Rightarrow> nat option" where
  "est_audio_bytes duration_s bit_rate =
     (case duration_s of None \<Rightarrow> None | Some d \<Rightarrow>
      if \<not> 0 < d then None
      else case bit_rate of None \<Rightarrow> None | Some r \<Rightarrow>
        if r = 0 then None
        else Some (min (2 ^ 64 - 1) (nat \<lfloor>f64_div (f64_mul d (f64_round (of_count r))) 8\<rfloor>)))"

definition transcribe_raw ::
    "asr_env \<Rightarrow> (nat \<Rightarrow> nat list) \<Rightarrow> TranscribeJob \<Rightarrow> world \<Rightarrow> world \<times> (AsrError + Transcript)" where
  "transcribe_raw env order job w =
     (let base = tj_tmp_dir job @ lit ''/asr-'' @ tj_episode_key job; full = base @ lit ''/full.mp3'';
          idx = stream_index (tj_choice job); media = tj_media_path job;
          sent = wire_lang (wire_pin (tj_choice job));
          dur = (case tj_duration_s job of Some d \<Rightarrow> d | None \<Rightarrow> 3600)
      in if (case tj_audio_bytes job of Some b \<Rightarrow> CHUNK_BYTES < b | None \<Rightarrow> False)
         then transcribe_pieces env order base media idx sent dur w
         else if \<not> extracts env media idx full then (w, Inl ExtractFailed)
         else if audio_size env full \<le> CHUNK_BYTES then transcribe_file env full sent w
         else transcribe_pieces env order base media idx sent dur w)"

definition transcribe_episode ::
    "asr_env \<Rightarrow> (nat \<Rightarrow> nat list) \<Rightarrow> TranscribeJob \<Rightarrow> world \<Rightarrow> world \<times> (AsrError + Transcript)" where
  "transcribe_episode env order job w =
     (if \<not> tmp_ok env then (w, Inl TmpDirFailed)
      else case transcribe_raw env order job w of
          (w', Inl e) \<Rightarrow> (w', Inl e)
        | (w', Inr t) \<Rightarrow>
            (w', case split_long_cues (tj_max_cue_ms job) (ensure_contiguous (tr_cues t)) of
                   None \<Rightarrow> Inl CapPanics
                 | Some cs \<Rightarrow> Inr (t\<lparr>tr_cues := cs\<rparr>)))"

section \<open>The track choice as a ranking\<close>

text \<open>The documented order of preference as one number per track; the first track with the least
  number wins.\<close>

fun spoken_in :: "ustr option \<Rightarrow> AudioStream \<Rightarrow> bool" where
  "spoken_in None s = False"
| "spoken_in (Some l) s = (named_tag s = Some l)"

definition track_rank :: "ustr \<Rightarrow> ustr option \<Rightarrow> AudioStream \<Rightarrow> nat" where
  "track_rank target_lang original s =
     (if is_commentary s then 5
      else if spoken_in (wanted_target target_lang) s then 0
      else if spoken_in (wanted_original target_lang original) s then 1
      else if named_tag s = Some (lit ''ja'') then 2
      else if named_tag s = None \<or> named_tag s = Some (lit ''en'') then 3
      else 4)"

lemma find_None_rank: "find P xs = None \<longleftrightarrow> (\<forall>x \<in> set xs. \<not> P x)"
  by (auto simp: find_None_iff)

text \<open>The head of a stable sort is the first element with the least key.\<close>

lemma hd_sort_key:
  assumes "find (\<lambda>x. f x = k) xs = Some x" "\<forall>y \<in> set xs. k \<le> f y"
  shows "hd (sort_key f xs) = x"
proof -
  have x: "x \<in> set xs" "f x = k" using assms(1) by (auto simp: find_Some_iff)
  then have "sort_key f xs \<noteq> []" by (metis empty_iff empty_set set_sort)
  then obtain y ys where y: "sort_key f xs = y # ys" by (meson list.exhaust)
  have "sorted (map f (y # ys))" by (metis y sorted_sort_key)
  moreover have "x \<in> set (y # ys)" by (metis x(1) y set_sort)
  ultimately have "f y \<le> k" using x(2) by auto
  moreover have "k \<le> f y" using assms(2) y by (metis list.set_intros(1) set_sort)
  ultimately have "f y = k" by simp
  then have "hd (filter (\<lambda>z. f z = k) (sort_key f xs)) = y" using y by simp
  moreover have "filter (\<lambda>z. f z = k) (sort_key f xs) = filter (\<lambda>z. f z = k) xs"
  proof -
    have "sorted (map f (filter (\<lambda>z. f z = k) xs))" by (induction xs) auto
    then show ?thesis by (simp add: filter_sort sort_key_id_if_sorted)
  qed
  moreover have "find (\<lambda>z. f z = k) xs = Some z \<Longrightarrow> hd (filter (\<lambda>z. f z = k) xs) = z" for z
    by (induction xs) (auto split: if_splits)
  ultimately show ?thesis using assms(1) y by simp
qed

text \<open>The predicates of the six rules, in order.\<close>

fun rule_matches :: "ustr \<Rightarrow> ustr option \<Rightarrow> nat \<Rightarrow> AudioStream \<Rightarrow> bool" where
  "rule_matches t orig n s =
     (if n = 0 then \<not> is_commentary s \<and> spoken_in (wanted_target t) s
      else if n = 1 then \<not> is_commentary s \<and> spoken_in (wanted_original t orig) s
      else if n = 2 then \<not> is_commentary s \<and> named_tag s = Some (lit ''ja'')
      else if n = 3 then \<not> is_commentary s \<and> (named_tag s = None \<or> named_tag s = Some (lit ''en''))
      else if n = 4 then \<not> is_commentary s
      else True)"

declare rule_matches.simps [simp del]

lemma rule_level:
  "rule_matches t orig 0 = (\<lambda>s. \<not> is_commentary s \<and> spoken_in (wanted_target t) s)"
  "rule_matches t orig 1 = (\<lambda>s. \<not> is_commentary s \<and> spoken_in (wanted_original t orig) s)"
  "rule_matches t orig 2 = (\<lambda>s. \<not> is_commentary s \<and> named_tag s = Some (lit ''ja''))"
  "rule_matches t orig 3 = (\<lambda>s. \<not> is_commentary s \<and> (named_tag s = None \<or> named_tag s = Some (lit ''en'')))"
  "rule_matches t orig 4 = (\<lambda>s. \<not> is_commentary s)"
  "rule_matches t orig 5 = (\<lambda>_. True)"
  by (simp_all add: rule_matches.simps fun_eq_iff)

lemma rule_rank: "rule_matches t orig n s \<Longrightarrow> n \<le> 5 \<Longrightarrow> track_rank t orig s \<le> n"
  by (auto simp: track_rank_def rule_matches.simps split: if_splits)

lemma rank_rule: "rule_matches t orig (track_rank t orig s) s"
  by (simp add: track_rank_def rule_matches.simps)

lemma rank_pick:
  assumes "k \<le> 5" "find (rule_matches t orig k) xs = Some x" "\<forall>j < k. find (rule_matches t orig j) xs = None"
  shows "hd (sort_key (track_rank t orig) xs) = x"
proof (rule hd_sort_key)
  show low: "\<forall>y \<in> set xs. k \<le> track_rank t orig y"
    using assms(3) rank_rule by (metis find_None_rank leI)
  have "rule_matches t orig k y = (track_rank t orig y = k)" if "y \<in> set xs" for y
    using that low rule_rank [OF _ assms(1)] rank_rule by (metis le_antisym)
  then have "find (rule_matches t orig k) xs = find (\<lambda>y. track_rank t orig y = k) xs"
    by (intro find_cong) simp_all
  with assms(2) show "find (\<lambda>y. track_rank t orig y = k) xs = Some x" by simp
qed

lemma choose_source_rules:
  "choose_source streams t orig = map_option (choice_of t)
     (first_some (find (rule_matches t orig 0) streams) (first_some (find (rule_matches t orig 1) streams)
       (first_some (find (rule_matches t orig 2) streams) (first_some (find (rule_matches t orig 3) streams)
         (first_some (find (rule_matches t orig 4) streams) (find (rule_matches t orig 5) streams))))))"
proof -
  have "Option.bind c (find_track streams) = find (\<lambda>s. \<not> is_commentary s \<and> spoken_in c s) streams" for c
    by (cases c) (auto simp: find_track_def find_None_iff eq_commute [of None])
  moreover have "(case streams of [] \<Rightarrow> None | s # _ \<Rightarrow> Some s) = find (\<lambda>_. True) streams"
    by (cases streams) simp_all
  ultimately show ?thesis unfolding choose_source_def rule_level find_track_def by simp
qed

text \<open>The track choice is the first track of the least rank: one in the target's language, else in
  the original language, else Japanese, else whichever comes first of an unnamed and an English
  track, else any that is no commentary, else the first; it exists whenever there is a track,
  carries only a language the tag names, and asks for no translation only when that language is
  the target.\<close>

theorem choose_source_ranked:
  "choose_source streams target original =
     (if streams = [] then None
      else Some (choice_of target (hd (sort_key (track_rank target original) streams))))"
proof (cases streams)
  case (Cons s ss)
  let ?r = "rule_matches target original"
  have "find (?r 5) streams = Some s" by (simp add: Cons rule_matches.simps)
  then obtain k x where k: "k \<le> 5" "find (?r k) streams = Some x" "\<forall>j < k. find (?r j) streams = None"
  proof -
    let ?k = "LEAST k. find (?r k) streams \<noteq> None"
    assume goal: "\<And>k x. k \<le> 5 \<Longrightarrow> find (?r k) streams = Some x \<Longrightarrow> \<forall>j < k. find (?r j) streams = None \<Longrightarrow> thesis"
    have "find (?r ?k) streams \<noteq> None" "?k \<le> 5"
      using \<open>find (?r 5) streams = Some s\<close> by (auto intro: LeastI Least_le)
    moreover have "\<forall>j < ?k. find (?r j) streams = None" using not_less_Least by blast
    ultimately show thesis using goal by blast
  qed
  have "k \<in> {0, 1, 2, 3, 4, 5}" using k(1) by auto
  then have "choose_source streams target original = Some (choice_of target x)"
    using k(2,3) unfolding choose_source_rules first_some_def by (auto simp: eval_nat_numeral less_Suc_eq)
  with rank_pick [OF k] show ?thesis by (simp add: Cons)
qed (simp add: choose_source_rules first_some_def)

section \<open>What is sent\<close>

definition clean_request :: "whisper_request \<Rightarrow> bool" where
  "clean_request rq \<longleftrightarrow> (\<forall>l. (lit ''language'', l) \<in> set (wr_fields rq) \<longrightarrow> wire_accepts l \<and> trimmed l)"

lemma text_fields_clean:
  "(lit ''language'', l) \<in> set (whisper_text_fields m lang) \<Longrightarrow> wire_accepts l \<and> trimmed l"
  by (auto simp: whisper_text_fields_def wire_lang_def wire_accepts_def lit_eval split: option.splits if_splits)

text \<open>Two environments that answer every clean request alike.\<close>

definition same_answers :: "(nat \<Rightarrow> whisper_request \<Rightarrow> whisper_reply) \<Rightarrow> asr_env \<Rightarrow> bool" where
  "same_answers r env \<longleftrightarrow> (\<forall>n rq. clean_request rq \<longrightarrow> r n rq = w_reply env n rq)"

lemma try_whisper_reply:
  assumes "same_answers r env"
  shows "try_whisper (env\<lparr>w_reply := r\<rparr>) bs shown lang ps e w = try_whisper env bs shown lang ps e w"
proof (induction ps arbitrary: e w)
  case (Cons q ps)
  obtain i p where q: "q = (i, p)" by fastforce
  obtain pool n where w: "w = (pool, n)" by fastforce
  let ?rq = "\<lparr>wr_endpoint = wp_endpoint p, wr_key = whisper_api_key (w_environ env) p,
      wr_fields = whisper_text_fields (wp_model p) lang, wr_file_name = shown, wr_bytes = bs\<rparr>"
  have "clean_request ?rq" using text_fields_clean by (simp add: clean_request_def)
  then have "r n ?rq = w_reply env n ?rq" using assms by (simp add: same_answers_def)
  with Cons.IH show ?case by (cases "w_reply env n ?rq") (simp_all add: q w Let_def)
qed simp

lemma whisper_request_reply: assumes "same_answers r env" shows "whisper_request_all (env\<lparr>w_reply := r\<rparr>) = whisper_request_all env"
  unfolding fun_eq_iff whisper_request_all_def try_whisper_reply [OF assms] by simp

lemma post_file_reply: assumes "same_answers r env" shows "post_file (env\<lparr>w_reply := r\<rparr>) = post_file env"
  unfolding fun_eq_iff post_file_def whisper_request_reply [OF assms] by simp

lemma guarded_chunk_reply: assumes "same_answers r env" shows "guarded_chunk (env\<lparr>w_reply := r\<rparr>) = guarded_chunk env"
  unfolding fun_eq_iff guarded_chunk_def post_chunk_def post_file_reply [OF assms] by simp

lemma transcribe_file_reply: assumes "same_answers r env" shows "transcribe_file (env\<lparr>w_reply := r\<rparr>) = transcribe_file env"
  unfolding fun_eq_iff transcribe_file_def post_file_reply [OF assms] by simp

lemma detect_first_reply: assumes "same_answers r env" shows "detect_first (env\<lparr>w_reply := r\<rparr>) = detect_first env"
  unfolding fun_eq_iff detect_first_def post_chunk_def post_file_reply [OF assms] by simp

lemma split_pieces_reply: "split_pieces (env\<lparr>w_reply := r\<rparr>) = split_pieces env"
  unfolding fun_eq_iff split_pieces_def by simp

lemma transcribe_pieces_reply: assumes "same_answers r env" shows "transcribe_pieces (env\<lparr>w_reply := r\<rparr>) = transcribe_pieces env"
  unfolding fun_eq_iff transcribe_pieces_def split_pieces_reply detect_first_reply [OF assms] guarded_chunk_reply [OF assms] by simp

lemma transcribe_raw_reply: assumes "same_answers r env" shows "transcribe_raw (env\<lparr>w_reply := r\<rparr>) = transcribe_raw env"
  unfolding fun_eq_iff transcribe_raw_def transcribe_pieces_reply [OF assms] transcribe_file_reply [OF assms] by (simp add: Let_def)

text \<open>The transcription of an episode never depends on what the network would answer to a request
  whose language field is not in the measured accept set: no such request is made, whatever the
  tags say and whatever language a first piece reports.\<close>

theorem unaccepted_language_never_sent:
  assumes "\<And>n rq. clean_request rq \<Longrightarrow> r n rq = w_reply env n rq"
  shows "transcribe_episode (env\<lparr>w_reply := r\<rparr>) order job w = transcribe_episode env order job w"
proof -
  have same: "same_answers r env" using assms by (simp add: same_answers_def)
  show ?thesis unfolding transcribe_episode_def transcribe_raw_reply [OF same] by simp
qed

section \<open>What is committed\<close>

text \<open>A response that some request of the run brought, and one that does not contradict the language
  its request carried.\<close>

definition answered_by :: "asr_env \<Rightarrow> ustr option \<Rightarrow> json \<Rightarrow> bool" where
  "answered_by env sent v \<longleftrightarrow> (\<exists>path shown w w' m. post_file env path shown sent w = (w', Inr (v, m)))"

definition heard_with :: "asr_env \<Rightarrow> ustr option \<Rightarrow> json \<Rightarrow> bool" where
  "heard_with env sent v \<longleftrightarrow> answered_by env sent v
     \<and> (case sent of None \<Rightarrow> True
        | Some p \<Rightarrow> (case Option.bind (json_get (lit ''language'') v) as_str of None \<Rightarrow> True
            | Some l \<Rightarrow> normalize_reported_lang l \<in> {[], p}))"

lemma guard_pin_heard: "answered_by env sent v \<Longrightarrow> guard_pin sent v = Inr u \<Longrightarrow> heard_with env sent v"
  by (auto simp: guard_pin_def heard_with_def check_pinned_lang_def Let_def split: option.splits if_splits)

text \<open>How a transcript's language and cues come about: the responses with their offsets, in order.\<close>

definition transcript_from :: "asr_env \<Rightarrow> ustr option \<Rightarrow> Transcript \<Rightarrow> (json \<times> u32) list \<Rightarrow> bool" where
  "transcript_from env sent t vs \<longleftrightarrow>
     tr_cues t = concat (map (\<lambda>(v, off). cues_from_verbose v off) vs)
     \<and> (case sent of
          Some p \<Rightarrow> tr_lang t = p \<and> list_all (heard_with env (Some p)) (map fst vs)
        | None \<Rightarrow> vs \<noteq> [] \<and> answered_by env None (fst (hd vs)) \<and> detected_lang (fst (hd vs)) = Inr (tr_lang t)
            \<and> list_all (heard_with env (wire_lang (Some (tr_lang t)))) (map fst (tl vs)))"

lemma wire_lang_again: "wire_lang c = Some p \<Longrightarrow> wire_lang (Some p) = Some p"
  by (auto simp: wire_lang_def split: option.splits if_splits)

lemma transcribe_file_from:
  assumes "transcribe_file env path sent w = (w', Inr t)"
  shows "\<exists>vs. transcript_from env sent t vs \<and> map snd vs = [0]"
proof -
  obtain w1 r where post: "post_file env path (lit ''full.mp3'') sent w = (w1, r)" by fastforce
  with assms obtain v m where r: "r = Inr (v, m)" "guard_pin sent v = Inr ()"
      "effective_lang sent v = Inr (tr_lang t)" "tr_cues t = cues_from_verbose v 0"
    by (auto simp: transcribe_file_def split: sum.splits)
  have "answered_by env sent v" using post r(1) unfolding answered_by_def by blast
  with r guard_pin_heard [OF this r(2)] have "transcript_from env sent t [(v, 0)]"
    by (auto simp: transcript_from_def effective_lang_def split: option.splits)
  then show ?thesis by (intro exI [of _ "[(v, 0)]"]) simp
qed

lemma guarded_chunk_heard:
  assumes "guarded_chunk env sent (dest, off) w = (w', Inr (cs, m))"
  shows "\<exists>v. heard_with env sent v \<and> cs = cues_from_verbose v off"
proof -
  obtain w1 r where post: "post_file env dest (lit ''part.mp3'') sent w = (w1, r)" by fastforce
  with assms obtain v where r: "r = Inr (v, m)" "guard_pin sent v = Inr ()" "cs = cues_from_verbose v off"
    by (auto simp: guarded_chunk_def post_chunk_def split: sum.splits)
  have "answered_by env sent v" using post r(1) unfolding answered_by_def by blast
  with r guard_pin_heard show ?thesis by blast
qed

lemma pieces_heard:
  assumes "join_all (\<lambda>(_, part). guarded_chunk env sent part) (map (\<lambda>i. (i, rest ! i)) (order (length rest))) w
      = (w', Inr rs)"
    and "\<And>n. mset (order n) = mset [0..<n]"
  shows "\<exists>vs. concat (map fst (map snd (sort_key (fst \<circ> fst) rs))) = concat (map (\<lambda>(v, off). cues_from_verbose v off) vs)
    \<and> map snd vs = map snd rest \<and> list_all (heard_with env sent) (map fst vs)"
proof -
  define results where "results = sort_key (fst \<circ> fst) rs"
  have keys: "map fst results = enumerate 0 rest"
    unfolding results_def using join_all_Inr [OF assms(1)] mset_schedule(2) [OF assms(2)]
    by (intro sort_by_index) simp
  have each: "\<exists>v. heard_with env sent v \<and> fst (snd r) = cues_from_verbose v (snd (snd (fst r)))" if "r \<in> set results" for r
  proof -
    have "r \<in> set rs" using that by (simp add: results_def)
    moreover obtain i dest off cs m where r: "r = ((i, dest, off), cs, m)" by (cases r) auto
    ultimately obtain v v' where "guarded_chunk env sent (dest, off) v = (v', Inr (cs, m))"
      using join_all_Inr [OF assms(1)] by fastforce
    from guarded_chunk_heard [OF this] show ?thesis by (simp add: r)
  qed
  then obtain f where f: "heard_with env sent (f r) \<and> fst (snd r) = cues_from_verbose (f r) (snd (snd (fst r)))"
    if "r \<in> set results" for r by metis
  let ?vs = "map (\<lambda>r. (f r, snd (snd (fst r)))) results"
  have "concat (map fst (map snd results)) = concat (map (\<lambda>(v, off). cues_from_verbose v off) ?vs)"
    using f by (intro arg_cong [of _ _ concat]) (simp add: comp_def)
  moreover have "map snd ?vs = map snd rest"
  proof -
    have "map snd ?vs = map snd (map snd (map fst results))" by (simp add: comp_def)
    also have "\<dots> = map snd rest" by (simp only: keys map_snd_enumerate)
    finally show ?thesis .
  qed
  moreover have "list_all (heard_with env sent) (map fst ?vs)" using f by (simp add: list_all_iff)
  ultimately show ?thesis unfolding results_def by blast
qed

lemma transcribe_pieces_from:
  assumes run: "transcribe_pieces env order base media idx pin dur w = (w', Inr t)"
    and sent: "pin = wire_lang pin0"
    and perm: "\<And>n. mset (order n) = mset [0..<n]"
  shows "\<exists>vs. transcript_from env pin t vs
    \<and> map snd vs = map (\<lambda>k. to_ms (piece_start dur (piece_count dur) k)) [0..<piece_count dur]"
proof -
  from run obtain parts where parts: "split_pieces env base media idx dur = Some parts"
    by (auto simp: transcribe_pieces_def split: option.splits)
  let ?offs = "map (\<lambda>k. to_ms (piece_start dur (piece_count dur) k)) [0..<piece_count dur]"
  have offs: "map snd parts = ?offs"
    using parts by (auto simp: split_pieces_def Let_def comp_def split: if_splits)
  let ?first = "case pin of Some p \<Rightarrow> (w, Inr (p, [], [], parts)) | None \<Rightarrow> detect_first env parts w"
  obtain w1 lang cues models rest where first: "?first = (w1, Inr (lang, cues, models, rest))"
    using run parts by (auto simp: transcribe_pieces_def split: prod.splits sum.splits)
  let ?rest_pin = "wire_lang (Some lang)"
  obtain w2 rs where join: "join_all (\<lambda>(_, part). guarded_chunk env ?rest_pin part)
      (map (\<lambda>i. (i, rest ! i)) (order (length rest))) w1 = (w2, Inr rs)"
    and t: "tr_cues t = cues @ concat (map fst (map snd (sort_key (fst \<circ> fst) rs)))" "tr_lang t = lang"
    using run unfolding transcribe_pieces_def parts option.case first prod.case sum.case Let_def
    by (auto split: prod.splits sum.splits)
  obtain vs where vs: "concat (map fst (map snd (sort_key (fst \<circ> fst) rs))) = concat (map (\<lambda>(v, off). cues_from_verbose v off) vs)"
      "map snd vs = map snd rest" "list_all (heard_with env ?rest_pin) (map fst vs)"
    using pieces_heard [OF join perm] by blast
  show ?thesis
  proof (cases pin)
    case (Some p)
    with first have f: "lang = p" "cues = []" "rest = parts" by simp_all
    have "?rest_pin = Some p" using wire_lang_again sent Some f(1) by metis
    with vs t f Some have "transcript_from env pin t vs" by (simp add: transcript_from_def)
    with vs(2) f(3) offs show ?thesis by auto
  next
    case None
    with first obtain dest off v m where d: "parts = (dest, off) # rest" "cues = cues_from_verbose v off"
        "post_chunk env dest None w = (w1, Inr (v, m))" "detected_lang v = Inr lang"
      by (auto simp: detect_first_def split: list.splits prod.splits sum.splits)
    have "answered_by env None v" using d(3) unfolding answered_by_def post_chunk_def by blast
    with vs t d None have "transcript_from env pin t ((v, off) # vs)" by (simp add: transcript_from_def)
    moreover have "map snd ((v, off) # vs) = ?offs" using vs(2) d(1) offs by simp
    ultimately show ?thesis by blast
  qed
qed

text \<open>The offsets a run may place its responses at: one file starts at zero, pieces start at equal
  fractions of the duration.\<close>

definition run_offsets :: "TranscribeJob \<Rightarrow> u32 list \<Rightarrow> bool" where
  "run_offsets job offs \<longleftrightarrow> offs = [0] \<or>
     (let dur = (case tj_duration_s job of Some d \<Rightarrow> d | None \<Rightarrow> 3600)
      in offs = map (\<lambda>k. to_ms (piece_start dur (piece_count dur) k)) [0..<piece_count dur])"

lemma transcribe_raw_from:
  assumes "transcribe_raw env order job w = (w', Inr t)"
    and "\<And>n. mset (order n) = mset [0..<n]"
  shows "\<exists>vs. transcript_from env (wire_lang (wire_pin (tj_choice job))) t vs \<and> run_offsets job (map snd vs)"
proof -
  define base where "base = tj_tmp_dir job @ lit ''/asr-'' @ tj_episode_key job"
  define sent where "sent = wire_lang (wire_pin (tj_choice job))"
  define dur where "dur = (case tj_duration_s job of Some d \<Rightarrow> d | None \<Rightarrow> 3600)"
  let ?idx = "stream_index (tj_choice job)" and ?full = "base @ lit ''/full.mp3''"
  have "transcribe_pieces env order base (tj_media_path job) ?idx sent dur w = (w', Inr t)
      \<or> transcribe_file env ?full sent w = (w', Inr t)"
    using assms(1) unfolding transcribe_raw_def Let_def base_def sent_def dur_def
    by (auto split: if_splits)
  then show ?thesis
  proof
    assume "transcribe_pieces env order base (tj_media_path job) ?idx sent dur w = (w', Inr t)"
    from transcribe_pieces_from [OF this sent_def assms(2)] show ?thesis
      unfolding run_offsets_def Let_def sent_def dur_def by blast
  next
    assume "transcribe_file env ?full sent w = (w', Inr t)"
    from transcribe_file_from [OF this] obtain vs where "transcript_from env sent t vs" "map snd vs = [0]" by auto
    then show ?thesis unfolding run_offsets_def sent_def by auto
  qed
qed


section \<open>Witnesses\<close>

definition sample_whisper :: WhisperProvider where
  "sample_whisper = \<lparr>wp_endpoint = lit ''https://x/audio'', wp_model = lit ''w1'', wp_key_env = lit ''K'',
     wp_api_key_field = lit ''k''\<rparr>"

definition hearing_pool :: ProviderPool where
  "hearing_pool = pool_new no_env (sample_file\<lparr>whisper_stt := Some sample_whisper\<rparr>) (timeouts_from_env no_env)"

definition heard_json :: json where
  "heard_json = JObj [(lit ''language'', JStr (lit ''ja'')), (lit ''text'', JStr (lit ''hi''))]"

text \<open>A network that hears \<open>hi\<close> in Japanese when it is asked properly.\<close>

definition hearing_env :: asr_env where
  "hearing_env = \<lparr>w_reply = (\<lambda>_ _. WStatus 200 (Some heard_json)), w_clock = (\<lambda>_. 7), w_environ = no_env, tmp_ok = True,
     extracts = (\<lambda>_ _ _. True), splits = (\<lambda>_ _ _ _ _. False), audio_size = (\<lambda>_. 4), audio_bytes = (\<lambda>_. Some [1, 2, 3, 4])\<rparr>"

definition hearing_job :: TranscribeJob where
  "hearing_job = \<lparr>tj_tmp_dir = lit ''t'', tj_media_path = lit ''m'',
     tj_choice = \<lparr>stream_index = 1, asr_lang = Some (lit ''ja''), needs_translate = True\<rparr>, tj_episode_key = lit ''e'',
     tj_duration_s = None, tj_audio_bytes = None, tj_max_cue_ms = 8000\<rparr>"

lemma ja_code: "lit ''ja'' \<in> wire_codes"
  by (simp add: wire_codes_raw WIRE_ACCEPTED_LANGS_raw_def)

lemma ja_trim: "trim (lit ''ja'') = lit ''ja''"
  by (simp add: lit_eval trim_def trim_start_def trim_end_def is_ws_def)

lemma ja_wire: "wire_accepts (lit ''ja'')"
  by (rule wire_accepts_code) (rule ja_code)

lemma normalize_reported_wire: "c \<in> wire_codes \<Longrightarrow> normalize_reported_lang c = c"
  using known_code_fixed [of c] plain_wire [of c]
  by (simp add: normalize_reported_lang_def strip_plain wire_code_collapse subtag_head_plain split: option.split)

lemma ja_reported: "normalize_reported_lang (lit ''ja'') = lit ''ja''"
  by (rule normalize_reported_wire) (rule ja_code)

lemma hearing_fields:
  "whisper hearing_pool = [sample_whisper]" "whisper_health hearing_pool = [EndpointHealth_new]"
  by (simp_all add: hearing_pool_def pool_new_def Let_def sample_file_def)

lemma hearing_order: "ordered_whisper 7 hearing_pool = [(0, sample_whisper)]"
  by (simp add: ordered_whisper_def hearing_fields attempt_order_def EndpointHealth_new_def)

lemma hearing_open: "\<not> whisper_banned 7 hearing_pool"
  by (simp add: whisper_banned_def hearing_fields EndpointHealth_new_def banned_def)

lemma hearing_sent: "wire_lang (wire_pin (tj_choice hearing_job)) = Some (lit ''ja'')"
  by (simp add: hearing_job_def wire_pin_def wire_lang_def ja_wire ja_trim)

lemma hearing_reply:
  "post_file hearing_env f shown lang (hearing_pool, 0) = ((record_whisper_success 0 hearing_pool, 1), Inr (heard_json, lit ''w1''))"
  by (simp add: post_file_def whisper_request_all_def hearing_env_def hearing_order hearing_open sample_whisper_def
      whisper_api_key_def resolve_key_def Let_def lit_eval)

lemma hearing_guard: "guard_pin (Some (lit ''ja'')) heard_json = Inr ()"
  using ja_reported
  by (simp add: guard_pin_def check_pinned_lang_def heard_json_def Let_def)

lemma hearing_cues: "cues_from_verbose heard_json 0 = [Cue_new 0 8000 (lit ''hi'')]"
  by (simp add: cues_from_verbose_def heard_json_def lit_eval trim_def trim_start_def trim_end_def is_ws_def)

lemma hearing_result:
  "transcribe_episode hearing_env order hearing_job (hearing_pool, 0)
     = ((record_whisper_success 0 hearing_pool, 1),
        Inr \<lparr>tr_cues = [Cue_new 0 8000 (lit ''hi'')], tr_lang = lit ''ja'', whisper_models = [lit ''w1'']\<rparr>)"
proof -
  have "transcribe_file hearing_env f (Some (lit ''ja'')) (hearing_pool, 0)
      = ((record_whisper_success 0 hearing_pool, 1),
         Inr \<lparr>tr_cues = [Cue_new 0 8000 (lit ''hi'')], tr_lang = lit ''ja'', whisper_models = [lit ''w1'']\<rparr>)" for f
    by (simp add: transcribe_file_def hearing_reply hearing_guard effective_lang_def hearing_cues)
  then have "transcribe_raw hearing_env order hearing_job (hearing_pool, 0)
      = ((record_whisper_success 0 hearing_pool, 1),
         Inr \<lparr>tr_cues = [Cue_new 0 8000 (lit ''hi'')], tr_lang = lit ''ja'', whisper_models = [lit ''w1'']\<rparr>)"
    unfolding transcribe_raw_def hearing_sent Let_def
    by (simp add: hearing_env_def hearing_job_def CHUNK_BYTES_def)
  moreover have "split_long_cues 8000 (ensure_contiguous [Cue_new 0 8000 (lit ''hi'')]) = Some [Cue_new 0 8000 (lit ''hi'')]"
    by (simp add: ensure_contiguous_def Cue_new_def split_cue_def sat_sub_def)
  ultimately show ?thesis
    by (simp add: transcribe_episode_def hearing_env_def [THEN arg_cong, of tmp_ok] hearing_job_def [THEN arg_cong, of tj_max_cue_ms])
qed

theorem unaccepted_language_never_sent_witness:
  "transcribe_episode
     (hearing_env\<lparr>w_reply := (\<lambda>n rq. if clean_request rq then w_reply hearing_env n rq else WTransport)\<rparr>)
     (\<lambda>n. [0..<n]) hearing_job (hearing_pool, 0)
   = ((record_whisper_success 0 hearing_pool, 1),
      Inr \<lparr>tr_cues = [Cue_new 0 8000 (lit ''hi'')], tr_lang = lit ''ja'', whisper_models = [lit ''w1'']\<rparr>)"
  by (subst unaccepted_language_never_sent) (simp_all add: hearing_result)


end
