(* ===== verification/State.thy ===== *)
theory State
  imports Ledger "HOL-Library.Monad_Syntax"
begin

text \<open>
  \<open>src/state.rs\<close>: the JSON-lines files of the service (state, registry, actions, exclusions).
  A path maps to a file whose content is text or bytes that are not UTF-8; the JSON reader (which
  keeps the members of an object as the text has them), the JSON printer, the iteration order of a
  hash map and the outcome of each file operation are parameters.
\<close>

section \<open>Rows\<close>

type_synonym extra_fields = "ustr \<rightharpoonup> json"

record StateEntry =
  se_episode_id :: "int option"
  se_language :: "ustr option"
  se_status :: "ustr option"
  se_kind :: "ustr option"
  se_ts :: "ustr option"
  se_extra :: extra_fields

record RegistryRow =
  rr_stem :: "ustr option"
  rr_lang :: "ustr option"
  rr_episode_id :: "int option"
  rr_source :: "ustr option"
  rr_source_kind :: "ustr option"
  rr_source_path :: "ustr option"
  rr_target_path :: "ustr option"
  rr_ts :: "ustr option"
  rr_extra :: extra_fields

record ActionRecord =
  ac_ts :: "ustr option"
  ac_type :: "ustr option"
  ac_episode_id :: "int option"
  ac_language :: "ustr option"
  ac_kind :: "ustr option"
  ac_source :: "ustr option"
  ac_note :: "ustr option"

section \<open>Reading a row\<close>

text \<open>The value of an optional field: \<open>null\<close> is nothing, a value of another type fails the row.\<close>

fun opt_string :: "json \<Rightarrow> ustr option option" where
  "opt_string JNull = Some None"
| "opt_string (JStr s) = Some (Some s)"
| "opt_string _ = None"

fun opt_i64 :: "json \<Rightarrow> int option option" where
  "opt_i64 JNull = Some None"
| "opt_i64 (JInt i) = (if - (2 ^ 63) \<le> i \<and> i < 2 ^ 63 then Some (Some i) else None)"
| "opt_i64 _ = None"

text \<open>The field of a struct that goes by one of some names: absent is the default, given twice fails
  the row.\<close>

definition field_value :: "(json \<Rightarrow> 'a option option) \<Rightarrow> ustr list \<Rightarrow> (ustr \<times> json) list \<Rightarrow> 'a option option" where
  "field_value conv names members =
     (case filter (\<lambda>(k, _). k \<in> set names) members of
        [] \<Rightarrow> Some None | [(_, v)] \<Rightarrow> conv v | _ \<Rightarrow> None)"

text \<open>The members no field of the struct claims; a repeated name keeps its last value.\<close>

definition flattened :: "ustr list \<Rightarrow> (ustr \<times> json) list \<Rightarrow> extra_fields" where
  "flattened names members = map_of (rev (filter (\<lambda>(k, _). k \<notin> set names) members))"

definition state_fields :: "ustr list" where
  "state_fields = map lit [''sonarrEpisodeId'', ''language'', ''status'', ''kind'', ''ts'']"

definition registry_fields :: "ustr list" where
  "registry_fields = map lit
     [''stem'', ''lang'', ''episode_id'', ''source'', ''source_kind'', ''source_path'', ''target_path'', ''ts'']"

definition str_field :: "string \<Rightarrow> (ustr \<times> json) list \<Rightarrow> ustr option option" where
  "str_field k = field_value opt_string [lit k]"

fun decode_state_entry :: "json \<Rightarrow> StateEntry option" where
  "decode_state_entry (JObj ms) =
     do { i \<leftarrow> field_value opt_i64 [lit ''sonarrEpisodeId''] ms; l \<leftarrow> str_field ''language'' ms;
          s \<leftarrow> str_field ''status'' ms; k \<leftarrow> str_field ''kind'' ms; t \<leftarrow> str_field ''ts'' ms;
          Some \<lparr>se_episode_id = i, se_language = l, se_status = s, se_kind = k, se_ts = t,
                se_extra = flattened state_fields ms\<rparr> }"
| "decode_state_entry _ = None"

fun decode_registry_row :: "json \<Rightarrow> RegistryRow option" where
  "decode_registry_row (JObj ms) =
     do { stem \<leftarrow> str_field ''stem'' ms; l \<leftarrow> str_field ''lang'' ms; i \<leftarrow> field_value opt_i64 [lit ''episode_id''] ms;
          src \<leftarrow> str_field ''source'' ms; sk \<leftarrow> str_field ''source_kind'' ms; sp' \<leftarrow> str_field ''source_path'' ms;
          tp \<leftarrow> str_field ''target_path'' ms; t \<leftarrow> str_field ''ts'' ms;
          Some \<lparr>rr_stem = stem, rr_lang = l, rr_episode_id = i, rr_source = src, rr_source_kind = sk,
                rr_source_path = sp', rr_target_path = tp, rr_ts = t, rr_extra = flattened registry_fields ms\<rparr> }"
| "decode_registry_row _ = None"

text \<open>A struct without flattened members is also read from an array of its fields in order; a short
  array leaves the defaults, a long one fails.\<close>

definition positional :: "(json \<Rightarrow> 'a option option) \<Rightarrow> nat \<Rightarrow> json list \<Rightarrow> 'a option option" where
  "positional conv i vs = (if i < length vs then conv (vs ! i) else Some None)"

fun decode_action :: "json \<Rightarrow> ActionRecord option" where
  "decode_action (JObj ms) =
     do { t \<leftarrow> str_field ''ts'' ms; ty \<leftarrow> field_value opt_string [lit ''type'', lit ''action''] ms;
          i \<leftarrow> field_value opt_i64 [lit ''episode_id''] ms; l \<leftarrow> str_field ''language'' ms;
          k \<leftarrow> str_field ''kind'' ms; src \<leftarrow> str_field ''source'' ms; n \<leftarrow> str_field ''note'' ms;
          Some \<lparr>ac_ts = t, ac_type = ty, ac_episode_id = i, ac_language = l, ac_kind = k, ac_source = src, ac_note = n\<rparr> }"
| "decode_action (JArr vs) =
     (if 7 < length vs then None
      else do { t \<leftarrow> positional opt_string 0 vs; ty \<leftarrow> positional opt_string 1 vs; i \<leftarrow> positional opt_i64 2 vs;
          l \<leftarrow> positional opt_string 3 vs; k \<leftarrow> positional opt_string 4 vs; src \<leftarrow> positional opt_string 5 vs;
          n \<leftarrow> positional opt_string 6 vs;
          Some \<lparr>ac_ts = t, ac_type = ty, ac_episode_id = i, ac_language = l, ac_kind = k, ac_source = src, ac_note = n\<rparr> })"
| "decode_action _ = None"

fun decode_exclusion :: "json \<Rightarrow> int option option" where
  "decode_exclusion (JObj ms) = field_value opt_i64 [lit ''episode_id''] ms"
| "decode_exclusion (JArr vs) = (if 1 < length vs then None else positional opt_i64 0 vs)"
| "decode_exclusion _ = None"

section \<open>Printing a row\<close>

fun nullable_str :: "ustr option \<Rightarrow> json" where
  "nullable_str None = JNull"
| "nullable_str (Some s) = JStr s"

fun nullable_int :: "int option \<Rightarrow> json" where
  "nullable_int None = JNull"
| "nullable_int (Some i) = JInt i"

text \<open>The flattened members follow the fields, in the order the hash map iterates in.\<close>

definition extra_members :: "(extra_fields \<Rightarrow> ustr list) \<Rightarrow> extra_fields \<Rightarrow> (ustr \<times> json) list" where
  "extra_members keys_of m = map (\<lambda>k. (k, the (m k))) (keys_of m)"

definition registry_row_json :: "(extra_fields \<Rightarrow> ustr list) \<Rightarrow> RegistryRow \<Rightarrow> json" where
  "registry_row_json keys_of r = JObj
     ([(lit ''stem'', nullable_str (rr_stem r)), (lit ''lang'', nullable_str (rr_lang r)),
       (lit ''episode_id'', nullable_int (rr_episode_id r)), (lit ''source'', nullable_str (rr_source r)),
       (lit ''source_kind'', nullable_str (rr_source_kind r)), (lit ''source_path'', nullable_str (rr_source_path r)),
       (lit ''target_path'', nullable_str (rr_target_path r)), (lit ''ts'', nullable_str (rr_ts r))]
      @ extra_members keys_of (rr_extra r))"

definition state_entry_json :: "(extra_fields \<Rightarrow> ustr list) \<Rightarrow> StateEntry \<Rightarrow> json" where
  "state_entry_json keys_of e = JObj
     ([(lit ''sonarrEpisodeId'', nullable_int (se_episode_id e)), (lit ''language'', nullable_str (se_language e)),
       (lit ''status'', nullable_str (se_status e)), (lit ''kind'', nullable_str (se_kind e)), (lit ''ts'', nullable_str (se_ts e))]
      @ extra_members keys_of (se_extra e))"

definition action_json :: "ActionRecord \<Rightarrow> json" where
  "action_json a = JObj
     [(lit ''ts'', nullable_str (ac_ts a)), (lit ''type'', nullable_str (ac_type a)),
      (lit ''episode_id'', nullable_int (ac_episode_id a)), (lit ''language'', nullable_str (ac_language a)),
      (lit ''kind'', nullable_str (ac_kind a)), (lit ''source'', nullable_str (ac_source a)), (lit ''note'', nullable_str (ac_note a))]"

section \<open>Files\<close>

datatype file_body = Utf8 ustr | NotUtf8

type_synonym jsonl_fs = "ustr \<Rightarrow> file_body option"

text \<open>The reader and the printer of the JSON library, and the order in which a hash map is printed.\<close>

record row_lib =
  read_row :: "ustr \<Rightarrow> json option"
  print_row :: "json \<Rightarrow> ustr"
  iteration :: "extra_fields \<Rightarrow> ustr list"

definition load_lines :: "(ustr \<Rightarrow> json option) \<Rightarrow> (json \<Rightarrow> 'a option) \<Rightarrow> ustr list \<Rightarrow> 'a list" where
  "load_lines rd decode ls =
     List.map_filter (\<lambda>l. if trim l = [] then None else Option.bind (rd (trim l)) decode) ls"

definition load_jsonl :: "(ustr \<Rightarrow> json option) \<Rightarrow> (json \<Rightarrow> 'a option) \<Rightarrow> file_body option \<Rightarrow> 'a list" where
  "load_jsonl rd decode f = (case f of Some (Utf8 t) \<Rightarrow> load_lines rd decode (str_lines t) | _ \<Rightarrow> [])"

text \<open>Appending to a file that is not text keeps it so; the first of a torn line's characters
  stay.\<close>

fun append_body :: "file_body option \<Rightarrow> ustr \<Rightarrow> file_body" where
  "append_body None s = Utf8 s"
| "append_body (Some (Utf8 t)) s = Utf8 (t @ s)"
| "append_body (Some NotUtf8) s = NotUtf8"

datatype append_out = AOk | ALockFails | AOpenFails | ATorn nat | ASyncFails

definition append_jsonl :: "(json \<Rightarrow> ustr) \<Rightarrow> append_out \<Rightarrow> ustr \<Rightarrow> json \<Rightarrow> jsonl_fs \<Rightarrow> jsonl_fs \<times> bool" where
  "append_jsonl pr out p v fs =
     (let line = pr v @ [nl] in
      case out of
        AOk \<Rightarrow> (fs(p \<mapsto> append_body (fs p) line), True)
      | ALockFails \<Rightarrow> (fs, False)
      | AOpenFails \<Rightarrow> (fs, False)
      | ATorn n \<Rightarrow> (fs(p \<mapsto> append_body (fs p) (take n line)), False)
      | ASyncFails \<Rightarrow> (fs(p \<mapsto> append_body (fs p) line), False))"

text \<open>The rewrite replaces the file in one step or leaves it as it was.\<close>

definition rewrite_jsonl :: "(json \<Rightarrow> ustr) \<Rightarrow> bool \<Rightarrow> ustr \<Rightarrow> json list \<Rightarrow> jsonl_fs \<Rightarrow> jsonl_fs \<times> bool" where
  "rewrite_jsonl pr works p vs fs =
     (if works then (fs(p \<mapsto> Utf8 (concat (map (\<lambda>v. pr v @ [nl]) vs))), True) else (fs, False))"

text \<open>The drain reads and then empties the file under the lock; without the lock it only reads.\<close>

record drain_io =
  lock_taken :: bool
  emptied :: bool

definition consume_actions :: "(ustr \<Rightarrow> json option) \<Rightarrow> drain_io \<Rightarrow> ustr \<Rightarrow> jsonl_fs \<Rightarrow> jsonl_fs \<times> ActionRecord list" where
  "consume_actions rd io p fs =
     (let rows = load_jsonl rd decode_action (fs p) in
      if \<not> lock_taken io then (fs, rows)
      else if fs p \<noteq> None \<and> emptied io then (fs(p \<mapsto> Utf8 []), rows)
      else (fs, rows))"

section \<open>The registry\<close>

definition delete_matches :: "ustr option \<Rightarrow> int option \<Rightarrow> ustr \<Rightarrow> RegistryRow \<Rightarrow> bool" where
  "delete_matches stem eid lang r \<longleftrightarrow>
     normalize_lang (case rr_lang r of Some l \<Rightarrow> l | None \<Rightarrow> []) = normalize_lang lang
     \<and> (stem \<noteq> None \<and> rr_stem r = stem \<or> eid \<noteq> None \<and> rr_episode_id r = eid)"

text \<open>The read takes no lock; the rewrite does. The two halves are separate steps.\<close>

definition delete_plan :: "(ustr \<Rightarrow> json option) \<Rightarrow> ustr option \<Rightarrow> int option \<Rightarrow> ustr \<Rightarrow> file_body option \<Rightarrow> RegistryRow list option" where
  "delete_plan rd stem eid lang f =
     (let rows = load_jsonl rd decode_registry_row f;
          kept = filter (\<lambda>r. \<not> delete_matches stem eid lang r) rows
      in if rows = [] \<or> length kept = length rows then None else Some kept)"

definition registry_delete ::
    "row_lib \<Rightarrow> bool \<Rightarrow> ustr \<Rightarrow> ustr option \<Rightarrow> int option \<Rightarrow> ustr \<Rightarrow> jsonl_fs \<Rightarrow> jsonl_fs \<times> bool" where
  "registry_delete lib works p stem eid lang fs =
     (case delete_plan (read_row lib) stem eid lang (fs p) of
        None \<Rightarrow> (fs, False)
      | Some kept \<Rightarrow> rewrite_jsonl (print_row lib) works p (map (registry_row_json (iteration lib)) kept) fs)"

definition parse_exclusions :: "(ustr \<Rightarrow> json option) \<Rightarrow> file_body option \<Rightarrow> int set" where
  "parse_exclusions rd f = set (List.map_filter id (load_jsonl rd decode_exclusion f))"

section \<open>Timestamps\<close>

text \<open>\<open>civil_from_days\<close>. The day count of a 64-bit number of seconds stays far below the bounds of the
  \<open>i64\<close> and \<open>u64\<close> it is computed in; only the year is cast to a narrower type.\<close>

definition civil_from_days :: "nat \<Rightarrow> nat \<times> nat \<times> nat" where
  "civil_from_days days =
     (let z = days + 719468; era = z div 146097; doe = z - era * 146097;
          yoe = (doe - doe div 1460 + doe div 36524 - doe div 146096) div 365;
          doy = doe - (365 * yoe + yoe div 4 - yoe div 100);
          mp = (5 * doy + 2) div 153;
          d = doy - (153 * mp + 2) div 5 + 1;
          m = (if mp < 10 then mp + 3 else mp - 9)
      in (yoe + era * 400 + (if m \<le> 2 then 1 else 0), m, d))"

definition unix_to_ymd_hms :: "u64 \<Rightarrow> int \<times> nat \<times> nat \<times> nat \<times> nat \<times> nat" where
  "unix_to_ymd_hms secs =
     (let days = unat secs div 86400; tod = unat secs mod 86400 in
      case civil_from_days days of
        (y, m, d) \<Rightarrow> (sint (of_nat y :: 32 word), m, d, tod div 3600, (tod mod 3600) div 60, tod mod 60))"

text \<open>\<open>{y:04}\<close> of a signed year counts the sign among the four places.\<close>

definition year4 :: "int \<Rightarrow> ustr" where
  "year4 y = (if 0 \<le> y then dec_pad 4 (nat y) else 45 # dec_pad 3 (nat (- y)))"

definition utc_iso :: "u64 \<Rightarrow> ustr" where
  "utc_iso secs =
     (case unix_to_ymd_hms secs of
        (y, mo, d, h, mi, s) \<Rightarrow>
          year4 y @ lit ''-'' @ dec_pad 2 mo @ lit ''-'' @ dec_pad 2 d @ lit ''T''
            @ dec_pad 2 h @ lit '':'' @ dec_pad 2 mi @ lit '':'' @ dec_pad 2 s @ lit ''Z'')"

section \<open>The calendar\<close>

definition leap_year :: "nat \<Rightarrow> bool" where
  "leap_year y \<longleftrightarrow> y mod 4 = 0 \<and> (y mod 100 \<noteq> 0 \<or> y mod 400 = 0)"

definition month_days :: "nat \<Rightarrow> nat \<Rightarrow> nat" where
  "month_days y m = (if m = 2 then (if leap_year y then 29 else 28) else if m \<in> {4, 6, 9, 11} then 30 else 31)"

fun next_day :: "nat \<times> nat \<times> nat \<Rightarrow> nat \<times> nat \<times> nat" where
  "next_day (y, m, d) =
     (if d < month_days y m then (y, m, d + 1) else if m < 12 then (y, m + 1, 1) else (y + 1, 1, 1))"

text \<open>A day by its 400-year era, its century, four-year cycle and year within, and its day of the year
  that starts in March.\<close>

definition long_year :: "nat \<Rightarrow> nat \<Rightarrow> nat \<Rightarrow> bool" where
  "long_year c q r \<longleftrightarrow> r = 3 \<and> (q < 24 \<or> c = 3)"

definition day_parts :: "nat \<Rightarrow> nat \<Rightarrow> nat \<Rightarrow> nat \<Rightarrow> bool" where
  "day_parts c q r t \<longleftrightarrow> c < 4 \<and> q < 25 \<and> r < 4 \<and> t \<le> (if long_year c q r then 365 else 364)"

definition march_date :: "nat \<Rightarrow> nat \<Rightarrow> nat \<times> nat \<times> nat" where
  "march_date y t =
     (let mp = (5 * t + 2) div 153; m = (if mp < 10 then mp + 3 else mp - 9)
      in (y + (if m \<le> 2 then 1 else 0), m, t - (153 * mp + 2) div 5 + 1))"

lemma year_of_era:
  assumes "day_parts c q r t"
  defines "doe \<equiv> 36524 * c + 1461 * q + 365 * r + t"
  shows "(doe - doe div 1460 + doe div 36524 - doe div 146096) div 365 = 100 * c + 4 * q + r"
proof (cases "t \<le> 364")
  case True
  have b: "1461 * q + 365 * r + t < 36524" "24 * c + q + 365 * r + t < 2920" "c \<le> 3" "doe < 146096"
    using assms(1) True unfolding day_parts_def doe_def by linarith+
  have d2: "doe div 36524 = c" unfolding doe_def using b(1) by (intro div_nat_eqI) simp_all
  have d3: "doe div 146096 = 0" using b(4) by simp
  have "doe = 1460 * (25 * c + q) + (24 * c + q + 365 * r + t)" unfolding doe_def by simp
  then have d1: "doe div 1460 = 25 * c + q + (if 24 * c + q + 365 * r + t < 1460 then 0 else 1)"
    using b(2) by (intro div_nat_eqI) (auto split: if_splits)
  have "365 * (100 * c + 4 * q + r) \<le> doe - doe div 1460 + doe div 36524 - doe div 146096"
    "doe - doe div 1460 + doe div 36524 - doe div 146096 < 365 * (100 * c + 4 * q + r) + 365"
    unfolding d1 d2 d3 using True b(3) assms(1) by (auto simp: doe_def day_parts_def)
  then show ?thesis by (intro div_nat_eqI) simp_all
next
  case False
  then have t: "t = 365" "r = 3" "q < 24 \<or> c = 3" "c < 4" "q < 25"
    using assms(1) by (auto simp: day_parts_def long_year_def split: if_splits)
  have d: "doe = 36524 * c + 1461 * q + 1460" unfolding doe_def t by simp
  have d1: "doe div 1460 = 25 * c + q + 1" unfolding d using t(4,5) by (intro div_nat_eqI) simp_all
  show ?thesis
  proof (cases "q < 24")
    case True
    have "doe div 36524 = c" unfolding d using True by (intro div_nat_eqI) simp_all
    moreover have "doe div 146096 = 0" unfolding d using True t(4) by simp
    ultimately show ?thesis unfolding d1 unfolding d t by (intro div_nat_eqI) simp_all
  next
    case False
    with t have "q = 24" "c = 3" by simp_all
    then show ?thesis by (simp add: d t)
  qed
qed

lemma day_of_year:
  assumes "day_parts c q r t"
  shows "36524 * c + 1461 * q + 365 * r + t
    - (365 * (100 * c + 4 * q + r) + (100 * c + 4 * q + r) div 4 - (100 * c + 4 * q + r) div 100) = t"
proof -
  have "(100 * c + 4 * q + r) div 4 = 25 * c + q" "(100 * c + 4 * q + r) div 100 = c"
    using assms by (auto simp: day_parts_def intro!: div_nat_eqI)
  then show ?thesis by simp
qed

lemma civil_parts:
  assumes "day_parts c q r t" "days + 719468 = 146097 * era + (36524 * c + 1461 * q + 365 * r + t)"
  shows "civil_from_days days = march_date (400 * era + 100 * c + 4 * q + r) t"
proof -
  let ?doe = "36524 * c + 1461 * q + 365 * r + t"
  have "?doe < 146097" using assms(1) by (auto simp: day_parts_def long_year_def split: if_splits)
  then have era: "(days + 719468) div 146097 = era" unfolding assms(2) by (intro div_nat_eqI) simp_all
  have doe: "days + 719468 - era * 146097 = ?doe" unfolding assms(2) by simp
  show ?thesis
    unfolding civil_from_days_def march_date_def Let_def era doe year_of_era [OF assms(1)] day_of_year [OF assms(1)]
    by simp
qed

definition month_start :: "nat \<Rightarrow> nat" where
  "month_start k = (153 * k + 2) div 5"

lemma month_start_eval:
  "month_start 0 = 0" "month_start 1 = 31" "month_start 2 = 61" "month_start 3 = 92" "month_start 4 = 122"
  "month_start 5 = 153" "month_start 6 = 184" "month_start 7 = 214" "month_start 8 = 245" "month_start 9 = 275"
  "month_start 10 = 306" "month_start 11 = 337" "month_start 12 = 367"
  by (simp_all add: month_start_def)

lemma month_start_le: "month_start k \<le> t \<longleftrightarrow> 153 * k \<le> 5 * t + 2"
proof -
  have "month_start k \<le> t \<longleftrightarrow> (153 * k + 2) div 5 < t + 1" by (auto simp: month_start_def)
  also have "\<dots> \<longleftrightarrow> 153 * k + 2 < (t + 1) * 5" by (rule div_less_iff_less_mult) simp
  also have "\<dots> \<longleftrightarrow> 153 * k \<le> 5 * t + 2" by presburger
  finally show ?thesis .
qed

lemma month_at:
  assumes "month_start k \<le> t" "\<not> month_start (k + 1) \<le> t"
  shows "(5 * t + 2) div 153 = k"
  using assms by (intro div_nat_eqI) (simp_all add: month_start_le)

lemma month_cases:
  assumes "t \<le> 365"
  obtains k where "k < 12" "month_start k \<le> t" "\<not> month_start (k + 1) \<le> t"
proof (rule that)
  show "(5 * t + 2) div 153 < 12" using assms by (simp add: div_less_iff_less_mult)
  show "month_start ((5 * t + 2) div 153) \<le> t" "\<not> month_start ((5 * t + 2) div 153 + 1) \<le> t"
    unfolding month_start_le using dividend_less_div_times [of 153 "5 * t + 2"] by simp_all
qed

lemma march_date_at:
  assumes "k < 12" "month_start k \<le> t" "\<not> month_start (k + 1) \<le> t"
  shows "march_date y t =
    (if k < 10 then (y, k + 3, t - month_start k + 1) else (y + 1, k - 9, t - month_start k + 1))"
  unfolding march_date_def Let_def month_at [OF assms(2,3)] month_start_def using assms(1) by auto

text \<open>The months from March have the lengths that separate their starts, February what the year leaves.\<close>

lemma march_month_days:
  assumes "k < 12"
  shows "month_days (if k < 10 then y else y + 1) (if k < 10 then k + 3 else k - 9) =
    (if k = 11 then (if leap_year (y + 1) then 29 else 28) else month_start (k + 1) - month_start k)"
proof -
  have "k \<in> {0, 1, 2, 3, 4, 5, 6, 7, 8, 9, 10, 11}" using assms by (auto simp: eval_nat_numeral less_Suc_eq)
  then show ?thesis by (elim insertE) (simp_all add: month_days_def month_start_def)
qed

lemma march_next:
  assumes "t < (if leap_year (y + 1) then 365 else 364)"
  shows "march_date y (t + 1) = next_day (march_date y t)"
proof -
  have "t \<le> 365" using assms by (simp split: if_splits)
  then obtain k where k: "k < 12" "month_start k \<le> t" "\<not> month_start (k + 1) \<le> t" by (rule month_cases)
  let ?y = "if k < 10 then y else y + 1" and ?m = "if k < 10 then k + 3 else k - 9"
  have now: "march_date y t = (?y, ?m, t - month_start k + 1)" using march_date_at [OF k] by simp
  show ?thesis
  proof (cases "month_start (k + 1) \<le> t + 1")
    case False
    then have "march_date y (t + 1) = (?y, ?m, t + 1 - month_start k + 1)"
      using k by (subst march_date_at [of k]) auto
    moreover have "t - month_start k + 1 < month_days ?y ?m"
    proof (cases "k = 11")
      case True
      then show ?thesis
        unfolding march_month_days [OF k(1)] using assms by (simp add: month_start_eval split: if_splits)
    next
      case other: False
      then show ?thesis unfolding march_month_days [OF k(1)] using False k(2) by simp
    qed
    ultimately show ?thesis using k(2) by (simp add: now)
  next
    case True
    then have t: "t + 1 = month_start (k + 1)" using k by simp
    have k11: "k < 11"
    proof (rule ccontr)
      assume "\<not> k < 11"
      then have "k = 11" using k(1) by simp
      then have "t + 1 = month_start 12" using t by simp
      then show False using assms by (simp add: month_start_eval split: if_splits)
    qed
    have "\<not> month_start (k + 1 + 1) \<le> t + 1" unfolding t month_start_le by (simp add: month_start_def)
    then have "march_date y (t + 1) = (if k + 1 < 10 then (y, k + 1 + 3, t + 1 - month_start (k + 1) + 1)
        else (y + 1, k + 1 - 9, t + 1 - month_start (k + 1) + 1))"
      using k11 t by (intro march_date_at) simp_all
    moreover have "\<not> t - month_start k + 1 < month_days ?y ?m"
      unfolding march_month_days [OF k(1)] using k11 t by simp
    ultimately show ?thesis using k11 eq_imp_le [OF t] by (auto simp: now)
  qed
qed

lemma march_last:
  "march_date (y + 1) 0 = next_day (march_date y (if leap_year (y + 1) then 365 else 364))"
proof -
  have "march_date (y + 1) 0 = (y + 1, 3, 1)" by (simp add: march_date_def)
  moreover have "march_date y t = (y + 1, 2, t - 336)" if "337 \<le> t" "t < 367" for t
  proof -
    have "march_date y t = (y + 1, 11 - 9, t - month_start 11 + 1)"
      using march_date_at [of 11 t y] that by (simp add: month_start_eval)
    with that show ?thesis by (simp add: month_start_eval)
  qed
  ultimately show ?thesis by (simp add: month_days_def)
qed

lemma long_year_leap:
  assumes "c < 4" "q < 25" "r < 4"
  shows "leap_year (400 * era + 100 * c + 4 * q + r + 1) \<longleftrightarrow> long_year c q r"
proof -
  let ?y = "400 * era + 100 * c + 4 * q + r + 1"
  have "?y = r + 1 + 4 * (100 * era + 25 * c + q)" by simp
  then have "?y mod 4 = (r + 1) mod 4" by (simp only: mod_mult_self2)
  moreover have "?y = 4 * q + r + 1 + 100 * (4 * era + c)" by simp
  then have "?y mod 100 = (4 * q + r + 1) mod 100" by (simp only: mod_mult_self2)
  moreover have "?y = 100 * c + 4 * q + r + 1 + 400 * era" by simp
  then have "?y mod 400 = (100 * c + 4 * q + r + 1) mod 400" by (simp only: mod_mult_self2)
  moreover have "k mod n = 0 \<longleftrightarrow> k = n" if "0 < k" "k \<le> n" for k n :: nat
    using that by (cases "k = n") simp_all
  then have "(r + 1) mod 4 = 0 \<longleftrightarrow> r + 1 = 4" "(4 * q + r + 1) mod 100 = 0 \<longleftrightarrow> 4 * q + r + 1 = 100"
    "(100 * c + 4 * q + r + 1) mod 400 = 0 \<longleftrightarrow> 100 * c + 4 * q + r + 1 = 400"
    using assms by simp_all
  ultimately show ?thesis using assms unfolding leap_year_def long_year_def by auto
qed

lemma day_parts_next:
  assumes "day_parts c q r t" "days + 719468 = 146097 * era + (36524 * c + 1461 * q + 365 * r + t)"
  defines "date \<equiv> march_date (400 * era + 100 * c + 4 * q + r) t"
  obtains era' c' q' r' t' where "day_parts c' q' r' t'"
    "Suc days + 719468 = 146097 * era' + (36524 * c' + 1461 * q' + 365 * r' + t')"
    "march_date (400 * era' + 100 * c' + 4 * q' + r') t' = next_day date"
proof -
  note goal = that
  have b: "c < 4" "q < 25" "r < 4" using assms(1) by (simp_all add: day_parts_def)
  define top where "top = (if long_year c q r then 365 else 364 :: nat)"
  have leap: "(if leap_year (400 * era + 100 * c + 4 * q + r + 1) then 365 else 364) = top"
    by (simp only: long_year_leap [OF b] top_def)
  show thesis
  proof (cases "t < top")
    case True
    show ?thesis
    proof (rule goal)
      show "day_parts c q r (t + 1)" using True b by (simp add: day_parts_def top_def)
      show "march_date (400 * era + 100 * c + 4 * q + r) (t + 1) = next_day date"
        unfolding date_def using True by (intro march_next) (simp only: leap)
    qed (use assms(2) in simp)
  next
    case False
    then have t: "t = top" using assms(1) by (auto simp: day_parts_def top_def)
    have last: "march_date (400 * era + 100 * c + 4 * q + r + 1) 0 = next_day date"
      unfolding date_def t march_last leap ..
    consider "r < 3" | "r = 3" "q < 24" | "r = 3" "q = 24" "c < 3" | "r = 3" "q = 24" "c = 3" using b by linarith
    then show ?thesis
    proof cases
      case 1
      with b t assms(2) last show ?thesis
        by (intro goal [of c q "r + 1" 0 era]) (auto simp: day_parts_def top_def long_year_def add.assoc)
    next
      case 2
      with b t assms(2) last show ?thesis
        by (intro goal [of c "q + 1" 0 0 era]) (auto simp: day_parts_def top_def long_year_def algebra_simps)
    next
      case 3
      with b t assms(2) last show ?thesis
        by (intro goal [of "c + 1" 0 0 0 era]) (auto simp: day_parts_def top_def long_year_def algebra_simps)
    next
      case 4
      with b t assms(2) last show ?thesis
        by (intro goal [of 0 0 0 0 "era + 1"]) (auto simp: day_parts_def top_def long_year_def algebra_simps)
    qed
  qed
qed

lemma civil_counts:
  "\<exists>era c q r t. day_parts c q r t \<and> days + 719468 = 146097 * era + (36524 * c + 1461 * q + 365 * r + t)
     \<and> march_date (400 * era + 100 * c + 4 * q + r) t = (next_day ^^ days) (1970, 1, 1)"
proof (induction days)
  case 0
  have "day_parts 3 17 1 306" by (simp add: day_parts_def long_year_def)
  moreover have "march_date (400 * 4 + 100 * 3 + 4 * 17 + 1) 306 = (1970, 1, 1)" by (simp add: march_date_def)
  ultimately show ?case by (intro exI [of _ 4] exI [of _ 3] exI [of _ 17] exI [of _ 1] exI [of _ 306]) simp
next
  case (Suc days)
  then obtain era c q r t where parts: "day_parts c q r t"
      "days + 719468 = 146097 * era + (36524 * c + 1461 * q + 365 * r + t)"
      and now: "march_date (400 * era + 100 * c + 4 * q + r) t = (next_day ^^ days) (1970, 1, 1)" by blast
  show ?case by (rule day_parts_next [OF parts]) (use now in \<open>simp, blast\<close>)
qed

lemma civil_from_days_counts: "civil_from_days days = (next_day ^^ days) (1970, 1, 1)"
  using civil_counts [of days] civil_parts by metis

fun valid_date :: "nat \<times> nat \<times> nat \<Rightarrow> bool" where
  "valid_date (y, m, d) \<longleftrightarrow> 1 \<le> m \<and> m \<le> 12 \<and> 1 \<le> d \<and> d \<le> month_days y m"

lemma month_days_pos [simp]: "0 < month_days y m" by (simp add: month_days_def)

lemma next_day_valid: "valid_date x \<Longrightarrow> valid_date (next_day x)"
  by (cases x) (auto simp: Suc_le_eq)

lemma calendar_valid: "valid_date ((next_day ^^ n) (1970, 1, 1))"
  by (induction n) (simp_all add: month_days_def next_day_valid del: next_day.simps)

lemma calendar_year:
  assumes "(next_day ^^ n) (1970, 1, 1) = (y, m, d)"
  shows "365 * y \<le> n + 719468 + 146000"
proof -
  obtain era c q r t where p: "day_parts c q r t" "n + 719468 = 146097 * era + (36524 * c + 1461 * q + 365 * r + t)"
      "march_date (400 * era + 100 * c + 4 * q + r) t = (y, m, d)"
    using civil_counts [of n] assms by auto
  have "y \<le> 400 * era + 100 * c + 4 * q + r + 1"
    using p(3) by (auto simp: march_date_def Let_def split: if_splits)
  with p(1,2) show ?thesis by (simp add: day_parts_def)
qed

section \<open>Reading back what was printed\<close>

text \<open>The laws of the JSON library and of hash maps that a printed row needs: the text is one trimmed
  line that reads back with its members in order, and an iteration lists each key once.\<close>

definition prints_back :: "row_lib \<Rightarrow> json \<Rightarrow> bool" where
  "prints_back lib v \<longleftrightarrow> read_row lib (print_row lib v) = Some v \<and> print_row lib v \<noteq> []
     \<and> trimmed (print_row lib v) \<and> nl \<notin> set (print_row lib v)"

definition iterates :: "(extra_fields \<Rightarrow> ustr list) \<Rightarrow> extra_fields \<Rightarrow> bool" where
  "iterates keys_of m \<longleftrightarrow> distinct (keys_of m) \<and> set (keys_of m) = dom m"

text \<open>What every row that was read satisfies.\<close>

definition i64_range :: "int option \<Rightarrow> bool" where
  "i64_range i \<longleftrightarrow> (case i of Some n \<Rightarrow> - (2 ^ 63) \<le> n \<and> n < 2 ^ 63 | None \<Rightarrow> True)"

definition row_ok :: "RegistryRow \<Rightarrow> bool" where
  "row_ok r \<longleftrightarrow> i64_range (rr_episode_id r) \<and> dom (rr_extra r) \<inter> set registry_fields = {}"

lemma opt_string_nullable [simp]: "opt_string (nullable_str s) = Some s"
  by (cases s) simp_all

lemma opt_i64_nullable [simp]: "i64_range i \<Longrightarrow> opt_i64 (nullable_int i) = Some i"
  by (cases i) (simp_all add: i64_range_def)

lemma opt_i64_range: "opt_i64 v = Some i \<Longrightarrow> i64_range i"
  by (cases v rule: opt_i64.cases) (auto simp: i64_range_def split: if_splits)

lemma field_value_range: "field_value opt_i64 ks ms = Some i \<Longrightarrow> i64_range i"
  by (auto simp: field_value_def i64_range_def [of None] opt_i64_range split: list.splits)

lemma flattened_dom: "k \<in> set names \<Longrightarrow> flattened names ms k = None"
  by (auto simp: flattened_def map_of_eq_None_iff)

lemma decode_registry_row_ok: "decode_registry_row v = Some r \<Longrightarrow> row_ok r"
  by (cases v) (auto simp: row_ok_def field_value_range flattened_dom split: bind_splits)

lemma field_value_skip: "k \<notin> set names \<Longrightarrow> field_value conv names ((k, v) # ms) = field_value conv names ms"
  by (simp add: field_value_def)

lemma field_value_hit:
  assumes "k \<in> set names" "\<forall>n \<in> set names. n \<notin> fst ` set ms"
  shows "field_value conv names ((k, v) # ms) = conv v"
proof -
  have "filter (\<lambda>(x, _). x \<in> set names) ms = []" using assms(2) by (force simp: filter_empty_conv)
  with assms(1) show ?thesis by (simp add: field_value_def)
qed

lemma field_value_absent: "\<forall>n \<in> set names. n \<notin> fst ` set ms \<Longrightarrow> field_value conv names ms = Some None"
proof -
  assume "\<forall>n \<in> set names. n \<notin> fst ` set ms"
  then have "filter (\<lambda>(x, _). x \<in> set names) ms = []" by (force simp: filter_empty_conv)
  then show ?thesis by (simp add: field_value_def)
qed

lemmas field_value_walk = field_value_skip field_value_hit

lemma extra_members_keys: "iterates keys_of m \<Longrightarrow> fst ` set (extra_members keys_of m) = dom m"
  by (force simp: extra_members_def iterates_def)

lemma flattened_extra:
  assumes "iterates keys_of m" "dom m \<inter> set names = {}" "\<forall>(k, _) \<in> set fs. k \<in> set names"
  shows "flattened names (fs @ extra_members keys_of m) = m"
proof -
  have "filter (\<lambda>(k, _). k \<notin> set names) fs = []" using assms(3) by (auto simp: filter_empty_conv)
  moreover have "filter (\<lambda>(k, _). k \<notin> set names) (extra_members keys_of m) = extra_members keys_of m"
    using extra_members_keys [OF assms(1)] assms(2) by (force intro!: filter_True)
  moreover have "map_of (rev (extra_members keys_of m)) k = m k" for k
  proof -
    have d: "distinct (map fst (rev (extra_members keys_of m)))"
      using assms(1) by (simp add: extra_members_def iterates_def comp_def rev_map [symmetric])
    show ?thesis
    proof (cases "m k")
      case None
      then have "k \<notin> fst ` set (extra_members keys_of m)" unfolding extra_members_keys [OF assms(1)] by auto
      with None show ?thesis by (auto simp: map_of_eq_None_iff)
    next
      case (Some v)
      then have "k \<in> set (keys_of m)" using assms(1) by (auto simp: iterates_def)
      then have "(k, v) \<in> set (rev (extra_members keys_of m))" using Some by (force simp: extra_members_def)
      with d Some show ?thesis by (simp add: map_of_eq_Some_iff)
    qed
  qed
  ultimately show ?thesis by (simp add: flattened_def fun_eq_iff)
qed

lemma registry_row_again:
  assumes "row_ok r" "iterates keys_of (rr_extra r)"
  shows "decode_registry_row (registry_row_json keys_of r) = Some r"
proof -
  let ?ex = "extra_members keys_of (rr_extra r)"
  have fresh: "lit k \<notin> fst ` set ?ex"
    if "k \<in> {''stem'', ''lang'', ''episode_id'', ''source'', ''source_kind'', ''source_path'', ''target_path'', ''ts''}" for k
    using that assms by (auto simp: extra_members_keys [OF assms(2)] row_ok_def registry_fields_def)
  have "flattened registry_fields
     ([(lit ''stem'', nullable_str (rr_stem r)), (lit ''lang'', nullable_str (rr_lang r)),
       (lit ''episode_id'', nullable_int (rr_episode_id r)), (lit ''source'', nullable_str (rr_source r)),
       (lit ''source_kind'', nullable_str (rr_source_kind r)), (lit ''source_path'', nullable_str (rr_source_path r)),
       (lit ''target_path'', nullable_str (rr_target_path r)), (lit ''ts'', nullable_str (rr_ts r))] @ ?ex) = rr_extra r"
    using assms by (intro flattened_extra) (auto simp: row_ok_def registry_fields_def)
  then show ?thesis
    using assms(1) by (simp add: registry_row_json_def str_field_def field_value_walk fresh row_ok_def)
qed

text \<open>A line of the file that a printed row gives back.\<close>

lemma load_lines_simps [simp]:
  "load_lines rd decode [] = []"
  "load_lines rd decode (ls @ ms) = load_lines rd decode ls @ load_lines rd decode ms"
  by (simp_all add: load_lines_def map_filter_def)

lemma load_lines_printed:
  assumes "prints_back lib v" "decode v = Some r"
  shows "load_lines (read_row lib) decode [print_row lib v] = [r]"
  using assms by (simp add: load_lines_def map_filter_def prints_back_def)

lemma trimmed_last: "trimmed s \<Longrightarrow> s \<noteq> [] \<Longrightarrow> \<not> is_ws (last s)"
  by (auto simp: trimmed_def)

lemma printed_line:
  assumes "prints_back lib v" "s = [] \<or> last s = nl"
  shows "str_lines (s @ print_row lib v @ [nl]) = str_lines s @ [print_row lib v]"
proof (rule str_lines_append [OF assms(2)])
  show "print_row lib v = [] \<or> last (print_row lib v) \<noteq> cr"
    using trimmed_last [of "print_row lib v"] assms(1) by (auto simp: prints_back_def is_ws_def)
qed (use assms(1) in \<open>simp add: prints_back_def\<close>)

lemma load_printed_rows:
  assumes "\<forall>v \<in> set vs. prints_back lib v \<and> decode v \<noteq> None"
  shows "load_jsonl (read_row lib) decode (Some (Utf8 (concat (map (\<lambda>v. print_row lib v @ [nl]) vs))))
    = map (\<lambda>v. the (decode v)) vs"
  using assms
proof (induction vs rule: rev_induct)
  case (snoc v vs)
  let ?t = "concat (map (\<lambda>v. print_row lib v @ [nl]) vs)"
  have "?t = [] \<or> last ?t = nl" by (cases vs rule: rev_cases) simp_all
  then have "str_lines (?t @ print_row lib v @ [nl]) = str_lines ?t @ [print_row lib v]"
    using snoc.prems by (intro printed_line) simp_all
  with snoc show ?case by (auto simp: load_jsonl_def load_lines_printed)
qed (simp add: load_jsonl_def)

text \<open>The registry as a list of rows.\<close>

definition registry_rows :: "row_lib \<Rightarrow> file_body option \<Rightarrow> RegistryRow list" where
  "registry_rows lib f = load_jsonl (read_row lib) decode_registry_row f"

lemma registry_rows_ok: "r \<in> set (registry_rows lib f) \<Longrightarrow> row_ok r"
  unfolding registry_rows_def load_jsonl_def load_lines_def
  by (auto simp: map_filter_def decode_registry_row_ok split: option.splits file_body.splits if_splits bind_splits)

definition reprintable :: "row_lib \<Rightarrow> RegistryRow \<Rightarrow> bool" where
  "reprintable lib r \<longleftrightarrow> iterates (iteration lib) (rr_extra r) \<and> prints_back lib (registry_row_json (iteration lib) r)"

lemma rewritten_rows:
  assumes "\<forall>r \<in> set rs. row_ok r \<and> reprintable lib r"
  shows "registry_rows lib (Some (Utf8 (concat (map (\<lambda>v. print_row lib v @ [nl]) (map (registry_row_json (iteration lib)) rs)))))
    = rs"
proof -
  have again: "decode_registry_row (registry_row_json (iteration lib) r) = Some r" if "r \<in> set rs" for r
    using that assms registry_row_again by (auto simp: reprintable_def)
  have "map (\<lambda>v. the (decode_registry_row v)) (map (registry_row_json (iteration lib)) rs) = rs"
    unfolding map_map by (rule map_idI) (simp add: again)
  moreover have "\<forall>v \<in> set (map (registry_row_json (iteration lib)) rs). prints_back lib v \<and> decode_registry_row v \<noteq> None"
    using assms again by (auto simp: reprintable_def)
  ultimately show ?thesis unfolding registry_rows_def by (simp only: load_printed_rows)
qed

lemma registry_delete_filter:
  assumes "\<And>r. r \<in> set (registry_rows lib (fs p)) \<Longrightarrow> reprintable lib r"
    and "registry_delete lib works p stem eid lang fs = (fs', removed)"
  shows "registry_rows lib (fs' p) =
      (if works then filter (\<lambda>r. \<not> delete_matches stem eid lang r) (registry_rows lib (fs p)) else registry_rows lib (fs p))
    \<and> removed = (works \<and> list_ex (delete_matches stem eid lang) (registry_rows lib (fs p)))
    \<and> fs'(p := fs p) = fs"
proof -
  let ?keep = "\<lambda>r. \<not> delete_matches stem eid lang r" and ?rows = "registry_rows lib (fs p)"
  have plan: "delete_plan (read_row lib) stem eid lang (fs p) = (if list_ex (delete_matches stem eid lang) ?rows then Some (filter ?keep ?rows) else None)"
  proof -
    have "length (filter ?keep ?rows) = length ?rows \<longleftrightarrow> \<not> list_ex (delete_matches stem eid lang) ?rows"
      by (auto simp: list_ex_iff filter_id_conv dest: length_filter_less [of _ _ ?keep])
    then show ?thesis unfolding delete_plan_def Let_def registry_rows_def [symmetric] by auto
  qed
  show ?thesis
  proof (cases "list_ex (delete_matches stem eid lang) ?rows")
    case False
    then have "filter ?keep ?rows = ?rows" by (auto simp: list_ex_iff filter_id_conv)
    with False assms(2) show ?thesis by (auto simp: registry_delete_def plan)
  next
    case True
    have "\<forall>r \<in> set (filter ?keep ?rows). row_ok r \<and> reprintable lib r"
      using assms(1) registry_rows_ok by auto
    note written = rewritten_rows [OF this]
    show ?thesis
    proof (cases works)
      case w: True
      then have "fs' = fs(p \<mapsto> Utf8 (concat (map (\<lambda>v. print_row lib v @ [nl])
          (map (registry_row_json (iteration lib)) (filter ?keep ?rows)))))" "removed"
        using True assms(2) by (simp_all add: registry_delete_def plan rewrite_jsonl_def)
      with written w True show ?thesis by simp
    next
      case False
      with True assms(2) show ?thesis by (simp add: registry_delete_def plan rewrite_jsonl_def)
    qed
  qed
qed

text \<open>C9: \<open>registry_delete\<close> refines the deletion of the matching rows from a list: on the rows the file
  holds it is the filter of that list, it reports whether a row went, and it touches no other file;
  a rewrite that fails leaves everything as it was.\<close>

theorem registry_delete_refines:
  assumes "\<And>r. r \<in> set (registry_rows lib (fs p)) \<Longrightarrow> reprintable lib r"
    and "registry_delete lib works p stem eid lang fs = (fs', removed)"
  shows "registry_rows lib (fs' p) =
      (if works then filter (\<lambda>r. \<not> delete_matches stem eid lang r) (registry_rows lib (fs p)) else registry_rows lib (fs p))
    \<and> removed = (works \<and> list_ex (delete_matches stem eid lang) (registry_rows lib (fs p)))
    \<and> fs'(p := fs p) = fs"
  by (rule registry_delete_filter [OF assms])

definition entry_ok :: "StateEntry \<Rightarrow> bool" where
  "entry_ok e \<longleftrightarrow> i64_range (se_episode_id e) \<and> dom (se_extra e) \<inter> set state_fields = {}"

lemma state_entry_again:
  assumes "entry_ok e" "iterates keys_of (se_extra e)"
  shows "decode_state_entry (state_entry_json keys_of e) = Some e"
proof -
  let ?ex = "extra_members keys_of (se_extra e)"
  have fresh: "lit k \<notin> fst ` set ?ex"
    if "k \<in> {''sonarrEpisodeId'', ''language'', ''status'', ''kind'', ''ts''}" for k
    using that assms by (auto simp: extra_members_keys [OF assms(2)] entry_ok_def state_fields_def)
  have "flattened state_fields
     ([(lit ''sonarrEpisodeId'', nullable_int (se_episode_id e)), (lit ''language'', nullable_str (se_language e)),
       (lit ''status'', nullable_str (se_status e)), (lit ''kind'', nullable_str (se_kind e)),
       (lit ''ts'', nullable_str (se_ts e))] @ ?ex) = se_extra e"
    using assms by (intro flattened_extra) (auto simp: entry_ok_def state_fields_def)
  then show ?thesis
    using assms(1) by (simp add: state_entry_json_def str_field_def field_value_walk fresh entry_ok_def)
qed

section \<open>The action queue\<close>

text \<open>The file of actions between the services that append to it and the pass that drains it: the
  rows appended so far and the rows delivered so far are kept beside the files. A write to another
  file may come in between. An append is stored even when its sync fails.\<close>

type_synonym queue_state = "jsonl_fs \<times> ActionRecord list \<times> ActionRecord list"

inductive queue_step :: "row_lib \<Rightarrow> ustr \<Rightarrow> queue_state \<Rightarrow> queue_state \<Rightarrow> bool" for lib p where
  stored: "out \<in> {AOk, ASyncFails} \<Longrightarrow> i64_range (ac_episode_id a) \<Longrightarrow> prints_back lib (action_json a) \<Longrightarrow>
     append_jsonl (print_row lib) out p (action_json a) fs = (fs', ok) \<Longrightarrow>
     queue_step lib p (fs, queued, delivered) (fs', queued @ [a], delivered)"
| refused: "out \<in> {ALockFails, AOpenFails} \<Longrightarrow>
     append_jsonl (print_row lib) out p (action_json a) fs = (fs', ok) \<Longrightarrow>
     queue_step lib p (fs, queued, delivered) (fs', queued, delivered)"
| drained: "consume_actions (read_row lib) \<lparr>lock_taken = True, emptied = True\<rparr> p fs = (fs', rows) \<Longrightarrow>
     queue_step lib p (fs, queued, delivered) (fs', queued, delivered @ rows)"
| elsewhere: "q \<noteq> p \<Longrightarrow> queue_step lib p (fs, queued, delivered) (fs(q := f), queued, delivered)"

abbreviation queue_reach :: "row_lib \<Rightarrow> ustr \<Rightarrow> queue_state \<Rightarrow> queue_state \<Rightarrow> bool" where
  "queue_reach lib p \<equiv> (queue_step lib p)\<^sup>*\<^sup>*"

definition waiting :: "row_lib \<Rightarrow> file_body option \<Rightarrow> ActionRecord list" where
  "waiting lib f = load_jsonl (read_row lib) decode_action f"

definition whole_lines :: "file_body option \<Rightarrow> bool" where
  "whole_lines f \<longleftrightarrow> (case f of None \<Rightarrow> True | Some (Utf8 t) \<Rightarrow> t = [] \<or> last t = nl | Some NotUtf8 \<Rightarrow> False)"

lemma action_again: "i64_range (ac_episode_id a) \<Longrightarrow> decode_action (action_json a) = Some a"
  by (simp add: action_json_def str_field_def field_value_walk field_value_absent)

lemma append_decoded:
  assumes "out \<in> {AOk, ASyncFails}" "decode v = Some a" "prints_back lib v" "whole_lines (fs p)"
    and "append_jsonl (print_row lib) out p v fs = (fs', ok)"
  shows "load_jsonl (read_row lib) decode (fs' p) = load_jsonl (read_row lib) decode (fs p) @ [a] \<and> whole_lines (fs' p)"
proof -
  define t where "t = (case fs p of Some (Utf8 t) \<Rightarrow> t | _ \<Rightarrow> [])"
  have t: "t = [] \<or> last t = nl" "load_jsonl (read_row lib) decode (fs p) = load_lines (read_row lib) decode (str_lines t)"
    using assms(4) by (auto simp: t_def whole_lines_def load_jsonl_def split: option.splits file_body.splits)
  have "fs' p = Some (Utf8 (t @ print_row lib v @ [nl]))"
    using assms(1,4,5) by (auto simp: append_jsonl_def Let_def t_def whole_lines_def split: option.splits file_body.splits)
  moreover have "str_lines (t @ print_row lib v @ [nl]) = str_lines t @ [print_row lib v]"
    by (rule printed_line [OF assms(3) t(1)])
  ultimately show ?thesis
    using t(2) load_lines_printed [where decode = decode, OF assms(3,2)] by (simp add: load_jsonl_def whole_lines_def)
qed

lemma append_waiting:
  assumes "out \<in> {AOk, ASyncFails}" "i64_range (ac_episode_id a)" "prints_back lib (action_json a)" "whole_lines (fs p)"
    and "append_jsonl (print_row lib) out p (action_json a) fs = (fs', ok)"
  shows "waiting lib (fs' p) = waiting lib (fs p) @ [a] \<and> whole_lines (fs' p)"
  using append_decoded [where decode = decode_action, OF assms(1) action_again [OF assms(2)] assms(3-5)]
  by (simp add: waiting_def)

lemma drain_waiting:
  assumes "consume_actions (read_row lib) \<lparr>lock_taken = True, emptied = True\<rparr> p fs = (fs', rows)" "whole_lines (fs p)"
  shows "rows = waiting lib (fs p) \<and> waiting lib (fs' p) = [] \<and> whole_lines (fs' p)"
  using assms by (auto simp: consume_actions_def waiting_def load_jsonl_def whole_lines_def Let_def split: if_splits)

fun queue_inv :: "row_lib \<Rightarrow> ustr \<Rightarrow> ActionRecord list \<Rightarrow> queue_state \<Rightarrow> bool" where
  "queue_inv lib p start (fs, queued, delivered) \<longleftrightarrow>
     whole_lines (fs p) \<and> delivered @ waiting lib (fs p) = start @ queued"

lemma queue_step_inv:
  assumes "queue_step lib p s s'" "queue_inv lib p start s"
  shows "queue_inv lib p start s'"
  using assms(1)
proof (cases rule: queue_step.cases)
  case (stored out a fs fs' ok)
  with append_waiting [OF stored(3-5) _ stored(6)] assms(2) show ?thesis by auto
next
  case (refused out a fs fs' ok)
  with assms(2) show ?thesis by (auto simp: append_jsonl_def Let_def)
next
  case (drained fs fs' rows)
  with drain_waiting [OF drained(3)] assms(2) show ?thesis by auto
qed (use assms(2) in auto)

interpretation queue: step_system "queue_step lib p" "\<lambda>(fs, queued, delivered). whole_lines (fs p) \<and> waiting lib (fs p) = start \<and> queued = [] \<and> delivered = []"
    "queue_inv lib p start" for lib p start
  by unfold_locales (auto intro: queue_step_inv)


text \<open>The service's clock text: before the year \<open>2^31\<close> the date computed for a number of seconds is
  the one reached by counting that many days on from 1 January 1970, and the hour, minute and
  second make up the rest of the day.\<close>

theorem unix_time_is_calendar:
  assumes "unat secs < 2 ^ 55"
  shows "\<exists>y m d h mi s. unix_to_ymd_hms secs = (int y, m, d, h, mi, s)
    \<and> (y, m, d) = (next_day ^^ (unat secs div 86400)) (1970, 1, 1) \<and> valid_date (y, m, d)
    \<and> h < 24 \<and> mi < 60 \<and> s < 60 \<and> unat secs = unat secs div 86400 * 86400 + h * 3600 + mi * 60 + s"
proof -
  let ?days = "unat secs div 86400" and ?tod = "unat secs mod 86400"
  obtain y m d where date: "(next_day ^^ ?days) (1970, 1, 1) = (y, m, d)" by (cases "(next_day ^^ ?days) (1970, 1, 1)") auto
  have "?days < 417000000000" using assms by (simp add: div_less_iff_less_mult)
  then have "y < 2 ^ 31" using calendar_year [OF date] by simp
  then have "take_bit 32 y = y" "signed_take_bit 31 (int y) = int y"
    by (simp_all add: take_bit_nat_eq_self_iff signed_take_bit_int_eq_self_iff)
  then have "sint (of_nat y :: 32 word) = int y"
    by (simp add: sint_uint unsigned_of_nat)
  then have date_time: "unix_to_ymd_hms secs = (int y, m, d, ?tod div 3600, ?tod mod 3600 div 60, ?tod mod 60)"
    unfolding unix_to_ymd_hms_def Let_def civil_from_days_counts date by simp
  have ranges: "?tod div 3600 < 24" "?tod mod 3600 div 60 < 60" "?tod mod 60 < 60"
    by (simp_all add: div_less_iff_less_mult)
  have whole: "unat secs = ?days * 86400 + ?tod div 3600 * 3600 + ?tod mod 3600 div 60 * 60 + ?tod mod 60"
  proof -
    have "?tod mod 60 = ?tod mod 3600 mod 60" by (simp add: mod_mod_cancel)
    moreover have "?tod mod 3600 = ?tod mod 3600 div 60 * 60 + ?tod mod 3600 mod 60"
      "?tod = ?tod div 3600 * 3600 + ?tod mod 3600" "unat secs = ?days * 86400 + ?tod"
      by (simp_all only: div_mult_mod_eq)
    ultimately show ?thesis by linarith
  qed
  have valid: "valid_date (y, m, d)" using calendar_valid [of ?days] unfolding date .
  show ?thesis unfolding date by (intro exI conjI) (rule date_time refl valid ranges whole)+
qed

section \<open>What the file operations do not protect\<close>

text \<open>A file that is not UTF-8 is read as empty, and the drain then empties it.\<close>

lemma not_utf8_actions_dropped:
  "fs p = Some NotUtf8 \<Longrightarrow>
     consume_actions rd \<lparr>lock_taken = True, emptied = True\<rparr> p fs = (fs(p \<mapsto> Utf8 []), [])"
  by (simp add: consume_actions_def load_jsonl_def)

text \<open>The read of \<open>registry_delete\<close> is not under the lock: a row appended between the read and the
  rewrite is gone.\<close>

lemma stale_plan_drops_append:
  assumes "delete_plan (read_row lib) stem eid lang (fs p) = Some kept" "\<forall>r \<in> set kept. reprintable lib r"
    and "append_jsonl (print_row lib) AOk p v fs = (fs1, True)"
    and "rewrite_jsonl (print_row lib) True p (map (registry_row_json (iteration lib)) kept) fs1 = (fs2, True)"
  shows "registry_rows lib (fs2 p) = filter (\<lambda>r. \<not> delete_matches stem eid lang r) (registry_rows lib (fs p))"
proof -
  have kept: "kept = filter (\<lambda>r. \<not> delete_matches stem eid lang r) (registry_rows lib (fs p))"
    using assms(1) by (auto simp: delete_plan_def registry_rows_def Let_def split: if_splits)
  then have "\<forall>r \<in> set kept. row_ok r \<and> reprintable lib r" using assms(2) registry_rows_ok by auto
  from rewritten_rows [OF this] assms(4) kept show ?thesis by (auto simp: rewrite_jsonl_def)
qed

section \<open>Witnesses\<close>

definition plain_row :: "string \<Rightarrow> int \<Rightarrow> RegistryRow" where
  "plain_row stem i = \<lparr>rr_stem = Some (lit stem), rr_lang = Some (lit ''id''), rr_episode_id = Some i, rr_source = None,
     rr_source_kind = None, rr_source_path = None, rr_target_path = None, rr_ts = None, rr_extra = Map.empty\<rparr>"

definition plain_action :: ActionRecord where
  "plain_action = \<lparr>ac_ts = None, ac_type = Some (lit ''retry''), ac_episode_id = Some 7, ac_language = None, ac_kind = None,
     ac_source = None, ac_note = None\<rparr>"

text \<open>A library that knows two texts.\<close>

definition two_texts :: "json \<Rightarrow> json \<Rightarrow> row_lib" where
  "two_texts a b = \<lparr>read_row = (\<lambda>t. if t = lit ''a'' then Some a else if t = lit ''b'' then Some b else None),
     print_row = (\<lambda>v. if v = a then lit ''a'' else lit ''b''), iteration = (\<lambda>_. [])\<rparr>"

lemma two_texts_print: "prints_back (two_texts a b) a" "a \<noteq> b \<Longrightarrow> prints_back (two_texts a b) b"
  by (simp_all add: prints_back_def two_texts_def lit_eval trimmed_def is_ws_def)

abbreviation two_row_lib :: row_lib where
  "two_row_lib \<equiv> two_texts (registry_row_json (\<lambda>_. []) (plain_row ''a'' 1)) (registry_row_json (\<lambda>_. []) (plain_row ''b'' 2))"

definition two_row_fs :: jsonl_fs where
  "two_row_fs = [lit ''r'' \<mapsto> Utf8 (lit ''a'' @ [nl] @ lit ''b'' @ [nl])]"

lemma plain_rows_differ: "registry_row_json (\<lambda>_. []) (plain_row ''a'' 1) \<noteq> registry_row_json (\<lambda>_. []) (plain_row ''b'' 2)"
  by (simp add: registry_row_json_def plain_row_def)

lemma two_row_prints: "reprintable two_row_lib (plain_row ''a'' 1)" "reprintable two_row_lib (plain_row ''b'' 2)"
  using plain_rows_differ two_texts_print
  by (simp_all add: reprintable_def iterates_def plain_row_def two_texts_def [THEN arg_cong, of iteration])

lemma two_rows: "registry_rows two_row_lib (two_row_fs (lit ''r'')) = [plain_row ''a'' 1, plain_row ''b'' 2]"
proof -
  have it: "iteration two_row_lib = (\<lambda>_. [])" by (simp add: two_texts_def)
  have body: "two_row_fs (lit ''r'') = Some (Utf8 (concat (map (\<lambda>v. print_row two_row_lib v @ [nl])
      (map (registry_row_json (iteration two_row_lib)) [plain_row ''a'' 1, plain_row ''b'' 2]))))"
    unfolding it by (simp add: two_row_fs_def two_texts_def plain_rows_differ [symmetric])
  show ?thesis unfolding body
    by (rule rewritten_rows)
      (use two_row_prints in \<open>simp add: row_ok_def plain_row_def i64_range_def\<close>)
qed

theorem registry_delete_refines_witness:
  "registry_rows two_row_lib
     (fst (registry_delete two_row_lib True (lit ''r'') None (Some 1) (lit ''id'') two_row_fs) (lit ''r''))
   = [plain_row ''b'' 2]"
proof -
  have "reprintable two_row_lib r" if "r \<in> set (registry_rows two_row_lib (two_row_fs (lit ''r'')))" for r
    using that two_row_prints unfolding two_rows by auto
  moreover obtain fs' b where "registry_delete two_row_lib True (lit ''r'') None (Some 1) (lit ''id'') two_row_fs = (fs', b)"
    by fastforce
  ultimately show ?thesis
    using registry_delete_refines [where p = "lit ''r''" and fs = two_row_fs and lib = two_row_lib] two_rows
    by (simp add: delete_matches_def plain_row_def)
qed

theorem unix_time_is_calendar_witness:
  "\<exists>y m d h mi s. unix_to_ymd_hms 951782400 = (int y, m, d, h, mi, s)
    \<and> (y, m, d) = (next_day ^^ 11016) (1970, 1, 1)"
  using unix_time_is_calendar [of 951782400] by auto


end
