(* ===== verification/Targets.thy ===== *)
theory Targets
  imports State
begin

text \<open>
  \<open>src/pipeline_targets.rs\<close> and \<open>src/episode_commit.rs\<close>: which targets the ledgers and the bytes on
  disk admit, the rows a finished target is recorded by, and the installation of its subtitle file
  with the rollback of a failed commit. SHA-256, the disk and the outcome of each file operation are
  parameters; what other processes do between two steps of a rollback is a function of the disk.
\<close>

section \<open>Verified targets\<close>

datatype disk_file = DFile bytes | DUnreadable

type_synonym disk = "ustr \<rightharpoonup> disk_file"

fun original_language :: "json \<Rightarrow> ustr option" where
  "original_language (JStr s) = (if trim s = [] then None else Some (trim s))"
| "original_language v =
     (case Option.bind (json_get (lit ''name'') v) as_str of
        Some s \<Rightarrow> if trim s = [] then None else Some (trim s) | None \<Rightarrow> None)"

definition movie_original_lang :: "json \<Rightarrow> ustr option" where
  "movie_original_lang m = Option.bind (json_get (lit ''originalLanguage'') m) original_language"

record VerifiedTarget =
  vt_target_path :: ustr
  vt_artifact :: bytes

type_synonym TargetKey = "ustr \<times> int \<times> ustr"

definition parse_digest :: "json option \<Rightarrow> bytes option" where
  "parse_digest v =
     (case Option.bind v as_str of None \<Rightarrow> None
      | Some s \<Rightarrow> if byte_len s \<noteq> 64 then None else decode_hex_bytes (utf8 s))"

definition digest_file :: "(bytes \<Rightarrow> bytes) \<Rightarrow> disk \<Rightarrow> ustr \<Rightarrow> bytes option" where
  "digest_file sha d p = (case d p of Some (DFile bs) \<Rightarrow> Some (sha bs) | _ \<Rightarrow> None)"

definition extra_str :: "string \<Rightarrow> extra_fields \<Rightarrow> ustr option" where
  "extra_str k m = Option.bind (m (lit k)) as_str"

definition registry_kind :: "RegistryRow \<Rightarrow> ustr" where
  "registry_kind r = (case extra_str ''kind'' (rr_extra r) of Some k \<Rightarrow> k | None \<Rightarrow> lit ''series'')"

definition state_kind :: "StateEntry \<Rightarrow> ustr" where
  "state_kind e = (case se_kind e of Some k \<Rightarrow> k | None \<Rightarrow> lit ''series'')"

definition lang_of :: "ustr option \<Rightarrow> ustr" where
  "lang_of l = normalize_lang (case l of Some s \<Rightarrow> s | None \<Rightarrow> [])"

definition done_entry :: "StateEntry \<Rightarrow> (TargetKey \<times> bytes) option" where
  "done_entry e =
     (if se_status e \<noteq> Some (lit ''done'') then None
      else case se_episode_id e of None \<Rightarrow> None | Some i \<Rightarrow>
        map_option (\<lambda>d. ((state_kind e, i, lang_of (se_language e)), d)) (parse_digest (se_extra e (lit ''artifact_sha256''))))"

definition verified_row ::
    "(bytes \<Rightarrow> bytes) \<Rightarrow> disk \<Rightarrow> (TargetKey \<times> bytes) list \<Rightarrow> RegistryRow \<Rightarrow> (TargetKey \<times> VerifiedTarget) option" where
  "verified_row sha d done_rows r =
     (case rr_target_path r of None \<Rightarrow> None | Some p \<Rightarrow>
      if d p = None then None
      else case rr_episode_id r of None \<Rightarrow> None | Some i \<Rightarrow>
        (let key = (registry_kind r, i, lang_of (rr_lang r)) in
         case parse_digest (rr_extra r (lit ''artifact_sha256'')) of None \<Rightarrow> None | Some h \<Rightarrow>
           if digest_file sha d p \<noteq> Some h then None
           else if (key, h) \<notin> set done_rows then None
           else Some (key, \<lparr>vt_target_path = p, vt_artifact = h\<rparr>)))"

text \<open>Collecting into a map keeps the last row of a key.\<close>

definition verified_targets ::
    "(bytes \<Rightarrow> bytes) \<Rightarrow> disk \<Rightarrow> RegistryRow list \<Rightarrow> StateEntry list \<Rightarrow> TargetKey \<rightharpoonup> VerifiedTarget" where
  "verified_targets sha d registry_rows' state_rows =
     map_of (rev (List.map_filter (verified_row sha d (List.map_filter done_entry state_rows)) registry_rows'))"

section \<open>The rows of a target\<close>

record RegistryCommit =
  rc_stem :: ustr
  rc_lang :: ustr
  rc_source :: ustr
  rc_source_kind :: "ustr option"
  rc_episode_id :: "int option"
  rc_kind :: ustr
  rc_media_path :: ustr
  rc_source_lang :: ustr
  rc_source_stream :: "u32 option"

definition commit_registry_row :: "RegistryCommit \<Rightarrow> int \<Rightarrow> bytes \<Rightarrow> ustr \<Rightarrow> RegistryRow" where
  "commit_registry_row c i artifact ts =
     (let target = canonical_target_sidecar (rc_stem c) (rc_lang c);
          base = [lit ''media_path'' \<mapsto> JStr (rc_media_path c), lit ''source_lang'' \<mapsto> JStr (normalize_lang (rc_source_lang c)),
                  lit ''artifact_sha256'' \<mapsto> JStr (hex artifact)];
          streamed = (case rc_source_stream c of Some s \<Rightarrow> base(lit ''source_stream'' \<mapsto> JInt (uint s)) | None \<Rightarrow> base);
          extra = (if rc_kind c = lit ''movie'' then streamed(lit ''kind'' \<mapsto> JStr (lit ''movie'')) else streamed)
      in \<lparr>rr_stem = Some (rc_stem c), rr_lang = Some (normalize_lang (rc_lang c)), rr_episode_id = Some i,
          rr_source = Some (rc_source c), rr_source_kind = rc_source_kind c, rr_source_path = Some target,
          rr_target_path = Some target, rr_ts = Some ts, rr_extra = extra\<rparr>)"

definition commit_state_entry :: "RegistryCommit \<Rightarrow> int \<Rightarrow> bytes \<Rightarrow> ustr \<Rightarrow> StateEntry" where
  "commit_state_entry c i artifact ts =
     \<lparr>se_episode_id = Some i, se_language = Some (normalize_lang (rc_lang c)), se_status = Some (lit ''done''),
      se_kind = (if rc_kind c = lit ''movie'' then Some (lit ''movie'') else None), se_ts = Some ts,
      se_extra = [lit ''artifact_sha256'' \<mapsto> JStr (hex artifact), lit ''detail'' \<mapsto> JStr []]\<rparr>"

text \<open>\<open>to_value\<close>: the members of an object in the order of their names.\<close>

fun to_value :: "json \<Rightarrow> json" where
  "to_value (JObj ms) = JObj (sort_key (utf8 \<circ> fst) ms)"
| "to_value v = v"

definition target_ledger_rows ::
    "(extra_fields \<Rightarrow> ustr list) \<Rightarrow> ustr \<Rightarrow> RegistryCommit \<Rightarrow> bytes \<Rightarrow> (LedgerIdentity \<times> json \<times> json) option" where
  "target_ledger_rows keys_of ts c artifact =
     (case rc_episode_id c of None \<Rightarrow> None
      | Some i \<Rightarrow> Some
          (\<lparr>li_kind = rc_kind c, li_episode_id = i, li_language = normalize_lang (rc_lang c), li_artifact = artifact\<rparr>,
           to_value (registry_row_json keys_of (commit_registry_row c i artifact ts)),
           to_value (state_entry_json keys_of (commit_state_entry c i artifact ts))))"

section \<open>The installed file\<close>

record InstalledSidecar =
  is_target :: ustr
  is_previous :: "bytes option"
  is_artifact :: bytes

datatype write_result = Written | WriteFails nat

record install_io =
  parent_made :: bool
  tmp_written :: write_result
  renamed :: bool

definition tmp_of :: "ustr \<Rightarrow> string \<Rightarrow> ustr" where
  "tmp_of target ext = target @ lit ext"

definition install_sidecar :: "(bytes \<Rightarrow> bytes) \<Rightarrow> install_io \<Rightarrow> ustr \<Rightarrow> bytes \<Rightarrow> disk \<Rightarrow> disk \<times> InstalledSidecar option" where
  "install_sidecar sha io target bs d =
     (if d target = Some DUnreadable then (d, None)
      else if \<not> parent_made io then (d, None)
      else let tmp = tmp_of target ''.direct.tmp'' in
        case tmp_written io of
          WriteFails n \<Rightarrow> (d(tmp \<mapsto> DFile (take n bs)), None)
        | Written \<Rightarrow>
            if \<not> renamed io then (d(tmp := None), None)
            else (d(target \<mapsto> DFile bs, tmp := None),
                  Some \<lparr>is_target = target,
                        is_previous = (case d target of Some (DFile p) \<Rightarrow> Some p | _ \<Rightarrow> None),
                        is_artifact = sha bs\<rparr>))"

datatype file_error = FileError

definition still_current :: "(bytes \<Rightarrow> bytes) \<Rightarrow> InstalledSidecar \<Rightarrow> disk \<Rightarrow> file_error + bool" where
  "still_current sha s d =
     (case d (is_target s) of
        Some (DFile bs) \<Rightarrow> Inr (sha bs = is_artifact s)
      | None \<Rightarrow> Inr False
      | Some DUnreadable \<Rightarrow> Inl FileError)"

record rollback_io =
  rb_tmp_written :: write_result
  rb_renamed :: bool
  rb_removed :: bool

definition holds_artifact :: "(bytes \<Rightarrow> bytes) \<Rightarrow> InstalledSidecar \<Rightarrow> disk \<Rightarrow> bool" where
  "holds_artifact sha s d = (case d (is_target s) of Some (DFile bs) \<Rightarrow> sha bs = is_artifact s | _ \<Rightarrow> False)"

text \<open>Between the copy of the previous bytes and the second look at the target, other processes may
  change the disk.\<close>

definition rollback_if_unchanged ::
    "(bytes \<Rightarrow> bytes) \<Rightarrow> rollback_io \<Rightarrow> (disk \<Rightarrow> disk) \<Rightarrow> InstalledSidecar \<Rightarrow> disk \<Rightarrow> disk \<times> (file_error + unit)" where
  "rollback_if_unchanged sha io meanwhile s d =
     (let target = is_target s; tmp = tmp_of target ''.rollback.tmp'' in
      case d target of
        None \<Rightarrow> (d, Inr ())
      | Some DUnreadable \<Rightarrow> (d, Inl FileError)
      | Some (DFile cur) \<Rightarrow>
          if sha cur \<noteq> is_artifact s then (d, Inr ())
          else case is_previous s of
              Some prev \<Rightarrow>
                (case rb_tmp_written io of
                   WriteFails n \<Rightarrow> (d(tmp \<mapsto> DFile (take n prev)), Inl FileError)
                 | Written \<Rightarrow>
                     (let d2 = meanwhile (d(tmp \<mapsto> DFile prev)) in
                      if \<not> holds_artifact sha s d2 then (d2(tmp := None), Inr ())
                      else if \<not> rb_renamed io \<or> d2 tmp = None then (d2(tmp := None), Inl FileError)
                      else (d2(target := d2 tmp, tmp := None), Inr ())))
            | None \<Rightarrow>
                (let d2 = meanwhile d in
                 if \<not> holds_artifact sha s d2 then (d2, Inr ())
                 else if rb_removed io then (d2(target := None), Inr ())
                 else (d2, Inl FileError)))"

definition existing_target_digest :: "(bytes \<Rightarrow> bytes) \<Rightarrow> disk \<Rightarrow> ustr \<Rightarrow> file_error + bytes" where
  "existing_target_digest sha d p = (case d p of Some (DFile bs) \<Rightarrow> Inr (sha bs) | _ \<Rightarrow> Inl FileError)"

section \<open>Admission\<close>

definition ledger_body :: "ledger_entry option \<Rightarrow> file_body option" where
  "ledger_body e = (case e of Some (LFile t) \<Rightarrow> Some (Utf8 t) | Some LOther \<Rightarrow> Some NotUtf8 | _ \<Rightarrow> None)"

definition media_kind :: "bool \<Rightarrow> ustr" where
  "media_kind is_movie = (if is_movie then lit ''movie'' else lit ''series'')"

record ledger_paths =
  registry_file :: ustr
  state_file :: ustr

definition target_is_verified ::
    "(bytes \<Rightarrow> bytes) \<Rightarrow> (ustr \<Rightarrow> json option) \<Rightarrow> ledger_paths \<Rightarrow> bool \<Rightarrow> int \<Rightarrow> ustr \<Rightarrow> ledger_fs \<Rightarrow> disk \<Rightarrow> VerifiedTarget option" where
  "target_is_verified sha rd paths is_movie i lang fs d =
     verified_targets sha d
       (load_jsonl rd decode_registry_row (ledger_body (fs (registry_file paths))))
       (load_jsonl rd decode_state_entry (ledger_body (fs (state_file paths))))
       (media_kind is_movie, i, normalize_lang lang)"

definition cleanup_failed_install ::
    "(bytes \<Rightarrow> bytes) \<Rightarrow> (ustr \<Rightarrow> json option) \<Rightarrow> ledger_paths \<Rightarrow> rollback_io \<Rightarrow> (disk \<Rightarrow> disk) \<Rightarrow> bool \<Rightarrow> int \<Rightarrow> ustr
      \<Rightarrow> InstalledSidecar \<Rightarrow> ledger_fs \<Rightarrow> disk \<Rightarrow> disk \<times> (file_error + unit)" where
  "cleanup_failed_install sha rd paths io meanwhile is_movie i lang s fs d =
     (case target_is_verified sha rd paths is_movie i lang fs d of
        Some v \<Rightarrow>
          if vt_artifact v = is_artifact s then (d, Inr ()) else rollback_if_unchanged sha io meanwhile s d
      | None \<Rightarrow> rollback_if_unchanged sha io meanwhile s d)"

section \<open>What admission means\<close>

definition admit_key :: "RegistryRow \<Rightarrow> TargetKey option" where
  "admit_key r = map_option (\<lambda>i. (registry_kind r, i, lang_of (rr_lang r))) (rr_episode_id r)"

definition done_key :: "StateEntry \<Rightarrow> TargetKey option" where
  "done_key e = map_option (\<lambda>i. (state_kind e, i, lang_of (se_language e))) (se_episode_id e)"

definition row_digest_of :: "extra_fields \<Rightarrow> bytes option" where
  "row_digest_of m = parse_digest (m (lit ''artifact_sha256''))"

definition admits ::
    "(bytes \<Rightarrow> bytes) \<Rightarrow> disk \<Rightarrow> RegistryRow list \<Rightarrow> StateEntry list \<Rightarrow> TargetKey \<Rightarrow> VerifiedTarget \<Rightarrow> bool" where
  "admits sha d rows states k v \<longleftrightarrow>
     (\<exists>r \<in> set rows. rr_target_path r = Some (vt_target_path v) \<and> admit_key r = Some k
        \<and> row_digest_of (rr_extra r) = Some (vt_artifact v))
     \<and> (\<exists>e \<in> set states. se_status e = Some (lit ''done'') \<and> done_key e = Some k
        \<and> row_digest_of (se_extra e) = Some (vt_artifact v))
     \<and> (\<exists>bs. d (vt_target_path v) = Some (DFile bs) \<and> sha bs = vt_artifact v)"

lemma done_entry_iff:
  "done_entry e = Some (k, h) \<longleftrightarrow>
     se_status e = Some (lit ''done'') \<and> done_key e = Some k \<and> row_digest_of (se_extra e) = Some h"
  by (auto simp: done_entry_def done_key_def row_digest_of_def split: option.splits)

lemma verified_row_iff:
  "verified_row sha d done_rows r = Some (k, v) \<longleftrightarrow>
     rr_target_path r = Some (vt_target_path v) \<and> admit_key r = Some k \<and> row_digest_of (rr_extra r) = Some (vt_artifact v)
     \<and> (\<exists>bs. d (vt_target_path v) = Some (DFile bs) \<and> sha bs = vt_artifact v) \<and> (k, vt_artifact v) \<in> set done_rows"
  by (auto simp: verified_row_def admit_key_def row_digest_of_def digest_file_def Let_def
      split: option.splits if_splits disk_file.splits)

lemma verified_pairs:
  "(k, v) \<in> set (List.map_filter (verified_row sha d (List.map_filter done_entry states)) rows) \<longleftrightarrow> admits sha d rows states k v"
  by (auto simp: set_map_filter verified_row_iff done_entry_iff admits_def)

text \<open>C11: a target is admitted exactly when a registry row and a done state row name the same kind,
  episode and language, carry the same digest, and that digest is the one of the bytes at the row's
  path; the admitted path and digest are such a row's.\<close>

theorem verified_targets_exact:
  "case verified_targets sha d rows states k of
     Some v \<Rightarrow> admits sha d rows states k v
   | None \<Rightarrow> \<not> (\<exists>v. admits sha d rows states k v)"
proof (cases "verified_targets sha d rows states k")
  case None
  then have "k \<notin> fst ` set (List.map_filter (verified_row sha d (List.map_filter done_entry states)) rows)"
    unfolding verified_targets_def map_of_eq_None_iff by simp
  with None show ?thesis unfolding verified_pairs [symmetric] by force
next
  case (Some v)
  then have "(k, v) \<in> set (List.map_filter (verified_row sha d (List.map_filter done_entry states)) rows)"
    unfolding verified_targets_def by (auto dest: map_of_SomeD)
  with Some show ?thesis by (simp add: verified_pairs)
qed

lemma verified_if_admits: "admits sha d rows states k v \<Longrightarrow> verified_targets sha d rows states k \<noteq> None"
  unfolding verified_targets_def map_of_eq_None_iff verified_pairs [symmetric] by (force simp: image_iff)

section \<open>Reading the rows of a commit\<close>

lemma field_value_perm:
  assumes "mset ms = mset ns"
  shows "field_value conv names ms = field_value conv names ns"
proof -
  let ?P = "\<lambda>(k, _). k \<in> set names"
  have perm: "mset (filter ?P ms) = mset (filter ?P ns)" using assms by simp
  then have "length (filter ?P ms) = length (filter ?P ns)" by (metis size_mset)
  moreover have "filter ?P ms = [x] \<Longrightarrow> filter ?P ns = [y] \<Longrightarrow> x = y" for x y using perm by simp
  ultimately show ?thesis by (auto simp: field_value_def split: list.splits)
qed

lemma flattened_perm:
  assumes "mset ms = mset ns" "distinct (map fst ms)"
  shows "flattened names ms = flattened names ns"
proof -
  let ?f = "\<lambda>xs. rev (filter (\<lambda>(k, _). k \<notin> set names) xs)"
  have d: "distinct (map fst ns)" using assms by (metis mset_map mset_eq_imp_distinct_iff)
  have sub: "distinct (map fst xs) \<Longrightarrow> distinct (map fst (?f xs))" for xs :: "(ustr \<times> json) list"
    by (simp add: rev_map [symmetric] distinct_map_filter)
  have "set (?f ms) = set (?f ns)" using assms(1) by (metis mset_eq_setD mset_filter set_rev)
  then show ?thesis
    unfolding flattened_def using sub [OF assms(2)] sub [OF d] by (intro map_of_eqI) (auto simp: map_of_eq_Some_iff)
qed

lemma sorted_members: "mset (sort_key f ms) = mset ms"
  by simp

lemma decode_registry_sorted:
  assumes "distinct (map fst ms)"
  shows "decode_registry_row (to_value (JObj ms)) = decode_registry_row (JObj ms)"
proof -
  have p: "mset (sort_key (utf8 \<circ> fst) ms) = mset ms" by simp
  show ?thesis
    using flattened_perm [OF p [symmetric] assms, of registry_fields]
    by (simp add: str_field_def field_value_perm [OF p])
qed

lemma decode_state_sorted:
  assumes "distinct (map fst ms)"
  shows "decode_state_entry (to_value (JObj ms)) = decode_state_entry (JObj ms)"
proof -
  have p: "mset (sort_key (utf8 \<circ> fst) ms) = mset ms" by simp
  show ?thesis
    using flattened_perm [OF p [symmetric] assms, of state_fields]
    by (simp add: str_field_def field_value_perm [OF p])
qed

lemma registry_members_distinct:
  assumes "iterates keys_of (rr_extra r)" "row_ok r" "registry_row_json keys_of r = JObj ms"
  shows "distinct (map fst ms)"
proof -
  let ?ex = "extra_members keys_of (rr_extra r)"
  have "distinct (map fst ?ex)" using assms(1) by (simp add: extra_members_def iterates_def comp_def)
  moreover have "set registry_fields \<inter> set (map fst ?ex) = {}"
    using assms(2) extra_members_keys [OF assms(1)] by (auto simp: row_ok_def)
  moreover have "map fst ms = registry_fields @ map fst ?ex" using assms(3) by (auto simp: registry_row_json_def registry_fields_def)
  moreover have "distinct registry_fields" by (simp add: registry_fields_def)
  ultimately show ?thesis by simp
qed

lemma state_members_distinct:
  assumes "iterates keys_of (se_extra e)" "entry_ok e" "state_entry_json keys_of e = JObj ms"
  shows "distinct (map fst ms)"
proof -
  let ?ex = "extra_members keys_of (se_extra e)"
  have "distinct (map fst ?ex)" using assms(1) by (simp add: extra_members_def iterates_def comp_def)
  moreover have "set state_fields \<inter> set (map fst ?ex) = {}"
    using assms(2) extra_members_keys [OF assms(1)] by (auto simp: entry_ok_def)
  moreover have "map fst ms = state_fields @ map fst ?ex" using assms(3) by (auto simp: state_entry_json_def state_fields_def)
  moreover have "distinct state_fields" by (simp add: state_fields_def)
  ultimately show ?thesis by simp
qed

lemma committed_rows_ok:
  assumes "i64_range (Some i)"
  shows "row_ok (commit_registry_row c i h ts)" "entry_ok (commit_state_entry c i h ts)"
  using assms
  by (auto simp: row_ok_def entry_ok_def commit_registry_row_def commit_state_entry_def Let_def registry_fields_def
      state_fields_def split: option.splits if_splits)

lemma committed_rows_decode:
  assumes "\<And>m. finite (dom m) \<Longrightarrow> iterates keys_of m" "i64_range (Some i)"
  shows "decode_registry_row (to_value (registry_row_json keys_of (commit_registry_row c i h ts))) = Some (commit_registry_row c i h ts)"
    and "decode_state_entry (to_value (state_entry_json keys_of (commit_state_entry c i h ts))) = Some (commit_state_entry c i h ts)"
proof -
  let ?r = "commit_registry_row c i h ts" and ?e = "commit_state_entry c i h ts"
  have "finite (dom (rr_extra ?r))" by (simp add: commit_registry_row_def Let_def split: option.split)
  then have it: "iterates keys_of (rr_extra ?r)" by (rule assms(1))
  obtain ms where ms: "registry_row_json keys_of ?r = JObj ms" by (simp add: registry_row_json_def)
  show "decode_registry_row (to_value (registry_row_json keys_of ?r)) = Some ?r"
    using registry_row_again [OF committed_rows_ok(1) [OF assms(2)] it]
      registry_members_distinct [OF it committed_rows_ok(1) [OF assms(2)] ms]
    by (simp only: ms decode_registry_sorted)
  have "finite (dom (se_extra ?e))" by (simp add: commit_state_entry_def)
  then have it: "iterates keys_of (se_extra ?e)" by (rule assms(1))
  obtain ms where ms: "state_entry_json keys_of ?e = JObj ms" by (simp add: state_entry_json_def)
  show "decode_state_entry (to_value (state_entry_json keys_of ?e)) = Some ?e"
    using state_entry_again [OF committed_rows_ok(2) [OF assms(2)] it]
      state_members_distinct [OF it committed_rows_ok(2) [OF assms(2)] ms]
    by (simp only: ms decode_state_sorted)
qed

text \<open>Rows that agree up to the timestamp decode to rows that do.\<close>

lemma remove_ts_members:
  assumes "remove_ts v = remove_ts (JObj ms)"
  obtains ns where "v = JObj ns"
    "filter (\<lambda>(k, _). k \<noteq> lit ''ts'') ns = filter (\<lambda>(k, _). k \<noteq> lit ''ts'') ms"
  using assms by (cases v) auto

lemma field_value_without_ts:
  assumes "filter (\<lambda>(k, _). k \<noteq> lit ''ts'') ns = filter (\<lambda>(k, _). k \<noteq> lit ''ts'') ms" "lit ''ts'' \<notin> set names"
  shows "field_value conv names ns = field_value conv names ms"
proof -
  have "filter (\<lambda>(k, _). k \<in> set names) xs =
      filter (\<lambda>(k, _). k \<in> set names) (filter (\<lambda>(k, _). k \<noteq> lit ''ts'') xs)" for xs :: "(ustr \<times> json) list"
    unfolding filter_filter using assms(2) by (intro filter_cong) auto
  then show ?thesis unfolding field_value_def using assms(1) by metis
qed

lemma flattened_without_ts:
  assumes "filter (\<lambda>(k, _). k \<noteq> lit ''ts'') ns = filter (\<lambda>(k, _). k \<noteq> lit ''ts'') ms" "lit ''ts'' \<in> set names"
  shows "flattened names ns = flattened names ms"
proof -
  have "filter (\<lambda>(k, _). k \<notin> set names) xs =
      filter (\<lambda>(k, _). k \<notin> set names) (filter (\<lambda>(k, _). k \<noteq> lit ''ts'') xs)" for xs :: "(ustr \<times> json) list"
    unfolding filter_filter using assms(2) by (intro filter_cong) auto
  then show ?thesis unfolding flattened_def using assms(1) by metis
qed

lemma decode_registry_ts:
  assumes "remove_ts v = remove_ts v'" "decode_registry_row v = Some r" "decode_registry_row v' = Some r'"
  shows "rr_target_path r = rr_target_path r' \<and> admit_key r = admit_key r' \<and> rr_extra r = rr_extra r'"
proof -
  obtain ms where ms: "v' = JObj ms" using assms(3) by (cases v') auto
  obtain ns where ns: "v = JObj ns" "filter (\<lambda>(k, _). k \<noteq> lit ''ts'') ns = filter (\<lambda>(k, _). k \<noteq> lit ''ts'') ms"
    using remove_ts_members assms(1) unfolding ms by metis
  have ex: "flattened registry_fields ns = flattened registry_fields ms"
    by (rule flattened_without_ts [OF ns(2)]) (simp add: registry_fields_def)
  have int: "field_value opt_i64 [lit k] ns = field_value opt_i64 [lit k] ms" if "k \<noteq> ''ts''" for k
    by (rule field_value_without_ts [OF ns(2)]) (use that in simp)
  have str: "str_field k ns = str_field k ms" if "k \<noteq> ''ts''" for k
    unfolding str_field_def by (rule field_value_without_ts [OF ns(2)]) (use that in simp)
  show ?thesis
    using assms(2,3) unfolding ns(1) ms
    by (auto simp: ex int str admit_key_def registry_kind_def split: bind_splits)
qed

lemma decode_state_ts:
  assumes "remove_ts v = remove_ts v'" "decode_state_entry v = Some e" "decode_state_entry v' = Some e'"
  shows "se_status e = se_status e' \<and> done_key e = done_key e' \<and> se_extra e = se_extra e'"
proof -
  obtain ms where ms: "v' = JObj ms" using assms(3) by (cases v') auto
  obtain ns where ns: "v = JObj ns" "filter (\<lambda>(k, _). k \<noteq> lit ''ts'') ns = filter (\<lambda>(k, _). k \<noteq> lit ''ts'') ms"
    using remove_ts_members assms(1) unfolding ms by metis
  have ex: "flattened state_fields ns = flattened state_fields ms"
    by (rule flattened_without_ts [OF ns(2)]) (simp add: state_fields_def)
  have int: "field_value opt_i64 [lit k] ns = field_value opt_i64 [lit k] ms" if "k \<noteq> ''ts''" for k
    by (rule field_value_without_ts [OF ns(2)]) (use that in simp)
  have str: "str_field k ns = str_field k ms" if "k \<noteq> ''ts''" for k
    unfolding str_field_def by (rule field_value_without_ts [OF ns(2)]) (use that in simp)
  show ?thesis
    using assms(2,3) unfolding ns(1) ms
    by (auto simp: ex int str done_key_def state_kind_def split: bind_splits)
qed

section \<open>A commit is admitted\<close>

text \<open>A ledger of rows of one type: a line that the strict reader takes is read the same way by the
  reader of typed rows, and decodes.\<close>

definition typed_ledger :: "json_lib \<Rightarrow> (ustr \<Rightarrow> json option) \<Rightarrow> (json \<Rightarrow> 'a option) \<Rightarrow> ustr set \<Rightarrow> bool" where
  "typed_ledger lib rd decode ls \<longleftrightarrow>
     (\<forall>l \<in> ls. \<forall>v. parse_json lib l = Some v \<longrightarrow> trimmed l \<and> l \<noteq> [] \<and> rd l = Some v \<and> decode v \<noteq> None)"

text \<open>What the two JSON readers and the printer do with a printed row.\<close>

definition row_printed :: "json_lib \<Rightarrow> (ustr \<Rightarrow> json option) \<Rightarrow> json \<Rightarrow> bool" where
  "row_printed lib rd v \<longleftrightarrow> prints_line lib v \<and> trimmed (print_json lib v) \<and> print_json lib v \<noteq> []
     \<and> rd (print_json lib v) = Some v"

lemma scan_rows_found:
  "scan_rows lib ident found ls = Inr (Some v) \<Longrightarrow> found = Some v \<or> (\<exists>l \<in> set ls. parse_json lib l = Some v)"
  by (induction ls arbitrary: found) (auto split: option.splits if_splits)

lemma recorded_loads:
  assumes "recorded lib ident row e" "typed_ledger lib rd decode (entry_lines e)"
  obtains v r where "remove_ts v = remove_ts row" "decode v = Some r" "r \<in> set (load_jsonl rd decode (ledger_body e))"
proof -
  obtain t v where t: "e = Some (LFile t)" "scan_rows lib ident None (str_lines t) = Inr (Some v)"
      "v = row \<or> rows_equal_ignoring_timestamp v row"
    using assms(1) by (auto simp: recorded_def)
  then obtain l where l: "l \<in> set (str_lines t)" "parse_json lib l = Some v" using scan_rows_found by blast
  then have "trimmed l \<and> l \<noteq> [] \<and> rd l = Some v \<and> decode v \<noteq> None"
    using assms(2) t(1) by (auto simp: typed_ledger_def entry_lines_def entry_text_def)
  moreover then obtain r where "decode v = Some r" by auto
  ultimately have "r \<in> set (load_jsonl rd decode (ledger_body e))"
    using l(1) t(1) by (force simp: load_jsonl_def load_lines_def ledger_body_def set_map_filter)
  with t(3) \<open>decode v = Some r\<close> show thesis
    by (intro that [of v r]) (auto simp: rows_equal_ignoring_timestamp_def)
qed

lemma typed_ledger_grows:
  assumes "typed_ledger lib rd decode ls" "ms \<subseteq> insert (print_json lib row) ls" "row_printed lib rd row" "decode row \<noteq> None"
  shows "typed_ledger lib rd decode ms"
  unfolding typed_ledger_def
proof (intro ballI allI impI)
  fix l v assume l: "l \<in> ms" "parse_json lib l = Some v"
  show "trimmed l \<and> l \<noteq> [] \<and> rd l = Some v \<and> decode v \<noteq> None"
  proof (cases "l = print_json lib row")
    case True
    with l(2) assms(3) have "v = row" by (simp add: row_printed_def prints_line_def)
    with True assms(3,4) show ?thesis by (simp add: row_printed_def)
  next
    case False
    with l(1) assms(2) have "l \<in> ls" by auto
    with l(2) assms(1) show ?thesis unfolding typed_ledger_def by blast
  qed
qed

lemma parse_digest_hex: "length h = 32 \<Longrightarrow> parse_digest (Some (JStr (hex h))) = Some h"
  using decode_hex_hex [of h] hex_chars [of _ h] by (simp add: parse_digest_def decode_hex_def byte_len_ascii list_all_iff)

lemma commit_row_facts:
  "rr_target_path (commit_registry_row c i h ts) = Some (canonical_target_sidecar (rc_stem c) (rc_lang c))"
  "rc_kind c = media_kind m \<Longrightarrow> admit_key (commit_registry_row c i h ts) = Some (media_kind m, i, normalize_lang (rc_lang c))"
  "length h = 32 \<Longrightarrow> row_digest_of (rr_extra (commit_registry_row c i h ts)) = Some h"
  "se_status (commit_state_entry c i h ts) = Some (lit ''done'')"
  "rc_kind c = media_kind m \<Longrightarrow> done_key (commit_state_entry c i h ts) = Some (media_kind m, i, normalize_lang (rc_lang c))"
  "length h = 32 \<Longrightarrow> row_digest_of (se_extra (commit_state_entry c i h ts)) = Some h"
  by (auto simp: commit_registry_row_def commit_state_entry_def Let_def admit_key_def done_key_def registry_kind_def
      state_kind_def lang_of_def normalize_lang_idem media_kind_def extra_str_def row_digest_of_def parse_digest_hex
      split: option.split)

lemma commit_verified:
  assumes rows: "target_ledger_rows keys_of ts c h = Some (ident, rrow, srow)"
    and commit: "commit_pair sha lib aliased io (registry_file paths) (state_file paths) ident rrow srow fs = (fs', Inr w)"
    and io: "registry_file paths \<noteq> state_file paths" "openable (registry_io io)" "lines_ok (registry_io io)"
      "openable (state_io io)" "lines_ok (state_io io)"
    and files: "terminated (fs (registry_file paths))" "terminated (fs (state_file paths))"
      "typed_ledger lib rd decode_registry_row (entry_lines (fs (registry_file paths)))"
      "typed_ledger lib rd decode_state_entry (entry_lines (fs (state_file paths)))"
    and json: "row_printed lib rd rrow" "row_printed lib rd srow" "\<And>m. finite (dom m) \<Longrightarrow> iterates keys_of m"
    and target: "rc_kind c = media_kind m" "rc_episode_id c = Some i" "i64_range (Some i)" "length h = 32"
      "d (canonical_target_sidecar (rc_stem c) (rc_lang c)) = Some (DFile bs)" "sha bs = h"
  shows "target_is_verified sha rd paths m i (rc_lang c) fs' d \<noteq> None"
proof -
  let ?r = "commit_registry_row c i h ts" and ?e = "commit_state_entry c i h ts"
  have vals: "rrow = to_value (registry_row_json keys_of ?r)" "srow = to_value (state_entry_json keys_of ?e)"
    using rows target(2) by (auto simp: target_ledger_rows_def)
  have dec: "decode_registry_row rrow = Some ?r" "decode_state_entry srow = Some ?e"
    unfolding vals using committed_rows_decode json(3) target(3) by blast+
  have pl: "prints_line lib rrow" "prints_line lib srow" using json by (simp_all add: row_printed_def)
  note left = commit_pair_recorded [OF commit io pl files(1,2)]
  have typed: "typed_ledger lib rd decode_registry_row (entry_lines (fs' (registry_file paths)))"
      "typed_ledger lib rd decode_state_entry (entry_lines (fs' (state_file paths)))"
    using typed_ledger_grows [OF files(3) _ json(1)] typed_ledger_grows [OF files(4) _ json(2)] left dec by auto
  obtain v r where r: "remove_ts v = remove_ts rrow" "decode_registry_row v = Some r"
      "r \<in> set (load_jsonl rd decode_registry_row (ledger_body (fs' (registry_file paths))))"
    using recorded_loads [OF _ typed(1)] left by blast
  obtain v' e where e: "remove_ts v' = remove_ts srow" "decode_state_entry v' = Some e"
      "e \<in> set (load_jsonl rd decode_state_entry (ledger_body (fs' (state_file paths))))"
    using recorded_loads [OF _ typed(2)] left by blast
  have "admits sha d (load_jsonl rd decode_registry_row (ledger_body (fs' (registry_file paths))))
      (load_jsonl rd decode_state_entry (ledger_body (fs' (state_file paths))))
      (media_kind m, i, normalize_lang (rc_lang c))
      \<lparr>vt_target_path = canonical_target_sidecar (rc_stem c) (rc_lang c), vt_artifact = h\<rparr>"
    unfolding admits_def
    using r(3) e(3) decode_registry_ts [OF r(1,2) dec(1)] decode_state_ts [OF e(1,2) dec(2)] target
    by (intro conjI bexI [of _ r] bexI [of _ e]) (simp_all add: commit_row_facts)
  then show ?thesis unfolding target_is_verified_def by (rule verified_if_admits)
qed

section \<open>Installing and rolling back\<close>

lemma tmp_differs [simp]: "ext \<noteq> '''' \<Longrightarrow> tmp_of p ext \<noteq> p" "ext \<noteq> '''' \<Longrightarrow> p \<noteq> tmp_of p ext"
  by (simp_all add: tmp_of_def)

lemma install_sidecar_Some:
  assumes "install_sidecar sha io target bs d = (d1, Some s)"
  shows "is_target s = target" "is_artifact s = sha bs" "d1 target = Some (DFile bs)" "d target \<noteq> Some DUnreadable"
    "is_previous s = (case d target of Some (DFile p) \<Rightarrow> Some p | _ \<Rightarrow> None)"
    "d1 = d(target \<mapsto> DFile bs, tmp_of target ''.direct.tmp'' := None)"
  using assms by (auto simp: install_sidecar_def Let_def split: if_splits write_result.splits)

lemma rollback_undoes:
  assumes "install_sidecar sha io target bs d = (d1, Some s)"
  shows "rollback_if_unchanged sha \<lparr>rb_tmp_written = Written, rb_renamed = True, rb_removed = True\<rparr> id s d1
      = (d1(target := d target, tmp_of target ''.rollback.tmp'' :=
           (if d target = None then d1 (tmp_of target ''.rollback.tmp'') else None)), Inr ())"
  using install_sidecar_Some [OF assms]
  by (auto simp: rollback_if_unchanged_def Let_def holds_artifact_def fun_upd_twist split: option.splits disk_file.splits)

text \<open>C23: the rollback of an installed subtitle file gives the path back what it held before the
  installation and touches no other file but its temporary one; a file that someone else put in its
  place is left alone, whether it came before the rollback or between its two looks at the
  path.\<close>

theorem rollback_restores:
  assumes "install_sidecar sha io target bs d = (d1, Some s)"
  shows "rollback_if_unchanged sha \<lparr>rb_tmp_written = Written, rb_renamed = True, rb_removed = True\<rparr> id s d1
      = (d1(target := d target, tmp_of target ''.rollback.tmp'' :=
           (if d target = None then d1 (tmp_of target ''.rollback.tmp'') else None)), Inr ())
    \<and> (\<forall>d2 rio meanwhile other. d2 target = Some (DFile other) \<and> sha other \<noteq> sha bs \<longrightarrow>
         rollback_if_unchanged sha rio meanwhile s d2 = (d2, Inr ()))
    \<and> (\<forall>d2 rio meanwhile other. (\<forall>d. meanwhile d target = Some (DFile other)) \<and> sha other \<noteq> sha bs \<longrightarrow>
         fst (rollback_if_unchanged sha rio meanwhile s d2) target \<in> {d2 target, Some (DFile other)})"
proof -
  note s = install_sidecar_Some [OF assms]
  show ?thesis
    unfolding rollback_undoes [OF assms]
    using s by (auto simp: rollback_if_unchanged_def Let_def holds_artifact_def fun_upd_twist
        split: option.splits disk_file.splits write_result.splits if_splits)
qed

theorem rollback_restores_witness:
  "rollback_if_unchanged id \<lparr>rb_tmp_written = Written, rb_renamed = True, rb_removed = True\<rparr> id
     \<lparr>is_target = lit ''t'', is_previous = Some [1], is_artifact = [2]\<rparr> [lit ''t'' \<mapsto> DFile [2]]
   = ([lit ''t'' \<mapsto> DFile [1]], Inr ())"
proof -
  let ?io = "\<lparr>parent_made = True, tmp_written = Written, renamed = True\<rparr>"
  have "install_sidecar id ?io (lit ''t'') [2] [lit ''t'' \<mapsto> DFile [1]]
      = ([lit ''t'' \<mapsto> DFile [2]], Some \<lparr>is_target = lit ''t'', is_previous = Some [1], is_artifact = [2]\<rparr>)"
    by (auto simp: install_sidecar_def tmp_of_def Let_def lit_eval fun_eq_iff)
  from conjunct1 [OF rollback_restores [OF this]] show ?thesis
    by (auto simp: tmp_of_def lit_eval fun_eq_iff)
qed

end
