(* ===== verification/Utf8.thy ===== *)
theory Utf8
  imports Prelude
begin

text \<open>
  \<open>String::from_utf8\<close>: the decoder of the standard library, which takes exactly the shortest
  encodings of the Unicode scalar values.
\<close>

text \<open>The six bits of a continuation byte.\<close>

definition cont :: "byte \<Rightarrow> nat option" where
  "cont b = (if 0x80 \<le> unat b \<and> unat b < 0xc0 then Some (unat b - 0x80) else None)"

definition is_scalar :: "nat \<Rightarrow> bool" where
  "is_scalar c \<longleftrightarrow> c < 0xd800 \<or> (0xe000 \<le> c \<and> c < 0x110000)"

fun decode_utf8 :: "bytes \<Rightarrow> ustr option" where
  "decode_utf8 [] = Some []"
| "decode_utf8 (a # r) =
     (let x = unat a in
      if x < 0x80 then map_option ((#) x) (decode_utf8 r)
      else if x < 0xc2 then None
      else if x < 0xe0 then
        (case r of
           b # r' \<Rightarrow>
             (case cont b of None \<Rightarrow> None | Some p \<Rightarrow> map_option ((#) ((x - 0xc0) * 64 + p)) (decode_utf8 r'))
         | _ \<Rightarrow> None)
      else if x < 0xf0 then
        (case r of
           b # c # r' \<Rightarrow>
             (case (cont b, cont c) of
                (Some p, Some q) \<Rightarrow>
                  (let v = (x - 0xe0) * 4096 + p * 64 + q
                   in if v < 0x800 \<or> \<not> is_scalar v then None else map_option ((#) v) (decode_utf8 r'))
              | _ \<Rightarrow> None)
         | _ \<Rightarrow> None)
      else if x < 0xf5 then
        (case r of
           b # c # d # r' \<Rightarrow>
             (case (cont b, cont c, cont d) of
                (Some p, Some q, Some s) \<Rightarrow>
                  (let v = (x - 0xf0) * 262144 + p * 4096 + q * 64 + s
                   in if v < 0x10000 \<or> \<not> is_scalar v then None else map_option ((#) v) (decode_utf8 r'))
              | _ \<Rightarrow> None)
         | _ \<Rightarrow> None)
      else None)"

declare decode_utf8.simps(2) [simp del]

lemma unat_byte: "n < 256 \<Longrightarrow> unat (of_nat n :: byte) = n"
  by (simp add: unsigned_of_nat take_bit_nat_eq_self_iff)

lemma cont_byte: "n < 64 \<Longrightarrow> cont (of_nat (0x80 + n)) = Some n"
  unfolding cont_def by (subst (1 2 3) unat_byte) simp_all

lemma digits64: "(c :: nat) = c div 64 * 64 + c mod 64" "c div 64 = c div 4096 * 64 + c div 64 mod 64"
    "c div 4096 = c div 262144 * 64 + c div 4096 mod 64"
  using div_mult_mod_eq [of c 64] div_mult_mod_eq [of "c div 64" 64] div_mult_mod_eq [of "c div 4096" 64]
  by (simp_all add: div_mult2_eq [symmetric])

lemma decode_utf8_char:
  assumes "is_scalar c"
  shows "decode_utf8 (utf8_char c @ r) = map_option ((#) c) (decode_utf8 r)"
proof -
  have top: "c < 0x110000" using assms by (auto simp: is_scalar_def)
  consider "c < 0x80" | "0x80 \<le> c" "c < 0x800" | "0x800 \<le> c" "c < 0x10000" | "0x10000 \<le> c" by linarith
  then show ?thesis
  proof cases
    case 1
    then show ?thesis by (simp add: utf8_char_def decode_utf8.simps(2) unat_byte Let_def)
  next
    case 2
    then have h: "2 \<le> c div 64" "c div 64 < 32" by simp_all
    then have x: "unat (of_nat (0xc0 + c div 64) :: byte) = 0xc0 + c div 64" by (intro unat_byte) simp
    have "(0xc0 + c div 64 - 0xc0) * 64 + c mod 64 = c" using digits64(1) [of c] by simp
    with 2 h show ?thesis
      by (simp add: utf8_char_def decode_utf8.simps(2) x cont_byte Let_def del: of_nat_add)
  next
    case 3
    then have h: "c div 4096 < 16" by simp
    then have x: "unat (of_nat (0xe0 + c div 4096) :: byte) = 0xe0 + c div 4096" by (intro unat_byte) simp
    have "(0xe0 + c div 4096 - 0xe0) * 4096 + c div 64 mod 64 * 64 + c mod 64 = c"
      unfolding add_diff_cancel_left' using digits64(1,2) [of c] by linarith
    with 3 h assms show ?thesis
      by (simp add: utf8_char_def decode_utf8.simps(2) x cont_byte Let_def del: of_nat_add)
  next
    case 4
    then have h: "c div 262144 < 5" using top by simp
    then have x: "unat (of_nat (0xf0 + c div 262144) :: byte) = 0xf0 + c div 262144" by (intro unat_byte) simp
    have "(0xf0 + c div 262144 - 0xf0) * 262144 + c div 4096 mod 64 * 4096 + c div 64 mod 64 * 64 + c mod 64 = c"
      unfolding add_diff_cancel_left' using digits64 [of c] by linarith
    with 4 h assms show ?thesis
      by (simp add: utf8_char_def decode_utf8.simps(2) x cont_byte Let_def del: of_nat_add)
  qed
qed

lemma decode_utf8_utf8: "\<forall>c \<in> set s. is_scalar c \<Longrightarrow> decode_utf8 (utf8 s) = Some s"
  by (induction s) (simp_all add: utf8_Cons decode_utf8_char)


end
