(* ===== verification/Ladder.thy ===== *)
theory Ladder
  imports Asr Targets Utf8 "HOL-Library.AList"
begin

text \<open>
  \<open>src/jimaku.rs\<close> and \<open>src/ladder.rs\<close>: the shape and the choice of what the subtitle site answers, the
  title cache, the ranking of files, and the ladder of cheap sources (a subtitle file beside the
  media, else the site) with its adequacy gate and its retry cooldown. The network, the conversion of
  a subtitle file by the media tool and the outcome of a write are parameters; the temporary files of
  a download are not part of the disk.
\<close>

section \<open>What the site answers\<close>

definition jimaku_base_url :: ustr where "jimaku_base_url = lit ''https://jimaku.cc/api''"

datatype JimakuError = RequestFailed | RateLimited ustr | HttpError nat | BadJson | UnexpectedShape

datatype jimaku_reply = JTransport | JReply nat ustr "bytes option"

definition as_list :: "json \<Rightarrow> json list option" where
  "as_list v =
     (case first_some (as_array v) (Option.bind (json_get (lit ''entries'') v) as_array) of
        None \<Rightarrow> None
      | Some xs \<Rightarrow> Some (filter is_object xs))"

text \<open>The second field of a reply is the delay the rate limit asks for; a body that breaks off is
  missing. The reader of JSON bytes is a parameter.\<close>

definition get_json :: "(bytes \<Rightarrow> json option) \<Rightarrow> jimaku_reply \<Rightarrow> JimakuError + json list" where
  "get_json slice_json ans =
     (case ans of
        JTransport \<Rightarrow> Inl RequestFailed
      | JReply code delay body \<Rightarrow>
          if code = 429 then Inl (RateLimited delay)
          else case body of None \<Rightarrow> Inl RequestFailed | Some bs \<Rightarrow>
            if \<not> (200 \<le> code \<and> code < 300) then Inl (HttpError code)
            else case slice_json bs of None \<Rightarrow> Inl BadJson | Some v \<Rightarrow>
              (case as_list v of None \<Rightarrow> Inl UnexpectedShape | Some xs \<Rightarrow> Inr xs))"

text \<open>An entry's id is a number, or a string that parses as a signed 64-bit integer.\<close>

definition parse_i64 :: "ustr \<Rightarrow> int option" where
  "parse_i64 s =
     (case s of
        [] \<Rightarrow> None
      | c # ds \<Rightarrow>
          if c = 45 then (if ds = [] then None else case digits_val 0 ds of None \<Rightarrow> None
             | Some n \<Rightarrow> if n \<le> 2 ^ 63 then Some (- int n) else None)
          else (let ds' = (if c = 43 then ds else s) in
             if ds' = [] then None else case digits_val 0 ds' of None \<Rightarrow> None
             | Some n \<Rightarrow> if n < 2 ^ 63 then Some (int n) else None))"

definition entry_anilist_id :: "json \<Rightarrow> int option" where
  "entry_anilist_id e =
     (case json_get (lit ''anilist_id'') e of
        Some (JStr s) \<Rightarrow> parse_i64 s
      | Some v \<Rightarrow> as_i64 v
      | None \<Rightarrow> None)"

definition pick_entry :: "json list \<Rightarrow> int \<Rightarrow> json option" where
  "pick_entry entries anilist_id =
     (if entries = [] then None
      else first_some (find (\<lambda>e. entry_anilist_id e = Some anilist_id) entries) (Some (hd entries)))"

section \<open>The title cache\<close>

definition lowercase :: "ustr \<Rightarrow> ustr" where
  "lowercase s = concat (map lower_char s)"

definition key_char :: "uchar \<Rightarrow> uchar option" where
  "key_char c = (if c = 0xd7 then Some 120 else if c = 0x30fb \<or> c = 58 then Some sp else if c = 39 then None else Some c)"

definition anilist_cache_key :: "ustr \<Rightarrow> ustr" where
  "anilist_cache_key name = List.map_filter key_char (join [sp] (split_ws (lowercase (trim name))))"

type_synonym anilist_cache = "(ustr \<times> json) list"

definition cached_media_id :: "anilist_cache option \<Rightarrow> ustr \<Rightarrow> int option" where
  "cached_media_id cache key =
     (case Option.bind (Option.bind cache (\<lambda>c. map_of c key)) (json_get (lit ''media_id'')) of
        None \<Rightarrow> None
      | Some v \<Rightarrow> (case as_i64 v of Some i \<Rightarrow> if 0 < i then Some i else None | None \<Rightarrow> None))"

fun object_members :: "json \<Rightarrow> (ustr \<times> json) list" where
  "object_members (JObj ms) = ms"
| "object_members _ = []"

text \<open>The merge reads the cache again and keeps the other fields of an entry.\<close>

definition merge_media_id :: "ustr \<Rightarrow> ustr \<Rightarrow> int \<Rightarrow> json \<Rightarrow> anilist_cache option \<Rightarrow> anilist_cache" where
  "merge_media_id ts key mid media cache =
     (let c = (case cache of Some c \<Rightarrow> c | None \<Rightarrow> []);
          old = (case map_of c key of Some v \<Rightarrow> object_members v | None \<Rightarrow> []);
          romaji = (case Option.bind (get_path ''title'' ''romaji'' media) as_str of Some s \<Rightarrow> s | None \<Rightarrow> []);
          merged = AList.update (lit ''title_romaji'') (JStr romaji)
            (AList.update (lit ''fetched_at'') (JStr ts) (AList.update (lit ''media_id'') (JInt mid) old))
      in AList.update key (JObj merged) c)"

text \<open>\<open>answer\<close> is the body the query service gives for a title, \<open>meanwhile\<close> the cache as the merge finds it.\<close>

definition resolve_anilist_id ::
    "(ustr \<Rightarrow> json option) \<Rightarrow> ustr \<Rightarrow> (anilist_cache option \<Rightarrow> anilist_cache option) \<Rightarrow> bool \<Rightarrow> ustr \<Rightarrow> anilist_cache option
      \<Rightarrow> anilist_cache option \<times> int option" where
  "resolve_anilist_id answer ts meanwhile saved title0 cache =
     (let name = trim title0; key = anilist_cache_key name in
      if name = [] then (cache, None)
      else case cached_media_id cache key of
          Some mid \<Rightarrow> (cache, Some mid)
        | None \<Rightarrow>
            (case Option.bind (answer (map (\<lambda>c. if c = 0xd7 then 120 else c) name)) (get_path ''data'' ''Media'') of
               None \<Rightarrow> (cache, None)
             | Some media \<Rightarrow>
                 (case Option.bind (json_get (lit ''id'') media) as_i64 of
                    None \<Rightarrow> (cache, None)
                  | Some mid \<Rightarrow>
                      if mid \<le> 0 then (cache, None)
                      else (let c = meanwhile cache in
                        (if saved then Some (merge_media_id ts key mid media c) else c, Some mid)))))"

section \<open>Ranking files\<close>

definition path_parts :: "ustr \<Rightarrow> ustr list" where
  "path_parts p = filter (\<lambda>c. c \<noteq> [] \<and> c \<noteq> lit ''.'') (split_str (lit ''/'') p)"

definition file_name :: "ustr \<Rightarrow> ustr option" where
  "file_name p = (if path_parts p = [] \<or> last (path_parts p) = lit ''..'' then None else Some (last (path_parts p)))"

text \<open>\<open>Path::extension\<close>: what follows the last dot of the file name, unless nothing precedes it.\<close>

definition extension :: "ustr \<Rightarrow> ustr option" where
  "extension p = Option.bind (file_name p)
     (\<lambda>n. case rfind_char 46 n of None \<Rightarrow> None | Some 0 \<Rightarrow> None | Some i \<Rightarrow> Some (drop (Suc i) n))"

definition ext_of :: "ustr \<Rightarrow> ustr" where
  "ext_of name = (case extension name of Some e \<Rightarrow> lowercase e | None \<Rightarrow> [])"

definition sep_alnum :: "uchar \<Rightarrow> uchar" where
  "sep_alnum c = (if is_ascii_alnum c then c else sp)"

text \<open>The tokens are the maximal runs of ASCII letters and digits.\<close>

definition tokens :: "ustr \<Rightarrow> ustr list" where
  "tokens s = split_ws (map sep_alnum s)"

definition ep_tag_at :: "ustr \<Rightarrow> bool" where
  "ep_tag_at w \<longleftrightarrow> (case w of
      a # b # c # d # e # f # _ \<Rightarrow>
        a = 115 \<and> is_ascii_digit b \<and> is_ascii_digit c \<and> d = 101 \<and> is_ascii_digit e \<and> is_ascii_digit f
    | _ \<Rightarrow> False)"

fun has_ep_tag :: "ustr \<Rightarrow> bool" where
  "has_ep_tag [] = False"
| "has_ep_tag (c # cs) \<longleftrightarrow> ep_tag_at (c # cs) \<or> has_ep_tag cs"

definition has_token :: "string list \<Rightarrow> ustr \<Rightarrow> bool" where
  "has_token ts lower \<longleftrightarrow> list_ex (\<lambda>t. lit t \<in> set (tokens lower)) ts"

definition sub_name :: "json \<Rightarrow> ustr" where
  "sub_name f = (case Option.bind (json_get (lit ''name'') f) as_str of Some n \<Rightarrow> n | None \<Rightarrow> [])"

definition subtitle_file :: "json \<Rightarrow> bool" where
  "subtitle_file f \<longleftrightarrow> ext_of (sub_name f) \<in> {lit ''srt'', lit ''ass'', lit ''ssa''}"

definition bilingual :: "json \<Rightarrow> bool" where
  "bilingual f \<longleftrightarrow> has_token [''chs'', ''cht'', ''big5''] (lowercase (sub_name f))"

definition file_score :: "json \<Rightarrow> int" where
  "file_score f =
     (let lower = lowercase (sub_name f) in
      (if ext_of (sub_name f) = lit ''srt'' then 3 else 1)
      + (if has_token [''varyg'', ''cr''] lower then 4 else 0)
      + (if has_ep_tag lower then 4 else 0)
      + (if has_token [''kitaujisub'', ''kitauji'', ''lolihouse'', ''nanakoraws''] lower then 2 else 0)
      - (if bilingual f then 14 else 0))"

definition rank_files :: "json list \<Rightarrow> json list" where
  "rank_files files = sort_key (\<lambda>f. - file_score f) (filter subtitle_file files)"

section \<open>The ladder\<close>

datatype LadderSource = SidecarSource | JimakuSource

record LadderHit =
  lh_cues :: "cue list"
  lh_src_lang :: ustr
  lh_source :: ustr
  lh_source_kind :: "ustr option"
  lh_generation :: LadderSource

record LadderQuery =
  lq_stem :: ustr
  lq_target :: ustr
  lq_series_title :: ustr
  lq_season :: "int option"
  lq_episode :: int
  lq_is_movie :: bool
  lq_duration_s :: "f64 option"

record ladder_cfg =
  ladder_min_cues :: nat
  ladder_min_chars :: nat
  ladder_min_cjk :: f64
  ladder_span_tol :: f64
  jimaku_direct_enabled :: bool
  jimaku_enabled :: bool

definition cue_chars :: "cue list \<Rightarrow> ustr" where
  "cue_chars cues = concat (map cue_text cues)"

definition span_ok :: "ladder_cfg \<Rightarrow> cue list \<Rightarrow> f64 option \<Rightarrow> bool" where
  "span_ok cfg cues duration_s =
     (case duration_s of None \<Rightarrow> True | Some dur \<Rightarrow>
        if cues = [] \<or> \<not> 0 < dur then True
        else let s = f64_div (of_count (unat (sat_sub (end_ms (last cues)) (start_ms (hd cues))))) 1000;
                 tol = ladder_span_tol cfg
             in \<not> (s < f64_mul dur (f64_round (1 - tol)) \<or> f64_mul dur (f64_round (1 + tol)) < s))"

definition adequate :: "ladder_cfg \<Rightarrow> cue list \<Rightarrow> ustr \<Rightarrow> f64 option \<Rightarrow> bool" where
  "adequate cfg cues src_lang duration_s =
     (if length cues < ladder_min_cues cfg then False
      else if length (cue_chars cues) < ladder_min_chars cfg then False
      else if normalize_lang src_lang = lit ''ja''
           \<and> (let cjk = length (filter is_cjk (cue_chars cues));
                  total' = length (filter (\<lambda>c. \<not> is_ws c) (cue_chars cues))
              in 0 < total' \<and> f64_div (of_count cjk) (of_count total') < ladder_min_cjk cfg)
      then False
      else span_ok cfg cues duration_s)"

definition read_to_string :: "disk \<Rightarrow> ustr \<Rightarrow> ustr option" where
  "read_to_string d p = (case d p of Some (DFile bs) \<Rightarrow> decode_utf8 bs | _ \<Rightarrow> None)"

text \<open>The cues a file offers: adequate as they stand, and not all of them the provenance marker.\<close>

definition offered :: "ladder_cfg \<Rightarrow> ustr \<Rightarrow> f64 option \<Rightarrow> ustr \<Rightarrow> cue list option" where
  "offered cfg src duration_s body =
     (let cues = parse_srt body in
      if \<not> adequate cfg cues src duration_s then None
      else if strip_marker cues = [] then None
      else Some (strip_marker cues))"

definition sidecar_hit :: "ustr \<Rightarrow> cue list \<Rightarrow> LadderHit" where
  "sidecar_hit src cues =
     (let l = (if normalize_lang src = lit ''en'' then lit ''en'' else lit ''ja'')
      in \<lparr>lh_cues = cues, lh_src_lang = l, lh_source = (if l = lit ''en'' then lit ''eng'' else lit ''jpn''),
          lh_source_kind = Some (lit ''external''), lh_generation = SidecarSource\<rparr>)"

fun first_sidecar :: "ladder_cfg \<Rightarrow> disk \<Rightarrow> f64 option \<Rightarrow> (ustr \<times> ustr) list \<Rightarrow> LadderHit option" where
  "first_sidecar cfg d duration_s [] = None"
| "first_sidecar cfg d duration_s ((src, p) # ps) =
     (case Option.bind (read_to_string d p) (offered cfg src duration_s) of
        Some cues \<Rightarrow> Some (sidecar_hit src cues)
      | None \<Rightarrow> first_sidecar cfg d duration_s ps)"

definition ladder_langs :: "ustr \<Rightarrow> ustr list" where
  "ladder_langs target = (if normalize_lang target = lit ''en'' then [lit ''ja'', lit ''en''] else [lit ''ja''])"

definition ladder_candidates :: "LadderQuery \<Rightarrow> (ustr \<times> ustr) list" where
  "ladder_candidates q = concat (map (\<lambda>src. map (Pair src) (sidecar_paths (lq_stem q) src)) (ladder_langs (lq_target q)))"

definition JIMAKU_RETRY_COOLDOWN :: nat where "JIMAKU_RETRY_COOLDOWN = 24 * 3600 * 1000"

text \<open>Instants are milliseconds of the monotonic clock; an instant before the last one counts as no time
  elapsed.\<close>

definition jimaku_retry_due :: "nat option \<Rightarrow> nat \<Rightarrow> bool" where
  "jimaku_retry_due last_try now = (case last_try of None \<Rightarrow> True | Some t \<Rightarrow> JIMAKU_RETRY_COOLDOWN \<le> now - t)"

record jimaku_env =
  anilist_id_of :: "ustr \<Rightarrow> int option"
  search_entries :: "int \<Rightarrow> JimakuError + json list"
  list_files :: "int \<Rightarrow> int \<Rightarrow> JimakuError + json list"
  downloads :: "ustr \<Rightarrow> bytes option"
  converts :: "bytes \<Rightarrow> bytes option"
  persists :: bool

definition chosen_entry :: "jimaku_env \<Rightarrow> ustr \<Rightarrow> int option" where
  "chosen_entry env name =
     (case anilist_id_of env name of None \<Rightarrow> None | Some aid \<Rightarrow>
      (case search_entries env aid of Inl _ \<Rightarrow> None
       | Inr es \<Rightarrow> Option.bind (Option.bind (pick_entry es aid) (json_get (lit ''id''))) as_i64))"

text \<open>The text of the best file, converted when its name asks for it. The name counts as the temporary
  file sees it.\<close>

definition best_text :: "jimaku_env \<Rightarrow> int \<Rightarrow> int \<Rightarrow> ustr option" where
  "best_text env eid ep =
     (case list_files env eid ep of Inl _ \<Rightarrow> None | Inr fs \<Rightarrow>
      (case rank_files fs of [] \<Rightarrow> None | best # _ \<Rightarrow>
       (case Option.bind (json_get (lit ''url'') best) as_str of None \<Rightarrow> None | Some url \<Rightarrow>
         (let shown = (case Option.bind (json_get (lit ''name'') best) as_str of Some n \<Rightarrow> n | None \<Rightarrow> lit ''sub.srt'');
              base = (case file_name shown of Some n \<Rightarrow> n | None \<Rightarrow> lit ''sub.srt'')
          in case downloads env url of None \<Rightarrow> None | Some bs \<Rightarrow>
             Option.bind
               (if ext_of (lit ''jimaku-'' @ base) \<in> {lit ''ass'', lit ''ssa''} then converts env bs else Some bs)
               decode_utf8))))"

definition jimaku_dest :: "ustr \<Rightarrow> ustr" where
  "jimaku_dest stem = stem @ lit ''.ja.hi.srt''"

record ladder_state =
  ls_disk :: disk
  ls_tried :: "ustr \<rightharpoonup> nat"

definition jimaku_candidate ::
    "ladder_cfg \<Rightarrow> jimaku_env \<Rightarrow> nat \<Rightarrow> LadderQuery \<Rightarrow> ladder_state \<Rightarrow> ladder_state \<times> LadderHit option" where
  "jimaku_candidate cfg env now q s =
     (if \<not> jimaku_retry_due (ls_tried s (lq_stem q)) now then (s, None)
      else let s1 = s\<lparr>ls_tried := (ls_tried s)(lq_stem q \<mapsto> now)\<rparr> in
        case Option.bind (chosen_entry env (lq_series_title q)) (\<lambda>eid. best_text env eid (lq_episode q)) of
          None \<Rightarrow> (s1, None)
        | Some body \<Rightarrow>
            (case offered cfg (lit ''ja'') (lq_duration_s q) body of
               None \<Rightarrow> (s1, None)
             | Some cues \<Rightarrow>
                 (let dest = jimaku_dest (lq_stem q);
                      d = ls_disk s1;
                      d' = (if d dest = None \<and> persists env then d(dest \<mapsto> DFile (utf8 (write_srt cues False 0))) else d)
                  in (s1\<lparr>ls_disk := d'\<rparr>,
                      Some \<lparr>lh_cues = cues, lh_src_lang = lit ''ja'', lh_source = lit ''jpn'',
                            lh_source_kind = Some (lit ''external''), lh_generation = JimakuSource\<rparr>))))"

definition ladder_source ::
    "ladder_cfg \<Rightarrow> jimaku_env \<Rightarrow> nat \<Rightarrow> LadderQuery \<Rightarrow> ladder_state \<Rightarrow> ladder_state \<times> LadderHit option" where
  "ladder_source cfg env now q s =
     (case first_sidecar cfg (ls_disk s) (lq_duration_s q) (ladder_candidates q) of
        Some h \<Rightarrow> (s, Some h)
      | None \<Rightarrow>
          if \<not> lq_is_movie q \<and> jimaku_direct_enabled cfg \<and> jimaku_enabled cfg \<and> 0 < lq_episode q
             \<and> lq_series_title q \<noteq> [] \<and> lq_series_title q \<noteq> lit ''?''
          then jimaku_candidate cfg env now q s else (s, None))"

section \<open>Properties\<close>

lemma bilingual_scores: "subtitle_file f \<Longrightarrow> bilingual f \<Longrightarrow> file_score f < 0"
  by (simp add: file_score_def Let_def)

lemma other_scores: "\<not> bilingual f \<Longrightarrow> 0 < file_score f"
  by (simp add: file_score_def Let_def)

lemma sorted_split:
  "sorted (map f xs) \<Longrightarrow> (\<And>x y. x \<in> set xs \<Longrightarrow> y \<in> set xs \<Longrightarrow> \<not> P x \<Longrightarrow> P y \<Longrightarrow> f x < f y)
     \<Longrightarrow> xs = filter (\<lambda>x. \<not> P x) xs @ filter P xs"
proof (induction xs)
  case (Cons x xs)
  then have ih: "xs = filter (\<lambda>x. \<not> P x) xs @ filter P xs" by simp
  show ?case
  proof (cases "P x")
    case True
    have "P y" if "y \<in> set xs" for y
      using Cons.prems(1) Cons.prems(2) [of y x] that True by fastforce
    with True show ?thesis by (simp add: filter_False filter_True)
  next
    case False
    with ih show ?thesis by simp
  qed
qed simp

text \<open>The ranking keeps exactly the subtitle files, best score first and ties in the order the site
  lists them, and every file tagged as a Chinese bilingual comes after all the others, whatever else
  speaks for it.\<close>

theorem rank_files_bilingual_last:
  "mset (rank_files files) = mset (filter subtitle_file files)
   \<and> rank_files files = filter (\<lambda>f. \<not> bilingual f) (rank_files files) @ filter bilingual (rank_files files)
   \<and> sorted_wrt (\<lambda>f g. file_score g \<le> file_score f) (rank_files files)"
proof -
  have sorted: "sorted (map (\<lambda>f. - file_score f) (rank_files files))"
    unfolding rank_files_def by (rule sorted_sort_key)
  have "\<forall>f \<in> set (rank_files files). subtitle_file f" by (simp add: rank_files_def)
  then have "rank_files files = filter (\<lambda>f. \<not> bilingual f) (rank_files files) @ filter bilingual (rank_files files)"
    using bilingual_scores other_scores by (intro sorted_split [OF sorted]) (meson neg_less_iff_less less_trans)
  moreover have "sorted_wrt (\<lambda>f g. file_score g \<le> file_score f) (rank_files files)"
    using sorted by (simp add: sorted_map)
  ultimately show ?thesis by (simp add: rank_files_def)
qed

lemma first_sidecar_Some:
  "first_sidecar cfg d dur ps = Some h \<Longrightarrow>
     \<exists>src p body cues. (src, p) \<in> set ps \<and> read_to_string d p = Some body \<and> offered cfg src dur body = Some cues
       \<and> h = sidecar_hit src cues"
  by (induction ps) (auto split: option.splits bind_splits, blast+)

lemma offered_Some:
  "offered cfg src dur body = Some cues \<Longrightarrow>
     cues = strip_marker (parse_srt body) \<and> cues \<noteq> [] \<and> adequate cfg (parse_srt body) src dur"
  by (auto simp: offered_def Let_def split: if_splits)

text \<open>Where a hit may come from: a file beside the media as it is on disk, or a text of the site.\<close>

definition hit_from :: "ladder_cfg \<Rightarrow> jimaku_env \<Rightarrow> LadderQuery \<Rightarrow> disk \<Rightarrow> LadderHit \<Rightarrow> bool" where
  "hit_from cfg env q d h \<longleftrightarrow>
     (\<exists>body. lh_cues h = strip_marker (parse_srt body) \<and> adequate cfg (parse_srt body) (lh_src_lang h) (lq_duration_s q)
        \<and> (case lh_generation h of
             SidecarSource \<Rightarrow> \<exists>p \<in> set (sidecar_paths (lq_stem q) (lh_src_lang h)). read_to_string d p = Some body
           | JimakuSource \<Rightarrow> \<not> lq_is_movie q \<and> lh_src_lang h = lit ''ja''
               \<and> (\<exists>eid. chosen_entry env (lq_series_title q) = Some eid \<and> best_text env eid (lq_episode q) = Some body)))"

lemma ladder_lang_codes: "normalize_lang (lit ''ja'') = lit ''ja''" "normalize_lang (lit ''en'') = lit ''en''"
  by (rule normalize_wire_code; simp add: wire_codes_raw WIRE_ACCEPTED_LANGS_raw_def)+

lemma ladder_langs_cases: "src \<in> set (ladder_langs target) \<Longrightarrow>
    src = lit ''ja'' \<or> src = lit ''en'' \<and> normalize_lang target = lit ''en''"
  by (auto simp: ladder_langs_def split: if_splits)

text \<open>A hit of the ladder is a non-empty text without the provenance marker that passed the adequacy
  gate in the language it is labelled with, Japanese or, for an English target only, English; it comes
  from a file beside the media or, for an episode, from the site, and the only change to the disk is
  that the site's text may be kept where there was no file.\<close>

theorem ladder_hit_sound:
  assumes "ladder_source cfg env now q s = (s', Some h)"
  shows "hit_from cfg env q (ls_disk s) h \<and> lh_cues h \<noteq> [] \<and> list_all (\<lambda>c. \<not> has_ai_marker_text (cue_text c)) (lh_cues h)
    \<and> (lh_src_lang h, lh_source h) \<in> {(lit ''ja'', lit ''jpn''), (lit ''en'', lit ''eng'')}
    \<and> (lh_src_lang h = lit ''en'' \<longrightarrow> normalize_lang (lq_target q) = lit ''en'')
    \<and> ls_disk s' \<in> {ls_disk s, (ls_disk s)(jimaku_dest (lq_stem q) \<mapsto> DFile (utf8 (write_srt (lh_cues h) False 0)))}
    \<and> (ls_disk s' = ls_disk s \<or> ls_disk s (jimaku_dest (lq_stem q)) = None)"
proof (cases "first_sidecar cfg (ls_disk s) (lq_duration_s q) (ladder_candidates q)")
  case (Some h')
  then have h: "h' = h" "s' = s" using assms by (simp_all add: ladder_source_def)
  obtain src p body cues where f: "(src, p) \<in> set (ladder_candidates q)" "read_to_string (ls_disk s) p = Some body"
      "offered cfg src (lq_duration_s q) body = Some cues" "h = sidecar_hit src cues"
    using first_sidecar_Some [OF Some] h by blast
  then have src: "src \<in> set (ladder_langs (lq_target q))" "p \<in> set (sidecar_paths (lq_stem q) src)"
    by (auto simp: ladder_candidates_def)
  note c = offered_Some [OF f(3)] and l = ladder_langs_cases [OF src(1)]
  have lang: "lh_src_lang h = src" using l ladder_lang_codes by (auto simp: f(4) sidecar_hit_def Let_def)
  have "hit_from cfg env q (ls_disk s) h"
    unfolding hit_from_def lang using c src(2) f(2) by (auto simp: f(4) sidecar_hit_def Let_def)
  moreover have "lh_cues h = cues" by (simp add: f(4) sidecar_hit_def Let_def)
  moreover have "(lh_src_lang h, lh_source h) \<in> {(lit ''ja'', lit ''jpn''), (lit ''en'', lit ''eng'')}"
    by (simp add: f(4) sidecar_hit_def Let_def)
  ultimately show ?thesis using c l h(2) lang by (auto simp: strip_marker_def list_all_iff)
next
  case None
  with assms have series: "\<not> lq_is_movie q" and cand: "jimaku_candidate cfg env now q s = (s', Some h)"
    by (auto simp: ladder_source_def split: if_splits)
  let ?dest = "jimaku_dest (lq_stem q)"
  from cand obtain eid body cues where f: "chosen_entry env (lq_series_title q) = Some eid"
      "best_text env eid (lq_episode q) = Some body" "offered cfg (lit ''ja'') (lq_duration_s q) body = Some cues"
      and h: "lh_cues h = cues" "lh_src_lang h = lit ''ja''" "lh_source h = lit ''jpn''" "lh_generation h = JimakuSource"
      and d: "ls_disk s' = (if ls_disk s ?dest = None \<and> persists env
        then (ls_disk s)(?dest \<mapsto> DFile (utf8 (write_srt cues False 0))) else ls_disk s)"
    by (auto simp: jimaku_candidate_def Let_def split: if_splits option.splits bind_splits)
  note c = offered_Some [OF f(3)]
  have "hit_from cfg env q (ls_disk s) h" unfolding hit_from_def using f series h c by auto
  with c h d show ?thesis by (auto simp: strip_marker_def list_all_iff)
qed

text \<open>What the site would answer makes a difference only when a day has passed since the last attempt
  for the same file, and then the attempt is recorded: there are never two attempts within a
  day.\<close>

theorem jimaku_attempts_spaced:
  assumes "ladder_source cfg env now q s \<noteq> ladder_source cfg env' now q s"
  shows "(case ls_tried s (lq_stem q) of None \<Rightarrow> True | Some t \<Rightarrow> t + 24 * 3600 * 1000 \<le> now)
    \<and> ls_tried (fst (ladder_source cfg env now q s)) (lq_stem q) = Some now"
proof -
  have due: "jimaku_retry_due (ls_tried s (lq_stem q)) now" and "ladder_source cfg env now q s = jimaku_candidate cfg env now q s"
    using assms by (auto simp: ladder_source_def jimaku_candidate_def split: option.splits if_splits)
  moreover have "ls_tried (fst (jimaku_candidate cfg env now q s)) (lq_stem q) = Some now"
    using due by (auto simp: jimaku_candidate_def Let_def split: option.splits)
  ultimately show ?thesis
    by (auto simp: jimaku_retry_due_def JIMAKU_RETRY_COOLDOWN_def split: option.splits)
qed

text \<open>What is written is valid text when the cues are.\<close>

definition scalar_text :: "ustr \<Rightarrow> bool" where
  "scalar_text s \<longleftrightarrow> (\<forall>c \<in> set s. is_scalar c)"

lemma scalar_text_simps [simp]:
  "scalar_text []" "scalar_text (c # s) \<longleftrightarrow> is_scalar c \<and> scalar_text s"
  "scalar_text (s @ t) \<longleftrightarrow> scalar_text s \<and> scalar_text t"
  by (auto simp: scalar_text_def)

lemma scalar_ascii: "c < 0x80 \<Longrightarrow> is_scalar c" by (simp add: is_scalar_def)

lemma scalar_entry: "scalar_text (cue_text c) \<Longrightarrow> scalar_text (srt_entry i c)"
proof -
  assume c: "scalar_text (cue_text c)"
  have "scalar_text (dec i)" using dec_digits [of i] by (auto simp: scalar_text_def is_ascii_digit_def scalar_ascii)
  moreover have "scalar_text (fmt_ts t)" for t
    using fmt_ts_chars [of t] by (auto simp: scalar_text_def ts_char_def is_ascii_digit_def scalar_ascii)
  ultimately show ?thesis using c by (simp add: srt_entry_def lit_eval is_scalar_def)
qed

lemma scalar_entries: "\<forall>c \<in> set cues. scalar_text (cue_text c) \<Longrightarrow> scalar_text (srt_entries i cues)"
  by (induction cues arbitrary: i) (simp_all add: scalar_entry)

lemma scalar_written: "\<forall>c \<in> set cues. scalar_text (cue_text c) \<Longrightarrow> scalar_text (write_srt cues marker ms)"
proof -
  have "scalar_text AI_MARKER" by (simp add: AI_MARKER_def lit_eval is_scalar_def)
  moreover assume "\<forall>c \<in> set cues. scalar_text (cue_text c)"
  ultimately show ?thesis by (simp add: write_srt_def scalar_entry scalar_entries Cue_new_def)
qed

section \<open>Witnesses\<close>

definition open_cfg :: ladder_cfg where
  "open_cfg = \<lparr>ladder_min_cues = 1, ladder_min_chars = 1, ladder_min_cjk = 0, ladder_span_tol = 1 / 2,
     jimaku_direct_enabled = True, jimaku_enabled = True\<rparr>"

definition one_cue :: "cue list" where
  "one_cue = [Cue_new 0 1000 (lit ''A'')]"

definition site :: "int option \<Rightarrow> jimaku_env" where
  "site aid = \<lparr>anilist_id_of = (\<lambda>_. aid), search_entries = (\<lambda>_. Inr [JObj [(lit ''id'', JInt 5)]]),
     list_files = (\<lambda>_ _. Inr [JObj [(lit ''name'', JStr (lit ''a.srt'')), (lit ''url'', JStr (lit ''u''))]]),
     downloads = (\<lambda>_. Some (utf8 (write_srt one_cue False 0))), converts = (\<lambda>_. None), persists = True\<rparr>"

definition open_query :: LadderQuery where
  "open_query = \<lparr>lq_stem = lit ''/m/a'', lq_target = lit ''id'', lq_series_title = lit ''T'', lq_season = None, lq_episode = 1,
     lq_is_movie = False, lq_duration_s = None\<rparr>"

definition site_hit :: LadderHit where
  "site_hit = \<lparr>lh_cues = one_cue, lh_src_lang = lit ''ja'', lh_source = lit ''jpn'',
     lh_source_kind = Some (lit ''external''), lh_generation = JimakuSource\<rparr>"

lemma one_cue_offered: "offered open_cfg (lit ''ja'') None (write_srt one_cue False 0) = Some one_cue"
proof -
  have w: "\<forall>c \<in> set one_cue. writable c"
    by (simp add: one_cue_def writable_def Cue_new_def trimmed_def lit_eval is_ws_def)
  then have "parse_srt (write_srt one_cue False 0) = one_cue" by (simp add: write_srt_def parse_srt_entries)
  moreover have "strip_marker one_cue = one_cue"
    by (simp add: strip_marker_def one_cue_def Cue_new_def has_ai_marker_text_def contains_def lit_eval starts_with_def)
  ultimately show ?thesis
    by (simp add: offered_def adequate_def span_ok_def cue_chars_def open_cfg_def one_cue_def Cue_new_def lit_eval
        is_ws_def is_cjk_def is_kana_def in_range_def f64_div_def f64_round_def Let_def)
qed

lemma srt_name: "ext_of (lit ''a.srt'') = lit ''srt''" "file_name (lit ''a.srt'') = Some (lit ''a.srt'')"
  by code_simp+

lemma srt_tmp_name: "ext_of (lit ''jimaku-'' @ lit ''a.srt'') = lit ''srt''"
  by code_simp

lemma one_cue_text: "best_text (site aid) 5 1 = Some (write_srt one_cue False 0)"
proof -
  have "scalar_text (write_srt one_cue False 0)"
    by (rule scalar_written) (simp add: one_cue_def Cue_new_def lit_eval is_scalar_def)
  then have "decode_utf8 (utf8 (write_srt one_cue False 0)) = Some (write_srt one_cue False 0)"
    by (intro decode_utf8_utf8) (simp add: scalar_text_def)
  moreover have "rank_files [JObj [(lit ''name'', JStr (lit ''a.srt'')), (lit ''url'', JStr (lit ''u''))]]
      = [JObj [(lit ''name'', JStr (lit ''a.srt'')), (lit ''url'', JStr (lit ''u''))]]"
    by (simp add: rank_files_def subtitle_file_def sub_name_def srt_name)
  ultimately show ?thesis
    by (simp add: best_text_def site_def srt_name srt_tmp_name Let_def)
qed

lemma site_hits:
  "ladder_source open_cfg (site (Some 9)) now open_query \<lparr>ls_disk = Map.empty, ls_tried = Map.empty\<rparr>
     = (\<lparr>ls_disk = [lit ''/m/a.ja.hi.srt'' \<mapsto> DFile (utf8 (write_srt one_cue False 0))], ls_tried = [lit ''/m/a'' \<mapsto> now]\<rparr>,
        Some site_hit)"
proof -
  have "first_sidecar open_cfg Map.empty None ps = None" for ps
    by (induction ps) (auto simp: read_to_string_def)
  moreover have "chosen_entry (site (Some 9)) t = Some 5" for t
    by (simp add: chosen_entry_def site_def pick_entry_def entry_anilist_id_def first_some_def)
  moreover have "jimaku_dest (lit ''/m/a'') = lit ''/m/a.ja.hi.srt''" by (simp add: jimaku_dest_def lit_eval)
  moreover have "persists (site a)" for a by (simp add: site_def)
  ultimately show ?thesis
    by (simp add: ladder_source_def open_query_def jimaku_candidate_def jimaku_retry_due_def one_cue_text one_cue_offered
        site_hit_def open_cfg_def [THEN arg_cong, of jimaku_direct_enabled] open_cfg_def [THEN arg_cong, of jimaku_enabled]
        Let_def)
qed

lemma site_unknown:
  "snd (ladder_source open_cfg (site None) now open_query \<lparr>ls_disk = Map.empty, ls_tried = Map.empty\<rparr>) = None"
proof -
  have "first_sidecar open_cfg Map.empty None ps = None" for ps
    by (induction ps) (auto simp: read_to_string_def)
  then show ?thesis
    by (simp add: ladder_source_def open_query_def jimaku_candidate_def chosen_entry_def site_def Let_def)
qed

theorem ladder_hit_sound_witness:
  "hit_from open_cfg (site (Some 9)) open_query Map.empty site_hit \<and> lh_cues site_hit \<noteq> []"
  using ladder_hit_sound [OF site_hits [of 0]] by simp

theorem jimaku_attempts_spaced_witness:
  "ls_tried (fst (ladder_source open_cfg (site (Some 9)) 7 open_query \<lparr>ls_disk = Map.empty, ls_tried = Map.empty\<rparr>)) (lit ''/m/a'') = Some 7"
proof -
  have "ladder_source open_cfg (site (Some 9)) 7 open_query \<lparr>ls_disk = Map.empty, ls_tried = Map.empty\<rparr>
      \<noteq> ladder_source open_cfg (site None) 7 open_query \<lparr>ls_disk = Map.empty, ls_tried = Map.empty\<rparr>"
    using site_unknown [of 7] site_hits [of 7] by (metis option.distinct(1) snd_conv)
  from conjunct2 [OF jimaku_attempts_spaced [OF this]] show ?thesis by (simp add: open_query_def)
qed

end
