(* ===== verification/Glossary.thy ===== *)
theory Glossary
  imports Ladder
begin

text \<open>
  \<open>src/glossary.rs\<close>: the per-series glossary and the background block a translation request carries. The
  file is an association list in the iteration order of its hash map; each value is kept as JSON.
\<close>

definition MAX_REFS :: nat where "MAX_REFS = 15"

record GlossaryEntry =
  ge_ja :: ustr
  ge_en :: ustr
  ge_aliases :: "ustr list"
  ge_kind :: ustr

type_synonym glossary = "(ustr \<times> json) list"

text \<open>A file that cannot be read, does not parse or is no object is an empty glossary.\<close>

definition load_glossary :: "(ustr \<Rightarrow> json option) \<Rightarrow> ustr option \<Rightarrow> glossary" where
  "load_glossary parse body =
     (case Option.bind body parse of Some (JObj kvs) \<Rightarrow> kvs | _ \<Rightarrow> [])"

definition norm_key :: "ustr \<Rightarrow> ustr" where
  "norm_key s = join [sp] (split_ws (lowercase (trim s)))"

definition find_key :: "glossary \<Rightarrow> ustr \<Rightarrow> ustr option" where
  "find_key g series =
     (let norm = norm_key series in
      if norm = [] then None
      else first_some (find (\<lambda>k. norm_key k = norm) (map fst g))
             (find (\<lambda>k. contains (norm_key k) norm \<and> norm_key k \<noteq> []) (map fst g)))"

definition glossary_entry :: "json \<Rightarrow> GlossaryEntry option" where
  "glossary_entry e =
     (case (Option.bind (json_get (lit ''ja'') e) as_str, Option.bind (json_get (lit ''en'') e) as_str) of
        (Some ja, Some en) \<Rightarrow>
          if ja = [] \<or> en = [] then None
          else Some \<lparr>ge_ja = ja, ge_en = en,
            ge_aliases = (case Option.bind (json_get (lit ''aliases'') e) as_array of
                Some xs \<Rightarrow> List.map_filter as_str xs | None \<Rightarrow> []),
            ge_kind = (case Option.bind (json_get (lit ''kind'') e) as_str of
                Some k \<Rightarrow> if k \<in> {lit ''character'', lit ''place'', lit ''term''} then k else lit ''character''
              | None \<Rightarrow> lit ''character'')\<rparr>
      | _ \<Rightarrow> None)"

definition legacy_entry :: "ustr \<times> json \<Rightarrow> GlossaryEntry option" where
  "legacy_entry kv =
     (case kv of (ja, v) \<Rightarrow>
      case as_str v of None \<Rightarrow> None | Some en \<Rightarrow>
        if ja = [] \<or> en = [] \<or> ja = lit ''entries'' then None
        else Some \<lparr>ge_ja = ja, ge_en = en, ge_aliases = [], ge_kind = lit ''character''\<rparr>)"

definition entries_from_raw :: "json \<Rightarrow> GlossaryEntry list" where
  "entries_from_raw raw =
     (case Option.bind (json_get (lit ''entries'') raw) as_array of
        Some es \<Rightarrow> List.map_filter glossary_entry es
      | None \<Rightarrow> (case raw of JObj kvs \<Rightarrow> List.map_filter legacy_entry kvs | _ \<Rightarrow> []))"

definition entries_of :: "glossary \<Rightarrow> ustr \<Rightarrow> nat \<Rightarrow> GlossaryEntry list" where
  "entries_of g series max_refs =
     (case Option.bind (find_key g series) (map_of g) of None \<Rightarrow> [] | Some raw \<Rightarrow> take max_refs (entries_from_raw raw))"

definition entry_surfaces :: "GlossaryEntry \<Rightarrow> ustr list" where
  "entry_surfaces e = ge_ja e # ge_en e # ge_aliases e"

definition seen_in :: "ustr \<Rightarrow> GlossaryEntry \<Rightarrow> bool" where
  "seen_in haystack e \<longleftrightarrow> list_ex (\<lambda>s. s \<noteq> [] \<and> contains (lowercase s) haystack) (entry_surfaces e)"

definition matched_entries :: "glossary \<Rightarrow> ustr \<Rightarrow> ustr list \<Rightarrow> nat \<Rightarrow> GlossaryEntry list" where
  "matched_entries g series cue_texts max_refs =
     (let es = entries_of g series max_refs; haystack = lowercase (join [nl] cue_texts) in
      if es = [] \<or> cue_texts = [] then es
      else if trim haystack = [] then es
      else let hits = filter (seen_in haystack) es in if length hits < 3 then es else hits)"

definition entry_line :: "GlossaryEntry \<Rightarrow> ustr" where
  "entry_line e =
     (if ge_aliases e = [] then lit ''- '' @ ge_ja e @ lit '' => '' @ ge_en e @ lit '' ('' @ ge_kind e @ lit '')''
      else lit ''- '' @ ge_ja e @ lit '' => '' @ ge_en e @ lit '' (aliases: '' @ join (lit ''; '') (ge_aliases e)
        @ lit ''; '' @ ge_kind e @ lit '')'')"

definition block_head :: ustr where
  "block_head = lit ''KNOWLEDGE '' @ [0x2014] @ lit '' official names for this series. When a Japanese form below appears (including aliases), translate it as its official English name:''"

definition render_block :: "GlossaryEntry list \<Rightarrow> ustr" where
  "render_block es = (if es = [] then [] else join [nl] (block_head # map entry_line es))"

definition knowledge_block_for_cues :: "glossary \<Rightarrow> ustr \<Rightarrow> ustr list \<Rightarrow> nat \<Rightarrow> ustr" where
  "knowledge_block_for_cues g series cue_texts max_refs = render_block (matched_entries g series cue_texts max_refs)"

section \<open>Properties\<close>

text \<open>The names are cut to the first \<open>max_refs\<close> before they are matched: a name past the cut never
  reaches the block, however often the episode says it.\<close>

lemma matched_within_cut: "set (matched_entries g series cue_texts max_refs) \<subseteq> set (entries_of g series max_refs)"
  by (auto simp: matched_entries_def Let_def)

text \<open>The block of an episode names between one and \<open>max_refs\<close> entries of its series or is empty, each
  in the order of the glossary; when it is cut down to the names the episode says, at least three
  are left, and otherwise it is the whole list.\<close>

theorem matched_entries_bounded:
  "length (matched_entries g series cue_texts max_refs) \<le> max_refs
   \<and> subseq (matched_entries g series cue_texts max_refs) (entries_of g series max_refs)
   \<and> (matched_entries g series cue_texts max_refs = entries_of g series max_refs
      \<or> 3 \<le> length (matched_entries g series cue_texts max_refs)
        \<and> list_all (seen_in (lowercase (join [nl] cue_texts))) (matched_entries g series cue_texts max_refs))"
proof -
  have "length (entries_of g series max_refs) \<le> max_refs"
    by (simp add: entries_of_def split: option.split)
  moreover have "length (filter P xs) \<le> max_refs" if "length xs \<le> max_refs" for P and xs :: "GlossaryEntry list"
    using that length_filter_le le_trans by blast
  ultimately show ?thesis by (auto simp: matched_entries_def Let_def list_all_iff)
qed

end
