(* ===== verification/Episode.thy ===== *)
theory Episode
  imports Glossary "HOL-Library.List_Lexorder"
begin

text \<open>
  \<open>src/episode_target.rs\<close> and \<open>src/episode.rs\<close>: the source of one target (a ladder hit or the episode's
  shared transcription), its translation, and the completion of a target: assembly of the subtitle
  file, installation, upload, the paired ledger commit and the cleanup after a failure. What others
  do to the disk and the ledgers while an upload waits is a function of the two.
\<close>

section \<open>Sources\<close>

record LangWork =
  lw_lang :: ustr
  lw_src_cues :: "cue list"
  lw_src_lang :: ustr
  lw_needs_translate :: bool
  lw_reg_source :: ustr
  lw_reg_kind :: "ustr option"
  lw_src_stream :: "u32 option"
  lw_generation_source :: GenerationSource
  lw_whisper_models :: "ustr list"

datatype SourceFailure = Selection | Transcription AsrError

record source_ctx =
  sc_episode_id :: int
  sc_streams :: "AudioStream list"
  sc_original_lang :: "ustr option"
  sc_media_path :: ustr
  sc_duration_s :: "f64 option"
  sc_bit_rate :: "nat option"
  sc_tmp_dir :: ustr
  sc_max_cue_ms :: u32

type_synonym asr_cache = "ustr \<rightharpoonup> Transcript"

definition ladder_work :: "ustr \<Rightarrow> LadderHit \<Rightarrow> LangWork" where
  "ladder_work lang hit =
     \<lparr>lw_lang = lang, lw_src_cues = lh_cues hit, lw_src_lang = lh_src_lang hit,
      lw_needs_translate = (normalize_lang (lh_src_lang hit) \<noteq> normalize_lang lang),
      lw_reg_source = lh_source hit, lw_reg_kind = lh_source_kind hit, lw_src_stream = None,
      lw_generation_source = (case lh_generation hit of SidecarSource \<Rightarrow> Sidecar | JimakuSource \<Rightarrow> Jimaku),
      lw_whisper_models = []\<rparr>"

definition asr_job :: "source_ctx \<Rightarrow> AudioChoice \<Rightarrow> TranscribeJob" where
  "asr_job ctx choice =
     \<lparr>tj_tmp_dir = sc_tmp_dir ctx, tj_media_path = sc_media_path ctx, tj_choice = choice,
      tj_episode_key = lit ''ep'' @ dec_int (sc_episode_id ctx) @ lit ''_'' @ cache_key choice,
      tj_duration_s = sc_duration_s ctx, tj_audio_bytes = est_audio_bytes (sc_duration_s ctx) (sc_bit_rate ctx),
      tj_max_cue_ms = sc_max_cue_ms ctx\<rparr>"

definition asr_work :: "ustr \<Rightarrow> AudioChoice \<Rightarrow> Transcript \<Rightarrow> LangWork" where
  "asr_work lang choice t =
     \<lparr>lw_lang = lang, lw_src_cues = tr_cues t, lw_src_lang = tr_lang t,
      lw_needs_translate =
        (if wire_pin choice \<noteq> None then needs_translate choice else normalize_lang (tr_lang t) \<noteq> normalize_lang lang),
      lw_reg_source = lit ''asr'', lw_reg_kind = None, lw_src_stream = Some (stream_index choice),
      lw_generation_source = Whisper, lw_whisper_models = Transcript.whisper_models t\<rparr>"

definition source_bundle ::
    "asr_env \<Rightarrow> (nat \<Rightarrow> nat list) \<Rightarrow> ustr \<Rightarrow> LadderHit option \<Rightarrow> source_ctx \<Rightarrow> asr_cache \<Rightarrow> world
      \<Rightarrow> (asr_cache \<times> world) \<times> (SourceFailure + LangWork)" where
  "source_bundle env order lang ladder ctx cache w =
     (case ladder of
        Some hit \<Rightarrow> ((cache, w), Inr (ladder_work lang hit))
      | None \<Rightarrow>
          (case choose_source (sc_streams ctx) lang (sc_original_lang ctx) of
             None \<Rightarrow> ((cache, w), Inl Selection)
           | Some choice \<Rightarrow>
               (case cache (cache_key choice) of
                  Some t \<Rightarrow> ((cache, w), Inr (asr_work lang choice t))
                | None \<Rightarrow>
                    (case transcribe_episode env order (asr_job ctx choice) w of
                       (w', Inl e) \<Rightarrow> ((cache, w'), Inl (Transcription e))
                     | (w', Inr t) \<Rightarrow> ((cache(cache_key choice \<mapsto> t), w'), Inr (asr_work lang choice t))))))"

section \<open>Translation\<close>

record translate_cfg =
  tc_chunk :: nat
  tc_placeholders :: "ustr list"

definition lang_job :: "translate_cfg \<Rightarrow> glossary \<Rightarrow> ustr \<Rightarrow> LangWork \<Rightarrow> TranslateJob" where
  "lang_job cfg g series w =
     (let texts = map cue_text (lw_src_cues w) in
      \<lparr>tj_lines = texts, tj_target_lang = lw_lang w, tj_source_lang = display_name (lw_src_lang w),
       tj_knowledge = (if series = [] \<or> series = lit ''?'' then [] else knowledge_block_for_cues g series texts MAX_REFS),
       tj_chunk_size = tc_chunk cfg, tj_skip_guard = (\<not> needs_foreign_guard (lw_src_lang w)),
       tj_placeholders = tc_placeholders cfg\<rparr>)"

definition translate_lang ::
    "network \<Rightarrow> (nat \<Rightarrow> nat list) \<Rightarrow> bool \<Rightarrow> translate_cfg \<Rightarrow> glossary \<Rightarrow> ustr \<Rightarrow> LangWork \<Rightarrow> world
      \<Rightarrow> TranslateError + TranslationTrace" where
  "translate_lang net order late cfg g series w = translate_lines_with_trace net order late (lang_job cfg g series w)"

section \<open>Completing a target\<close>

record host =
  h_disk :: disk
  h_ledgers :: ledger_fs

record finish_cfg =
  fc_limits :: merge_limits
  fc_ai_marker :: bool
  fc_ai_marker_ms :: u32
  fc_paths :: ledger_paths

text \<open>The outcomes of one completion: each upload attempt's status, the host as others leave it when the
  upload is over, and each file operation.\<close>

record finish_env =
  fe_sha :: "bytes \<Rightarrow> bytes"
  fe_json :: json_lib
  fe_read_row :: "ustr \<Rightarrow> json option"
  fe_iteration :: "extra_fields \<Rightarrow> ustr list"
  fe_path_env :: path_env
  fe_pair_io :: pair_io
  fe_install_io :: install_io
  fe_rollback_io :: rollback_io
  fe_during_rollback :: "disk \<Rightarrow> disk"
  fe_upload :: "nat \<Rightarrow> nat option"
  fe_during_upload :: "host \<Rightarrow> host"
  fe_now :: ustr

record episode_ctx =
  ec_episode_id :: int
  ec_is_movie :: bool
  ec_media_path :: ustr
  ec_stem :: ustr

fun upload_loop :: "(nat \<Rightarrow> nat option) \<Rightarrow> nat \<Rightarrow> nat \<Rightarrow> nat option \<Rightarrow> nat option" where
  "upload_loop send 0 attempt code = code"
| "upload_loop send (Suc k) attempt code =
     (case send attempt of
        Some c \<Rightarrow>
          if c = 204 then Some c
          else if c = 429 \<or> (500 \<le> c \<and> c \<le> 599) then upload_loop send k (attempt + 1) (Some c)
          else Some c
      | None \<Rightarrow> upload_loop send k (attempt + 1) None)"

definition upload_warning :: "(nat \<Rightarrow> nat option) \<Rightarrow> WarningClass option" where
  "upload_warning send = (if upload_loop send 3 0 None = Some 204 then None else Some WUpload)"

definition assembled :: "finish_cfg \<Rightarrow> LangWork \<Rightarrow> ustr list \<Rightarrow> cue list" where
  "assembled cfg w translated = ensure_contiguous (cps_merge (fc_limits cfg) (retime (lw_src_cues w) translated))"

definition target_bytes :: "finish_cfg \<Rightarrow> LangWork \<Rightarrow> ustr list \<Rightarrow> bytes" where
  "target_bytes cfg w translated =
     utf8 (write_srt (assembled cfg w translated) (fc_ai_marker cfg) (fc_ai_marker_ms cfg))"

text \<open>Installation first, then the upload; the upload's outcome is only a warning.\<close>

definition install_and_upload ::
    "finish_env \<Rightarrow> episode_ctx \<Rightarrow> ustr \<Rightarrow> bytes \<Rightarrow> host \<Rightarrow> host \<times> (WarningClass option \<times> InstalledSidecar) option" where
  "install_and_upload env ctx lang bs h =
     (case install_sidecar (fe_sha env) (fe_install_io env) (canonical_target_sidecar (ec_stem ctx) lang) bs (h_disk h) of
        (d, None) \<Rightarrow> (h\<lparr>h_disk := d\<rparr>, None)
      | (d, Some s) \<Rightarrow> (fe_during_upload env (h\<lparr>h_disk := d\<rparr>), Some (upload_warning (fe_upload env), s)))"

definition cleanup :: "finish_env \<Rightarrow> finish_cfg \<Rightarrow> episode_ctx \<Rightarrow> ustr \<Rightarrow> InstalledSidecar \<Rightarrow> host \<Rightarrow> host" where
  "cleanup env cfg ctx lang s h =
     h\<lparr>h_disk := fst (cleanup_failed_install (fe_sha env) (fe_read_row env) (fc_paths cfg) (fe_rollback_io env)
        (fe_during_rollback env) (ec_is_movie ctx) (ec_episode_id ctx) lang s (h_ledgers h) (h_disk h))\<rparr>"

definition target_commit :: "episode_ctx \<Rightarrow> LangWork \<Rightarrow> RegistryCommit" where
  "target_commit ctx w =
     \<lparr>rc_stem = ec_stem ctx, rc_lang = lw_lang w, rc_source = lw_reg_source w, rc_source_kind = lw_reg_kind w,
      rc_episode_id = Some (ec_episode_id ctx), rc_kind = media_kind (ec_is_movie ctx), rc_media_path = ec_media_path ctx,
      rc_source_lang = lw_src_lang w, rc_source_stream = lw_src_stream w\<rparr>"

definition target_result_with_method ::
    "ustr \<Rightarrow> TargetStatus \<Rightarrow> bytes option \<Rightarrow> GenerationMethod option \<Rightarrow> TargetRunResult option" where
  "target_result_with_method lang st artifact method' =
     (case TargetLanguage_parse lang of Inl _ \<Rightarrow> None
      | Inr l \<Rightarrow> (case try_new_with_method l st artifact method' of Inl _ \<Rightarrow> None | Inr r \<Rightarrow> Some r))"

definition target_result :: "ustr \<Rightarrow> TargetStatus \<Rightarrow> bytes option \<Rightarrow> TargetRunResult option" where
  "target_result lang st artifact = target_result_with_method lang st artifact None"

text \<open>After the upload: the file must still be the installed one, then the two ledgers are committed.\<close>

definition conclude_lang ::
    "finish_env \<Rightarrow> finish_cfg \<Rightarrow> episode_ctx \<Rightarrow> LangWork \<Rightarrow> ustr list \<Rightarrow> WarningClass option \<Rightarrow> InstalledSidecar \<Rightarrow> host
      \<Rightarrow> host \<times> (FailureClass + TargetRunResult)" where
  "conclude_lang env cfg ctx w models warning s h1 =
     (let lang = lw_lang w in
      case still_current (fe_sha env) s (h_disk h1) of
         Inl _ \<Rightarrow> (h1, Inl FStorage)
       | Inr False \<Rightarrow> (cleanup env cfg ctx lang s h1, Inl FStorage)
       | Inr True \<Rightarrow>
           (case target_ledger_rows (fe_iteration env) (fe_now env) (target_commit ctx w) (is_artifact s) of
              None \<Rightarrow> (cleanup env cfg ctx lang s h1, Inl FStorage)
            | Some (ident, rrow, srow) \<Rightarrow>
                (case commit_target_ledgers (fe_sha env) (fe_json env) (fe_path_env env) (fe_pair_io env)
                        (TargetLedgerCommit (registry_file (fc_paths cfg)) (state_file (fc_paths cfg)) ident rrow srow)
                        (h_ledgers h1) of
                   (fs, Inl _) \<Rightarrow> (cleanup env cfg ctx lang s (h1\<lparr>h_ledgers := fs\<rparr>), Inl FStorage)
                 | (fs, Inr _) \<Rightarrow>
                     (h1\<lparr>h_ledgers := fs\<rparr>,
                      case target_result_with_method lang (Completed warning) (Some (is_artifact s))
                             (Some (GenerationMethod_new (lw_generation_source w) (lw_whisper_models w) models)) of
                        None \<Rightarrow> Inl FStorage | Some r \<Rightarrow> Inr r))))"

text \<open>\<open>finish_lang\<close>: the failure class of a target that was not completed, or its result.\<close>

definition finish_lang ::
    "finish_env \<Rightarrow> finish_cfg \<Rightarrow> episode_ctx \<Rightarrow> LangWork \<Rightarrow> ustr list \<Rightarrow> ustr list \<Rightarrow> host
      \<Rightarrow> host \<times> (FailureClass + TargetRunResult)" where
  "finish_lang env cfg ctx w translated models h =
     (case install_and_upload env ctx (lw_lang w) (target_bytes cfg w translated) h of
        (h1, None) \<Rightarrow> (h1, Inl FStorage)
      | (h1, Some (warning, s)) \<Rightarrow> conclude_lang env cfg ctx w models warning s h1)"


section \<open>What completion guarantees\<close>

lemma paths_alias_same: "paths_alias env p p \<noteq> Inr False"
  by (simp add: paths_alias_def split: sum.split)

lemma commit_target_distinct:
  assumes "commit_target_ledgers sha lib penv io (TargetLedgerCommit rp sp' ident rrow srow) fs = (fs', Inr u)"
  shows "commit_pair sha lib (paths_alias penv) io rp sp' ident rrow srow fs = (fs', Inr u) \<and> rp \<noteq> sp'"
proof -
  have c: "commit_pair sha lib (paths_alias penv) io rp sp' ident rrow srow fs = (fs', Inr u)"
    using assms by (simp add: commit_target_ledgers_def)
  have "rp \<noteq> sp'"
  proof
    assume "rp = sp'"
    then show False
      using c paths_alias_same [of penv rp]
      by (auto simp: commit_pair_def validate_pair_request_def split: sum.splits bool.splits if_splits)
  qed
  with c show ?thesis ..
qed

text \<open>The ledgers of a host are in order: complete lines of typed rows, and the reads of a commit work.\<close>

definition ledgers_fine :: "finish_env \<Rightarrow> ledger_paths \<Rightarrow> ledger_fs \<Rightarrow> bool" where
  "ledgers_fine env paths fs \<longleftrightarrow>
     terminated (fs (registry_file paths)) \<and> terminated (fs (state_file paths))
     \<and> typed_ledger (fe_json env) (fe_read_row env) decode_registry_row (entry_lines (fs (registry_file paths)))
     \<and> typed_ledger (fe_json env) (fe_read_row env) decode_state_entry (entry_lines (fs (state_file paths)))
     \<and> openable (registry_io (fe_pair_io env)) \<and> lines_ok (registry_io (fe_pair_io env))
     \<and> openable (state_io (fe_pair_io env)) \<and> lines_ok (state_io (fe_pair_io env))"

text \<open>The JSON library prints the rows of the target as lines that read back, and SHA-256 has 32
  bytes.\<close>

definition rows_fine :: "finish_env \<Rightarrow> episode_ctx \<Rightarrow> LangWork \<Rightarrow> bytes \<Rightarrow> bool" where
  "rows_fine env ctx w h \<longleftrightarrow>
     (case target_ledger_rows (fe_iteration env) (fe_now env) (target_commit ctx w) h of
        None \<Rightarrow> True
      | Some (_, rrow, srow) \<Rightarrow> row_printed (fe_json env) (fe_read_row env) rrow \<and> row_printed (fe_json env) (fe_read_row env) srow)"

abbreviation target_path :: "episode_ctx \<Rightarrow> LangWork \<Rightarrow> ustr" where
  "target_path ctx w \<equiv> canonical_target_sidecar (ec_stem ctx) (lw_lang w)"

definition verified_now :: "finish_env \<Rightarrow> finish_cfg \<Rightarrow> episode_ctx \<Rightarrow> ustr \<Rightarrow> host \<Rightarrow> VerifiedTarget option" where
  "verified_now env cfg ctx lang h =
     target_is_verified (fe_sha env) (fe_read_row env) (fc_paths cfg) (ec_is_movie ctx) (ec_episode_id ctx) lang
       (h_ledgers h) (h_disk h)"

lemma finish_lang_Inr:
  assumes "finish_lang env cfg ctx w translated models h = (h', Inr r)"
  obtains h1 warning s ident rrow srow fs u where
    "install_and_upload env ctx (lw_lang w) (target_bytes cfg w translated) h = (h1, Some (warning, s))"
    "still_current (fe_sha env) s (h_disk h1) = Inr True"
    "target_ledger_rows (fe_iteration env) (fe_now env) (target_commit ctx w) (is_artifact s) = Some (ident, rrow, srow)"
    "commit_target_ledgers (fe_sha env) (fe_json env) (fe_path_env env) (fe_pair_io env)
       (TargetLedgerCommit (registry_file (fc_paths cfg)) (state_file (fc_paths cfg)) ident rrow srow) (h_ledgers h1) = (fs, Inr u)"
    "h' = h1\<lparr>h_ledgers := fs\<rparr>"
    "artifact_sha256 r = Some (is_artifact s)" "tr_status r = Completed warning"
  using assms unfolding finish_lang_def conclude_lang_def Let_def
  by (auto simp: target_result_with_method_def try_new_with_method_def
      split: prod.splits option.splits sum.splits bool.splits if_splits)

lemma install_and_upload_Some:
  assumes "install_and_upload env ctx lang bs h = (h1, Some (warning, s))"
  obtains d where "install_sidecar (fe_sha env) (fe_install_io env) (canonical_target_sidecar (ec_stem ctx) lang) bs (h_disk h) = (d, Some s)"
    "h1 = fe_during_upload env (h\<lparr>h_disk := d\<rparr>)" "warning = upload_warning (fe_upload env)"
  using assms by (auto simp: install_and_upload_def split: prod.splits option.splits)

lemma still_current_True:
  "still_current sha s d = Inr True \<Longrightarrow> \<exists>bs. d (is_target s) = Some (DFile bs) \<and> sha bs = is_artifact s"
  by (auto simp: still_current_def split: option.splits disk_file.splits)

text \<open>C8: a target that is reported complete is admitted from then on: the ledgers and the file on disk
  verify it, its digest is the one in the report, and the file holds bytes with the digest of the
  assembled subtitles. Whatever others did while the upload was waiting.\<close>

theorem finished_target_admitted:
  assumes "finish_lang env cfg ctx w translated models h = (h', Inr r)"
    and "ledgers_fine env (fc_paths cfg)
      (h_ledgers (fst (install_and_upload env ctx (lw_lang w) (target_bytes cfg w translated) h)))"
    and "\<And>bs. length (fe_sha env bs) = 32" and "i64_range (Some (ec_episode_id ctx))"
    and "\<And>m. finite (dom m) \<Longrightarrow> iterates (fe_iteration env) m"
    and "rows_fine env ctx w (fe_sha env (target_bytes cfg w translated))"
  shows "verified_now env cfg ctx (lw_lang w) h' \<noteq> None
    \<and> artifact_sha256 r = Some (fe_sha env (target_bytes cfg w translated))
    \<and> (\<exists>bs. h_disk h' (target_path ctx w) = Some (DFile bs) \<and> fe_sha env bs = fe_sha env (target_bytes cfg w translated))"
proof -
  let ?bs = "target_bytes cfg w translated" and ?c = "target_commit ctx w"
  obtain h1 warning s ident rrow srow fs u where
    up: "install_and_upload env ctx (lw_lang w) ?bs h = (h1, Some (warning, s))"
    and current: "still_current (fe_sha env) s (h_disk h1) = Inr True"
    and rows: "target_ledger_rows (fe_iteration env) (fe_now env) ?c (is_artifact s) = Some (ident, rrow, srow)"
    and commit: "commit_target_ledgers (fe_sha env) (fe_json env) (fe_path_env env) (fe_pair_io env)
       (TargetLedgerCommit (registry_file (fc_paths cfg)) (state_file (fc_paths cfg)) ident rrow srow) (h_ledgers h1) = (fs, Inr u)"
    and h': "h' = h1\<lparr>h_ledgers := fs\<rparr>" and r: "artifact_sha256 r = Some (is_artifact s)"
    using finish_lang_Inr [OF assms(1)] by metis
  obtain d where inst: "install_sidecar (fe_sha env) (fe_install_io env) (target_path ctx w) ?bs (h_disk h) = (d, Some s)"
    using install_and_upload_Some [OF up] by metis
  have s: "is_target s = target_path ctx w" "is_artifact s = fe_sha env ?bs"
    using install_sidecar_Some(1,2) [OF inst] by simp_all
  obtain bs where bs: "h_disk h1 (target_path ctx w) = Some (DFile bs)" "fe_sha env bs = is_artifact s"
    using still_current_True [OF current] s by auto
  have fine: "ledgers_fine env (fc_paths cfg) (h_ledgers h1)" using assms(2) up by simp
  note pair = commit_target_distinct [OF commit]
  have c: "rc_stem ?c = ec_stem ctx" "rc_lang ?c = lw_lang w" "rc_kind ?c = media_kind (ec_is_movie ctx)"
      "rc_episode_id ?c = Some (ec_episode_id ctx)"
    by (simp_all add: target_commit_def)
  have "target_is_verified (fe_sha env) (fe_read_row env) (fc_paths cfg) (ec_is_movie ctx) (ec_episode_id ctx)
      (rc_lang ?c) fs (h_disk h1) \<noteq> None"
  proof (rule commit_verified [OF rows conjunct1 [OF pair] conjunct2 [OF pair]])
    show "row_printed (fe_json env) (fe_read_row env) rrow" "row_printed (fe_json env) (fe_read_row env) srow"
      using assms(6) rows s(2) by (simp_all add: rows_fine_def)
    show "h_disk h1 (canonical_target_sidecar (rc_stem ?c) (rc_lang ?c)) = Some (DFile bs)" using bs(1) c by simp
    show "length (is_artifact s) = 32" using assms(3) s(2) by simp
  qed (use fine c assms(4,5) bs(2) in \<open>simp_all add: ledgers_fine_def\<close>)
  then have "verified_now env cfg ctx (lw_lang w) h' \<noteq> None" using h' c(2) by (simp add: verified_now_def)
  with r s h' bs show ?thesis by simp
qed

lemma install_failed_frame:
  "install_and_upload env ctx (lw_lang w) bs h = (h1, None) \<Longrightarrow>
     h_ledgers h1 = h_ledgers h \<and> h_disk h1 (target_path ctx w) = h_disk h (target_path ctx w)"
  by (auto simp: install_and_upload_def install_sidecar_def Let_def split: prod.splits option.splits if_splits write_result.splits)


section \<open>A completion that nothing disturbs\<close>

lemma map_of_keys: "map_of (map (\<lambda>k. (k, f k)) ks) k = (if k \<in> set ks then Some (f k) else None)"
  by (induction ks) auto

lemma map_of_extra_members: "iterates keys_of m \<Longrightarrow> map_of (extra_members keys_of m) k = m k"
  by (auto simp: extra_members_def iterates_def map_of_keys)

lemma map_of_sorted_members:
  assumes "distinct (map fst ms)"
  shows "map_of (sort_key f ms) k = map_of ms k"
proof -
  have "mset (map fst (sort_key f ms)) = mset (map fst ms)" by simp
  with assms have "distinct (map fst (sort_key f ms))" using mset_eq_imp_distinct_iff by blast
  with assms have "map_of (sort_key f ms) k = Some v \<longleftrightarrow> map_of ms k = Some v" for v
    by (simp add: map_of_eq_Some_iff del: distinct_map)
  then show ?thesis by (cases "map_of ms k") auto
qed

text \<open>Both rows of a commit carry its identity, so that the commit is never refused for them.\<close>

lemma committed_rows_identity:
  assumes rows: "target_ledger_rows keys_of ts c h = Some (ident, rrow, srow)"
    and "rc_kind c = media_kind m" "\<And>m. finite (dom m) \<Longrightarrow> iterates keys_of m" "length h = 32"
    and "rc_episode_id c = Some i" "i64_range (Some i)"
  shows "row_identity rrow = Some ident" "row_identity srow = Some ident"
proof -
  let ?r = "commit_registry_row c i h ts" and ?e = "commit_state_entry c i h ts"
  have vals: "rrow = to_value (registry_row_json keys_of ?r)" "srow = to_value (state_entry_json keys_of ?e)"
      "ident = \<lparr>li_kind = rc_kind c, li_episode_id = i, li_language = normalize_lang (rc_lang c), li_artifact = h\<rparr>"
    using rows assms(5) by (auto simp: target_ledger_rows_def)
  have it: "iterates keys_of (rr_extra ?r)" "iterates keys_of (se_extra ?e)"
    using assms(3) by (simp_all add: commit_registry_row_def commit_state_entry_def Let_def split: option.split)
  obtain ms where ms: "registry_row_json keys_of ?r = JObj ms" by (simp add: registry_row_json_def)
  obtain ns where ns: "state_entry_json keys_of ?e = JObj ns" by (simp add: state_entry_json_def)
  have get: "json_get k rrow = json_get k (registry_row_json keys_of ?r)" "json_get k srow = json_get k (state_entry_json keys_of ?e)" for k
    using registry_members_distinct [OF it(1) committed_rows_ok(1) [OF assms(6)] ms]
      state_members_distinct [OF it(2) committed_rows_ok(2) [OF assms(6)] ns]
    by (simp_all add: vals ms ns map_of_sorted_members)
  have obj: "is_object rrow" "is_object srow" by (simp_all add: vals ms ns)
  have hexed: "parse_hex (hex h) = Some h"
    using decode_hex_hex [of h] hex_chars [of _ h] assms(4) by (simp add: parse_hex_def byte_len_ascii list_all_iff)
  have kind: "rc_kind c = lit ''movie'' \<or> rc_kind c = lit ''series''" using assms(2) by (simp add: media_kind_def)
  have reg: "json_get (lit ''episode_id'') rrow = Some (JInt i)" "json_get (lit ''artifact_sha256'') rrow = Some (JStr (hex h))"
      "json_get (lit ''kind'') rrow = (if rc_kind c = lit ''movie'' then Some (JStr (lit ''movie'')) else None)"
      "json_get (lit ''language'') rrow = None" "json_get (lit ''lang'') rrow = Some (JStr (normalize_lang (rc_lang c)))"
    unfolding get(1) registry_row_json_def by (simp_all add: map_of_extra_members [OF it(1)])
      (simp_all add: commit_registry_row_def Let_def split: option.split)
  have st: "json_get (lit ''episode_id'') srow = None" "json_get (lit ''sonarrEpisodeId'') srow = Some (JInt i)"
      "json_get (lit ''artifact_sha256'') srow = Some (JStr (hex h))"
      "json_get (lit ''kind'') srow = Some (if rc_kind c = lit ''movie'' then JStr (lit ''movie'') else JNull)"
      "json_get (lit ''language'') srow = Some (JStr (normalize_lang (rc_lang c)))"
    unfolding get(2) state_entry_json_def by (simp_all add: map_of_extra_members [OF it(2)])
      (simp_all add: commit_state_entry_def)
  have i: "as_i64 (JInt i) = Some i" using assms(6) by (simp add: i64_range_def)
  show "row_identity rrow = Some ident"
    unfolding row_identity_def get_str_def reg using obj i hexed kind by (auto simp: vals(3) first_some_def)
  show "row_identity srow = Some ident"
    unfolding row_identity_def get_str_def st using obj i hexed kind by (auto simp: vals(3) first_some_def)
qed

text \<open>The ledgers hold no row of the target: nothing was recorded for this artifact yet.\<close>

definition no_row :: "finish_env \<Rightarrow> LedgerIdentity \<Rightarrow> ledger_entry option \<Rightarrow> bool" where
  "no_row env ident e \<longleftrightarrow>
     (case e of None \<Rightarrow> True | Some (LFile t) \<Rightarrow> scan_rows (fe_json env) ident None (str_lines t) = Inr None | Some _ \<Rightarrow> False)"

text \<open>Every operation of the completion works.\<close>

definition all_works :: "finish_env \<Rightarrow> ledger_paths \<Rightarrow> bool" where
  "all_works env paths \<longleftrightarrow>
     fe_install_io env = \<lparr>parent_made = True, tmp_written = Written, renamed = True\<rparr>
     \<and> paths_alias (fe_path_env env) (registry_file paths) (state_file paths) = Inr False
     \<and> locks_ok (fe_pair_io env) \<and> snapshots_ok (fe_pair_io env)
     \<and> (\<forall>io \<in> {registry_io (fe_pair_io env), state_io (fe_pair_io env)}. openable io \<and> lines_ok io \<and> write_out io = WDone)"

lemma append_new_row:
  assumes "no_row env ident (fs p)" "openable io" "lines_ok io" "write_out io = WDone"
  shows "append_if_absent (fe_json env) io p ident row fs
    = (fs(p \<mapsto> LFile (entry_text (fs p) @ canonical_line (fe_json env) row)), Inr ())"
  using assms
  by (auto simp: append_if_absent_def existing_row_def no_row_def entry_text_def Let_def
      split: option.splits ledger_entry.splits)

lemma target_completes:
  assumes "all_works env (fc_paths cfg)" and "TargetLanguage_parse (lw_lang w) = Inr l"
    and "\<And>bs. length (fe_sha env bs) = 32" and "i64_range (Some (ec_episode_id ctx))"
    and "\<And>m. finite (dom m) \<Longrightarrow> iterates (fe_iteration env) m"
    and "h_disk h (target_path ctx w) \<noteq> Some DUnreadable"
    and "\<And>h0. h_disk (fe_during_upload env h0) (target_path ctx w) = h_disk h0 (target_path ctx w)"
    and "\<And>ident p. p \<in> {registry_file (fc_paths cfg), state_file (fc_paths cfg)} \<Longrightarrow>
          no_row env ident (h_ledgers (fst (install_and_upload env ctx (lw_lang w) (target_bytes cfg w translated) h)) p)"
  shows "\<exists>h' r. finish_lang env cfg ctx w translated models h = (h', Inr r) \<and> tr_language r = l
    \<and> tr_status r = Completed (upload_warning (fe_upload env))"
proof -
  let ?bs = "target_bytes cfg w translated" and ?t = "target_path ctx w"
  let ?s = "\<lparr>is_target = ?t, is_previous = (case h_disk h ?t of Some (DFile p) \<Rightarrow> Some p | _ \<Rightarrow> None), is_artifact = fe_sha env ?bs\<rparr>"
  obtain h1 where up: "install_and_upload env ctx (lw_lang w) ?bs h = (h1, Some (upload_warning (fe_upload env), ?s))"
      and on_disk: "h_disk h1 ?t = Some (DFile ?bs)"
    using assms(1,6,7) by (simp add: install_and_upload_def install_sidecar_def all_works_def Let_def)
  have none: "no_row env ident (h_ledgers h1 p)" if "p \<in> {registry_file (fc_paths cfg), state_file (fc_paths cfg)}" for ident p
    using assms(8) [OF that] up by simp
  have current: "still_current (fe_sha env) ?s (h_disk h1) = Inr True"
    using on_disk by (simp add: still_current_def)
  obtain ident rrow srow where rows: "target_ledger_rows (fe_iteration env) (fe_now env) (target_commit ctx w) (is_artifact ?s)
      = Some (ident, rrow, srow)"
    by (simp add: target_ledger_rows_def target_commit_def)
  have ids: "row_identity rrow = Some ident" "row_identity srow = Some ident"
    using committed_rows_identity [OF rows _ assms(5), of "ec_is_movie ctx" "ec_episode_id ctx"] assms(3,4)
    by (simp_all add: target_commit_def)
  have distinct: "registry_file (fc_paths cfg) \<noteq> state_file (fc_paths cfg)"
    using assms(1) paths_alias_same by (force simp: all_works_def)
  have "\<exists>fs u. commit_target_ledgers (fe_sha env) (fe_json env) (fe_path_env env) (fe_pair_io env)
      (TargetLedgerCommit (registry_file (fc_paths cfg)) (state_file (fc_paths cfg)) ident rrow srow) (h_ledgers h1) = (fs, Inr u)"
    using assms(1) none distinct
    by (simp add: commit_target_ledgers_def commit_pair_def validate_pair_request_def ids all_works_def append_new_row)
  then obtain fs u where "commit_target_ledgers (fe_sha env) (fe_json env) (fe_path_env env) (fe_pair_io env)
      (TargetLedgerCommit (registry_file (fc_paths cfg)) (state_file (fc_paths cfg)) ident rrow srow) (h_ledgers h1) = (fs, Inr u)"
    by blast
  then show ?thesis
    using up current rows assms(2)
    by (simp add: finish_lang_def conclude_lang_def Let_def target_result_with_method_def try_new_with_method_def)
qed


section \<open>Witnesses\<close>

definition quiet_ctx :: episode_ctx where
  "quiet_ctx = \<lparr>ec_episode_id = 7, ec_is_movie = False, ec_media_path = lit ''/m/e.mkv'', ec_stem = lit ''/m/e''\<rparr>"

definition quiet_work :: LangWork where
  "quiet_work = \<lparr>lw_lang = lit ''id'', lw_src_cues = [], lw_src_lang = lit ''id'', lw_needs_translate = False,
     lw_reg_source = lit ''asr'', lw_reg_kind = None, lw_src_stream = None, lw_generation_source = Whisper,
     lw_whisper_models = []\<rparr>"

definition quiet_cfg :: finish_cfg where
  "quiet_cfg = \<lparr>fc_limits = \<lparr>max_cps = 17, max_chars = 84, max_dur_ms = 7000, max_gap_ms = 500\<rparr>,
     fc_ai_marker = False, fc_ai_marker_ms = 0, fc_paths = \<lparr>registry_file = lit ''r'', state_file = lit ''s''\<rparr>\<rparr>"

definition in_order :: "extra_fields \<Rightarrow> ustr list" where
  "in_order m = sorted_list_of_set (dom m)"

definition quiet_rows :: "json \<times> json" where
  "quiet_rows = snd (the (target_ledger_rows in_order (lit ''t'') (target_commit quiet_ctx quiet_work) (replicate 32 0)))"

definition quiet_lib :: json_lib where
  "quiet_lib = \<lparr>parse_json = (\<lambda>l. if l = lit ''a'' then Some (fst quiet_rows) else if l = lit ''b'' then Some (snd quiet_rows) else None),
     print_json = (\<lambda>v. if v = fst quiet_rows then lit ''a'' else lit ''b'')\<rparr>"

definition quiet_paths :: path_env where
  "quiet_paths = \<lparr>current_dir = Some [lit ''d''], canonicalize = Some, read_link = (\<lambda>_. None), same_inode = (\<lambda>_ _. False)\<rparr>"

definition quiet_env :: "pair_io \<Rightarrow> finish_env" where
  "quiet_env io =
     \<lparr>fe_sha = (\<lambda>_. replicate 32 0), fe_json = quiet_lib, fe_read_row = parse_json quiet_lib, fe_iteration = in_order,
      fe_path_env = quiet_paths, fe_pair_io = io,
      fe_install_io = \<lparr>parent_made = True, tmp_written = Written, renamed = True\<rparr>,
      fe_rollback_io = \<lparr>rb_tmp_written = Written, rb_renamed = True, rb_removed = True\<rparr>,
      fe_during_rollback = id, fe_upload = (\<lambda>n. if n < 2 then None else Some 204), fe_during_upload = id, fe_now = lit ''t''\<rparr>"

definition empty_host :: host where
  "empty_host = \<lparr>h_disk = (\<lambda>_. None), h_ledgers = (\<lambda>_. None)\<rparr>"

lemma in_order_iterates: "finite (dom m) \<Longrightarrow> iterates in_order m"
  by (simp add: iterates_def in_order_def)

lemma quiet_components: "components (lit ''r'') = [lit ''r'']" "components (lit ''s'') = [lit ''s'']"
  by (simp_all add: components_def lit_eval split_str.simps starts_with_def)

lemma quiet_distinct: "paths_alias quiet_paths (lit ''r'') (lit ''s'') = Inr False"
proof -
  have "comparison_path quiet_paths (lit ''r'') = Inr [lit ''d'', lit ''r'']"
      "comparison_path quiet_paths (lit ''s'') = Inr [lit ''d'', lit ''s'']"
    unfolding comparison_path_def absolute_normalized_def quiet_components
    by (simp_all add: quiet_paths_def lit_eval starts_with_def numeral_eq_Suc)
  then show ?thesis by (simp add: paths_alias_def quiet_paths_def)
qed

lemma quiet_works: "all_works (quiet_env good_pair) (fc_paths quiet_cfg)"
  by (simp add: all_works_def quiet_env_def quiet_cfg_def quiet_distinct good_pair_def good_io_def)

lemma quiet_language: "TargetLanguage_parse (lw_lang quiet_work) = Inr (lit ''id'')"
  by (simp add: TargetLanguage_parse_def quiet_work_def Let_def) (simp add: lit_eval to_ascii_lower_def ascii_lower_def is_ascii_lower_def is_ascii_upper_def byte_len_ascii)

lemma quiet_upload:
  "h_ledgers (fst (install_and_upload (quiet_env io) quiet_ctx l bs empty_host)) = (\<lambda>_. None)"
  by (simp add: install_and_upload_def install_sidecar_def quiet_env_def empty_host_def Let_def)

lemma quiet_env_simps [simp]:
  "fe_sha (quiet_env io) = (\<lambda>_. replicate 32 0)" "fe_json (quiet_env io) = quiet_lib"
  "fe_read_row (quiet_env io) = parse_json quiet_lib" "fe_iteration (quiet_env io) = in_order"
  "fe_during_upload (quiet_env io) = id" "fe_pair_io (quiet_env io) = io" "fe_during_rollback (quiet_env io) = id"
  "fe_rollback_io (quiet_env io) = \<lparr>rb_tmp_written = Written, rb_renamed = True, rb_removed = True\<rparr>" "fe_now (quiet_env io) = lit ''t''"
  by (simp_all add: quiet_env_def)

lemma quiet_ctx_simps [simp]: "ec_episode_id quiet_ctx = 7" "ec_is_movie quiet_ctx = False"
  by (simp_all add: quiet_ctx_def)


lemma quiet_completes: "\<exists>h' r. finish_lang (quiet_env good_pair) quiet_cfg quiet_ctx quiet_work [] [] empty_host = (h', Inr r)"
proof -
  have "\<exists>h' r. finish_lang (quiet_env good_pair) quiet_cfg quiet_ctx quiet_work [] [] empty_host = (h', Inr r)
     \<and> tr_language r = lit ''id'' \<and> tr_status r = Completed (upload_warning (fe_upload (quiet_env good_pair)))"
    by (rule target_completes [OF quiet_works quiet_language])
      (simp_all add: quiet_upload in_order_iterates i64_range_def no_row_def, simp add: empty_host_def)
  then show ?thesis by blast
qed

fun members :: "json \<Rightarrow> ustr set" where
  "members (JObj ms) = fst ` set ms"
| "members _ = {}"

lemma members_to_value [simp]: "members (to_value v) = members v"
  by (cases v) simp_all

lemma quiet_rows_differ: "fst quiet_rows \<noteq> snd quiet_rows"
proof -
  let ?c = "target_commit quiet_ctx quiet_work"
  let ?r = "commit_registry_row ?c 7 (replicate 32 0) (lit ''t'')" and ?e = "commit_state_entry ?c 7 (replicate 32 0) (lit ''t'')"
  have "finite (dom (se_extra ?e))" by (simp add: commit_state_entry_def)
  note keys = extra_members_keys [OF in_order_iterates [OF this]]
  have rows: "fst quiet_rows = to_value (registry_row_json in_order ?r)" "snd quiet_rows = to_value (state_entry_json in_order ?e)"
    by (simp_all add: quiet_rows_def target_ledger_rows_def target_commit_def)
  have "lit ''stem'' \<in> members (fst quiet_rows)"
    unfolding rows members_to_value registry_row_json_def members.simps by simp
  moreover have "lit ''stem'' \<notin> members (snd quiet_rows)"
    unfolding rows members_to_value state_entry_json_def members.simps set_append image_Un keys
    by (simp add: commit_state_entry_def)
  ultimately show ?thesis by auto
qed

theorem finished_target_admitted_witness:
  "\<exists>h'. verified_now (quiet_env good_pair) quiet_cfg quiet_ctx (lit ''id'') h' \<noteq> None"
proof -
  obtain h' r where r: "finish_lang (quiet_env good_pair) quiet_cfg quiet_ctx quiet_work [] [] empty_host = (h', Inr r)"
    using quiet_completes by blast
  obtain ident rrow srow where
      rows: "target_ledger_rows in_order (lit ''t'') (target_commit quiet_ctx quiet_work) (replicate 32 0) = Some (ident, rrow, srow)"
    by (simp add: target_ledger_rows_def target_commit_def)
  then have parts: "rrow = fst quiet_rows" "srow = snd quiet_rows" by (simp_all add: quiet_rows_def)
  have printed: "row_printed quiet_lib (parse_json quiet_lib) v" if "v = fst quiet_rows \<or> v = snd quiet_rows" for v
    using that quiet_rows_differ
    by (auto simp: row_printed_def prints_line_def quiet_lib_def) (simp_all add: trimmed_def lit_eval is_ws_def)
  have rows: "rows_fine (quiet_env good_pair) quiet_ctx quiet_work (replicate 32 0)"
    unfolding rows_fine_def quiet_env_simps rows by (simp add: printed parts split_beta)
  have "verified_now (quiet_env good_pair) quiet_cfg quiet_ctx (lw_lang quiet_work) h' \<noteq> None"
    by (rule conjunct1 [OF finished_target_admitted [OF r]])
      (use rows in \<open>simp_all add: quiet_upload in_order_iterates i64_range_def ledgers_fine_def terminated_def
        typed_ledger_def entry_lines_def entry_text_def good_pair_def good_io_def\<close>)
  then show ?thesis by (auto simp: quiet_work_def)
qed


end
