(* ===== verification/Mask.thy ===== *)
theory Mask
  imports Report Srt
begin

text \<open>
  The redaction of \<open>src/config.rs\<close>: what of a configuration value a log line or the configuration page
  may show. A value is taken apart at its scheme, its authority and its \<open>@\<close> signs; text in front of
  an \<open>@\<close> that carries a colon in any spelling is a login and is replaced. Positions are scalar
  positions; the code's byte positions all lie between scalars.
\<close>

definition login_mask :: ustr where "login_mask = lit ''***:***''"

section \<open>Colons in disguise\<close>

definition PERCENT_ESCAPE_LAYERS :: nat where "PERCENT_ESCAPE_LAYERS = 8"

definition NON_HIERARCHICAL_SCHEMES :: "ustr list" where
  "NON_HIERARCHICAL_SCHEMES =
     map lit [''mailto'', ''data'', ''urn'', ''tel'', ''sms'', ''geo'', ''magnet'', ''bitcoin'']"

definition entity_colon :: "ustr \<Rightarrow> bool" where
  "entity_colon lower \<longleftrightarrow>
     contains (lit ''&#58'') lower \<or> contains (lit ''&#x3a'') lower \<or> contains (lit ''&colon'') lower"

definition colon_like :: "ustr \<Rightarrow> bool" where
  "colon_like s \<longleftrightarrow> 58 \<in> set s \<or> 0xff1a \<in> set s \<or> 0xfe55 \<in> set s \<or> entity_colon (to_ascii_lower s)"

definition digit16 :: "uchar \<Rightarrow> nat option" where
  "digit16 c =
     (if is_ascii_digit c then Some (c - 48)
      else if 97 \<le> c \<and> c \<le> 102 then Some (c - 87)
      else if 65 \<le> c \<and> c \<le> 70 then Some (c - 55) else None)"

text \<open>Percent-decoding works on the bytes of the text, and a byte becomes the scalar of that value.\<close>

fun percent_scan :: "nat list \<Rightarrow> nat list \<times> bool" where
  "percent_scan (b # h # l # bs) =
     (case (b = 37, digit16 h, digit16 l) of
        (True, Some x, Some y) \<Rightarrow> ((16 * x + y) # fst (percent_scan bs), True)
      | _ \<Rightarrow> (b # fst (percent_scan (h # l # bs)), snd (percent_scan (h # l # bs))))"
| "percent_scan bs = (bs, False)"

definition percent_decode_once :: "ustr \<Rightarrow> ustr option" where
  "percent_decode_once s =
     (if 37 \<notin> set s then None
      else case percent_scan (map unat (utf8 s)) of (d, decoded) \<Rightarrow> if decoded then Some d else None)"

text \<open>The ampersand written as an entity at the start of a text: its length.\<close>

definition amp_entity :: "unicode_db \<Rightarrow> ustr \<Rightarrow> nat option" where
  "amp_entity U tail =
     (let lower = to_ascii_lower tail;
          legacy_ok = (\<lambda>p. starts_with p lower
            \<and> \<not> (case drop (length p) tail of c # _ \<Rightarrow> is_alphabetic U c \<or> is_numeric U c \<or> c = 61 | [] \<Rightarrow> False))
      in map_option length (first_some (find (\<lambda>p. starts_with p lower) (map lit [''&amp;'', ''&#38;'', ''&#x26;'']))
           (find legacy_ok (map lit [''&amp'', ''&#38'', ''&#x26'']))))"

fun entity_scan :: "unicode_db \<Rightarrow> ustr \<Rightarrow> ustr \<times> bool" where
  "entity_scan U [] = ([], False)"
| "entity_scan U (c # cs) =
     (case (if c = 38 then amp_entity U (c # cs) else None) of
        Some n \<Rightarrow> (38 # fst (entity_scan U (drop (n - 1) cs)), True)
      | None \<Rightarrow> (c # fst (entity_scan U cs), snd (entity_scan U cs)))"

definition entity_decode_once :: "unicode_db \<Rightarrow> ustr \<Rightarrow> ustr option" where
  "entity_decode_once U s =
     (if 38 \<notin> set s then None else case entity_scan U s of (d, decoded) \<Rightarrow> if decoded then Some d else None)"

fun colon_below :: "unicode_db \<Rightarrow> nat \<Rightarrow> ustr \<Rightarrow> bool" where
  "colon_below U 0 s = False"
| "colon_below U (Suc n) s =
     (case first_some (percent_decode_once s) (entity_decode_once U s) of
        None \<Rightarrow> False | Some d \<Rightarrow> colon_like d \<or> colon_below U n d)"

definition carries_credential_colon :: "unicode_db \<Rightarrow> ustr \<Rightarrow> bool" where
  "carries_credential_colon U s \<longleftrightarrow> colon_like s \<or> colon_below U PERCENT_ESCAPE_LAYERS s"

section \<open>Parts of a value\<close>

definition ends_with :: "ustr \<Rightarrow> ustr \<Rightarrow> bool" where
  "ends_with p s \<longleftrightarrow> starts_with (rev p) (rev s)"

definition trim_end_matches :: "uchar \<Rightarrow> ustr \<Rightarrow> ustr" where
  "trim_end_matches c s = rev (dropWhile (\<lambda>x. x = c) (rev s))"

definition hash_starts_entity :: "ustr \<Rightarrow> bool" where
  "hash_starts_entity before \<longleftrightarrow>
     ends_with (lit ''&'') before
     \<or> (let t = to_ascii_lower (trim_end_matches 59 before)
        in ends_with (lit ''&amp'') t \<or> ends_with (lit ''&#38'') t \<or> ends_with (lit ''&#x26'') t)"

definition separator_at :: "ustr \<Rightarrow> nat \<Rightarrow> bool" where
  "separator_at s i \<longleftrightarrow> s ! i = 47 \<or> s ! i = 63 \<or> (s ! i = 35 \<and> \<not> hash_starts_entity (take i s))"

definition first_separator :: "ustr \<Rightarrow> nat option" where
  "first_separator s = find (separator_at s) [0..<length s]"

definition is_scheme :: "ustr \<Rightarrow> bool" where
  "is_scheme word \<longleftrightarrow>
     (case word of [] \<Rightarrow> False
      | c # cs \<Rightarrow> is_ascii_alpha c \<and> list_all (\<lambda>c. is_ascii_alnum c \<or> c \<in> {43, 45, 46}) cs)"

text \<open>\<open>Ipv6Addr::from_str\<close>. A number of at most \<open>m\<close> digits: its value and the rest. More digits than
  allowed are no number.\<close>

fun read_digits :: "(uchar \<Rightarrow> nat option) \<Rightarrow> ustr \<Rightarrow> nat list \<times> ustr" where
  "read_digits dig (c # cs) =
     (case dig c of Some d \<Rightarrow> (d # fst (read_digits dig cs), snd (read_digits dig cs)) | None \<Rightarrow> ([], c # cs))"
| "read_digits dig [] = ([], [])"

definition dec_value :: "uchar \<Rightarrow> nat option" where
  "dec_value c = (if is_ascii_digit c then Some (c - 48) else None)"

definition read_octet :: "ustr \<Rightarrow> ustr option" where
  "read_octet s =
     (case read_digits dec_value s of (ds, rest) \<Rightarrow>
        if ds = [] \<or> 3 < length ds \<or> (hd ds = 0 \<and> 1 < length ds) \<or> 255 < foldl (\<lambda>n d. 10 * n + d) 0 ds
        then None else Some rest)"

definition read_char :: "uchar \<Rightarrow> ustr \<Rightarrow> ustr option" where
  "read_char c s = (case s of x # xs \<Rightarrow> if x = c then Some xs else None | [] \<Rightarrow> None)"

definition read_ipv4 :: "ustr \<Rightarrow> ustr option" where
  "read_ipv4 s =
     Option.bind (read_octet s) (\<lambda>a. Option.bind (Option.bind (read_char 46 a) read_octet)
       (\<lambda>b. Option.bind (Option.bind (read_char 46 b) read_octet)
       (\<lambda>c. Option.bind (read_char 46 c) read_octet)))"

definition read_group :: "ustr \<Rightarrow> ustr option" where
  "read_group s =
     (case read_digits digit16 s of (ds, rest) \<Rightarrow> if ds = [] \<or> 4 < length ds then None else Some rest)"

text \<open>\<open>read_groups\<close>: up to \<open>limit\<close> groups from group \<open>i\<close> on; how many there are, whether the last two
  are an IPv4 address, and the rest.\<close>

fun read_groups :: "nat \<Rightarrow> nat \<Rightarrow> nat \<Rightarrow> ustr \<Rightarrow> nat \<times> bool \<times> ustr" where
  "read_groups limit i 0 s = (i, False, s)"
| "read_groups limit i (Suc k) s =
     (let after = (if i = 0 then Some s else read_char 58 s) in
      case (if i < limit - 1 then Option.bind after read_ipv4 else None) of
        Some rest \<Rightarrow> (i + 2, True, rest)
      | None \<Rightarrow> (case Option.bind after read_group of
            Some rest \<Rightarrow> read_groups limit (i + 1) k rest | None \<Rightarrow> (i, False, s)))"

definition is_ipv6 :: "ustr \<Rightarrow> bool" where
  "is_ipv6 s =
     (case read_groups 8 0 8 s of (n, v4, rest) \<Rightarrow>
        if n = 8 then rest = []
        else if v4 then False
        else (case Option.bind (read_char 58 rest) (read_char 58) of
            None \<Rightarrow> False
          | Some t \<Rightarrow> (case read_groups (8 - (n + 1)) 0 (8 - (n + 1)) t of (_, _, end_) \<Rightarrow> end_ = [])))"

definition port_ok :: "ustr \<Rightarrow> bool" where
  "port_ok port \<longleftrightarrow> port \<noteq> [] \<and> list_all is_ascii_digit port"

definition hidden_colon :: "ustr \<Rightarrow> bool" where
  "hidden_colon part \<longleftrightarrow> 37 \<in> set part \<or> 38 \<in> set part \<or> 0xff1a \<in> set part \<or> 0xfe55 \<in> set part"

definition is_host_port :: "ustr \<Rightarrow> bool" where
  "is_host_port h \<longleftrightarrow>
     (if starts_with (lit ''['') h then
        (case split_once [93] (drop 1 h) of
           None \<Rightarrow> False
         | Some (literal, tail) \<Rightarrow>
             is_ipv6 (takeWhile (\<lambda>c. c \<noteq> 37) literal)
             \<and> (case tail of [] \<Rightarrow> True | c # port \<Rightarrow> c = 58 \<and> port_ok port))
      else
        (case split_once [58] h of
           None \<Rightarrow> h \<noteq> [] \<and> \<not> hidden_colon h
         | Some (name, port) \<Rightarrow> name \<noteq> [] \<and> \<not> hidden_colon name \<and> port_ok port))"

section \<open>Runs behind the authority\<close>

text \<open>Where the mask of a run may begin: at the floor, behind a scheme, behind a separator; the last
  first.\<close>

definition run_starts :: "nat \<Rightarrow> ustr \<Rightarrow> nat list" where
  "run_starts lo head =
     rev (sort (remdups (min lo (length head)
       # map (\<lambda>i. i + 3) (filter (\<lambda>i. starts_with (lit ''://'') (drop i head)) [0..<length head])
       @ map Suc (filter (\<lambda>i. head ! i \<in> {47, 63, 35}) [0..<length head]))))"

text \<open>The token between a start and the next one to its right.\<close>

definition tokens_of :: "ustr \<Rightarrow> nat list \<Rightarrow> (nat \<times> ustr) list" where
  "tokens_of head starts = map (\<lambda>(b, e). (b, take (e - b) (drop b head))) (zip starts (length head # starts))"

definition hidden_start :: "unicode_db \<Rightarrow> ustr \<Rightarrow> nat list \<Rightarrow> nat option" where
  "hidden_start U head starts =
     map_option fst (find (\<lambda>(b, tok). 58 \<notin> set tok \<and> carries_credential_colon U tok) (rev (tokens_of head starts)))"

definition run_start :: "unicode_db \<Rightarrow> nat \<Rightarrow> ustr \<Rightarrow> nat option" where
  "run_start U lo head =
     (let starts = run_starts lo head;
          chosen = find (\<lambda>s. drop s head \<noteq> [] \<and> carries_credential_colon U (drop s head)) starts
      in case first_some (hidden_start U head starts) chosen of
           None \<Rightarrow> None
         | Some s \<Rightarrow>
             if 58 \<notin> set (drop s head) then first_some (find (\<lambda>t. t < s \<and> 58 \<in> set (drop t head)) starts) (Some s)
             else Some s)"

definition masked_run :: "unicode_db \<Rightarrow> nat \<Rightarrow> ustr \<Rightarrow> ustr" where
  "masked_run U lo head = (case run_start U lo head of Some s \<Rightarrow> take s head @ login_mask | None \<Rightarrow> head)"

function mask_runs :: "unicode_db \<Rightarrow> nat \<Rightarrow> ustr \<Rightarrow> ustr \<times> bool" where
  "mask_runs U lo rest =
     (case split_once [64] rest of
        None \<Rightarrow> (rest, False)
      | Some (head, rest') \<Rightarrow>
          let (out, masked) = mask_runs U (lo - (length head + 1)) rest'
          in (masked_run U lo head @ 64 # out, run_start U lo head \<noteq> None \<or> masked))"
  by pat_completeness auto
termination
  by (relation "measure (\<lambda>(U, f, s). length s)") (auto dest: split_once_length)

declare mask_runs.simps [simp del]

definition mask_tail_runs :: "unicode_db \<Rightarrow> ustr \<Rightarrow> nat \<Rightarrow> ustr option" where
  "mask_tail_runs U tail lo =
     (if 64 \<notin> set tail then None
      else case mask_runs U lo tail of (out, masked) \<Rightarrow> if masked then Some out else None)"

section \<open>The value\<close>

text \<open>The scheme with its slashes and the rest of a value.\<close>

definition scheme_split :: "ustr \<Rightarrow> ustr \<times> ustr" where
  "scheme_split value =
     (case split_once (lit ''://'') value of
        Some (scheme, rest) \<Rightarrow> if is_scheme scheme then (scheme @ lit ''://'', rest) else ([], value)
      | None \<Rightarrow> ([], value))"

text \<open>The \<open>@\<close> that ends the userinfo: the last one of the authority, or else the last one.\<close>

definition userinfo_end :: "ustr \<Rightarrow> nat option" where
  "userinfo_end rest =
     (case first_separator rest of
        Some s \<Rightarrow> if 64 \<in> set (take s rest) then rfind_char 64 (take s rest) else rfind_char 64 rest
      | None \<Rightarrow> rfind_char 64 rest)"

definition host_slot :: "ustr \<Rightarrow> ustr" where
  "host_slot after = (case first_separator after of Some i \<Rightarrow> take i after | None \<Rightarrow> after)"

definition host_hidden :: "unicode_db \<Rightarrow> ustr \<Rightarrow> bool" where
  "host_hidden U h \<longleftrightarrow>
     64 \<notin> set h \<and> \<not> is_host_port h
     \<and> (carries_credential_colon U (filter (\<lambda>c. c \<noteq> 58) h) \<or> (starts_with (lit ''['') h \<and> 58 \<in> set h))"

text \<open>What follows the userinfo, with a host slot that is a login masked up to the next \<open>@\<close>.\<close>

definition masked_after :: "unicode_db \<Rightarrow> ustr \<Rightarrow> ustr" where
  "masked_after U after =
     (let h = host_slot after in
      if host_hidden U h
      then login_mask @ drop (case find_char 64 after of Some i \<Rightarrow> i | None \<Rightarrow> length h) after
      else after)"

definition host_floor :: "unicode_db \<Rightarrow> ustr \<Rightarrow> nat" where
  "host_floor U h = (if host_hidden U h then length login_mask else if is_host_port h then length h else 0)"

definition masked_tail :: "unicode_db \<Rightarrow> ustr \<Rightarrow> ustr option" where
  "masked_tail U after =
     (let h = host_slot after; shown = masked_after U after
      in first_some (mask_tail_runs U shown (host_floor U h)) (if host_hidden U h then Some shown else None))"

definition opaque_scheme :: "unicode_db \<Rightarrow> ustr \<Rightarrow> ustr \<Rightarrow> bool" where
  "opaque_scheme U userinfo h \<longleftrightarrow>
     to_ascii_lower (takeWhile (\<lambda>c. c \<noteq> 58) userinfo) \<in> set NON_HIERARCHICAL_SCHEMES
     \<and> 58 \<notin> set h \<and> \<not> host_hidden U h"

definition at_in_path :: "unicode_db \<Rightarrow> ustr \<Rightarrow> nat \<Rightarrow> ustr \<Rightarrow> bool" where
  "at_in_path U rest pos h \<longleftrightarrow>
     (case first_separator rest of
        None \<Rightarrow> False
      | Some s \<Rightarrow> s < pos \<and> \<not> carries_credential_colon U (take s rest) \<and> \<not> carries_credential_colon U (take pos rest)
          \<and> \<not> host_hidden U h)"

definition redact_userinfo :: "unicode_db \<Rightarrow> ustr \<Rightarrow> ustr option" where
  "redact_userinfo U value =
     (let (pre, rest) = scheme_split (trim value) in
      case userinfo_end rest of None \<Rightarrow> None | Some pos \<Rightarrow>
        (let userinfo = take pos rest; after = drop (Suc pos) rest; h = host_slot after;
             tail = masked_tail U after
         in if userinfo = [] then map_option (\<lambda>t. pre @ 64 # t) tail
            else if pre = [] \<and> \<not> carries_credential_colon U userinfo then map_option (\<lambda>t. pre @ userinfo @ 64 # t) tail
            else if pre = [] \<and> opaque_scheme U userinfo h then None
            else if pre \<noteq> [] \<and> at_in_path U rest pos h then None
            else Some (pre @ (if carries_credential_colon U userinfo then login_mask else lit ''***'')
                   @ 64 # (case tail of Some t \<Rightarrow> t | None \<Rightarrow> masked_after U after))))"

definition mask_for_log :: "unicode_db \<Rightarrow> ustr \<Rightarrow> ustr" where
  "mask_for_log U value = (case redact_userinfo U value of Some m \<Rightarrow> m | None \<Rightarrow> value)"


section \<open>What is never shown\<close>

lemma find_char_None [simp]: "find_char x s = None \<longleftrightarrow> x \<notin> set s"
  by (induction s) auto

lemma find_char_first: "x \<notin> set a \<Longrightarrow> find_char x (a @ x # b) = Some (length a)"
  by (induction a) auto

lemma rfind_char_last: "x \<notin> set b \<Longrightarrow> rfind_char x (a @ x # b) = Some (length a)"
  by (simp add: rfind_char_def find_char_first)

lemma split_once_none: "split_once [x] s = None \<longleftrightarrow> x \<notin> set s"
  by (induction s) (auto simp: starts_with_def)

lemma login_mask_no_at [simp]: "64 \<notin> set login_mask"
  by (simp add: login_mask_def lit_eval)

lemma masked_after_no_at: "64 \<notin> set b \<Longrightarrow> 64 \<notin> set (masked_after U b)"
  by (auto simp: masked_after_def Let_def dest: in_set_dropD split: option.splits)

lemma masked_tail_no_at:
  "64 \<notin> set b \<Longrightarrow> masked_tail U b = (if host_hidden U (host_slot b) then Some (masked_after U b) else None)"
  using masked_after_no_at [of b U] by (simp add: masked_tail_def mask_tail_runs_def first_some_def Let_def)

lemma userinfo_end_only_at:
  assumes "64 \<notin> set a" "64 \<notin> set b"
  shows "userinfo_end (a @ 64 # b) = Some (length a)"
proof (cases "first_separator (a @ 64 # b)")
  case None
  with assms show ?thesis by (simp add: userinfo_end_def rfind_char_last)
next
  case (Some s)
  show ?thesis
  proof (cases "64 \<in> set (take s (a @ 64 # b))")
    case True
    then obtain k where k: "s = length a + Suc k"
      using assms(1) by (cases "s \<le> length a") (auto dest: in_set_takeD intro: that [of "s - length a - 1"])
    then have t: "take s (a @ 64 # b) = a @ 64 # take k b" by simp
    have "64 \<notin> set (take k b)" using assms(2) by (auto dest: in_set_takeD)
    then have "rfind_char 64 (take s (a @ 64 # b)) = Some (length a)" unfolding t by (rule rfind_char_last)
    with Some True show ?thesis by (simp add: userinfo_end_def)
  next
    case False
    with Some assms show ?thesis by (simp add: userinfo_end_def rfind_char_last)
  qed
qed

lemma colon_below_Nil: "\<not> colon_below U n []"
  by (cases n) (simp_all add: percent_decode_once_def entity_decode_once_def first_some_def)

lemma colon_like_Nil: "\<not> colon_like []"
  by (simp add: colon_like_def entity_colon_def to_ascii_lower_def contains_def lit_eval)

lemma carries_nonempty: "carries_credential_colon U a \<Longrightarrow> a \<noteq> []"
  using colon_below_Nil colon_like_Nil by (auto simp: carries_credential_colon_def)


text \<open>A run whose colon lies at or behind the floor is masked from a place in front of that colon.\<close>

lemma set_run_starts: "set (run_starts lo head) =
    {min lo (length head)} \<union> (\<lambda>i. i + 3) ` {i. i < length head \<and> starts_with (lit ''://'') (drop i head)}
      \<union> Suc ` {i. i < length head \<and> head ! i \<in> {47, 63, 35}}"
  by (auto simp: run_starts_def)

lemma find_member: "x \<in> set xs \<Longrightarrow> P x \<Longrightarrow> \<exists>y. find P xs = Some y \<and> y \<in> set xs \<and> P y"
  by (induction xs) auto

lemma colon_carries: "58 \<in> set s \<Longrightarrow> carries_credential_colon U s"
  by (simp add: carries_credential_colon_def colon_like_def)

lemma run_start_covers:
  assumes "58 \<in> set (drop lo head)"
  obtains s where "run_start U lo head = Some s" "58 \<in> set (drop s head)"
proof -
  let ?starts = "run_starts lo head" and ?lo = "min lo (length head)"
  let ?chosen = "find (\<lambda>s. drop s head \<noteq> [] \<and> carries_credential_colon U (drop s head)) ?starts"
  have lo: "?lo \<in> set ?starts" "58 \<in> set (drop ?lo head)"
    using assms by (cases "lo \<le> length head"; auto simp: set_run_starts min_def)+
  have "drop ?lo head \<noteq> [] \<and> carries_credential_colon U (drop ?lo head)"
    using lo(2) colon_carries by auto
  then obtain y where "?chosen = Some y"
    using find_member [OF lo(1), of "\<lambda>s. drop s head \<noteq> [] \<and> carries_credential_colon U (drop s head)"] by blast
  then obtain s where s: "first_some (hidden_start U head ?starts) ?chosen = Some s"
    by (cases "hidden_start U head ?starts") (auto simp: first_some_def)
  show thesis
  proof (cases "58 \<in> set (drop s head)")
    case True
    with s show thesis by (intro that [of s]) (simp add: run_start_def Let_def)
  next
    case False
    have "?lo < s"
    proof (rule ccontr)
      assume "\<not> ?lo < s"
      then have "set (drop ?lo head) \<subseteq> set (drop s head)" by (intro set_drop_subset_set_drop) linarith
      with lo(2) False show False by blast
    qed
    then obtain t where "find (\<lambda>t. t < s \<and> 58 \<in> set (drop t head)) ?starts = Some t" "58 \<in> set (drop t head)"
      using find_member [OF lo(1), of "\<lambda>t. t < s \<and> 58 \<in> set (drop t head)"] lo(2) by blast
    with s False show thesis by (intro that [of t]) (simp_all add: run_start_def Let_def first_some_def)
  qed
qed

text \<open>What may stand for a run in the output.\<close>

definition run_shown :: "nat \<Rightarrow> ustr \<Rightarrow> ustr \<Rightarrow> bool" where
  "run_shown lo head out \<longleftrightarrow>
     (out = head \<and> 58 \<notin> set (drop lo head))
     \<or> (\<exists>s. out = take s head @ login_mask \<and> (58 \<in> set (drop lo head) \<longrightarrow> 58 \<in> set (drop s head)))"

lemma masked_run_shown: "run_shown lo head (masked_run U lo head)"
proof (cases "58 \<in> set (drop lo head)")
  case True
  then obtain s where "run_start U lo head = Some s" "58 \<in> set (drop s head)" by (rule run_start_covers)
  then show ?thesis by (auto simp: run_shown_def masked_run_def)
next
  case False
  then show ?thesis by (auto simp: run_shown_def masked_run_def split: option.split)
qed

fun runs_shown :: "nat \<Rightarrow> ustr list \<Rightarrow> ustr list \<Rightarrow> bool" where
  "runs_shown lo [final] outs \<longleftrightarrow> outs = [final]"
| "runs_shown lo (head # heads) (out # outs) \<longleftrightarrow>
     run_shown lo head out \<and> runs_shown (lo - (length head + 1)) heads outs"
| "runs_shown lo _ _ \<longleftrightarrow> False"

lemma masked_run_no_at: "64 \<notin> set head \<Longrightarrow> 64 \<notin> set (masked_run U lo head)"
  by (auto simp: masked_run_def dest: in_set_takeD split: option.splits)

lemma split_once_first: "64 \<notin> set a \<Longrightarrow> split_once [64] (a @ 64 # b) = Some (a, b)"
  by (induction a) (auto simp: starts_with_def)

lemma split_once_at:
  assumes "split_once [64] s = Some (a, b)"
  shows "64 \<notin> set a" "s = a @ 64 # b"
  using assms
  by (induction s arbitrary: a) (auto simp: starts_with_def split: if_splits)

lemma split_str_at:
  "split_str [64] s = (case split_once [64] s of None \<Rightarrow> [s] | Some (a, b) \<Rightarrow> a # split_str [64] b)"
  by (subst split_str.simps) simp

lemma mask_runs_shown: "runs_shown lo (split_str [64] s) (split_str [64] (fst (mask_runs U lo s)))"
proof (induction U lo s rule: mask_runs.induct)
  case (1 U lo s)
  show ?case
  proof (cases "split_once [64] s")
    case None
    then show ?thesis by (subst mask_runs.simps) (simp add: split_str_at)
  next
    case (Some p)
    then obtain head rest where p: "split_once [64] s = Some (head, rest)" by (cases p) auto
    let ?out = "fst (mask_runs U (lo - (length head + 1)) rest)"
    have ih: "runs_shown (lo - (length head + 1)) (split_str [64] rest) (split_str [64] ?out)"
      using 1 [OF p refl] .
    have out: "fst (mask_runs U lo s) = masked_run U lo head @ 64 # ?out"
      using p by (subst mask_runs.simps) (simp add: Let_def split_beta)
    have "split_str [64] (fst (mask_runs U lo s)) = masked_run U lo head # split_str [64] ?out"
      unfolding out by (subst split_str_at) (simp add: split_once_first masked_run_no_at split_once_at(1) [OF p])
    moreover have "split_str [64] s = head # split_str [64] rest" by (subst split_str_at) (simp add: p)
    moreover obtain x xs where "split_str [64] rest = x # xs" using split_str_nonempty by (metis neq_Nil_conv)
    ultimately show ?thesis using ih masked_run_shown by simp
  qed
qed

text \<open>Behind the userinfo every run in front of a further \<open>@\<close> that carries a colon is masked from
  a place in front of its last colon on, so that no password of a login embedded in a path or a query
  is shown; runs without a colon and the text behind the last \<open>@\<close> are left as they are. Only the
  host and port behind the userinfo are exempt.\<close>

theorem embedded_logins_masked:
  "runs_shown lo (split_str [64] tail)
     (split_str [64] (case mask_tail_runs U tail lo of Some out \<Rightarrow> out | None \<Rightarrow> tail))"
proof (cases "mask_tail_runs U tail lo")
  case (Some out)
  then have "out = fst (mask_runs U lo tail)" by (auto simp: mask_tail_runs_def split: if_splits prod.splits)
  with Some mask_runs_shown show ?thesis by simp
next
  case None
  have same: "fst (mask_runs U lo s) = s" if "\<not> snd (mask_runs U lo s)" for s
    using that
  proof (induction U lo s rule: mask_runs.induct)
    case (1 U lo s)
    then show ?case
      by (cases "split_once [64] s") (subst mask_runs.simps, auto simp: split_beta Let_def masked_run_def
          mask_runs.simps [of U lo s] dest: split_once_at split: option.splits)+
  qed
  have "mask_runs U lo tail = (tail, False)" if "64 \<notin> set tail"
    using that by (subst mask_runs.simps) (simp add: split_once_none [THEN iffD2])
  moreover have "\<not> snd (mask_runs U lo tail)" if "64 \<in> set tail"
    using None that by (auto simp: mask_tail_runs_def split: if_splits prod.splits)
  ultimately have "fst (mask_runs U lo tail) = tail" using same by (metis fst_conv)
  with None mask_runs_shown [of lo tail U] show ?thesis by simp
qed


end
