(* ===== verification/Config.thy ===== *)
theory Config
  imports Mask Ladder
begin

text \<open>
  The layers of \<open>src/config.rs\<close>: the environment files, the overrides file, the process environment and
  the defaults; the loader, the table of settings with its validation, the overrides writer, the
  masked view and the path mappings. A hash map is a partial function; the process environment is
  the list of its variables. The JSON library, the parser of floating point numbers and Unicode
  upper case are parameters.
\<close>

section \<open>Small readers\<close>

type_synonym settings = "ustr \<rightharpoonup> ustr"

definition trim_matches :: "uchar set \<Rightarrow> ustr \<Rightarrow> ustr" where
  "trim_matches cs s = rev (dropWhile (\<lambda>c. c \<in> cs) (rev (dropWhile (\<lambda>c. c \<in> cs) s)))"

definition unquote :: "ustr \<Rightarrow> ustr" where
  "unquote v =
     (if 2 \<le> length v \<and> ((hd v = 34 \<and> last v = 34) \<or> (hd v = 39 \<and> last v = 39)) then butlast (tl v) else v)"

definition strip_export :: "ustr \<Rightarrow> ustr" where
  "strip_export line =
     (if starts_with (lit ''export '') line \<or> starts_with (lit ''export'' @ [9]) line
      then trim_start (drop 7 line) else line)"

definition env_line :: "ustr \<Rightarrow> (ustr \<times> ustr) option" where
  "env_line raw =
     (let line = trim raw in
      if line = [] \<or> hd line = 35 \<or> 61 \<notin> set line then None
      else case split_once [61] (strip_export line) of
          None \<Rightarrow> None
        | Some (k, v) \<Rightarrow> if trim k = [] then None else Some (trim k, unquote (trim v)))"

definition put_setting :: "settings \<Rightarrow> ustr \<times> ustr \<Rightarrow> settings" where
  "put_setting m kv = m(fst kv \<mapsto> snd kv)"

definition parse_env_file :: "ustr option \<Rightarrow> settings \<Rightarrow> settings" where
  "parse_env_file body m =
     (case body of None \<Rightarrow> m | Some text' \<Rightarrow> foldl put_setting m (List.map_filter env_line (str_lines text')))"

definition LYRIC_PLACEHOLDER :: ustr where "LYRIC_PLACEHOLDER = [0xff08, 0x6b4c, 0x8a5e, 0xff09]"

definition split_list :: "ustr \<Rightarrow> ustr list" where
  "split_list v = split_str [44] v"

definition json_strings :: "json_lib \<Rightarrow> ustr \<Rightarrow> ustr list option" where
  "json_strings lib v =
     (case parse_json lib v of
        Some (JArr xs) \<Rightarrow> if list_all (\<lambda>x. as_str x \<noteq> None) xs then Some (List.map_filter as_str xs) else None
      | _ \<Rightarrow> None)"

definition parse_string_list :: "json_lib \<Rightarrow> ustr \<Rightarrow> ustr list" where
  "parse_string_list lib raw =
     (let v = trim raw;
          items = (case (if starts_with (lit ''['') v then json_strings lib v else None) of
                     Some xs \<Rightarrow> filter (\<lambda>s. s \<noteq> []) (map trim xs) | None \<Rightarrow> []);
          csv = filter (\<lambda>s. s \<noteq> [] \<and> s \<noteq> lit ''['' \<and> s \<noteq> lit '']'')
                  (map (\<lambda>s. trim_matches {39} (trim_matches {34} (trim s))) (split_list v))
      in if items \<noteq> [] then items else if csv = [] then [LYRIC_PLACEHOLDER] else csv)"

section \<open>The layers\<close>

definition ENV_ALLOWLIST :: "ustr list" where
  "ENV_ALLOWLIST = map lit [
     ''SONARR_URL'', ''SONARR_API_KEY'', ''BAZARR_URL'', ''BAZARR_API_KEY'', ''BAZARR_URL_2'',
     ''BAZARR_API_KEY_2'', ''JELLYFIN_URL'', ''JELLYFIN_API_KEY'', ''JELLYFIN_MEDIA_ROOT'',
     ''NAS_MEDIA_PREFIX'', ''JIMAKU_API_KEY'', ''JIMAKU_DIRECT_ENABLED'', ''JIMAKU_BASE_URL'',
     ''JIMAKU_CALL_SLEEP_MS'', ''JIMAKU_TIMEOUT'', ''ANILIST_TIMEOUT'', ''ANILIST_CACHE'', ''TARGET_LANGS'',
     ''MAX_EPS_PER_RUN'', ''TRANSLATE_CHUNK'', ''EPISODE_CONCURRENCY'', ''ASR_CONCURRENCY'',
     ''TRANSLATE_CONCURRENCY'', ''UPLOAD_CONCURRENCY'', ''LLM_PER_ENDPOINT_CONCURRENCY'', ''LLM_TIMEOUT_S'',
     ''LLM_CONNECT_TIMEOUT_S'', ''LLM_READ_TIMEOUT_S'', ''TRANSLATION_TIMEOUT_S'', ''WHISPER_CONCURRENCY'',
     ''WHISPER_TIMEOUT_S'', ''TMP_DIR'', ''STATE_FILE'', ''ACTIONS_FILE'', ''EXCLUSIONS_FILE'',
     ''REGISTRY_FILE'', ''REFINE_STATE_FILE'', ''PROVIDERS_FILE'', ''GLOSSARY_FILE'', ''AI_MARKER_CUE'',
     ''AI_MARKER_CUE_MS'', ''SDH_PLACEHOLDERS'', ''CPS_MERGE_MAX'', ''CPS_MERGE_MAX_CHARS'',
     ''CPS_MERGE_MAX_DUR_MS'', ''CPS_MERGE_MAX_GAP_MS'', ''WEBHOOK_PORT'', ''LADDER_MIN_CUES'',
     ''LADDER_MIN_CHARS'', ''LADDER_MIN_CJK'', ''LADDER_SPAN_TOLERANCE'', ''MAX_CUE_MS'',
     ''ASRSUB_CONFIG_DIR'', ''RUST_LOG'']"

definition ENV_ONLY_KEYS :: "ustr list" where
  "ENV_ONLY_KEYS = map lit [
     ''LLM_PER_ENDPOINT_CONCURRENCY'', ''LLM_TIMEOUT_S'', ''LLM_CONNECT_TIMEOUT_S'', ''LLM_READ_TIMEOUT_S'',
     ''TRANSLATION_TIMEOUT_S'', ''WHISPER_CONCURRENCY'', ''WHISPER_TIMEOUT_S'', ''JIMAKU_BASE_URL'',
     ''JIMAKU_CALL_SLEEP_MS'', ''JIMAKU_TIMEOUT'', ''ANILIST_TIMEOUT'', ''ANILIST_BASE_URL'']"

definition is_ascii_ws :: "uchar \<Rightarrow> bool" where
  "is_ascii_ws c \<longleftrightarrow> c = 32 \<or> c = 9 \<or> c = 10 \<or> c = 12 \<or> c = 13"

text \<open>\<open>discord_config\<close>: the key that no configuration layer may hold.\<close>

definition is_reserved_key :: "ustr \<Rightarrow> bool" where
  "is_reserved_key raw \<longleftrightarrow>
     to_ascii_lower (rev (dropWhile is_ascii_ws (rev (dropWhile is_ascii_ws raw)))) = lit ''discord_webhook_url''"

definition filter_reserved :: "settings \<Rightarrow> settings" where
  "filter_reserved m = (\<lambda>k. if is_reserved_key k then None else m k)"

text \<open>The process environment, the readable files and the JSON library.\<close>

record config_env =
  ce_vars :: "(ustr \<times> ustr) list"
  ce_file :: "ustr \<Rightarrow> ustr option"
  ce_json :: json_lib

definition path_join :: "ustr \<Rightarrow> ustr \<Rightarrow> ustr" where
  "path_join dir name =
     (if starts_with (lit ''/'') name then name
      else if dir = [] \<or> last dir = 47 then dir @ name else dir @ lit ''/'' @ name)"

definition dirs_home :: "config_env \<Rightarrow> ustr" where
  "dirs_home env = (case env_str (map_of (ce_vars env)) (lit ''HOME'') of Some h \<Rightarrow> h | None \<Rightarrow> lit ''/home/user'')"

definition cfg_dir :: "config_env \<Rightarrow> ustr" where
  "cfg_dir env =
     (case env_str (map_of (ce_vars env)) (lit ''ASRSUB_CONFIG_DIR'') of
        Some d \<Rightarrow> d | None \<Rightarrow> path_join (path_join (dirs_home env) (lit ''.config'')) (lit ''asr-pipeline''))"

definition override_value :: "json_lib \<Rightarrow> json \<Rightarrow> ustr" where
  "override_value lib v = (case as_str v of Some s \<Rightarrow> s | None \<Rightarrow> trim_matches {34} (print_json lib v))"

definition merge_overrides :: "json_lib \<Rightarrow> ustr option \<Rightarrow> settings \<Rightarrow> settings" where
  "merge_overrides lib body m =
     (case Option.bind body (parse_json lib) of
        Some (JObj kvs) \<Rightarrow> foldl put_setting m (map (\<lambda>(k, v). (k, override_value lib v)) kvs)
      | _ \<Rightarrow> m)"

definition merge_env :: "settings \<Rightarrow> ustr \<times> ustr \<Rightarrow> settings" where
  "merge_env m kv =
     (if trim (snd kv) = [] then m
      else if fst kv \<in> dom m \<or> fst kv \<in> set ENV_ALLOWLIST then put_setting m kv else m)"

definition legacy_dir :: ustr where "legacy_dir = lit ''/home/user/.config/asr-pipeline''"

definition file_settings :: "config_env \<Rightarrow> settings" where
  "file_settings env =
     (let dir = cfg_dir env;
          m1 = parse_env_file (ce_file env (path_join legacy_dir (lit ''pipeline.env''))) Map.empty;
          m2 = parse_env_file (ce_file env (path_join dir (lit ''pipeline.env''))) m1;
          m3 = merge_overrides (ce_json env) (ce_file env (path_join legacy_dir (lit ''config.overrides.json''))) m2
      in merge_overrides (ce_json env) (ce_file env (path_join dir (lit ''config.overrides.json''))) m3)"

definition raw_load :: "config_env \<Rightarrow> settings" where
  "raw_load env = filter_reserved (foldl merge_env (file_settings env) (ce_vars env))"

section \<open>The loaded configuration\<close>

definition parse_int :: "nat \<Rightarrow> settings \<Rightarrow> ustr \<Rightarrow> nat \<Rightarrow> nat" where
  "parse_int w raw k d =
     (case raw k of None \<Rightarrow> d
      | Some v \<Rightarrow> if trim v = [] then d else (case parse_unsigned w (trim v) of Some n \<Rightarrow> n | None \<Rightarrow> d))"

definition parse_float :: "(ustr \<Rightarrow> f64 option) \<Rightarrow> settings \<Rightarrow> ustr \<Rightarrow> f64 \<Rightarrow> f64" where
  "parse_float f64_of raw k d =
     (case raw k of None \<Rightarrow> d
      | Some v \<Rightarrow> if trim v = [] then d else (case f64_of (trim v) of Some n \<Rightarrow> n | None \<Rightarrow> d))"

definition bool_of :: "settings \<Rightarrow> ustr \<Rightarrow> bool \<Rightarrow> bool" where
  "bool_of raw k d =
     (case raw k of None \<Rightarrow> d
      | Some v \<Rightarrow> if trim v = [] then d else lowercase (trim v) \<in> set (map lit [''1'', ''true'', ''yes'']))"

definition get_text :: "config_env \<Rightarrow> settings \<Rightarrow> ustr \<Rightarrow> ustr \<Rightarrow> ustr" where
  "get_text env raw k d =
     (case first_some (raw k) (map_of (ce_vars env) k) of None \<Rightarrow> d | Some v \<Rightarrow> if trim v = [] then d else trim v)"

definition dedup :: "'a list \<Rightarrow> 'a list" where
  "dedup xs = foldl (\<lambda>out x. if x \<in> set out then out else out @ [x]) [] xs"

definition parse_target_langs :: "ustr \<Rightarrow> ustr list" where
  "parse_target_langs raw =
     (let tl' = trim raw;
          items = (if starts_with (lit ''['') tl'
                   then map (\<lambda>s. normalize_lang (trim_matches {39} (trim_matches {34} (trim s))))
                          (split_list (trim_matches {91, 93} tl'))
                   else map normalize_lang (split_list tl'));
          langs = dedup (filter (\<lambda>s. s \<noteq> []) items)
      in if langs = [] then [lit ''id'', lit ''en''] else langs)"

record config =
  cf_raw :: settings
  cf_sonarr_url :: ustr
  cf_sonarr_api_key :: ustr
  cf_bazarr_url :: ustr
  cf_bazarr_api_key :: ustr
  cf_bazarr_url_2 :: "ustr option"
  cf_bazarr_api_key_2 :: ustr
  cf_jellyfin_url :: ustr
  cf_jellyfin_api_key :: ustr
  cf_jellyfin_media_root :: ustr
  cf_nas_media_prefix :: ustr
  cf_jimaku_api_key :: ustr
  cf_jimaku_direct_enabled :: bool
  cf_target_langs :: "ustr list"
  cf_max_eps_per_run :: nat
  cf_translate_chunk :: nat
  cf_episode_concurrency :: nat
  cf_asr_concurrency :: nat
  cf_translate_concurrency :: nat
  cf_upload_concurrency :: nat
  cf_tmp_dir :: ustr
  cf_state_file :: ustr
  cf_actions_file :: ustr
  cf_exclusions_file :: ustr
  cf_registry_file :: ustr
  cf_refine_state_file :: ustr
  cf_providers_file :: ustr
  cf_glossary_file :: ustr
  cf_ai_marker_cue :: bool
  cf_ai_marker_cue_ms :: u32
  cf_sdh_placeholders :: "ustr list"
  cf_cps_merge_max :: f64
  cf_cps_merge_max_chars :: nat
  cf_cps_merge_max_dur_ms :: u32
  cf_cps_merge_max_gap_ms :: u32
  cf_webhook_port :: nat
  cf_ladder_min_cues :: nat
  cf_ladder_min_chars :: nat
  cf_ladder_min_cjk :: f64
  cf_ladder_span_tol :: f64
  cf_anilist_cache :: ustr
  cf_max_cue_ms :: u32

definition placeholders_of :: "json_lib \<Rightarrow> settings \<Rightarrow> ustr list" where
  "placeholders_of lib raw =
     (case first_some (raw (lit ''SDH_PLACEHOLDERS'')) (raw (lit ''sdh_placeholders'')) of
        Some v \<Rightarrow> parse_string_list lib v | None \<Rightarrow> [LYRIC_PLACEHOLDER])"

text \<open>\<open>Config::load\<close>: \<open>cpus\<close> is the parallelism of the host.\<close>

definition config_load :: "config_env \<Rightarrow> (ustr \<Rightarrow> f64 option) \<Rightarrow> nat \<Rightarrow> config" where
  "config_load env f64_of cpus =
     (let raw = raw_load env; dir = cfg_dir env;
          get = (\<lambda>k d. get_text env raw (lit k) (lit d));
          path = (\<lambda>k name. get_text env raw (lit k) (path_join dir (lit name)));
          num = (\<lambda>k d. parse_int 64 raw (lit k) d);
          ms = (\<lambda>k d. of_nat (parse_int 32 raw (lit k) d) :: u32);
          real = (\<lambda>k d. parse_float f64_of raw (lit k) d)
      in \<lparr>cf_raw = raw,
          cf_sonarr_url = get ''SONARR_URL'' '''', cf_sonarr_api_key = get ''SONARR_API_KEY'' '''',
          cf_bazarr_url = get ''BAZARR_URL'' '''', cf_bazarr_api_key = get ''BAZARR_API_KEY'' '''',
          cf_bazarr_url_2 = (case raw (lit ''BAZARR_URL_2'') of Some s \<Rightarrow> if s = [] then None else Some s | None \<Rightarrow> None),
          cf_bazarr_api_key_2 = get ''BAZARR_API_KEY_2'' '''',
          cf_jellyfin_url = get ''JELLYFIN_URL'' '''', cf_jellyfin_api_key = get ''JELLYFIN_API_KEY'' '''',
          cf_jellyfin_media_root = get ''JELLYFIN_MEDIA_ROOT'' ''/media'',
          cf_nas_media_prefix = get ''NAS_MEDIA_PREFIX'' ''/mnt/nas/share/media'',
          cf_jimaku_api_key = get ''JIMAKU_API_KEY'' '''',
          cf_jimaku_direct_enabled = bool_of raw (lit ''JIMAKU_DIRECT_ENABLED'') True,
          cf_target_langs = parse_target_langs (get ''TARGET_LANGS'' ''id,en''),
          cf_max_eps_per_run = num ''MAX_EPS_PER_RUN'' 8,
          cf_translate_chunk = num ''TRANSLATE_CHUNK'' 10,
          cf_episode_concurrency = num ''EPISODE_CONCURRENCY'' (max 2 (min 8 cpus)),
          cf_asr_concurrency = num ''ASR_CONCURRENCY'' 4,
          cf_translate_concurrency = num ''TRANSLATE_CONCURRENCY'' 16,
          cf_upload_concurrency = num ''UPLOAD_CONCURRENCY'' 8,
          cf_tmp_dir = path ''TMP_DIR'' ''tmp'',
          cf_state_file = path ''STATE_FILE'' ''state.jsonl'',
          cf_actions_file = path ''ACTIONS_FILE'' ''actions.jsonl'',
          cf_exclusions_file = path ''EXCLUSIONS_FILE'' ''exclusions.jsonl'',
          cf_registry_file = path ''REGISTRY_FILE'' ''subtitle_registry.jsonl'',
          cf_refine_state_file = path ''REFINE_STATE_FILE'' ''refine_state.jsonl'',
          cf_providers_file = get ''PROVIDERS_FILE'' ''asrsub_providers.json'',
          cf_glossary_file = path ''GLOSSARY_FILE'' ''glossary.json'',
          cf_ai_marker_cue = bool_of raw (lit ''AI_MARKER_CUE'') True,
          cf_ai_marker_cue_ms = ms ''AI_MARKER_CUE_MS'' 1500,
          cf_sdh_placeholders = placeholders_of (ce_json env) raw,
          cf_cps_merge_max = real ''CPS_MERGE_MAX'' 20,
          cf_cps_merge_max_chars = num ''CPS_MERGE_MAX_CHARS'' 84,
          cf_cps_merge_max_dur_ms = ms ''CPS_MERGE_MAX_DUR_MS'' 7000,
          cf_cps_merge_max_gap_ms = ms ''CPS_MERGE_MAX_GAP_MS'' 1000,
          cf_webhook_port = parse_int 16 raw (lit ''WEBHOOK_PORT'') 8085,
          cf_ladder_min_cues = num ''LADDER_MIN_CUES'' 40,
          cf_ladder_min_chars = num ''LADDER_MIN_CHARS'' 1500,
          cf_ladder_min_cjk = real ''LADDER_MIN_CJK'' (f64_round (6 / 10)),
          cf_ladder_span_tol = real ''LADDER_SPAN_TOLERANCE'' (f64_round (15 / 100)),
          cf_anilist_cache = path ''ANILIST_CACHE'' ''anilist_cache.json'',
          cf_max_cue_ms = ms ''MAX_CUE_MS'' (unat MAX_CUE_MS)\<rparr>)"

section \<open>The masked view\<close>

definition secret_key :: "(ustr \<Rightarrow> ustr) \<Rightarrow> ustr \<Rightarrow> bool" where
  "secret_key upper k \<longleftrightarrow>
     list_ex (\<lambda>h. contains (lit h) (upper k)) [''KEY'', ''TOKEN'', ''SECRET'', ''PASSWORD'', ''PASS'', ''AUTH'', ''CRED'']"

definition masked_view :: "unicode_db \<Rightarrow> (ustr \<Rightarrow> ustr) \<Rightarrow> config \<Rightarrow> settings" where
  "masked_view U upper cfg =
     (\<lambda>k. map_option (\<lambda>v. if is_reserved_key k \<or> secret_key upper k then lit ''***'' else mask_for_log U v) (cf_raw cfg k))"

section \<open>Paths\<close>

definition map_container_path :: "ustr \<Rightarrow> ustr \<Rightarrow> ustr" where
  "map_container_path pre path =
     (if starts_with (lit ''/data/'') path then trim_end_matches 47 pre @ lit ''/'' @ drop 6 path else path)"

definition map_path :: "config \<Rightarrow> ustr \<Rightarrow> ustr" where
  "map_path cfg path = map_container_path (cf_nas_media_prefix cfg) path"

definition map_host_to_jellyfin :: "ustr \<Rightarrow> ustr \<Rightarrow> ustr \<Rightarrow> ustr" where
  "map_host_to_jellyfin host_prefix jroot path =
     (let host = trim_end_matches 47 host_prefix in
      if starts_with host path then trim_end_matches 47 jroot @ drop (length host) path else path)"

section \<open>The settings form\<close>

datatype FieldKind = FText | FSecret | FBool | FInt nat | FFloat | FCsv

record Field =
  fd_group :: ustr
  fd_key :: ustr
  fd_label :: ustr
  fd_kind :: FieldKind
  fd_shown :: ustr

definition field :: "string \<Rightarrow> string \<Rightarrow> string \<Rightarrow> FieldKind \<Rightarrow> ustr \<Rightarrow> Field" where
  "field g k l kind d = \<lparr>fd_group = lit g, fd_key = lit k, fd_label = lit l, fd_kind = kind, fd_shown = d\<rparr>"

text \<open>The table of settings without its help texts; \<open>fd_shown\<close> is the default the form displays.\<close>

definition FIELDS :: "Field list" where
  "FIELDS = [
     field ''media'' ''SONARR_URL'' ''Sonarr URL'' FText (lit ''''),
     field ''media'' ''SONARR_API_KEY'' ''Sonarr API key'' FSecret (lit ''''),
     field ''media'' ''BAZARR_URL'' ''Bazarr URL (primary)'' FText (lit ''''),
     field ''media'' ''BAZARR_API_KEY'' ''Bazarr API key (primary)'' FSecret (lit ''''),
     field ''media'' ''BAZARR_URL_2'' ''Bazarr URL (secondary)'' FText (lit ''''),
     field ''media'' ''BAZARR_API_KEY_2'' ''Bazarr API key (secondary)'' FSecret (lit ''''),
     field ''media'' ''JELLYFIN_URL'' ''Jellyfin URL'' FText (lit ''''),
     field ''media'' ''JELLYFIN_API_KEY'' ''Jellyfin API key'' FSecret (lit ''''),
     field ''media'' ''JELLYFIN_MEDIA_ROOT'' ''Jellyfin media root'' FText (lit ''/media''),
     field ''media'' ''NAS_MEDIA_PREFIX'' ''Host media prefix'' FText (lit ''/mnt/nas/share/media''),
     field ''ai'' ''TARGET_LANGS'' ''Target languages'' FCsv (lit ''id,en''),
     field ''ai'' ''PROVIDERS_FILE'' ''Providers file'' FText (lit ''asrsub_providers.json''),
     field ''ai'' ''JIMAKU_API_KEY'' ''Jimaku API key'' FSecret (lit ''''),
     field ''ai'' ''JIMAKU_DIRECT_ENABLED'' ''Jimaku direct enabled'' FBool (lit ''true''),
     field ''workflow'' ''MAX_EPS_PER_RUN'' ''Max episodes per run'' (FInt (2 ^ 64 - 1)) (lit ''8''),
     field ''workflow'' ''EPISODE_CONCURRENCY'' ''Episode concurrency'' (FInt (2 ^ 64 - 1)) (lit ''''),
     field ''workflow'' ''ASR_CONCURRENCY'' ''ASR concurrency'' (FInt (2 ^ 64 - 1)) (lit ''4''),
     field ''workflow'' ''TRANSLATE_CONCURRENCY'' ''Translate concurrency'' (FInt (2 ^ 64 - 1)) (lit ''16''),
     field ''workflow'' ''UPLOAD_CONCURRENCY'' ''Upload concurrency'' (FInt (2 ^ 64 - 1)) (lit ''8''),
     field ''workflow'' ''TRANSLATE_CHUNK'' ''Translate chunk size'' (FInt (2 ^ 64 - 1)) (lit ''10''),
     field ''workflow'' ''MAX_CUE_MS'' ''Max cue duration (ms)'' (FInt (2 ^ 32 - 1)) (lit ''8000''),
     field ''workflow'' ''AI_MARKER_CUE'' ''AI marker cue'' FBool (lit ''true''),
     field ''workflow'' ''AI_MARKER_CUE_MS'' ''AI marker duration (ms)'' (FInt (2 ^ 32 - 1)) (lit ''1500''),
     field ''state'' ''STATE_FILE'' ''State file'' FText (lit ''~/.config/asr-pipeline/state.jsonl''),
     field ''state'' ''ACTIONS_FILE'' ''Actions file'' FText (lit ''~/.config/asr-pipeline/actions.jsonl''),
     field ''state'' ''EXCLUSIONS_FILE'' ''Exclusions file'' FText (lit ''~/.config/asr-pipeline/exclusions.jsonl''),
     field ''state'' ''REGISTRY_FILE'' ''Registry file'' FText (lit ''~/.config/asr-pipeline/subtitle_registry.jsonl''),
     field ''state'' ''REFINE_STATE_FILE'' ''Refine state file'' FText (lit ''~/.config/asr-pipeline/refine_state.jsonl''),
     field ''state'' ''GLOSSARY_FILE'' ''Glossary file'' FText (lit ''~/.config/asr-pipeline/glossary.json''),
     field ''state'' ''ANILIST_CACHE'' ''AniList cache'' FText (lit ''~/.config/asr-pipeline/anilist_cache.json''),
     field ''state'' ''TMP_DIR'' ''Temp dir'' FText (lit ''~/.config/asr-pipeline/tmp''),
     field ''state'' ''WEBHOOK_PORT'' ''Control/webhook port'' (FInt (2 ^ 16 - 1)) (lit ''8085''),
     field ''advanced'' ''SDH_PLACEHOLDERS'' ''Lyric placeholders'' FCsv LYRIC_PLACEHOLDER,
     field ''advanced'' ''CPS_MERGE_MAX'' ''Max reading speed'' FFloat (lit ''20.0''),
     field ''advanced'' ''CPS_MERGE_MAX_CHARS'' ''Max merged chars'' (FInt (2 ^ 64 - 1)) (lit ''84''),
     field ''advanced'' ''CPS_MERGE_MAX_DUR_MS'' ''Max merged duration (ms)'' (FInt (2 ^ 32 - 1)) (lit ''7000''),
     field ''advanced'' ''CPS_MERGE_MAX_GAP_MS'' ''Max merge gap (ms)'' (FInt (2 ^ 32 - 1)) (lit ''1000''),
     field ''advanced'' ''LADDER_MIN_CUES'' ''Ladder min cues'' (FInt (2 ^ 64 - 1)) (lit ''40''),
     field ''advanced'' ''LADDER_MIN_CHARS'' ''Ladder min chars'' (FInt (2 ^ 64 - 1)) (lit ''1500''),
     field ''advanced'' ''LADDER_MIN_CJK'' ''Ladder min CJK ratio'' FFloat (lit ''0.6''),
     field ''advanced'' ''LADDER_SPAN_TOLERANCE'' ''Ladder span tolerance'' FFloat (lit ''0.15'')]"

definition is_editable_key :: "ustr \<Rightarrow> bool" where
  "is_editable_key k \<longleftrightarrow> list_ex (\<lambda>f. fd_key f = k) FIELDS"

text \<open>What a key expects when the value cannot be used for it.\<close>

definition value_requirement :: "(ustr \<Rightarrow> f64 option) \<Rightarrow> ustr \<Rightarrow> ustr \<Rightarrow> ustr option" where
  "value_requirement f64_of k value =
     (case find (\<lambda>f. fd_key f = k) FIELDS of
        None \<Rightarrow> None
      | Some f \<Rightarrow>
          let v = trim value in
          if v = [] then None
          else (case fd_kind f of
              FInt m \<Rightarrow>
                (case parse_unsigned 64 v of
                   Some n \<Rightarrow> if n \<le> m then None else Some (lit ''a whole number between 0 and '' @ dec m)
                 | None \<Rightarrow> Some (lit ''a whole number between 0 and '' @ dec m))
            | FFloat \<Rightarrow> (if f64_of v = None then Some (lit ''a number'') else None)
            | _ \<Rightarrow> None))"

definition env_pinned :: "config_env \<Rightarrow> ustr \<Rightarrow> bool" where
  "env_pinned env k \<longleftrightarrow> (case map_of (ce_vars env) k of Some v \<Rightarrow> trim v \<noteq> [] | None \<Rightarrow> False)"

text \<open>\<open>write_overrides\<close>: the pairs are merged into the object of the overrides file. The printer of the
  JSON library stands for the pretty printer; an operation on the file that fails changes nothing.\<close>

definition overrides_path :: "config_env \<Rightarrow> ustr" where
  "overrides_path env = path_join (cfg_dir env) (lit ''config.overrides.json'')"

definition merged_overrides :: "config_env \<Rightarrow> (ustr \<times> ustr) list \<Rightarrow> (ustr \<times> json) list" where
  "merged_overrides env pairs =
     foldl (\<lambda>m (k, v). AList.update k (JStr v) m)
       (case Option.bind (ce_file env (overrides_path env)) (parse_json (ce_json env)) of
          Some (JObj kvs) \<Rightarrow> kvs | _ \<Rightarrow> []) pairs"

definition write_overrides :: "config_env \<Rightarrow> bool \<Rightarrow> (ustr \<times> ustr) list \<Rightarrow> config_env \<times> bool" where
  "write_overrides env works pairs =
     (if list_ex (\<lambda>(k, _). is_reserved_key k) pairs \<or> \<not> works then (env, False)
      else (env\<lparr>ce_file := (ce_file env)(overrides_path env \<mapsto>
              print_json (ce_json env) (JObj (merged_overrides env pairs)))\<rparr>, True))"

section \<open>Properties\<close>

lemma foldl_put: "foldl put_setting m kvs k = first_some (map_of (rev kvs) k) (m k)"
  by (induction kvs rule: rev_induct) (auto simp: put_setting_def first_some_def)

text \<open>What a file layer says of a key.\<close>

definition env_layer :: "ustr option \<Rightarrow> settings" where
  "env_layer body k = (case body of None \<Rightarrow> None | Some t \<Rightarrow> map_of (rev (List.map_filter env_line (str_lines t))) k)"

definition json_layer :: "json_lib \<Rightarrow> ustr option \<Rightarrow> settings" where
  "json_layer lib body k =
     (case Option.bind body (parse_json lib) of
        Some (JObj kvs) \<Rightarrow> map_option (override_value lib) (map_of (rev kvs) k) | _ \<Rightarrow> None)"

lemma parse_env_file_layer: "parse_env_file body m k = first_some (env_layer body k) (m k)"
  by (simp add: parse_env_file_def env_layer_def foldl_put first_some_def split: option.split)

lemma map_of_values: "map_of (map (\<lambda>(k, v). (k, f v)) kvs) k = map_option f (map_of kvs k)"
  by (induction kvs) auto

lemma merge_overrides_layer: "merge_overrides lib body m k = first_some (json_layer lib body k) (m k)"
proof (cases "Option.bind body (parse_json lib)")
  case (Some v)
  then show ?thesis
    by (cases v) (simp_all add: merge_overrides_def json_layer_def foldl_put first_some_def rev_map map_of_values)
qed (simp add: merge_overrides_def json_layer_def first_some_def)

lemma first_some_assoc: "first_some (first_some a b) c = first_some a (first_some b c)"
  by (simp add: first_some_def split: option.split)

lemma first_some_None [simp]: "first_some a None = a" "first_some None a = a" "first_some (Some x) a = Some x"
  by (simp_all add: first_some_def split: option.split)

text \<open>The lookup order of the files.\<close>

lemma file_settings_layers:
  "file_settings env k =
     first_some (json_layer (ce_json env) (ce_file env (overrides_path env)) k)
       (first_some (json_layer (ce_json env) (ce_file env (path_join legacy_dir (lit ''config.overrides.json''))) k)
         (first_some (env_layer (ce_file env (path_join (cfg_dir env) (lit ''pipeline.env''))) k)
           (env_layer (ce_file env (path_join legacy_dir (lit ''pipeline.env''))) k)))"
  by (simp add: file_settings_def Let_def merge_overrides_layer parse_env_file_layer overrides_path_def)

lemma merge_env_fold:
  assumes "distinct (map fst vars)"
  shows "foldl merge_env m vars k =
    (case map_of vars k of
       Some v \<Rightarrow> if trim v \<noteq> [] \<and> (k \<in> dom m \<or> k \<in> set ENV_ALLOWLIST) then Some v else m k
     | None \<Rightarrow> m k)"
  using assms
proof (induction vars arbitrary: m)
  case (Cons kv vars)
  have dom: "k \<in> dom (merge_env m kv) \<longleftrightarrow> k \<in> dom m" if "k \<noteq> fst kv"
    using that by (auto simp: merge_env_def put_setting_def)
  have other: "merge_env m kv k = m k" if "k \<noteq> fst kv"
    using that by (auto simp: merge_env_def put_setting_def)
  have same: "merge_env m kv (fst kv) =
      (if trim (snd kv) \<noteq> [] \<and> (fst kv \<in> dom m \<or> fst kv \<in> set ENV_ALLOWLIST) then Some (snd kv) else m (fst kv))"
    by (auto simp: merge_env_def put_setting_def)
  show ?case
  proof (cases "k = fst kv")
    case True
    then have "map_of vars k = None" using Cons.prems by (simp add: map_of_eq_None_iff)
    with True Cons.IH [of "merge_env m kv"] Cons.prems show ?thesis by (simp add: same)
  next
    case False
    then have "map_of (kv # vars) k = map_of vars k" by (cases kv) simp
    moreover have "distinct (map fst vars)" using Cons.prems by simp
    ultimately show ?thesis
      by (simp only: foldl_Cons Cons.IH dom [OF False] other [OF False])
  qed
qed simp

lemma raw_load_layers:
  assumes "distinct (map fst (ce_vars env))"
  shows "raw_load env k =
    (if is_reserved_key k then None
     else let files =
        first_some (json_layer (ce_json env) (ce_file env (overrides_path env)) k)
         (first_some (json_layer (ce_json env) (ce_file env (path_join legacy_dir (lit ''config.overrides.json''))) k)
          (first_some (env_layer (ce_file env (path_join (cfg_dir env) (lit ''pipeline.env''))) k)
            (env_layer (ce_file env (path_join legacy_dir (lit ''pipeline.env''))) k)))
      in if env_pinned env k \<and> (files \<noteq> None \<or> k \<in> set ENV_ALLOWLIST) then map_of (ce_vars env) k else files)"
  using assms
  by (auto simp: raw_load_def filter_reserved_def merge_env_fold file_settings_layers [symmetric] env_pinned_def Let_def
      split: option.split)

text \<open>The lookup order of the configuration: a variable of the process environment that is not blank
  and that the service owns or a file mentions, then the overrides of the configuration directory,
  then the legacy overrides, then the two environment files in that order. The webhook address is in
  no layer.\<close>

theorem settings_precedence:
  assumes "distinct (map fst (ce_vars env))"
  shows "raw_load env k =
    (if is_reserved_key k then None
     else let files =
        first_some (json_layer (ce_json env) (ce_file env (overrides_path env)) k)
         (first_some (json_layer (ce_json env) (ce_file env (path_join legacy_dir (lit ''config.overrides.json''))) k)
          (first_some (env_layer (ce_file env (path_join (cfg_dir env) (lit ''pipeline.env''))) k)
            (env_layer (ce_file env (path_join legacy_dir (lit ''pipeline.env''))) k)))
      in if env_pinned env k \<and> (files \<noteq> None \<or> k \<in> set ENV_ALLOWLIST) then map_of (ce_vars env) k else files)"
  by (rule raw_load_layers [OF assms])

lemma dedup_props: "distinct (dedup xs) \<and> set (dedup xs) = set xs"
  by (induction xs rule: rev_induct) (auto simp: dedup_def)

lemma parse_unsigned_bound: "parse_unsigned w s = Some n \<Longrightarrow> n < 2 ^ w"
  by (auto simp: parse_unsigned_def Let_def split: if_splits option.splits list.splits)

lemma parse_int_bound: "d < 2 ^ w \<Longrightarrow> parse_int w raw k d < 2 ^ w"
  by (auto simp: parse_int_def dest: parse_unsigned_bound split: option.split)

lemma normal_langs:
  "distinct (parse_target_langs s) \<and> parse_target_langs s \<noteq> []
    \<and> (\<forall>l \<in> set (parse_target_langs s). l \<noteq> [] \<and> normalize_lang l = l)"
proof -
  have default: "normalize_lang (lit ''id'') = lit ''id''" "normalize_lang (lit ''en'') = lit ''en''"
    by (rule normalize_wire_code; simp add: wire_codes_raw WIRE_ACCEPTED_LANGS_raw_def)+
  show ?thesis
  proof (cases "dedup (filter (\<lambda>s. s \<noteq> []) (if starts_with (lit ''['') (trim s)
       then map (\<lambda>s. normalize_lang (trim_matches {39} (trim_matches {34} (trim s)))) (split_list (trim_matches {91, 93} (trim s)))
       else map normalize_lang (split_list (trim s)))) = []")
    case True
    then show ?thesis by (simp add: parse_target_langs_def Let_def default)
  next
    case False
    then show ?thesis
      unfolding parse_target_langs_def Let_def
      using dedup_props by (auto simp: Let_def)
  qed
qed

lemma placeholders_nonempty: "parse_string_list lib v \<noteq> [] \<and> [] \<notin> set (parse_string_list lib v)"
  by (auto simp: parse_string_list_def Let_def LYRIC_PLACEHOLDER_def)

lemma path_join_nonempty: "name \<noteq> [] \<Longrightarrow> path_join dir name \<noteq> []"
  by (simp add: path_join_def)

lemma get_text_nonempty: "d \<noteq> [] \<Longrightarrow> get_text env raw k d \<noteq> []"
  by (simp add: get_text_def split: option.split)

lemmas numbers_bounded = parse_int_bound [where w = 64, simplified] parse_int_bound [where w = 16, simplified]

lemmas texts_nonempty = get_text_nonempty get_text_nonempty [THEN not_sym] path_join_nonempty


text \<open>The types the loader reads the whole numbers of the form at.\<close>

definition int_width :: "ustr \<Rightarrow> nat" where
  "int_width k =
     (if k = lit ''WEBHOOK_PORT'' then 16
      else if k \<in> set (map lit [''MAX_CUE_MS'', ''AI_MARKER_CUE_MS'', ''CPS_MERGE_MAX_DUR_MS'', ''CPS_MERGE_MAX_GAP_MS'']) then 32
      else 64)"

lemma fields_widths:
  "list_all (\<lambda>f. case fd_kind f of FInt m \<Rightarrow> m = 2 ^ int_width (fd_key f) - 1 | _ \<Rightarrow> True) FIELDS"
  by (simp add: FIELDS_def field_def int_width_def)

text \<open>The form offers no key that the environment layer would not carry.\<close>

lemma fields_owned: "list_all (\<lambda>f. fd_key f \<in> set ENV_ALLOWLIST) FIELDS"
  by (simp add: FIELDS_def field_def ENV_ALLOWLIST_def)

lemma find_by_key: "distinct (map g xs) \<Longrightarrow> x \<in> set xs \<Longrightarrow> find (\<lambda>y. g y = g x) xs = Some x"
  by (induction xs) auto

lemma parse_unsigned_narrow:
  "parse_unsigned 64 s = Some n \<Longrightarrow> n < 2 ^ w \<Longrightarrow> parse_unsigned w s = Some n"
  by (auto simp: parse_unsigned_def Let_def split: if_splits option.splits list.splits)

text \<open>A whole number the settings form accepts is the number the loader uses: validation and the
  loader agree on every field of that kind, at its width, so that an accepted value is never
  replaced by the default.\<close>

theorem accepted_number_is_loaded:
  assumes "value_requirement f64_of k v = None" "f \<in> set FIELDS" "fd_key f = k" "fd_kind f = FInt m"
    and "trim v \<noteq> []" "raw k = Some v"
  shows "\<exists>n \<le> m. parse_unsigned 64 (trim v) = Some n \<and> parse_int (int_width k) raw k d = n"
proof -
  have "distinct (map fd_key FIELDS)" by (simp add: FIELDS_def field_def)
  then have found: "find (\<lambda>f. fd_key f = k) FIELDS = Some f"
    using find_by_key [of fd_key FIELDS f] assms(2,3) by simp
  obtain n where n: "parse_unsigned 64 (trim v) = Some n" "n \<le> m"
    using assms(1,4,5) by (auto simp: value_requirement_def found Let_def split: option.splits if_splits)
  have "m = 2 ^ int_width k - 1"
    using fields_widths assms(2,3,4) by (auto simp: list_all_iff)
  moreover have "(0::nat) < 2 ^ int_width k" by simp
  ultimately have "n < 2 ^ int_width k" using n(2) by linarith
  then have "parse_int (int_width k) raw k d = n"
    using parse_unsigned_narrow [OF n(1)] assms(5,6) by (simp add: parse_int_def)
  with n show ?thesis by blast
qed

lemma update_fold_last:
  "map_of (foldl (\<lambda>m (k, v). AList.update k (JStr v) m) kvs pairs) k
    = first_some (map_option JStr (map_of (rev pairs) k)) (map_of kvs k)"
  by (induction pairs rule: rev_induct) (auto simp: update_conv' first_some_def)

lemma update_fold_distinct:
  "distinct (map fst kvs) \<Longrightarrow> distinct (map fst (foldl (\<lambda>m (k, v). AList.update k (JStr v) m) kvs pairs))"
  by (induction pairs rule: rev_induct) (auto simp: distinct_update split: prod.splits)

lemma map_of_rev_distinct: "distinct (map fst kvs) \<Longrightarrow> map_of (rev kvs) k = map_of kvs k"
proof -
  assume d: "distinct (map fst kvs)"
  have "map_of (rev kvs) k = Some v \<longleftrightarrow> map_of kvs k = Some v" for v
    using d by (simp add: map_of_eq_Some_iff rev_map [symmetric] del: rev_map)
  then show ?thesis by (cases "map_of kvs k") auto
qed

lemma path_join_last: "name \<noteq> [] \<Longrightarrow> last (path_join dir name) = last name"
  by (simp add: path_join_def)

lemma overrides_no_env_file: "path_join dir (lit ''pipeline.env'') \<noteq> overrides_path env"
  using path_join_last [of "lit ''pipeline.env''" dir] path_join_last [of "lit ''config.overrides.json''" "cfg_dir env"]
  by (auto simp: overrides_path_def lit_eval)

lemma dirs_home_files [simp]: "dirs_home (env\<lparr>ce_file := f\<rparr>) = dirs_home env"
  by (simp add: dirs_home_def)

lemma cfg_dir_files [simp]: "cfg_dir (env\<lparr>ce_file := f\<rparr>) = cfg_dir env"
  by (simp add: cfg_dir_def split: option.split)

lemma overrides_path_files [simp]: "overrides_path (env\<lparr>ce_file := f\<rparr>) = overrides_path env"
  by (simp add: overrides_path_def)

lemma env_pinned_files [simp]: "env_pinned (env\<lparr>ce_file := f\<rparr>) = env_pinned env"
  by (simp add: env_pinned_def fun_eq_iff)

lemma json_layer_merged:
  assumes "parse_json (ce_json env) (print_json (ce_json env) (JObj (merged_overrides env pairs))) = Some (JObj (merged_overrides env pairs))"
    and "\<And>t kvs. parse_json (ce_json env) t = Some (JObj kvs) \<Longrightarrow> distinct (map fst kvs)"
  shows "json_layer (ce_json env) (Some (print_json (ce_json env) (JObj (merged_overrides env pairs)))) k
    = first_some (map_of (rev pairs) k) (json_layer (ce_json env) (ce_file env (overrides_path env)) k)"
proof -
  let ?old = "case Option.bind (ce_file env (overrides_path env)) (parse_json (ce_json env)) of Some (JObj kvs) \<Rightarrow> kvs | _ \<Rightarrow> []"
  have d: "distinct (map fst (merged_overrides env pairs))" using assms by blast
  have "Option.bind (ce_file env (overrides_path env)) (parse_json (ce_json env)) = Some (JObj kvs) \<Longrightarrow> distinct (map fst kvs)" for kvs
    using assms(2) by (auto split: bind_splits)
  then have "json_layer (ce_json env) (ce_file env (overrides_path env)) k = map_option (override_value (ce_json env)) (map_of ?old k)"
    by (simp add: json_layer_def map_of_rev_distinct split: option.split json.split)
  moreover have "map_option (override_value (ce_json env)) (map_option JStr x) = x" for x
    by (cases x) (simp_all add: override_value_def)
  ultimately show ?thesis
    using assms(1) update_fold_last [of ?old pairs k]
    by (simp add: json_layer_def map_of_rev_distinct [OF d] first_some_def merged_overrides_def [symmetric]
        split: option.split) (auto simp: merged_overrides_def)
qed

text \<open>A setting that was saved is the setting that is loaded: after the overrides are written, each
  key of the request has the last value given for it, unless the process environment pins it; every
  other setting keeps its value. A request with the webhook address is refused as a whole.\<close>

theorem saved_setting_is_loaded:
  assumes "write_overrides env True pairs = (env', saved)" "distinct (map fst (ce_vars env))"
    and "parse_json (ce_json env) (print_json (ce_json env) (JObj (merged_overrides env pairs))) = Some (JObj (merged_overrides env pairs))"
    and "\<And>t kvs. parse_json (ce_json env) t = Some (JObj kvs) \<Longrightarrow> distinct (map fst kvs)"
    and "\<not> env_pinned env k"
  shows "(saved \<longleftrightarrow> list_all (\<lambda>(j, _). \<not> is_reserved_key j) pairs)
    \<and> (if saved then raw_load env' k = first_some (map_of (rev pairs) k) (raw_load env k) else env' = env)"
proof (cases "list_ex (\<lambda>(j, _). is_reserved_key j) pairs")
  case True
  then show ?thesis using assms(1) by (auto simp: write_overrides_def list_ex_iff list_all_iff)
next
  case False
  let ?text = "print_json (ce_json env) (JObj (merged_overrides env pairs))"
  have env': "env' = env\<lparr>ce_file := (ce_file env)(overrides_path env \<mapsto> ?text)\<rparr>" and saved: saved
    using assms(1) False by (simp_all add: write_overrides_def)
  have same: "overrides_path env' = overrides_path env" "cfg_dir env' = cfg_dir env" "ce_json env' = ce_json env"
      "ce_vars env' = ce_vars env" "env_pinned env' k = env_pinned env k"
    by (simp_all add: env' env_pinned_def)
  have reserved: "is_reserved_key k \<Longrightarrow> map_of (rev pairs) k = None"
    using False by (auto simp: list_ex_iff map_of_eq_None_iff)
  have layer: "json_layer (ce_json env) (Some ?text) k
      = first_some (map_of (rev pairs) k) (json_layer (ce_json env) (ce_file env (overrides_path env)) k)"
    by (rule json_layer_merged [OF assms(3,4)])
  have "raw_load env' k = first_some (map_of (rev pairs) k) (raw_load env k)"
    using assms(2,5) reserved
    by (simp add: raw_load_layers same Let_def layer env' overrides_no_env_file first_some_assoc)
      (simp add: first_some_def split: option.split)
  with saved False show ?thesis by (auto simp: list_ex_iff list_all_iff)
qed

text \<open>A path of the media services that lies under their data directory comes back from the two
  mappings under the media root of the player, whatever slashes the configured prefixes end with.
  But the second mapping compares text, not path components: a directory whose name only begins
  with the prefix is mapped as well, to a path that does not exist there.\<close>

theorem mapped_path_reaches_player:
  "map_host_to_jellyfin pre jroot (map_container_path pre (lit ''/data/'' @ rest)) = trim_end_matches 47 jroot @ lit ''/'' @ rest
   \<and> map_host_to_jellyfin pre jroot (trim_end_matches 47 pre @ lit ''2/'' @ rest) = trim_end_matches 47 jroot @ lit ''2/'' @ rest"
proof -
  have "map_container_path pre (lit ''/data/'' @ rest) = trim_end_matches 47 pre @ lit ''/'' @ rest"
    by (simp add: map_container_path_def starts_with_def lit_eval)
  then show ?thesis by (simp add: map_host_to_jellyfin_def starts_with_def)
qed

section \<open>Witnesses\<close>

definition plain_json :: json_lib where
  "plain_json = \<lparr>parse_json = (\<lambda>s. if s = lit ''j'' then Some (JObj [(lit ''A'', JStr (lit ''1''))]) else None),
     print_json = (\<lambda>_. lit ''j'')\<rparr>"

definition plain_env :: config_env where
  "plain_env = \<lparr>ce_vars = [], ce_file = (\<lambda>_. None), ce_json = plain_json\<rparr>"

theorem settings_precedence_witness:
  "raw_load (plain_env\<lparr>ce_vars := [(lit ''TMP_DIR'', lit ''t'')]\<rparr>) (lit ''TMP_DIR'') = Some (lit ''t'')"
proof -
  let ?env = "plain_env\<lparr>ce_vars := [(lit ''TMP_DIR'', lit ''t'')]\<rparr>"
  have "distinct (map fst (ce_vars ?env))" by simp
  moreover have "env_pinned ?env (lit ''TMP_DIR'')"
    by (simp add: env_pinned_def trim_def trim_start_def trim_end_def lit_eval is_ws_def)
  moreover have "lit ''TMP_DIR'' \<in> set ENV_ALLOWLIST" by (simp add: ENV_ALLOWLIST_def)
  moreover have "\<not> is_reserved_key (lit ''TMP_DIR'')"
    by (simp add: is_reserved_key_def lit_eval is_ascii_ws_def to_ascii_lower_def)
  ultimately show ?thesis using settings_precedence [of ?env "lit ''TMP_DIR''"] by (simp add: Let_def)
qed

theorem accepted_number_is_loaded_witness:
  "\<exists>n \<le> 65535. parse_int (int_width (lit ''WEBHOOK_PORT'')) [lit ''WEBHOOK_PORT'' \<mapsto> lit ''80''] (lit ''WEBHOOK_PORT'') 8085 = n"
proof -
  let ?f = "field ''state'' ''WEBHOOK_PORT'' ''Control/webhook port'' (FInt (2 ^ 16 - 1)) (lit ''8085'')"
  have t: "trim (lit ''80'') = lit ''80''" by (simp add: trim_def trim_start_def trim_end_def lit_eval is_ws_def)
  have p: "parse_unsigned 64 (lit ''80'') = Some 80" by (simp add: parse_unsigned_def lit_eval is_ascii_digit_def)
  have f: "?f \<in> set FIELDS" by (simp add: FIELDS_def)
  have "distinct (map fd_key FIELDS)" by (simp add: FIELDS_def field_def)
  then have "find (\<lambda>f. fd_key f = lit ''WEBHOOK_PORT'') FIELDS = Some ?f"
    using find_by_key [of fd_key FIELDS ?f] f by (simp add: field_def)
  then have "value_requirement (\<lambda>_. None) (lit ''WEBHOOK_PORT'') (lit ''80'') = None"
    unfolding value_requirement_def Let_def t p by (simp add: field_def lit_eval)
  from accepted_number_is_loaded [OF this f, of 65535 "[lit ''WEBHOOK_PORT'' \<mapsto> lit ''80'']" 8085]
  show ?thesis by (auto simp: field_def t)
qed

theorem saved_setting_is_loaded_witness:
  "\<exists>env'. write_overrides plain_env True [(lit ''A'', lit ''1'')] = (env', True)
     \<and> raw_load env' (lit ''A'') = Some (lit ''1'')"
proof -
  have r: "\<not> is_reserved_key (lit ''A'')"
    by (simp add: is_reserved_key_def lit_eval is_ascii_ws_def to_ascii_lower_def)
  have m: "merged_overrides plain_env [(lit ''A'', lit ''1'')] = [(lit ''A'', JStr (lit ''1''))]"
    by (simp add: merged_overrides_def plain_env_def)
  obtain env' saved where w: "write_overrides plain_env True [(lit ''A'', lit ''1'')] = (env', saved)" by fastforce
  have "(saved \<longleftrightarrow> list_all (\<lambda>(j, _). \<not> is_reserved_key j) [(lit ''A'', lit ''1'')])
      \<and> (if saved then raw_load env' (lit ''A'') = first_some (map_of (rev [(lit ''A'', lit ''1'')]) (lit ''A'')) (raw_load plain_env (lit ''A''))
         else env' = plain_env)"
  proof (rule saved_setting_is_loaded [OF w])
    show "distinct (map fst (ce_vars plain_env))" by (simp add: plain_env_def)
    show "parse_json (ce_json plain_env) (print_json (ce_json plain_env) (JObj (merged_overrides plain_env [(lit ''A'', lit ''1'')])))
        = Some (JObj (merged_overrides plain_env [(lit ''A'', lit ''1'')]))"
      unfolding m by (simp add: plain_env_def plain_json_def)
    show "\<not> env_pinned plain_env (lit ''A'')" by (simp add: env_pinned_def plain_env_def)
  qed (auto simp: plain_env_def plain_json_def split: if_splits)
  with w r show ?thesis by auto
qed

end
