(* ===== verification/Actions.thy ===== *)
theory Actions
  imports Config Episode
begin

text \<open>
  \<open>src/actions.rs\<close>: the operator's \<open>skip\<close>, \<open>retry\<close> and \<open>delete\<close> records, drained once per pass: the state
  rows they clear, the subtitle files and registry rows they remove, the refreshes they cause and
  the retries of the same pass. The media services answer through parameters; a call to them that
  only has an effect elsewhere is recorded in order.
\<close>

section \<open>The media services\<close>

record Episode =
  ep_series_id :: "int option"
  ep_season :: "int option"
  ep_number :: "int option"
  ep_title :: "ustr option"
  ep_file :: "ustr option"

datatype service_call =
    WantedRefill ustr
  | JellyfinRefresh ustr ustr ustr

record media_services =
  ms_episode :: "int \<Rightarrow> Episode option"
  ms_movies :: "json list option"
  ms_is_file :: "ustr \<Rightarrow> bool"

definition find_movie :: "int \<Rightarrow> json list \<Rightarrow> json option" where
  "find_movie i movies = find (\<lambda>m. Option.bind (json_get (lit ''radarrId'') m) as_i64 = Some i) movies"

section \<open>Grouping\<close>

record RetrySpec =
  rs_episode_id :: int
  rs_kind :: ustr
  rs_langs :: "ustr list"

text \<open>The kinds and the languages asked for an id; no language stands for all of them.\<close>

type_synonym scope = "ustr list \<times> ustr option list"
type_synonym groups = "(int \<times> scope) list"

definition action_kind :: "ActionRecord \<Rightarrow> ustr" where
  "action_kind r = normalize_lang (case ac_kind r of Some k \<Rightarrow> k | None \<Rightarrow> lit ''series'')"

definition known_kind :: "ustr \<Rightarrow> bool" where
  "known_kind k \<longleftrightarrow> k = lit ''series'' \<or> k = lit ''movie''"

definition action_lang :: "ActionRecord \<Rightarrow> ustr option" where
  "action_lang r =
     (case ac_language r of None \<Rightarrow> None
      | Some l \<Rightarrow> if normalize_lang l = [] then None else Some (normalize_lang l))"

definition add_scope :: "int \<Rightarrow> ActionRecord \<Rightarrow> groups \<Rightarrow> groups" where
  "add_scope i r g =
     (let (kinds, langs) = (case map_of g i of Some s \<Rightarrow> s | None \<Rightarrow> ([], []))
      in AList.update i (List.insert (action_kind r) kinds, List.insert (action_lang r) langs) g)"

record batch =
  ba_skip :: "int list"
  ba_retry :: groups
  ba_delete :: groups

definition scan_action :: "batch \<Rightarrow> ActionRecord \<Rightarrow> batch" where
  "scan_action b r =
     (case ac_episode_id r of None \<Rightarrow> b
      | Some i \<Rightarrow>
          if \<not> known_kind (action_kind r) then b
          else (let t = (case ac_type r of Some t \<Rightarrow> t | None \<Rightarrow> []) in
            if t = lit ''skip'' then b\<lparr>ba_skip := List.insert i (ba_skip b)\<rparr>
            else if t = lit ''retry'' then b\<lparr>ba_retry := add_scope i r (ba_retry b)\<rparr>
            else if t = lit ''delete'' then b\<lparr>ba_delete := add_scope i r (ba_delete b)\<rparr>
            else b))"

definition scan_actions :: "ActionRecord list \<Rightarrow> batch" where
  "scan_actions rs = foldl scan_action \<lparr>ba_skip = [], ba_retry = [], ba_delete = []\<rparr> rs"

definition in_scope :: "groups \<Rightarrow> StateEntry \<Rightarrow> bool" where
  "in_scope g e =
     (case se_episode_id e of None \<Rightarrow> False
      | Some i \<Rightarrow> (case map_of g i of None \<Rightarrow> False
          | Some (kinds, langs) \<Rightarrow>
              normalize_lang (case se_kind e of Some k \<Rightarrow> k | None \<Rightarrow> lit ''series'') \<in> set kinds
              \<and> (None \<in> set langs
                 \<or> (case se_language e of Some l \<Rightarrow> Some (normalize_lang l) \<in> set langs | None \<Rightarrow> False))))"

definition row_dropped :: "batch \<Rightarrow> StateEntry \<Rightarrow> bool" where
  "row_dropped b e \<longleftrightarrow> in_scope (ba_retry b) e \<or> in_scope (ba_delete b) e"

definition sorted_ids :: "int list \<Rightarrow> int list" where
  "sorted_ids ids = sort ids"

definition lang_scope :: "ustr option list \<Rightarrow> ustr list option" where
  "lang_scope langs = (if None \<in> set langs then None else Some (sort (remdups (List.map_filter id langs))))"

definition target_langs_or :: "config \<Rightarrow> ustr list option \<Rightarrow> ustr list" where
  "target_langs_or cfg langs = (case langs of Some (l # ls) \<Rightarrow> l # ls | _ \<Rightarrow> cf_target_langs cfg)"

section \<open>Removing subtitles\<close>

record act_state =
  at_files :: jsonl_fs
  at_disk :: disk
  at_calls :: "service_call list"

text \<open>What works: the drain, the rewrite of the state file, each rewrite of the registry, the removal of
  each file.\<close>

record act_io =
  ai_drain :: drain_io
  ai_state_written :: bool
  ai_registry_written :: "int \<Rightarrow> ustr \<Rightarrow> bool"
  ai_removable :: "ustr \<Rightarrow> bool"

definition remove_file :: "act_io \<Rightarrow> ustr \<Rightarrow> disk \<times> nat \<Rightarrow> disk \<times> nat" where
  "remove_file io p dn = (case dn of (d, n) \<Rightarrow> if d p \<noteq> None \<and> ai_removable io p then (d(p := None), n + 1) else (d, n))"

definition tmp_copy :: "config \<Rightarrow> int \<Rightarrow> ustr \<Rightarrow> ustr" where
  "tmp_copy cfg i l = path_join (cf_tmp_dir cfg) (dec_int i @ lit ''_'' @ l @ lit ''.srt'')"

definition remove_subtitles_for ::
    "config \<Rightarrow> row_lib \<Rightarrow> act_io \<Rightarrow> ustr option \<Rightarrow> int \<Rightarrow> ustr list \<Rightarrow> act_state \<Rightarrow> act_state \<times> nat" where
  "remove_subtitles_for cfg lib io media i langs s =
     (let (s1, n1) = (case media of None \<Rightarrow> (s, 0)
            | Some m \<Rightarrow> foldl (\<lambda>(s, n) l.
                case foldl (\<lambda>dn p. remove_file io p dn) (at_disk s, n) (replaceable_target_sidecar_paths (stem_of m) l) of
                  (d, n') \<Rightarrow> (s\<lparr>at_disk := d,
                      at_files := fst (registry_delete lib (ai_registry_written io i l) (cf_registry_file cfg)
                        (Some (stem_of m)) (Some i) l (at_files s))\<rparr>, n')) (s, 0) langs)
      in case foldl (\<lambda>dn l. remove_file io (tmp_copy cfg i l) dn) (at_disk s1, n1) langs of
           (d, n2) \<Rightarrow> (s1\<lparr>at_disk := d\<rparr>, n2))"

definition delete_episode_subtitles ::
    "config \<Rightarrow> row_lib \<Rightarrow> media_services \<Rightarrow> act_io \<Rightarrow> int \<Rightarrow> ustr list option \<Rightarrow> act_state \<Rightarrow> act_state \<times> nat" where
  "delete_episode_subtitles cfg lib ms io i langs s =
     (let media = (case Option.bind (ms_episode ms i) ep_file of None \<Rightarrow> None
                   | Some p \<Rightarrow> if ms_is_file ms (map_path cfg p) then Some (map_path cfg p) else None)
      in case remove_subtitles_for cfg lib io media i (target_langs_or cfg langs) s of
           (s', n) \<Rightarrow> (s'\<lparr>at_calls := at_calls s' @ [WantedRefill (lit ''series'')]\<rparr>, n))"

definition movie_path :: "json \<Rightarrow> ustr option" where
  "movie_path m = Option.bind (json_get (lit ''path'') m) as_str"

definition delete_movie_subtitles ::
    "config \<Rightarrow> row_lib \<Rightarrow> media_services \<Rightarrow> act_io \<Rightarrow> int \<Rightarrow> ustr list option \<Rightarrow> act_state \<Rightarrow> act_state \<times> nat" where
  "delete_movie_subtitles cfg lib ms io i langs s =
     (let media = (case Option.bind (Option.bind (ms_movies ms) (find_movie i)) movie_path of None \<Rightarrow> None
                   | Some p \<Rightarrow> if ms_is_file ms (map_path cfg p) then Some (map_path cfg p) else None)
      in case remove_subtitles_for cfg lib io media i (target_langs_or cfg langs) s of
           (s', n) \<Rightarrow> (s'\<lparr>at_calls := at_calls s' @ [WantedRefill (lit ''movie'')]\<rparr>, n))"

definition refresh_for_action :: "config \<Rightarrow> media_services \<Rightarrow> int \<Rightarrow> ustr list \<Rightarrow> act_state \<Rightarrow> act_state" where
  "refresh_for_action cfg ms i kinds s =
     (let series = (if lit ''series'' \<in> set kinds then
            (case ms_episode ms i of None \<Rightarrow> []
             | Some ep \<Rightarrow> (case ep_file ep of None \<Rightarrow> []
                 | Some p \<Rightarrow> [JellyfinRefresh (map_path cfg p) (case ep_title ep of Some t \<Rightarrow> t | None \<Rightarrow> []) (lit ''Episode'')]))
            else []);
          movie = (if lit ''movie'' \<in> set kinds then
            (case Option.bind (ms_movies ms) (find_movie i) of None \<Rightarrow> []
             | Some m \<Rightarrow> (case movie_path m of None \<Rightarrow> []
                 | Some p \<Rightarrow> [JellyfinRefresh (map_path cfg p)
                     (case Option.bind (json_get (lit ''title'') m) as_str of Some t \<Rightarrow> t | None \<Rightarrow> []) (lit ''Movie'')]))
            else [])
      in s\<lparr>at_calls := at_calls s @ series @ movie\<rparr>)"

definition delete_group ::
    "config \<Rightarrow> row_lib \<Rightarrow> media_services \<Rightarrow> act_io \<Rightarrow> int \<Rightarrow> scope \<Rightarrow> act_state \<Rightarrow> act_state" where
  "delete_group cfg lib ms io i sc s =
     (let (kinds, langs) = sc;
          s1 = (if lit ''series'' \<in> set kinds then fst (delete_episode_subtitles cfg lib ms io i (lang_scope langs) s) else s)
      in if lit ''movie'' \<in> set kinds then fst (delete_movie_subtitles cfg lib ms io i (lang_scope langs) s1) else s1)"

section \<open>One batch\<close>

definition scope_of :: "groups \<Rightarrow> int \<Rightarrow> scope" where
  "scope_of g i = (case map_of g i of Some sc \<Rightarrow> sc | None \<Rightarrow> ([], []))"

definition clear_state_rows :: "config \<Rightarrow> row_lib \<Rightarrow> act_io \<Rightarrow> batch \<Rightarrow> act_state \<Rightarrow> act_state" where
  "clear_state_rows cfg lib io b s =
     (if ba_retry b = [] \<and> ba_delete b = [] then s
      else let rows = load_jsonl (read_row lib) decode_state_entry (at_files s (cf_state_file cfg));
               kept = filter (\<lambda>e. \<not> row_dropped b e) rows
           in s\<lparr>at_files := fst (rewrite_jsonl (print_row lib) (ai_state_written io) (cf_state_file cfg)
                  (map (state_entry_json (iteration lib)) kept) (at_files s))\<rparr>)"

definition retry_specs :: "config \<Rightarrow> groups \<Rightarrow> RetrySpec list" where
  "retry_specs cfg g =
     concat (map (\<lambda>i. case scope_of g i of (kinds, langs) \<Rightarrow>
        map (\<lambda>k. \<lparr>rs_episode_id = i, rs_kind = k, rs_langs = target_langs_or cfg (lang_scope langs)\<rparr>) (sort kinds))
      (sorted_ids (map fst g)))"

text \<open>\<open>Pipeline::consume_actions\<close>: the ids to skip and the retries of this pass.\<close>

definition handle_actions ::
    "config \<Rightarrow> row_lib \<Rightarrow> media_services \<Rightarrow> act_io \<Rightarrow> act_state \<Rightarrow> act_state \<times> int set \<times> RetrySpec list" where
  "handle_actions cfg lib ms io s =
     (case consume_actions (read_row lib) (ai_drain io) (cf_actions_file cfg) (at_files s) of (fs, records) \<Rightarrow>
        let b = scan_actions records;
            s1 = clear_state_rows cfg lib io b (s\<lparr>at_files := fs\<rparr>);
            s2 = foldl (\<lambda>s i. refresh_for_action cfg ms i (fst (scope_of (ba_delete b) i))
                   (delete_group cfg lib ms io i (scope_of (ba_delete b) i) s)) s1 (sorted_ids (map fst (ba_delete b)));
            s3 = foldl (\<lambda>s i. delete_group cfg lib ms io i (scope_of (ba_retry b) i) s) s2 (sorted_ids (map fst (ba_retry b)))
        in (s3, set (ba_skip b), retry_specs cfg (ba_retry b)))"

section \<open>What a batch asks for\<close>

text \<open>The records of a type for an id that are not dropped for their kind.\<close>

definition asks :: "string \<Rightarrow> int \<Rightarrow> ActionRecord list \<Rightarrow> ActionRecord list" where
  "asks t i rs = filter (\<lambda>r. ac_episode_id r = Some i \<and> ac_type r = Some (lit t) \<and> known_kind (action_kind r)) rs"

definition entry_of :: "ActionRecord list \<Rightarrow> scope option \<Rightarrow> bool" where
  "entry_of rs e \<longleftrightarrow>
     (if rs = [] then e = None
      else \<exists>kinds langs. e = Some (kinds, langs) \<and> set kinds = action_kind ` set rs \<and> set langs = action_lang ` set rs \<and> distinct kinds)"

definition groups_of :: "string \<Rightarrow> ActionRecord list \<Rightarrow> groups \<Rightarrow> bool" where
  "groups_of t rs g \<longleftrightarrow> distinct (map fst g) \<and> (\<forall>i. entry_of (asks t i rs) (map_of g i))"

lemma asks_snoc: "asks t i (rs @ [r]) = asks t i rs @
    (if ac_episode_id r = Some i \<and> ac_type r = Some (lit t) \<and> known_kind (action_kind r) then [r] else [])"
  by (simp add: asks_def)

lemma groups_of_other:
  assumes "groups_of t rs g" "ac_type r \<noteq> Some (lit t) \<or> ac_episode_id r = None \<or> \<not> known_kind (action_kind r)"
  shows "groups_of t (rs @ [r]) g"
proof -
  have "asks t i (rs @ [r]) = asks t i rs" for i using assms(2) by (auto simp: asks_snoc)
  with assms(1) show ?thesis by (simp add: groups_of_def)
qed

lemma entry_of_add:
  assumes "entry_of rs e"
  shows "entry_of (rs @ [r]) (Some (List.insert (action_kind r) (fst (case e of Some s \<Rightarrow> s | None \<Rightarrow> ([], []))),
    List.insert (action_lang r) (snd (case e of Some s \<Rightarrow> s | None \<Rightarrow> ([], [])))))"
  using assms by (cases "rs = []") (auto simp: entry_of_def)

lemma groups_of_add:
  assumes "groups_of t rs g" "ac_type r = Some (lit t)" "ac_episode_id r = Some i" "known_kind (action_kind r)"
  shows "groups_of t (rs @ [r]) (add_scope i r g)"
proof -
  let ?s = "case map_of g i of Some s \<Rightarrow> s | None \<Rightarrow> ([], [])"
  have g: "map_of (add_scope i r g) = (map_of g)(i \<mapsto> (List.insert (action_kind r) (fst ?s), List.insert (action_lang r) (snd ?s)))"
    by (simp add: add_scope_def update_conv' split_beta)
  have "distinct (map fst (add_scope i r g))"
    using assms(1) by (simp add: add_scope_def groups_of_def distinct_update split_beta del: distinct_map)
  moreover have "entry_of (asks t j (rs @ [r])) (map_of (add_scope i r g) j)" for j
    using assms entry_of_add [of "asks t i rs" "map_of g i" r]
    by (cases "j = i") (simp_all add: g asks_snoc groups_of_def del: fun_upd_apply, simp_all)
  ultimately show ?thesis unfolding groups_of_def by blast
qed

lemma action_types: "lit ''retry'' \<noteq> lit ''delete''" "lit ''skip'' \<noteq> lit ''retry''" "lit ''skip'' \<noteq> lit ''delete''"
    "lit ''retry'' \<noteq> []" "lit ''delete'' \<noteq> []" "lit ''skip'' \<noteq> []"
  by simp_all

lemma scan_groups:
  "groups_of ''retry'' rs (ba_retry (scan_actions rs)) \<and> groups_of ''delete'' rs (ba_delete (scan_actions rs))"
proof (induction rs rule: rev_induct)
  case Nil
  then show ?case by (simp add: scan_actions_def groups_of_def asks_def entry_of_def)
next
  case (snoc r rs)
  let ?b = "scan_actions rs"
  have step: "scan_actions (rs @ [r]) = scan_action ?b r" by (simp add: scan_actions_def)
  show ?case
  proof (cases "ac_episode_id r = None \<or> \<not> known_kind (action_kind r)")
    case True
    then have "scan_action ?b r = ?b" by (auto simp: scan_action_def split: option.split)
    with snoc True groups_of_other show ?thesis unfolding step by metis
  next
    case False
    then obtain i where i: "ac_episode_id r = Some i" "known_kind (action_kind r)" by auto
    consider "ac_type r = Some (lit ''retry'')" | "ac_type r = Some (lit ''delete'')"
      | "ac_type r \<noteq> Some (lit ''retry'')" "ac_type r \<noteq> Some (lit ''delete'')" by blast
    then show ?thesis
    proof cases
      case 1
      then have "scan_action ?b r = ?b\<lparr>ba_retry := add_scope i r (ba_retry ?b)\<rparr>"
        using i action_types by (simp add: scan_action_def)
      with 1 i snoc groups_of_add groups_of_other action_types show ?thesis unfolding step by simp
    next
      case 2
      then have "scan_action ?b r = ?b\<lparr>ba_delete := add_scope i r (ba_delete ?b)\<rparr>"
        using i action_types(1) action_types(3) [symmetric] by (simp add: scan_action_def)
      with 2 i snoc groups_of_add groups_of_other action_types show ?thesis unfolding step by simp
    next
      case 3
      then have "ba_retry (scan_action ?b r) = ba_retry ?b \<and> ba_delete (scan_action ?b r) = ba_delete ?b"
        using i action_types by (auto simp: scan_action_def Let_def split: option.split)
      with 3 snoc groups_of_other show ?thesis unfolding step by simp
    qed
  qed
qed

definition row_kind :: "StateEntry \<Rightarrow> ustr" where
  "row_kind e = normalize_lang (case se_kind e of Some k \<Rightarrow> k | None \<Rightarrow> lit ''series'')"

definition row_lang :: "StateEntry \<Rightarrow> ustr option" where
  "row_lang e = map_option normalize_lang (se_language e)"

lemma in_scope_asks:
  assumes "groups_of t rs g"
  shows "in_scope g e \<longleftrightarrow>
    (\<exists>i a b. se_episode_id e = Some i \<and> a \<in> set (asks t i rs) \<and> b \<in> set (asks t i rs)
       \<and> action_kind a = row_kind e \<and> (action_lang b = None \<or> row_lang e \<noteq> None \<and> action_lang b = row_lang e))"
proof (cases "se_episode_id e")
  case (Some i)
  have entry: "entry_of (asks t i rs) (map_of g i)" using assms by (simp add: groups_of_def)
  show ?thesis
  proof (cases "asks t i rs = []")
    case True
    with entry Some show ?thesis by (simp add: entry_of_def in_scope_def)
  next
    case False
    with entry obtain kinds langs where g: "map_of g i = Some (kinds, langs)" "set kinds = action_kind ` set (asks t i rs)"
        "set langs = action_lang ` set (asks t i rs)"
      unfolding entry_of_def by auto
    have "in_scope g e \<longleftrightarrow> row_kind e \<in> set kinds \<and> (None \<in> set langs \<or> row_lang e \<noteq> None \<and> row_lang e \<in> set langs)"
      by (simp add: in_scope_def Some g(1) row_kind_def row_lang_def split: option.split)
    also have "\<dots> \<longleftrightarrow> (\<exists>a \<in> set (asks t i rs). action_kind a = row_kind e)
        \<and> (\<exists>b \<in> set (asks t i rs). action_lang b = None \<or> row_lang e \<noteq> None \<and> action_lang b = row_lang e)"
      unfolding g(2,3) image_iff by metis
    finally show ?thesis using Some by auto
  qed
qed (simp add: in_scope_def)

text \<open>C29: a batch clears exactly the state rows for which one record of a type names the kind and one of
  that type names the language or none, both for the row's episode id. They need not be the same
  record: the kinds and the languages asked for an id are crossed. When all the records for an id
  name one kind, a row is cleared only if a record asks for it.\<close>

theorem cleared_rows_exact:
  "(row_dropped (scan_actions rs) e \<longleftrightarrow>
     (\<exists>t \<in> {''retry'', ''delete''}. \<exists>i a b. se_episode_id e = Some i \<and> a \<in> set (asks t i rs) \<and> b \<in> set (asks t i rs)
        \<and> action_kind a = row_kind e \<and> (action_lang b = None \<or> row_lang e \<noteq> None \<and> action_lang b = row_lang e)))
   \<and> (\<forall>k. (\<forall>r \<in> set rs. ac_episode_id r = se_episode_id e \<longrightarrow> action_kind r = k) \<and> row_dropped (scan_actions rs) e \<longrightarrow>
        (\<exists>r \<in> set rs. ac_episode_id r = se_episode_id e \<and> action_kind r = row_kind e
           \<and> (action_lang r = None \<or> action_lang r = row_lang e)))"
proof -
  have exact: "row_dropped (scan_actions rs) e \<longleftrightarrow>
     (\<exists>t \<in> {''retry'', ''delete''}. \<exists>i a b. se_episode_id e = Some i \<and> a \<in> set (asks t i rs) \<and> b \<in> set (asks t i rs)
        \<and> action_kind a = row_kind e \<and> (action_lang b = None \<or> row_lang e \<noteq> None \<and> action_lang b = row_lang e))"
    unfolding row_dropped_def in_scope_asks [OF conjunct1 [OF scan_groups]] in_scope_asks [OF conjunct2 [OF scan_groups]]
    by simp
  then show ?thesis by (auto simp: asks_def)
qed

section \<open>Removed subtitles\<close>

lemma remove_files:
  "foldl (\<lambda>dn p. remove_file io p dn) (d, n) ps
    = ((\<lambda>p. if p \<in> set ps \<and> ai_removable io p then None else d p),
       n + card {p \<in> set ps. d p \<noteq> None \<and> ai_removable io p})"
proof (induction ps rule: rev_induct)
  case (snoc q ps)
  have step: "foldl (\<lambda>dn p. remove_file io p dn) (d, n) (ps @ [q])
      = remove_file io q (foldl (\<lambda>dn p. remove_file io p dn) (d, n) ps)" by simp
  let ?gone = "\<lambda>ps. {p \<in> set ps. d p \<noteq> None \<and> ai_removable io p}"
  have fin: "finite (?gone ps)" by (rule finite_subset [of _ "set ps"]) auto
  show ?case
  proof (cases "q \<notin> set ps \<and> d q \<noteq> None \<and> ai_removable io q")
    case True
    then have "?gone (ps @ [q]) = insert q (?gone ps)" "q \<notin> ?gone ps" by auto
    with fin True show ?thesis unfolding step snoc by (auto simp: remove_file_def)
  next
    case False
    then have gone: "?gone (ps @ [q]) = ?gone ps" by auto
    have left: "(\<lambda>p. if p \<in> set (ps @ [q]) \<and> ai_removable io p then None else d p)
        = (\<lambda>p. if p \<in> set ps \<and> ai_removable io p then None else d p)" (is "_ = ?d")
      using False by (intro ext) auto
    have "remove_file io q (?d, k) = (?d, k)" for k using False by (auto simp: remove_file_def)
    then show ?thesis unfolding step snoc gone left .
  qed
qed simp

text \<open>The files a removal is about.\<close>

definition doomed :: "config \<Rightarrow> ustr option \<Rightarrow> int \<Rightarrow> ustr list \<Rightarrow> ustr list" where
  "doomed cfg media i langs =
     (case media of None \<Rightarrow> [] | Some m \<Rightarrow> concat (map (replaceable_target_sidecar_paths (stem_of m)) langs))
     @ map (tmp_copy cfg i) langs"

text \<open>The registry rows that survive it.\<close>

definition surviving :: "ustr option \<Rightarrow> int \<Rightarrow> ustr list \<Rightarrow> RegistryRow list \<Rightarrow> RegistryRow list" where
  "surviving media i langs rows =
     (case media of None \<Rightarrow> rows
      | Some m \<Rightarrow> filter (\<lambda>r. \<not> list_ex (\<lambda>l. delete_matches (Some (stem_of m)) (Some i) l r) langs) rows)"

lemma remove_all_disk:
  "let (s1, n1) = foldl (\<lambda>(s, n) l.
        case foldl (\<lambda>dn p. remove_file io p dn) (at_disk s, n) (paths l) of
          (d, n') \<Rightarrow> (s\<lparr>at_disk := d, at_files := reg l (at_files s)\<rparr>, n')) (s, n) langs
   in (at_disk s1, n1) = foldl (\<lambda>dn p. remove_file io p dn) (at_disk s, n) (concat (map paths langs))
     \<and> at_files s1 = foldl (\<lambda>fs l. reg l fs) (at_files s) langs \<and> at_calls s1 = at_calls s"
proof (induction langs arbitrary: s n)
  case (Cons l langs)
  obtain d k where dk: "foldl (\<lambda>dn p. remove_file io p dn) (at_disk s, n) (paths l) = (d, k)" by fastforce
  show ?case using Cons.IH [of "s\<lparr>at_disk := d, at_files := reg l (at_files s)\<rparr>" k] by (simp add: dk Let_def)
qed simp

lemma registry_survivors:
  assumes "\<And>r. r \<in> set (registry_rows lib (fs p)) \<Longrightarrow> reprintable lib r" "\<And>l. l \<in> set langs \<Longrightarrow> works l"
  shows "let fs' = foldl (\<lambda>fs l. fst (registry_delete lib (works l) p stem eid l fs)) fs langs
    in registry_rows lib (fs' p) = filter (\<lambda>r. \<not> list_ex (\<lambda>l. delete_matches stem eid l r) langs) (registry_rows lib (fs p))
      \<and> (\<forall>q. q \<noteq> p \<longrightarrow> fs' q = fs q)"
  using assms
proof (induction langs arbitrary: fs)
  case (Cons l langs)
  let ?fs = "fst (registry_delete lib (works l) p stem eid l fs)"
  have first: "registry_rows lib (?fs p) = filter (\<lambda>r. \<not> delete_matches stem eid l r) (registry_rows lib (fs p))"
      "?fs(p := fs p) = fs"
    using registry_delete_filter [where fs = fs and works = "works l" and stem = stem and eid = eid and lang = l,
        OF Cons.prems(1) prod.collapse [symmetric]] Cons.prems(2) [of l]
    by simp_all
  let ?last = "foldl (\<lambda>fs l. fst (registry_delete lib (works l) p stem eid l fs)) ?fs langs"
  have other: "?fs q = fs q" if "q \<noteq> p" for q using first(2) that by (metis fun_upd_other)
  have again: "reprintable lib r" if "r \<in> set (registry_rows lib (?fs p))" for r
    using that Cons.prems(1) unfolding first(1) by simp
  have rest: "registry_rows lib (?last p) = filter (\<lambda>r. \<not> list_ex (\<lambda>l. delete_matches stem eid l r) langs) (registry_rows lib (?fs p))
      \<and> (\<forall>q. q \<noteq> p \<longrightarrow> ?last q = ?fs q)"
    by (rule Cons.IH [of ?fs, unfolded Let_def]) (rule again, assumption, simp add: Cons.prems(2))
  show ?case unfolding Let_def foldl_Cons conjunct1 [OF rest] first(1) using conjunct2 [OF rest] other by simp
qed simp

text \<open>Removing the subtitles of an episode takes away exactly the files its languages can be saved
  under beside the media file and the temporary copies, counts the files that were there, and drops
  from the registry exactly the rows of those languages with its stem or its id; every other file
  stays.\<close>

theorem removed_subtitles_gone:
  assumes "remove_subtitles_for cfg lib io media i langs s = (s', n)"
    and "\<And>r. r \<in> set (registry_rows lib (at_files s (cf_registry_file cfg))) \<Longrightarrow> reprintable lib r"
    and "\<And>l. l \<in> set langs \<Longrightarrow> ai_registry_written io i l"
  shows "at_disk s' = (\<lambda>p. if p \<in> set (doomed cfg media i langs) \<and> ai_removable io p then None else at_disk s p)
    \<and> n = card {p \<in> set (doomed cfg media i langs). at_disk s p \<noteq> None \<and> ai_removable io p}
    \<and> registry_rows lib (at_files s' (cf_registry_file cfg)) = surviving media i langs (registry_rows lib (at_files s (cf_registry_file cfg)))
    \<and> (\<forall>q. q \<noteq> cf_registry_file cfg \<longrightarrow> at_files s' q = at_files s q)"
proof (cases media)
  case None
  then show ?thesis
    using assms(1) remove_files [of io "at_disk s" 0 "map (tmp_copy cfg i) langs"]
    by (auto simp: remove_subtitles_for_def foldl_map doomed_def surviving_def)
next
  case (Some m)
  let ?paths = "replaceable_target_sidecar_paths (stem_of m)"
  let ?reg = "\<lambda>l fs. fst (registry_delete lib (ai_registry_written io i l) (cf_registry_file cfg) (Some (stem_of m)) (Some i) l fs)"
  obtain s1 n1 where s1: "foldl (\<lambda>(s, n) l. case foldl (\<lambda>dn p. remove_file io p dn) (at_disk s, n) (?paths l) of
      (d, n') \<Rightarrow> (s\<lparr>at_disk := d, at_files := ?reg l (at_files s)\<rparr>, n')) (s, 0) langs = (s1, n1)"
    by fastforce
  have one: "(at_disk s1, n1) = foldl (\<lambda>dn p. remove_file io p dn) (at_disk s, 0) (concat (map ?paths langs))"
      "at_files s1 = foldl (\<lambda>fs l. ?reg l fs) (at_files s) langs"
    using remove_all_disk [where io = io and paths = ?paths and reg = ?reg and s = s and n = 0 and langs = langs]
    by (simp_all add: s1 Let_def)
  obtain d where two: "foldl (\<lambda>dn p. remove_file io p dn) (at_disk s, 0) (doomed cfg media i langs) = (d, n)" "s' = s1\<lparr>at_disk := d\<rparr>"
    using assms(1) by (simp add: remove_subtitles_for_def Some s1 one [symmetric] doomed_def foldl_map split: prod.splits)
  have "at_files s' = foldl (\<lambda>fs l. ?reg l fs) (at_files s) langs" using two(2) one(2) by simp
  with two remove_files [of io "at_disk s" 0 "doomed cfg media i langs"]
    registry_survivors [where p = "cf_registry_file cfg" and fs = "at_files s" and langs = langs and stem = "Some (stem_of m)"
        and eid = "Some i" and works = "ai_registry_written io i", OF assms(2,3)]
  show ?thesis by (simp add: Let_def surviving_def Some)
qed

section \<open>Witnesses\<close>

definition sample_action :: "string \<Rightarrow> string \<Rightarrow> ustr option \<Rightarrow> ActionRecord" where
  "sample_action t k l = \<lparr>ac_ts = None, ac_type = Some (lit t), ac_episode_id = Some 7, ac_language = l, ac_kind = Some (lit k),
     ac_source = None, ac_note = None\<rparr>"

definition sample_row :: StateEntry where
  "sample_row = \<lparr>se_episode_id = Some 7, se_language = Some (lit ''en''), se_status = Some (lit ''done''), se_kind = None,
     se_ts = None, se_extra = Map.empty\<rparr>"

lemma kinds_normal: "normalize_lang (lit ''series'') = lit ''series''" "normalize_lang (lit ''movie'') = lit ''movie''"
  by code_simp+

lemma langs_normal: "normalize_lang (lit ''id'') = lit ''id''" "normalize_lang (lit ''en'') = lit ''en''"
  by (rule normalize_wire_code; simp add: wire_codes_raw WIRE_ACCEPTED_LANGS_raw_def)+

lemma sample_facts:
  "action_kind (sample_action t ''series'' l) = lit ''series''" "action_kind (sample_action t ''movie'' l) = lit ''movie''"
  "action_lang (sample_action t k None) = None" "action_lang (sample_action t k (Some (lit ''id''))) = Some (lit ''id'')"
  "row_kind sample_row = lit ''series''" "row_lang sample_row = Some (lit ''en'')"
  by (simp_all add: action_kind_def action_lang_def sample_action_def kinds_normal langs_normal row_kind_def row_lang_def sample_row_def)

text \<open>A retry of the Indonesian subtitles of a series episode and one of the film with the same id clear
  the English row of the episode, which neither of them asks for.\<close>

lemma crossed_scopes_clear_more:
  "row_dropped (scan_actions [sample_action ''retry'' ''series'' (Some (lit ''id'')), sample_action ''retry'' ''movie'' None]) sample_row"
proof -
  let ?rs = "[sample_action ''retry'' ''series'' (Some (lit ''id'')), sample_action ''retry'' ''movie'' None]"
  have "asks ''retry'' 7 ?rs = ?rs" by (simp add: asks_def sample_facts known_kind_def, simp add: sample_action_def)
  then have "in_scope (ba_retry (scan_actions ?rs)) sample_row"
    unfolding in_scope_asks [OF conjunct1 [OF scan_groups]]
    by (intro exI [of _ 7] exI [of _ "hd ?rs"] exI [of _ "last ?rs"]) (simp add: sample_facts, simp add: sample_row_def)
  then show ?thesis by (simp add: row_dropped_def)
qed

theorem cleared_rows_exact_witness:
  "\<exists>r \<in> set [sample_action ''retry'' ''series'' None]. ac_episode_id r = se_episode_id sample_row
     \<and> action_kind r = row_kind sample_row \<and> (action_lang r = None \<or> action_lang r = row_lang sample_row)"
proof -
  let ?rs = "[sample_action ''retry'' ''series'' None]"
  have "asks ''retry'' 7 ?rs = ?rs" by (simp add: asks_def sample_facts known_kind_def, simp add: sample_action_def)
  then have "in_scope (ba_retry (scan_actions ?rs)) sample_row"
    unfolding in_scope_asks [OF conjunct1 [OF scan_groups]]
    by (intro exI [of _ 7] exI [of _ "hd ?rs"]) (simp add: sample_facts, simp add: sample_row_def)
  then have "row_dropped (scan_actions ?rs) sample_row" by (simp add: row_dropped_def)
  moreover have "\<forall>r \<in> set ?rs. ac_episode_id r = se_episode_id sample_row \<longrightarrow> action_kind r = lit ''series''"
    by (simp add: sample_facts)
  ultimately show ?thesis using cleared_rows_exact [of ?rs sample_row] by blast
qed

definition sample_cfg :: config where "sample_cfg = config_load plain_env (\<lambda>_. None) 4"

definition sample_lib :: row_lib where "sample_lib = \<lparr>read_row = (\<lambda>_. None), print_row = (\<lambda>_. []), iteration = in_order\<rparr>"

definition sample_io :: act_io where
  "sample_io = \<lparr>ai_drain = \<lparr>lock_taken = True, emptied = True\<rparr>, ai_state_written = True, ai_registry_written = (\<lambda>_ _. True),
     ai_removable = (\<lambda>_. True)\<rparr>"

theorem removed_subtitles_gone_witness:
  "\<exists>s'. remove_subtitles_for sample_cfg sample_lib sample_io None 7 [lit ''id'']
       \<lparr>at_files = (\<lambda>_. None), at_disk = [tmp_copy sample_cfg 7 (lit ''id'') \<mapsto> DFile []], at_calls = []\<rparr> = (s', 1)
     \<and> at_disk s' = Map.empty"
proof -
  let ?s = "\<lparr>at_files = (\<lambda>_. None), at_disk = [tmp_copy sample_cfg 7 (lit ''id'') \<mapsto> DFile []], at_calls = []\<rparr>"
  obtain s' n where r: "remove_subtitles_for sample_cfg sample_lib sample_io None 7 [lit ''id''] ?s = (s', n)" by fastforce
  have "at_disk s' = (\<lambda>p. if p \<in> set (doomed sample_cfg None 7 [lit ''id'']) \<and> ai_removable sample_io p then None else at_disk ?s p)
    \<and> n = card {p \<in> set (doomed sample_cfg None 7 [lit ''id'']). at_disk ?s p \<noteq> None \<and> ai_removable sample_io p}
    \<and> registry_rows sample_lib (at_files s' (cf_registry_file sample_cfg))
        = surviving None 7 [lit ''id''] (registry_rows sample_lib (at_files ?s (cf_registry_file sample_cfg)))
    \<and> (\<forall>q. q \<noteq> cf_registry_file sample_cfg \<longrightarrow> at_files s' q = at_files ?s q)"
    by (rule removed_subtitles_gone [OF r]) (simp_all add: registry_rows_def load_jsonl_def sample_io_def)
  moreover have "{p. p = tmp_copy sample_cfg 7 (lit ''id'')} = {tmp_copy sample_cfg 7 (lit ''id'')}" by simp
  ultimately show ?thesis using r by (auto simp: doomed_def sample_io_def)
qed

end
