(* ===== verification/Process.thy ===== *)
theory Process
  imports Actions
begin

text \<open>
  \<open>src/episode.rs\<close> and the reduction of \<open>src/pipeline_reports.rs\<close>: one episode or movie with all its
  missing languages. First, one language after the other, what is already present and the source of
  what is not; then all translations and completions at once, as a schedule of steps; then the
  refresh of the player and the report. What others do to the host between the steps is a
  function of the number of the step.
\<close>

section \<open>Candidates\<close>

record Candidate =
  cd_episode_id :: int
  cd_series_id :: "int option"
  cd_series_title :: ustr
  cd_path :: "ustr option"
  cd_missing :: "ustr list"
  cd_is_movie :: bool
  cd_original_lang :: "ustr option"

record SeriesInfo =
  si_title :: ustr
  si_original_language :: "ustr option"

text \<open>What \<open>process_one\<close> fails with; a failing target is not among them.\<close>

datatype process_error =
    MovieWithoutPath
  | EpisodeLookup
  | EpisodeWithoutFile
  | InvalidReportTitle
  | MediaNotOnDisk
  | ProbeFailed
  | InvalidTarget ustr
  | InvalidOutcome ReportConstructionError

definition kind_of :: "Candidate \<Rightarrow> EpisodeKind" where
  "kind_of c = (if cd_is_movie c then Movie else Series)"

definition u32_try_from :: "int \<Rightarrow> u32 option" where
  "u32_try_from i = (if 0 \<le> i \<and> i < 2 ^ 32 then Some (of_int i) else None)"

section \<open>The parts of the configuration a step uses\<close>

definition ladder_cfg_of :: "config \<Rightarrow> ladder_cfg" where
  "ladder_cfg_of cfg =
     \<lparr>ladder_min_cues = cf_ladder_min_cues cfg, ladder_min_chars = cf_ladder_min_chars cfg,
      ladder_min_cjk = cf_ladder_min_cjk cfg, ladder_span_tol = cf_ladder_span_tol cfg,
      jimaku_direct_enabled = cf_jimaku_direct_enabled cfg, jimaku_enabled = (cf_jimaku_api_key cfg \<noteq> [])\<rparr>"

definition paths_of :: "config \<Rightarrow> ledger_paths" where
  "paths_of cfg = \<lparr>registry_file = cf_registry_file cfg, state_file = cf_state_file cfg\<rparr>"

definition finish_cfg_of :: "config \<Rightarrow> finish_cfg" where
  "finish_cfg_of cfg =
     \<lparr>fc_limits = \<lparr>max_cps = cf_cps_merge_max cfg, max_chars = cf_cps_merge_max_chars cfg,
                   max_dur_ms = cf_cps_merge_max_dur_ms cfg, max_gap_ms = cf_cps_merge_max_gap_ms cfg\<rparr>,
      fc_ai_marker = cf_ai_marker_cue cfg, fc_ai_marker_ms = cf_ai_marker_cue_ms cfg, fc_paths = paths_of cfg\<rparr>"

definition translate_cfg_of :: "config \<Rightarrow> translate_cfg" where
  "translate_cfg_of cfg = \<lparr>tc_chunk = cf_translate_chunk cfg, tc_placeholders = cf_sdh_placeholders cfg\<rparr>"

section \<open>The surroundings of an episode\<close>

text \<open>A function of a number answers for the language or the job of that index: the moment and the
  interference before it, and the network, the provider pool and the file operations it meets.\<close>

record process_env =
  pe_paused :: bool
  pe_services :: media_services
  pe_titles :: "int \<rightharpoonup> SeriesInfo"
  pe_unicode :: unicode_db
  pe_sha :: "bytes \<Rightarrow> bytes"
  pe_read_row :: "ustr \<Rightarrow> json option"
  pe_probe :: "ustr \<Rightarrow> MediaProbe option"
  pe_jimaku :: "nat \<Rightarrow> jimaku_env"
  pe_instant :: "nat \<Rightarrow> nat"
  pe_asr :: asr_env
  pe_asr_order :: "nat \<Rightarrow> nat list"
  pe_net :: "nat \<Rightarrow> network"
  pe_net_order :: "nat \<Rightarrow> nat \<Rightarrow> nat list"
  pe_late :: "nat \<Rightarrow> bool"
  pe_pool :: "nat \<Rightarrow> world"
  pe_glossary :: glossary
  pe_finish :: "nat \<Rightarrow> finish_env"
  pe_before :: "nat \<Rightarrow> host \<Rightarrow> host"
  pe_between :: "nat \<Rightarrow> host \<Rightarrow> host"
  pe_schedule :: "nat list"

record process_state =
  ps_host :: host
  ps_tried :: "ustr \<rightharpoonup> nat"
  ps_world :: world
  ps_calls :: "service_call list"

record episode_media =
  em_path :: ustr
  em_title :: ustr
  em_original :: "ustr option"
  em_season :: "int option"
  em_number :: int

text \<open>The file of a candidate and how it is known; the title of the listing wins unless it is empty.\<close>

definition resolve_media :: "process_env \<Rightarrow> config \<Rightarrow> Candidate \<Rightarrow> process_error + episode_media" where
  "resolve_media env cfg c =
     (if cd_is_movie c then
        (case cd_path c of None \<Rightarrow> Inl MovieWithoutPath
         | Some p \<Rightarrow> Inr \<lparr>em_path = map_path cfg p, em_title = cd_series_title c, em_original = cd_original_lang c,
                          em_season = None, em_number = 0\<rparr>)
      else
        (case ms_episode (pe_services env) (cd_episode_id c) of None \<Rightarrow> Inl EpisodeLookup
         | Some ep \<Rightarrow> (case ep_file ep of None \<Rightarrow> Inl EpisodeWithoutFile
             | Some p \<Rightarrow>
                 let info = Option.bind (ep_series_id ep) (pe_titles env) in
                 Inr \<lparr>em_path = map_path cfg p,
                      em_title = (case info of Some i \<Rightarrow> if si_title i = [] then cd_series_title c else si_title i
                                  | None \<Rightarrow> cd_series_title c),
                      em_original = Option.bind info si_original_language,
                      em_season = ep_season ep,
                      em_number = (case ep_number ep of Some n \<Rightarrow> n | None \<Rightarrow> 0)\<rparr>)))"

definition em_ctx :: "Candidate \<Rightarrow> episode_media \<Rightarrow> episode_ctx" where
  "em_ctx c m =
     \<lparr>ec_episode_id = cd_episode_id c, ec_is_movie = cd_is_movie c, ec_media_path = em_path m, ec_stem = stem_of (em_path m)\<rparr>"

section \<open>The sources, one language after the other\<close>

definition failed_lang :: "ustr \<Rightarrow> FailureClass \<Rightarrow> TargetRunResult option" where
  "failed_lang lang cls = target_result lang (TargetStatus.Failed cls) None"

definition present_target :: "process_env \<Rightarrow> host \<Rightarrow> ustr \<Rightarrow> VerifiedTarget \<Rightarrow> TargetRunResult option" where
  "present_target env h lang v =
     (case existing_target_digest (pe_sha env) (h_disk h) (vt_target_path v) of
        Inr d \<Rightarrow> if d = vt_artifact v
                 then target_result_with_method lang (Completed None) (Some d) (Some existing_subtitle)
                 else failed_lang lang FStorage
      | Inl _ \<Rightarrow> failed_lang lang FStorage)"

text \<open>A language is settled, with a result or none when it has no name in a report, or it is work.\<close>

datatype sourced = Settled "TargetRunResult option" | Work LangWork

definition ladder_query :: "Candidate \<Rightarrow> episode_media \<Rightarrow> MediaProbe \<Rightarrow> ustr \<Rightarrow> LadderQuery" where
  "ladder_query c m probe lang =
     \<lparr>lq_stem = stem_of (em_path m), lq_target = lang, lq_series_title = em_title m, lq_season = em_season m,
      lq_episode = em_number m, lq_is_movie = cd_is_movie c, lq_duration_s = mp_duration_s probe\<rparr>"

definition source_context :: "config \<Rightarrow> Candidate \<Rightarrow> episode_media \<Rightarrow> MediaProbe \<Rightarrow> source_ctx" where
  "source_context cfg c m probe =
     \<lparr>sc_episode_id = cd_episode_id c, sc_streams = mp_streams probe, sc_original_lang = em_original m,
      sc_media_path = em_path m, sc_duration_s = mp_duration_s probe, sc_bit_rate = mp_bit_rate probe,
      sc_tmp_dir = cf_tmp_dir cfg, sc_max_cue_ms = cf_max_cue_ms cfg\<rparr>"

definition is_verified :: "process_env \<Rightarrow> config \<Rightarrow> Candidate \<Rightarrow> ustr \<Rightarrow> host \<Rightarrow> VerifiedTarget option" where
  "is_verified env cfg c lang h =
     target_is_verified (pe_sha env) (pe_read_row env) (paths_of cfg) (cd_is_movie c) (cd_episode_id c) lang
       (h_ledgers h) (h_disk h)"

definition source_target ::
    "process_env \<Rightarrow> config \<Rightarrow> Candidate \<Rightarrow> episode_media \<Rightarrow> MediaProbe \<Rightarrow> nat \<Rightarrow> ustr \<Rightarrow> process_state \<times> asr_cache
      \<Rightarrow> (process_state \<times> asr_cache) \<times> sourced" where
  "source_target env cfg c m probe k lang sc =
     (case sc of (s0, cache) \<Rightarrow>
      let s = s0\<lparr>ps_host := pe_before env k (ps_host s0)\<rparr> in
      case is_verified env cfg c lang (ps_host s) of
        Some v \<Rightarrow> ((s, cache), Settled (present_target env (ps_host s) lang v))
      | None \<Rightarrow>
          (case ladder_source (ladder_cfg_of cfg) (pe_jimaku env k) (pe_instant env k) (ladder_query c m probe lang)
                  \<lparr>ls_disk = h_disk (ps_host s), ls_tried = ps_tried s\<rparr> of
             (ls, ladder) \<Rightarrow>
               let s1 = s\<lparr>ps_host := (ps_host s)\<lparr>h_disk := ls_disk ls\<rparr>, ps_tried := ls_tried ls\<rparr> in
               case source_bundle (pe_asr env) (pe_asr_order env) lang ladder (source_context cfg c m probe) cache (ps_world s1) of
                 ((cache', w'), res) \<Rightarrow>
                   ((s1\<lparr>ps_world := w'\<rparr>, cache'),
                    (case res of
                       Inr w \<Rightarrow> Work w
                     | Inl Selection \<Rightarrow> Settled (failed_lang lang FSource)
                     | Inl (Transcription _) \<Rightarrow> Settled (failed_lang lang FTranscription)))))"

text \<open>A language without a name in a report ends the episode at once.\<close>

fun source_phase ::
    "process_env \<Rightarrow> config \<Rightarrow> Candidate \<Rightarrow> episode_media \<Rightarrow> MediaProbe \<Rightarrow> nat \<Rightarrow> ustr list \<Rightarrow> process_state \<times> asr_cache
      \<Rightarrow> process_state \<times> (process_error + TargetRunResult list \<times> LangWork list)" where
  "source_phase env cfg c m probe k [] sc = (fst sc, Inr ([], []))"
| "source_phase env cfg c m probe k (lang # langs) sc =
     (case source_target env cfg c m probe k lang sc of
        (sc', Settled None) \<Rightarrow> (fst sc', Inl (InvalidTarget lang))
      | (sc', Settled (Some r)) \<Rightarrow>
          (case source_phase env cfg c m probe (k + 1) langs sc' of
             (s, Inl e) \<Rightarrow> (s, Inl e) | (s, Inr (rs, ws)) \<Rightarrow> (s, Inr (r # rs, ws)))
      | (sc', Work w) \<Rightarrow>
          (case source_phase env cfg c m probe (k + 1) langs sc' of
             (s, Inl e) \<Rightarrow> (s, Inl e) | (s, Inr (rs, ws)) \<Rightarrow> (s, Inr (rs, w # ws))))"

section \<open>The completions, all at once\<close>

text \<open>A job works on its own up to the installation, waits for the upload, and concludes. Between its two
  steps any other job and any other episode may run.\<close>

datatype job =
    Planned LangWork
  | Uploading LangWork "ustr list" "WarningClass option" InstalledSidecar
  | Ended LangWork "FailureClass + TargetRunResult"

fun job_work :: "job \<Rightarrow> LangWork" where
  "job_work (Planned w) = w"
| "job_work (Uploading w ms u s) = w"
| "job_work (Ended w r) = w"

definition translated :: "process_env \<Rightarrow> config \<Rightarrow> ustr \<Rightarrow> nat \<Rightarrow> LangWork \<Rightarrow> (ustr list \<times> ustr list) option" where
  "translated env cfg series i w =
     (if \<not> lw_needs_translate w then Some (map cue_text (lw_src_cues w), [])
      else case translate_lang (pe_net env i) (pe_net_order env i) (pe_late env i) (translate_cfg_of cfg) (pe_glossary env)
                  series w (pe_pool env i) of
             Inl _ \<Rightarrow> None | Inr t \<Rightarrow> Some (tt_lines t, tt_models t))"

definition step_job ::
    "process_env \<Rightarrow> config \<Rightarrow> episode_ctx \<Rightarrow> ustr \<Rightarrow> nat \<Rightarrow> job \<Rightarrow> host \<Rightarrow> host \<times> job" where
  "step_job env cfg ctx series i j h =
     (case j of
        Planned w \<Rightarrow>
          (case translated env cfg series i w of None \<Rightarrow> (h, Ended w (Inl FTranslation))
           | Some (lines, models) \<Rightarrow>
               (case install_sidecar (fe_sha (pe_finish env i)) (fe_install_io (pe_finish env i))
                       (canonical_target_sidecar (ec_stem ctx) (lw_lang w)) (target_bytes (finish_cfg_of cfg) w lines) (h_disk h) of
                  (d, None) \<Rightarrow> (h\<lparr>h_disk := d\<rparr>, Ended w (Inl FStorage))
                | (d, Some s) \<Rightarrow> (h\<lparr>h_disk := d\<rparr>, Uploading w models (upload_warning (fe_upload (pe_finish env i))) s)))
      | Uploading w models warning s \<Rightarrow>
          (case conclude_lang (pe_finish env i) (finish_cfg_of cfg) ctx w models warning s h of (h', r) \<Rightarrow> (h', Ended w r))
      | Ended w r \<Rightarrow> (h, j))"

fun run_jobs ::
    "process_env \<Rightarrow> config \<Rightarrow> episode_ctx \<Rightarrow> ustr \<Rightarrow> nat \<Rightarrow> nat list \<Rightarrow> host \<times> job list \<Rightarrow> host \<times> job list" where
  "run_jobs env cfg ctx series k [] hj = hj"
| "run_jobs env cfg ctx series k (i # is) hj =
     (let h = pe_between env k (fst hj) in
      if i < length (snd hj)
      then case step_job env cfg ctx series i (snd hj ! i) h of
             (h', j) \<Rightarrow> run_jobs env cfg ctx series (k + 1) is (h', (snd hj)[i := j])
      else run_jobs env cfg ctx series (k + 1) is (h, snd hj))"

text \<open>The join returns when every job has ended: what a schedule leaves unfinished is run to its end.\<close>

definition full_schedule :: "process_env \<Rightarrow> nat \<Rightarrow> nat list" where
  "full_schedule env n = pe_schedule env @ concat (map (\<lambda>i. [i, i]) [0..<n])"

definition join_jobs :: "process_env \<Rightarrow> config \<Rightarrow> episode_ctx \<Rightarrow> ustr \<Rightarrow> LangWork list \<Rightarrow> host \<Rightarrow> host \<times> job list" where
  "join_jobs env cfg ctx series ws h =
     run_jobs env cfg ctx series 0 (full_schedule env (length ws)) (h, map Planned ws)"

fun job_outcome :: "job \<Rightarrow> TargetRunResult option" where
  "job_outcome (Ended w (Inr r)) = Some r"
| "job_outcome (Ended w (Inl cls)) = failed_lang (lw_lang w) cls"
| "job_outcome _ = None"

fun job_outcomes :: "job list \<Rightarrow> process_error + TargetRunResult list" where
  "job_outcomes [] = Inr []"
| "job_outcomes (j # js) =
     (case job_outcome j of None \<Rightarrow> Inl (InvalidTarget (lw_lang (job_work j)))
      | Some r \<Rightarrow> (case job_outcomes js of Inl e \<Rightarrow> Inl e | Inr rs \<Rightarrow> Inr (r # rs)))"

section \<open>The report\<close>

definition reduced_aggregate :: "TargetRunResult list \<Rightarrow> ItemFailure option \<Rightarrow> AggregateDisposition" where
  "reduced_aggregate ts fail =
     (let completed = length (filter (\<lambda>t. is_completed (tr_status t)) ts);
          warning = list_ex (\<lambda>t. case tr_status t of Completed (Some _) \<Rightarrow> True | _ \<Rightarrow> False) ts
      in if completed = length ts \<and> fail = None then (if warning then ACompleteWithWarning else AComplete)
         else if 0 < completed then APartial else AFailed)"

definition reduce_target_outcomes ::
    "(bytes \<Rightarrow> bytes) \<Rightarrow> EpisodeKind \<Rightarrow> int \<Rightarrow> ustr \<Rightarrow> u32 option \<Rightarrow> u32 option \<Rightarrow> TargetRunResult list \<Rightarrow> ItemFailure option
      \<Rightarrow> ReportConstructionError + EpisodeRunReport" where
  "reduce_target_outcomes sha k i t s e items fail =
     (case BoundedTargets_try_from items of Inl err \<Rightarrow> Inl err
      | Inr ts \<Rightarrow> EpisodeRunReport_try_new sha k i t s e ts fail (reduced_aggregate ts fail))"

text \<open>\<open>failure_report_for_candidate\<close>: the report of an episode that failed as a whole.\<close>

fun unknown_failures :: "ustr list \<Rightarrow> TargetRunResult list option" where
  "unknown_failures [] = Some []"
| "unknown_failures (l # ls) =
     (case failed_lang l FUnknown of None \<Rightarrow> None | Some r \<Rightarrow> map_option (Cons r) (unknown_failures ls))"

definition report_title :: "unicode_db \<Rightarrow> ustr \<Rightarrow> ustr option" where
  "report_title U raw =
     (case sanitize U raw of Inr t \<Rightarrow> Some t
      | Inl _ \<Rightarrow> (case sanitize U (lit ''?'') of Inr t \<Rightarrow> Some t | Inl _ \<Rightarrow> None))"

definition failure_report_for_candidate ::
    "(bytes \<Rightarrow> bytes) \<Rightarrow> unicode_db \<Rightarrow> Candidate \<Rightarrow> EpisodeRunReport option" where
  "failure_report_for_candidate sha U c =
     (case report_title U (cd_series_title c) of None \<Rightarrow> None
      | Some t \<Rightarrow> (case unknown_failures (cd_missing c) of None \<Rightarrow> None
          | Some rs \<Rightarrow> (case reduce_target_outcomes sha (kind_of c) (cd_episode_id c) t None None rs (Some IUnknown) of
              Inl _ \<Rightarrow> None | Inr r \<Rightarrow> Some r)))"

section \<open>One episode\<close>

definition report_season :: "episode_media \<Rightarrow> u32 option" where
  "report_season m = Option.bind (em_season m) u32_try_from"

definition report_number :: "Candidate \<Rightarrow> episode_media \<Rightarrow> u32 option" where
  "report_number c m = (if \<not> cd_is_movie c \<and> 0 < em_number m then u32_try_from (em_number m) else None)"

definition item_type :: "Candidate \<Rightarrow> ustr" where
  "item_type c = (if cd_is_movie c then lit ''Movie'' else lit ''Episode'')"

text \<open>After the sources: all were present, or the jobs run and everything is reduced to a report.\<close>

definition complete_episode ::
    "process_env \<Rightarrow> config \<Rightarrow> Candidate \<Rightarrow> episode_media \<Rightarrow> ustr \<Rightarrow> TargetRunResult list \<Rightarrow> LangWork list \<Rightarrow> process_state
      \<Rightarrow> process_state \<times> (process_error + EpisodeRunResult)" where
  "complete_episode env cfg c m title' rs ws s =
     (if ws = [] \<and> length rs = length (cd_missing c) \<and> list_all (\<lambda>t. is_completed (tr_status t)) rs
      then (s, Inr (RNoTarget AllTargetsAlreadyPresent))
      else case join_jobs env cfg (em_ctx c m) (em_title m) ws (ps_host s) of
        (h, js) \<Rightarrow>
          let s1 = s\<lparr>ps_host := h\<rparr> in
          case job_outcomes js of
            Inl e \<Rightarrow> (s1, Inl e)
          | Inr js' \<Rightarrow>
              (s1\<lparr>ps_calls := ps_calls s1 @ [JellyfinRefresh (em_path m) (em_title m) (item_type c)]\<rparr>,
               (case reduce_target_outcomes (pe_sha env) (kind_of c) (cd_episode_id c) title' (report_season m) (report_number c m)
                       (rs @ js') None of
                  Inl e \<Rightarrow> Inl (InvalidOutcome e) | Inr r \<Rightarrow> Inr (RReport r))))"

definition process_one ::
    "process_env \<Rightarrow> config \<Rightarrow> Candidate \<Rightarrow> process_state \<Rightarrow> process_state \<times> (process_error + EpisodeRunResult)" where
  "process_one env cfg c s =
     (if pe_paused env then (s, Inr (RNoTarget Paused))
      else if cd_missing c = [] then (s, Inr (RNoTarget NoMissingTargets))
      else case resolve_media env cfg c of
        Inl e \<Rightarrow> (s, Inl e)
      | Inr m \<Rightarrow>
          (case sanitize (pe_unicode env) (em_title m) of
             Inl _ \<Rightarrow> (s, Inl InvalidReportTitle)
           | Inr t \<Rightarrow>
               if \<not> ms_is_file (pe_services env) (em_path m) then (s, Inl MediaNotOnDisk)
               else (case pe_probe env (em_path m) of
                  None \<Rightarrow> (s, Inl ProbeFailed)
                | Some probe \<Rightarrow>
                    (case source_phase env cfg c m probe 0 (cd_missing c) (s, Map.empty) of
                       (s1, Inl e) \<Rightarrow> (s1, Inl e)
                     | (s1, Inr (rs, ws)) \<Rightarrow> complete_episode env cfg c m t rs ws s1))))"

section \<open>Every job is one completion\<close>

fun job_left :: "job \<Rightarrow> nat" where
  "job_left (Planned w) = 2"
| "job_left (Uploading w ms u s) = 1"
| "job_left (Ended w r) = 0"

text \<open>What a job has done so far is the beginning of one completion in which the others do something
  while the upload waits.\<close>

abbreviation meanwhile :: "finish_env \<Rightarrow> (host \<Rightarrow> host) \<Rightarrow> finish_env" where
  "meanwhile fe g \<equiv> fe\<lparr>fe_during_upload := g\<rparr>"

definition outcome_of_one :: "process_env \<Rightarrow> config \<Rightarrow> episode_ctx \<Rightarrow> ustr \<Rightarrow> nat \<Rightarrow> LangWork \<Rightarrow> FailureClass + TargetRunResult \<Rightarrow> bool" where
  "outcome_of_one env cfg ctx series i w r \<longleftrightarrow>
     (case translated env cfg series i w of
        None \<Rightarrow> r = Inl FTranslation
      | Some (lines, models) \<Rightarrow>
          (\<exists>others h. snd (finish_lang (meanwhile (pe_finish env i) others) (finish_cfg_of cfg) ctx w lines models h) = r))"

fun job_sound :: "process_env \<Rightarrow> config \<Rightarrow> episode_ctx \<Rightarrow> ustr \<Rightarrow> nat \<Rightarrow> job \<Rightarrow> bool" where
  "job_sound env cfg ctx series i (Planned w) = True"
| "job_sound env cfg ctx series i (Uploading w models warning s) =
     (\<exists>lines (h::host) d. translated env cfg series i w = Some (lines, models)
        \<and> install_sidecar (fe_sha (pe_finish env i)) (fe_install_io (pe_finish env i)) (canonical_target_sidecar (ec_stem ctx) (lw_lang w))
            (target_bytes (finish_cfg_of cfg) w lines) (h_disk h) = (d, Some s)
        \<and> warning = upload_warning (fe_upload (pe_finish env i)))"
| "job_sound env cfg ctx series i (Ended w r) = outcome_of_one env cfg ctx series i w r"

lemma conclude_meanwhile [simp]:
  "conclude_lang (meanwhile fe g) cfg ctx w models warning s h = conclude_lang fe cfg ctx w models warning s h"
  by (simp add: conclude_lang_def cleanup_def cong: sum.case_cong bool.case_cong option.case_cong prod.case_cong)

lemma finish_installed:
  "install_sidecar (fe_sha fe) (fe_install_io fe) (canonical_target_sidecar (ec_stem ctx) (lw_lang w)) (target_bytes cfg w lines) (h_disk h)
     = (d, Some s) \<Longrightarrow>
   finish_lang (meanwhile fe (\<lambda>_. h')) cfg ctx w lines models h
     = conclude_lang fe cfg ctx w models (upload_warning (fe_upload fe)) s h'"
  by (simp add: finish_lang_def install_and_upload_def)

lemma finish_not_installed:
  "install_sidecar (fe_sha fe) (fe_install_io fe) (canonical_target_sidecar (ec_stem ctx) (lw_lang w)) (target_bytes cfg w lines) (h_disk h)
     = (d, None) \<Longrightarrow> snd (finish_lang (meanwhile fe g) cfg ctx w lines models h) = Inl FStorage"
  by (simp add: finish_lang_def install_and_upload_def)

lemma step_job_work [simp]: "job_work (snd (step_job env cfg ctx series i j h)) = job_work j"
  by (cases j) (simp_all add: step_job_def split: option.split prod.split)

lemma step_job_left: "job_left (snd (step_job env cfg ctx series i j h)) \<le> job_left j - 1"
  by (cases j) (simp_all add: step_job_def split: option.split prod.split)

lemma step_job_sound:
  assumes "job_sound env cfg ctx series i j"
  shows "job_sound env cfg ctx series i (snd (step_job env cfg ctx series i j h))"
proof (cases j)
  case (Planned w)
  show ?thesis
  proof (cases "translated env cfg series i w")
    case None
    then show ?thesis by (simp add: step_job_def Planned outcome_of_one_def)
  next
    case (Some lm)
    obtain lines models where lm: "lm = (lines, models)" by fastforce
    obtain d o' where inst: "install_sidecar (fe_sha (pe_finish env i)) (fe_install_io (pe_finish env i))
        (canonical_target_sidecar (ec_stem ctx) (lw_lang w)) (target_bytes (finish_cfg_of cfg) w lines) (h_disk h) = (d, o')"
      by fastforce
    show ?thesis
    proof (cases o')
      case None
      with inst finish_not_installed [of "pe_finish env i" ctx w "finish_cfg_of cfg" lines h d id models] show ?thesis
        by (auto simp: step_job_def Planned Some lm outcome_of_one_def)
    next
      case (Some s)
      with inst \<open>translated env cfg series i w = Some lm\<close> lm show ?thesis by (auto simp: step_job_def Planned)
    qed
  qed
next
  case (Uploading w models warning s)
  with assms obtain lines d and h0 :: host where "translated env cfg series i w = Some (lines, models)"
      "install_sidecar (fe_sha (pe_finish env i)) (fe_install_io (pe_finish env i)) (canonical_target_sidecar (ec_stem ctx) (lw_lang w))
         (target_bytes (finish_cfg_of cfg) w lines) (h_disk h0) = (d, Some s)"
      "warning = upload_warning (fe_upload (pe_finish env i))"
    by auto
  with finish_installed [OF this(2), of h models] show ?thesis
    by (auto simp: step_job_def Uploading outcome_of_one_def split: prod.split) (metis snd_conv)
qed (use assms in \<open>simp add: step_job_def\<close>)

lemma run_jobs_facts:
  assumes "run_jobs env cfg ctx series k is (h, js) = (h', js')" "\<And>i. i < length js \<Longrightarrow> job_sound env cfg ctx series i (js ! i)"
  shows "map job_work js' = map job_work js
    \<and> (\<forall>i < length js. job_sound env cfg ctx series i (js' ! i) \<and> job_left (js' ! i) \<le> job_left (js ! i) - count_list is i)"
  using assms
proof (induction "is" arbitrary: k h js)
  case (Cons a "is")
  let ?h = "pe_between env k h"
  show ?case
  proof (cases "a < length js")
    case False
    then have "run_jobs env cfg ctx series (k + 1) is (?h, js) = (h', js')" using Cons.prems(1) by (simp add: Let_def)
    from Cons.IH [OF this Cons.prems(2)] False show ?thesis by auto
  next
    case True
    obtain h1 j where st: "step_job env cfg ctx series a (js ! a) ?h = (h1, j)" by fastforce
    have j: "job_work j = job_work (js ! a)" "job_left j \<le> job_left (js ! a) - 1" "job_sound env cfg ctx series a j"
      using step_job_work [of env cfg ctx series a "js ! a" ?h] step_job_left [of env cfg ctx series a "js ! a" ?h]
        step_job_sound [OF Cons.prems(2) [OF True], of ?h] by (simp_all add: st)
    have "run_jobs env cfg ctx series (k + 1) is (h1, js[a := j]) = (h', js')"
      using Cons.prems(1) True by (simp add: Let_def st)
    moreover have "job_sound env cfg ctx series i (js[a := j] ! i)" if "i < length (js[a := j])" for i
      using that j(3) Cons.prems(2) by (cases "i = a") simp_all
    ultimately have rest: "map job_work js' = map job_work (js[a := j])"
        "\<And>i. i < length js \<Longrightarrow> job_sound env cfg ctx series i (js' ! i)
           \<and> job_left (js' ! i) \<le> job_left (js[a := j] ! i) - count_list is i"
      using Cons.IH by fastforce+
    have "map job_work (js[a := j]) = map job_work js" using True j(1) by (simp add: map_update list_update_same_conv)
    moreover have "job_left (js' ! i) \<le> job_left (js ! i) - count_list (a # is) i" if "i < length js" for i
      using rest(2) [OF that] j(2) that by (cases "i = a") auto
    ultimately show ?thesis using rest by simp
  qed
qed simp

lemma drained_twice: "i < n \<Longrightarrow> 2 \<le> count_list (full_schedule env n) i"
proof -
  assume "i < n"
  then have "2 \<le> count_list (concat (map (\<lambda>i. [i, i]) [0..<n])) i" by (induction n) (auto simp: less_Suc_eq)
  then show ?thesis by (simp add: full_schedule_def)
qed

lemma join_ended:
  assumes "join_jobs env cfg ctx series ws h = (h', js)"
  shows "length js = length ws \<and> (\<forall>i < length ws. \<exists>r. js ! i = Ended (ws ! i) r \<and> outcome_of_one env cfg ctx series i (ws ! i) r)"
proof -
  have facts: "map job_work js = ws"
      "\<And>i. i < length ws \<Longrightarrow> job_sound env cfg ctx series i (js ! i) \<and> job_left (js ! i) = 0"
    using run_jobs_facts [OF assms [unfolded join_jobs_def]] drained_twice [of _ "length ws" env] by (force simp: comp_def)+
  have len: "length js = length ws" using facts(1) by (metis length_map)
  have "\<exists>r. js ! i = Ended (ws ! i) r \<and> outcome_of_one env cfg ctx series i (ws ! i) r" if i: "i < length ws" for i
  proof -
    have "job_work (js ! i) = ws ! i" using facts(1) i len by (metis nth_map)
    with facts(2) [OF i] show ?thesis by (cases "js ! i") simp_all
  qed
  with len show ?thesis by simp
qed


section \<open>One result per language\<close>

lemma target_result_Some:
  "target_result_with_method lang st a gm = Some r \<Longrightarrow>
     TargetLanguage_parse lang = Inr (tr_language r) \<and> tr_status r = st \<and> artifact_sha256 r = a"
  by (auto simp: target_result_with_method_def try_new_with_method_def split: sum.splits if_splits)

lemma failed_lang_Some:
  "failed_lang lang cls = Some r \<Longrightarrow> TargetLanguage_parse lang = Inr (tr_language r) \<and> tr_status r = TargetStatus.Failed cls"
  by (auto simp: failed_lang_def target_result_def dest: target_result_Some)

lemma conclude_Inr: "snd (conclude_lang fe cfg ctx w models warning s h) = Inr r \<Longrightarrow> TargetLanguage_parse (lw_lang w) = Inr (tr_language r)"
  by (auto simp: conclude_lang_def Let_def dest: target_result_Some split: sum.splits bool.splits option.splits prod.splits)

lemma outcome_of_one_Inr:
  assumes "outcome_of_one env cfg ctx series i w (Inr r)"
  shows "TargetLanguage_parse (lw_lang w) = Inr (tr_language r)"
proof -
  obtain lines models others h where "snd (finish_lang (meanwhile (pe_finish env i) others) (finish_cfg_of cfg) ctx w lines models h) = Inr r"
    using assms by (auto simp: outcome_of_one_def split: option.splits)
  then show ?thesis by (auto simp: finish_lang_def dest!: conclude_Inr split: prod.splits option.splits)
qed

lemma source_bundle_lang: "source_bundle aenv order lang ladder ctx cache w = (cw, Inr lw) \<Longrightarrow> lw_lang lw = lang"
  by (auto simp: source_bundle_def ladder_work_def asr_work_def split: option.splits prod.splits sum.splits)

lemma present_target_Some: "present_target env h lang v = Some r \<Longrightarrow> TargetLanguage_parse lang = Inr (tr_language r)"
  by (auto simp: present_target_def dest: target_result_Some failed_lang_Some split: sum.splits if_splits)

lemma source_target_lang:
  assumes "source_target env cfg c m probe k lang sc = (sc', res)"
  shows "case res of Settled (Some r) \<Rightarrow> TargetLanguage_parse lang = Inr (tr_language r) | Settled None \<Rightarrow> True | Work w \<Rightarrow> lw_lang w = lang"
  using assms
  by (auto simp: source_target_def Let_def dest: present_target_Some failed_lang_Some source_bundle_lang
      split: prod.splits option.splits sum.splits SourceFailure.splits)

lemma source_phase_langs:
  assumes "source_phase env cfg c m probe k langs sc = (s, Inr (rs, ws))"
  shows "mset (map (\<lambda>r. Inr (tr_language r)) rs) + mset (map (\<lambda>w. TargetLanguage_parse (lw_lang w)) ws)
    = mset (map TargetLanguage_parse langs)"
  using assms
proof (induction langs arbitrary: k sc rs ws)
  case (Cons lang langs)
  obtain sc' res where r: "source_target env cfg c m probe k lang sc = (sc', res)" by fastforce
  show ?case using Cons.prems Cons.IH [of "k + 1" sc'] source_target_lang [OF r]
    by (auto simp: r split: sourced.splits option.splits prod.splits sum.splits)
qed simp

lemma job_outcomes_langs:
  assumes "job_outcomes js = Inr rs"
    and "\<And>j. j \<in> set js \<Longrightarrow> \<exists>w o'. j = Ended w o' \<and> (\<forall>r. o' = Inr r \<longrightarrow> TargetLanguage_parse (lw_lang w) = Inr (tr_language r))"
  shows "map (\<lambda>r. Inr (tr_language r)) rs = map (\<lambda>j. TargetLanguage_parse (lw_lang (job_work j))) js"
  using assms
proof (induction js arbitrary: rs)
  case (Cons j js)
  obtain w o' where j: "j = Ended w o'" "\<forall>r. o' = Inr r \<longrightarrow> TargetLanguage_parse (lw_lang w) = Inr (tr_language r)"
    using Cons.prems(2) [of j] by auto
  obtain r rs' where r: "job_outcome j = Some r" "job_outcomes js = Inr rs'" "rs = r # rs'"
    using Cons.prems(1) by (auto split: option.splits sum.splits)
  have "TargetLanguage_parse (lw_lang w) = Inr (tr_language r)"
    using r(1) j by (cases o') (auto dest: failed_lang_Some)
  with Cons.IH [OF r(2)] Cons.prems(2) r(3) j(1) show ?case by simp
qed simp

lemma joined_langs:
  assumes "join_jobs env cfg ctx series ws h = (h', js)" "job_outcomes js = Inr rs"
  shows "map (\<lambda>r. Inr (tr_language r)) rs = map (\<lambda>w. TargetLanguage_parse (lw_lang w)) ws"
proof -
  note e = join_ended [OF assms(1)]
  have "map job_work js = ws" using e by (intro nth_equalityI) auto
  moreover have "map (\<lambda>r. Inr (tr_language r)) rs = map (\<lambda>j. TargetLanguage_parse (lw_lang (job_work j))) js"
  proof (rule job_outcomes_langs [OF assms(2)])
    fix j assume "j \<in> set js"
    then obtain i where "i < length ws" "j = js ! i" using e by (auto simp: in_set_conv_nth)
    with e show "\<exists>w o'. j = Ended w o' \<and> (\<forall>r. o' = Inr r \<longrightarrow> TargetLanguage_parse (lw_lang w) = Inr (tr_language r))"
      by (metis outcome_of_one_Inr)
  qed
  ultimately show ?thesis by (metis (no_types, lifting) list.map_comp comp_def map_eq_conv)
qed

lemma reduced_aggregate_eq: "reduced_aggregate ts fail = expected_aggregate ts fail"
  by (simp add: reduced_aggregate_def expected_aggregate_def)

lemma reduce_target_outcomes_Inr:
  assumes "reduce_target_outcomes sha k i t s e items fail = Inr r"
  shows "r_kind r = k \<and> episode_id r = i \<and> title r = t \<and> item_failure r = fail \<and> targets r = sort_key target_key items
    \<and> aggregate r = expected_aggregate (targets r) fail \<and> items \<noteq> [] \<and> length items \<le> 32 \<and> \<not> adjacent_dup (targets r)"
proof -
  obtain ts where ts: "BoundedTargets_try_from items = Inr ts" "EpisodeRunReport_try_new sha k i t s e ts fail (expected_aggregate ts fail) = Inr r"
    using assms by (auto simp: reduce_target_outcomes_def reduced_aggregate_eq split: sum.splits)
  show ?thesis using try_new_Inr(1-8) [OF ts(2)] ts(1) by (auto simp: BoundedTargets_Inr)
qed

lemma process_one_Report:
  assumes "process_one env cfg c s = (s', Inr (RReport r))"
  obtains m t items where "resolve_media env cfg c = Inr m" "sanitize (pe_unicode env) (em_title m) = Inr t"
    "reduce_target_outcomes (pe_sha env) (kind_of c) (cd_episode_id c) t (report_season m) (report_number c m) items None = Inr r"
    "mset (map (\<lambda>r. Inr (tr_language r)) items) = mset (map TargetLanguage_parse (cd_missing c))"
proof -
  obtain m t probe s1 rs ws where
    m: "resolve_media env cfg c = Inr m" "sanitize (pe_unicode env) (em_title m) = Inr t"
    and src: "source_phase env cfg c m probe 0 (cd_missing c) (s, Map.empty) = (s1, Inr (rs, ws))"
    and fin: "complete_episode env cfg c m t rs ws s1 = (s', Inr (RReport r))"
    using assms by (auto simp: process_one_def split: if_splits sum.splits option.splits prod.splits)
  obtain h js js' where j: "join_jobs env cfg (em_ctx c m) (em_title m) ws (ps_host s1) = (h, js)" "job_outcomes js = Inr js'"
    and r: "reduce_target_outcomes (pe_sha env) (kind_of c) (cd_episode_id c) t (report_season m) (report_number c m) (rs @ js') None = Inr r"
    using fin by (auto simp: complete_episode_def Let_def split: if_splits prod.splits sum.splits)
  have "mset (map (\<lambda>r. Inr (tr_language r)) (rs @ js')) = mset (map TargetLanguage_parse (cd_missing c))"
    using source_phase_langs [OF src] joined_langs [OF j] by simp
  with m r show ?thesis by (rule that)
qed

lemma Inr_langs: "map (\<lambda>r. Inr (tr_language r)) ts = map Inr (map tr_language ts)"
  by simp

text \<open>C7: a report of an episode has one result for each missing language of the candidate, at least one
  and at most 32; its disposition is the one its targets call for, and it is complete only when every
  language of the candidate is.\<close>

theorem one_result_per_language:
  assumes "process_one env cfg c s = (s', Inr (RReport r))"
  shows "mset (map Inr (map tr_language (targets r))) = mset (map TargetLanguage_parse (cd_missing c))
    \<and> targets r \<noteq> [] \<and> length (targets r) \<le> 32 \<and> r_kind r = kind_of c \<and> episode_id r = cd_episode_id c
    \<and> item_failure r = None \<and> aggregate r = expected_aggregate (targets r) None"
proof -
  obtain m t items where r: "reduce_target_outcomes (pe_sha env) (kind_of c) (cd_episode_id c) t (report_season m) (report_number c m) items None = Inr r"
    and langs: "mset (map (\<lambda>r. Inr (tr_language r)) items) = mset (map TargetLanguage_parse (cd_missing c))"
    using process_one_Report [OF assms] by metis
  note f = reduce_target_outcomes_Inr [OF r]
  have "mset (map tr_language (targets r)) = mset (map tr_language items)" using f by simp
  then have "mset (map Inr (map tr_language (targets r))) = mset (map Inr (map tr_language items))" by (metis mset_map)
  with f langs show ?thesis unfolding Inr_langs by (auto simp del: map_map) (metis set_empty set_sort)
qed

lemma utf8_inject:
  assumes "utf8 s = utf8 t" "\<forall>c \<in> set s. is_scalar c" "\<forall>c \<in> set t. is_scalar c"
  shows "s = t"
  using decode_utf8_utf8 [OF assms(2)] decode_utf8_utf8 [OF assms(3)] unfolding assms(1) by (metis option.inject)

lemma parsed_scalars: "TargetLanguage_parse raw = Inr l \<Longrightarrow> \<forall>c \<in> set l. is_scalar c"
  by (auto simp: TargetLanguage_parse_def Let_def list_all_iff split: if_splits intro!: scalar_ascii)
    (auto simp: is_ascii_lower_def is_ascii_digit_def)

lemma sorted_no_neighbours:
  "sorted (map (\<lambda>t. utf8 (tr_language t)) ts) \<Longrightarrow> \<not> adjacent_dup ts \<Longrightarrow> \<forall>t \<in> set ts. \<forall>c \<in> set (tr_language t). is_scalar c
     \<Longrightarrow> distinct (map tr_language ts)"
proof (induction ts rule: adjacent_dup.induct)
  case (1 a b r)
  have "distinct (map tr_language (b # r))" using 1 by simp
  moreover have "tr_language a \<noteq> tr_language x" if "x \<in> set (b # r)" for x
  proof
    assume "tr_language a = tr_language x"
    then have "utf8 (tr_language a) = utf8 (tr_language b)"
      using 1(2) that by (auto intro: order_antisym)
    then have "tr_language a = tr_language b" by (rule utf8_inject) (use 1(4) in auto)
    with 1(3) show False by simp
  qed
  ultimately show ?case by auto
qed simp_all

lemma complete_all_silent:
  assumes "expected_aggregate ts None = AComplete" "t \<in> set ts"
  shows "tr_status t = Completed None"
proof -
  have all: "length (filter (\<lambda>t. is_completed (tr_status t)) ts) = length ts"
    and "\<not> list_ex (\<lambda>t. case tr_status t of Completed (Some _) \<Rightarrow> True | _ \<Rightarrow> False) ts"
    using assms(1) by (auto simp: expected_aggregate_def Let_def split: if_splits)
  moreover have "is_completed (tr_status t)" using all assms(2) by (metis filter_id_conv length_filter_less less_irrefl)
  ultimately show ?thesis using assms(2)
    by (cases "tr_status t") (auto simp: list_ex_iff split: option.splits)
qed

text \<open>C12: when two of the missing languages are spellings of one, the episode is never reported complete:
  if all their subtitles are made, the report is refused and the episode counts as failed, although
  files and ledger rows are in place.\<close>

theorem repeated_language_never_complete:
  assumes "\<not> distinct (map TargetLanguage_parse (cd_missing c))"
  shows "\<not> (\<exists>r. snd (process_one env cfg c s) = Inr (RReport r) \<and> aggregate r = AComplete)"
proof
  assume "\<exists>r. snd (process_one env cfg c s) = Inr (RReport r) \<and> aggregate r = AComplete"
  then obtain s' r where p: "process_one env cfg c s = (s', Inr (RReport r))" and ag: "aggregate r = AComplete"
    by (metis surjective_pairing)
  obtain m t items where r: "reduce_target_outcomes (pe_sha env) (kind_of c) (cd_episode_id c) t (report_season m) (report_number c m) items None = Inr r"
    and langs: "mset (map (\<lambda>r. Inr (tr_language r)) items) = mset (map TargetLanguage_parse (cd_missing c))"
    using process_one_Report [OF p] by metis
  note f = reduce_target_outcomes_Inr [OF r]
  have silent: "severity t = 2" if "t \<in> set (targets r)" for t
    using complete_all_silent [OF _ that] f ag by (metis (no_types, lifting) TargetStatus.simps(10) option.simps(4) severity_def)
  have "sorted (map target_key (targets r))" using f by (simp add: sorted_sort_key)
  moreover have "map target_key (targets r) = map (\<lambda>t. (2, utf8 (tr_language t))) (targets r)"
    using silent by (simp add: target_key_def)
  ultimately have "sorted (map (\<lambda>t. utf8 (tr_language t)) (targets r))"
    by (simp add: sorted_map less_eq_prod_def)
  moreover have "\<forall>t \<in> set (targets r). \<forall>ch \<in> set (tr_language t). is_scalar ch"
  proof
    fix t assume "t \<in> set (targets r)"
    then have "Inr (tr_language t) \<in> set (map (\<lambda>r. Inr (tr_language r)) items)" using f by auto
    then have "Inr (tr_language t) \<in> set (map TargetLanguage_parse (cd_missing c))" using langs mset_eq_setD by blast
    then show "\<forall>ch \<in> set (tr_language t). is_scalar ch" using parsed_scalars by (auto dest!: sym [of "Inr _"])
  qed
  ultimately have "distinct (map tr_language (targets r))" using f by (intro sorted_no_neighbours) auto
  then have "distinct (map tr_language items)" using f by (metis mset_map mset_sort mset_eq_imp_distinct_iff)
  then have "distinct (map (\<lambda>r. Inr (tr_language r) :: ReportConstructionError + ustr) items)"
    by (simp add: distinct_map inj_on_def)
  with langs assms show False by (metis mset_eq_imp_distinct_iff)
qed

section \<open>Nothing to do\<close>

lemma verified_digest:
  assumes "is_verified env cfg c lang h = Some v"
  shows "existing_target_digest (pe_sha env) (h_disk h) (vt_target_path v) = Inr (vt_artifact v)"
proof -
  have "admits (pe_sha env) (h_disk h)
      (load_jsonl (pe_read_row env) decode_registry_row (ledger_body (h_ledgers h (registry_file (paths_of cfg)))))
      (load_jsonl (pe_read_row env) decode_state_entry (ledger_body (h_ledgers h (state_file (paths_of cfg)))))
      (media_kind (cd_is_movie c), cd_episode_id c, normalize_lang lang) v"
    using assms unfolding is_verified_def target_is_verified_def verified_targets_def verified_pairs [symmetric]
    by (auto dest: map_of_SomeD)
  then show ?thesis by (auto simp: admits_def existing_target_digest_def)
qed

text \<open>Without interference: a language is present when it is admitted and has a name in a report.\<close>

definition present :: "process_env \<Rightarrow> config \<Rightarrow> Candidate \<Rightarrow> process_state \<Rightarrow> ustr \<Rightarrow> bool" where
  "present env cfg c s lang \<longleftrightarrow> is_verified env cfg c lang (ps_host s) \<noteq> None \<and> (\<exists>l. TargetLanguage_parse lang = Inr l)"

lemma same_host [simp]: "(s :: process_state)\<lparr>ps_host := ps_host s\<rparr> = s"
  by simp

lemma source_target_present:
  assumes "pe_before env = (\<lambda>_ h. h)" "present env cfg c s lang"
  shows "\<exists>r. source_target env cfg c m probe k lang (s, cache) = ((s, cache), Settled (Some r)) \<and> is_completed (tr_status r)"
proof -
  obtain v l where v: "is_verified env cfg c lang (ps_host s) = Some v" and l: "TargetLanguage_parse lang = Inr l"
    using assms(2) by (auto simp: present_def)
  show ?thesis
    using verified_digest [OF v] by (simp add: source_target_def assms(1) v present_target_def target_result_with_method_def l try_new_with_method_def)
qed

lemma source_target_completed:
  assumes "pe_before env = (\<lambda>_ h. h)" "source_target env cfg c m probe k lang (s, cache) = (sc, Settled (Some r))" "is_completed (tr_status r)"
  shows "present env cfg c s lang \<and> sc = (s, cache)"
proof (cases "is_verified env cfg c lang (ps_host s)")
  case None
  with assms show ?thesis
    by (auto simp: source_target_def dest!: failed_lang_Some split: prod.splits sum.splits SourceFailure.splits)
next
  case (Some v)
  with assms(2) have "present_target env (ps_host s) lang v = Some r" "sc = (s, cache)"
    by (simp_all add: source_target_def assms(1))
  with Some show ?thesis by (auto simp: present_def dest: present_target_Some)
qed

lemma source_phase_present:
  assumes "pe_before env = (\<lambda>_ h. h)" "list_all (present env cfg c s) langs"
  shows "\<exists>rs. source_phase env cfg c m probe k langs (s, cache) = (s, Inr (rs, [])) \<and> length rs = length langs
    \<and> list_all (\<lambda>t. is_completed (tr_status t)) rs"
  using assms(2)
proof (induction langs arbitrary: k)
  case (Cons lang langs)
  obtain r where "source_target env cfg c m probe k lang (s, cache) = ((s, cache), Settled (Some r))" "is_completed (tr_status r)"
    using source_target_present [OF assms(1), of cfg c s lang m probe k cache] Cons.prems by auto
  with Cons.IH [of "k + 1"] Cons.prems show ?case by auto
qed simp

lemma source_phase_all_completed:
  assumes "pe_before env = (\<lambda>_ h. h)" "source_phase env cfg c m probe k langs (s, cache) = (s', Inr (rs, []))"
    "list_all (\<lambda>t. is_completed (tr_status t)) rs"
  shows "list_all (present env cfg c s) langs \<and> s' = s"
  using assms(2,3)
proof (induction langs arbitrary: k rs)
  case (Cons lang langs)
  obtain sc r rs' where st: "source_target env cfg c m probe k lang (s, cache) = (sc, Settled (Some r))"
      "source_phase env cfg c m probe (k + 1) langs sc = (s', Inr (rs', []))" "rs = r # rs'"
    using Cons.prems(1) by (auto split: prod.splits sourced.splits option.splits sum.splits)
  have p: "present env cfg c s lang" "sc = (s, cache)"
    using source_target_completed [OF assms(1) st(1)] Cons.prems(2) st(3) by simp_all
  with Cons.IH [of "k + 1" rs'] st Cons.prems(2) show ?case by simp
qed simp

lemma process_one_idle:
  assumes "pe_before env = (\<lambda>_ h. h)"
  shows "process_one env cfg c s = (s', Inr (RNoTarget AllTargetsAlreadyPresent)) \<longleftrightarrow>
    s' = s \<and> \<not> pe_paused env \<and> cd_missing c \<noteq> [] \<and> list_all (present env cfg c s) (cd_missing c)
    \<and> (\<exists>m t probe. resolve_media env cfg c = Inr m \<and> sanitize (pe_unicode env) (em_title m) = Inr t
         \<and> ms_is_file (pe_services env) (em_path m) \<and> pe_probe env (em_path m) = Some probe)"
    (is "?idle \<longleftrightarrow> ?nothing")
proof
  assume ?idle
  then obtain m t probe s1 rs ws where
    m: "\<not> pe_paused env" "cd_missing c \<noteq> []" "resolve_media env cfg c = Inr m" "sanitize (pe_unicode env) (em_title m) = Inr t"
      "ms_is_file (pe_services env) (em_path m)" "pe_probe env (em_path m) = Some probe"
    and src: "source_phase env cfg c m probe 0 (cd_missing c) (s, Map.empty) = (s1, Inr (rs, ws))"
    and fin: "complete_episode env cfg c m t rs ws s1 = (s', Inr (RNoTarget AllTargetsAlreadyPresent))"
    by (auto simp: process_one_def split: if_splits sum.splits option.splits prod.splits)
  have all: "ws = []" "list_all (\<lambda>t. is_completed (tr_status t)) rs" "s' = s1"
    using fin by (auto simp: complete_episode_def Let_def split: if_splits prod.splits sum.splits)
  with source_phase_all_completed [OF assms] src m show ?nothing by blast
next
  assume n: ?nothing
  then obtain m t probe where
    m: "resolve_media env cfg c = Inr m" "sanitize (pe_unicode env) (em_title m) = Inr t"
      "ms_is_file (pe_services env) (em_path m)" "pe_probe env (em_path m) = Some probe" by blast
  obtain rs where "source_phase env cfg c m probe 0 (cd_missing c) (s, Map.empty) = (s, Inr (rs, []))"
      "length rs = length (cd_missing c)" "list_all (\<lambda>t. is_completed (tr_status t)) rs"
    using source_phase_present [OF assms, of cfg c s "cd_missing c" m probe 0 Map.empty] n by blast
  with m n show ?idle by (simp add: process_one_def complete_episode_def)
qed

text \<open>When nobody interferes, an episode is left alone as already complete exactly when it is not paused,
  its file is found and probed, and the ledgers admit every missing language by the bytes on disk;
  then nothing whatever has changed.\<close>

theorem already_present_exact:
  "process_one (env\<lparr>pe_before := \<lambda>_ h. h\<rparr>) cfg c s = (s', Inr (RNoTarget AllTargetsAlreadyPresent)) \<longleftrightarrow>
    s' = s \<and> \<not> pe_paused env \<and> cd_missing c \<noteq> []
    \<and> list_all (\<lambda>lang. is_verified env cfg c lang (ps_host s) \<noteq> None \<and> (\<exists>l. TargetLanguage_parse lang = Inr l)) (cd_missing c)
    \<and> (\<exists>m t probe. resolve_media env cfg c = Inr m \<and> sanitize (pe_unicode env) (em_title m) = Inr t
         \<and> ms_is_file (pe_services env) (em_path m) \<and> pe_probe env (em_path m) = Some probe)"
proof -
  have "resolve_media (env\<lparr>pe_before := b\<rparr>) cfg c = resolve_media env cfg c" for b
    by (simp add: resolve_media_def cong: option.case_cong)
  moreover have "present (env\<lparr>pe_before := b\<rparr>) cfg c s
      = (\<lambda>lang. is_verified env cfg c lang (ps_host s) \<noteq> None \<and> (\<exists>l. TargetLanguage_parse lang = Inr l))" for b
    by (simp add: present_def is_verified_def fun_eq_iff)
  ultimately show ?thesis using process_one_idle [of "env\<lparr>pe_before := \<lambda>_ h. h\<rparr>" cfg c s s'] by simp
qed

section \<open>Witnesses\<close>

definition film :: "ustr list \<Rightarrow> Candidate" where
  "film missing = \<lparr>cd_episode_id = 7, cd_series_id = None, cd_series_title = lit ''A title'', cd_path = Some (lit ''/m/a.mkv''),
     cd_missing = missing, cd_is_movie = True, cd_original_lang = None\<rparr>"

definition film_env :: process_env where
  "film_env =
     \<lparr>pe_paused = False, pe_services = \<lparr>ms_episode = (\<lambda>_. None), ms_movies = None, ms_is_file = (\<lambda>_. True)\<rparr>,
      pe_titles = (\<lambda>_. None), pe_unicode = ascii_db, pe_sha = (\<lambda>_. replicate 32 0), pe_read_row = (\<lambda>_. None),
      pe_probe = (\<lambda>_. Some \<lparr>mp_streams = [], mp_duration_s = None, mp_bit_rate = None\<rparr>), pe_jimaku = (\<lambda>_. site None),
      pe_instant = id, pe_asr = hearing_env, pe_asr_order = (\<lambda>n. [0..<n]), pe_net = (\<lambda>_. echo_net),
      pe_net_order = (\<lambda>_ n. [0..<n]), pe_late = (\<lambda>_. False), pe_pool = undefined, pe_glossary = [],
      pe_finish = (\<lambda>_. quiet_env good_pair), pe_before = (\<lambda>_ h. h), pe_between = (\<lambda>_ h. h), pe_schedule = []\<rparr>"

definition film_state :: process_state where
  "film_state = \<lparr>ps_host = empty_host, ps_tried = (\<lambda>_. None), ps_world = undefined, ps_calls = []\<rparr>"

definition film_target :: TargetRunResult where
  "film_target = \<lparr>tr_language = lit ''id'', tr_status = TargetStatus.Failed FSource, artifact_sha256 = None, generation_method = None\<rparr>"

lemma no_sidecars: "first_sidecar cfg (\<lambda>_. None) dur ps = None"
  by (induction ps) (auto simp: read_to_string_def)

lemma film_unverified: "is_verified film_env cfg c lang empty_host = None"
  by (simp add: is_verified_def target_is_verified_def empty_host_def ledger_body_def load_jsonl_def verified_targets_def
      List.map_filter_simps)

lemma no_streams: "choose_source [] t orig = None"
  by (simp add: choose_source_def find_track_def split: bind_splits)

lemma parse_id: "TargetLanguage_parse (lit ''id'') = Inr (lit ''id'')"
  using quiet_language by (simp add: quiet_work_def)

lemma film_simps [simp]:
  "pe_paused film_env = False" "pe_services film_env = \<lparr>ms_episode = (\<lambda>_. None), ms_movies = None, ms_is_file = (\<lambda>_. True)\<rparr>"
  "pe_unicode film_env = ascii_db" "pe_sha film_env = (\<lambda>_. replicate 32 0)" "pe_before film_env = (\<lambda>_ h. h)"
  "pe_probe film_env = (\<lambda>_. Some \<lparr>mp_streams = [], mp_duration_s = None, mp_bit_rate = None\<rparr>)" "pe_schedule film_env = []"
  "cd_missing (film ls) = ls" "cd_is_movie (film ls)" "cd_episode_id (film ls) = 7" "cd_path (film ls) = Some (lit ''/m/a.mkv'')"
  "cd_series_title (film ls) = lit ''A title''" "ps_host film_state = empty_host" "h_disk empty_host = (\<lambda>_. None)"
  "ps_tried film_state = (\<lambda>_. None)"
  by (simp_all add: film_env_def film_def film_state_def empty_host_def)

lemma film_source:
  "source_target film_env cfg (film ls) m \<lparr>mp_streams = [], mp_duration_s = None, mp_bit_rate = None\<rparr> k (lit ''id'') (film_state, Map.empty)
     = ((film_state, Map.empty), Settled (Some film_target))"
proof -
  have same: "film_state\<lparr>ps_host := empty_host\<rparr> = film_state" "film_state\<lparr>ps_tried := \<lambda>_. None\<rparr> = film_state"
      "empty_host\<lparr>h_disk := \<lambda>_. None\<rparr> = empty_host" "film_state\<lparr>ps_world := ps_world film_state\<rparr> = film_state"
    by (simp_all add: film_state_def empty_host_def)
  have t: "failed_lang (lit ''id'') FSource = Some film_target"
    by (simp add: failed_lang_def target_result_def target_result_with_method_def parse_id try_new_with_method_def film_target_def)
  have l: "ladder_source lc je now (ladder_query (film ls) m p l) \<lparr>ls_disk = \<lambda>_. None, ls_tried = f\<rparr> = (\<lparr>ls_disk = \<lambda>_. None, ls_tried = f\<rparr>, None)"
    for lc je now p l f by (simp add: ladder_source_def no_sidecars ladder_query_def)
  have b: "source_bundle ae o' l None (source_context cfg (film ls) m \<lparr>mp_streams = [], mp_duration_s = None, mp_bit_rate = None\<rparr>) ca w
      = ((ca, w), Inl Selection)" for ae o' l ca w
    by (simp add: source_bundle_def source_context_def no_streams)
  show ?thesis by (simp add: source_target_def same film_unverified l b t)
qed

lemma film_report_size:
  "length (encode_report \<lparr>r_kind = Movie, episode_id = 7, title = lit ''A title'', season = None, episode = None,
     targets = [film_target], item_failure = None, aggregate = AFailed, pipeline_commit_id = None\<rparr>) \<le> MAX_REPORT_BYTES"
proof -
  have "length (encode_string (lit s)) \<le> 6 * length s + 2" for s
    using encode_string_length [of "lit s"] by simp
  note this [of "''id''"] this [of "status_name (TargetStatus.Failed FSource)"] this [of "''movie''"] this [of "''A title''"]
    this [of "aggregate_name AFailed"]
  then show ?thesis
    by (simp add: encode_report_def film_target_def encode_target_def kind_name_def ascii_def utf8_lit opt_u32_def dec_int_def
        dec_small MAX_REPORT_BYTES_def)
qed

lemma film_report:
  "\<exists>r. reduce_target_outcomes sha Movie 7 (lit ''A title'') None None [film_target] None = Inr r"
proof -
  have ag: "reduced_aggregate [film_target] None = AFailed" "expected_aggregate [film_target] None = AFailed" "tr_status film_target = TargetStatus.Failed FSource"
    by (simp_all add: reduced_aggregate_def expected_aggregate_def film_target_def)
  show ?thesis using film_report_size
    by (auto simp: reduce_target_outcomes_def BoundedTargets_try_from_def MAX_TARGETS_PER_REPORT_def EpisodeRunReport_try_new_def
        ag Let_def)
qed

lemma film_reported: "\<exists>s' r. process_one film_env cfg (film [lit ''id'']) film_state = (s', Inr (RReport r))"
proof -
  let ?c = "film [lit ''id'']"
  obtain m where m: "resolve_media film_env cfg ?c = Inr m" "em_title m = lit ''A title''" "em_season m = None"
    by (simp add: resolve_media_def)
  have j: "join_jobs film_env cfg ctx t [] h = (h, [])" for ctx t h
    by (simp add: join_jobs_def full_schedule_def)
  obtain r where "reduce_target_outcomes (\<lambda>_. replicate 32 0) Movie 7 (lit ''A title'') None None [film_target] None = Inr r"
    using film_report by blast
  then show ?thesis
    by (simp add: process_one_def m sanitize_plain_title film_source complete_episode_def j kind_of_def report_season_def
        report_number_def film_target_def)
qed

theorem one_result_per_language_witness:
  "\<exists>s' r. process_one film_env sample_cfg (film [lit ''id'']) film_state = (s', Inr (RReport r))
     \<and> mset (map Inr (map tr_language (targets r))) = mset (map TargetLanguage_parse [lit ''id''])"
proof -
  obtain s' r where r: "process_one film_env sample_cfg (film [lit ''id'']) film_state = (s', Inr (RReport r))"
    using film_reported by blast
  show ?thesis using one_result_per_language [OF r] r by simp
qed

theorem repeated_language_never_complete_witness:
  "\<not> (\<exists>r. snd (process_one film_env sample_cfg (film [lit ''id'', lit ''id'']) film_state) = Inr (RReport r) \<and> aggregate r = AComplete)"
  by (rule repeated_language_never_complete) simp


end
