(* ===== verification/Services.thy ===== *)
theory Services
  imports Process
begin

text \<open>
  \<open>src/bazarr.rs\<close>, \<open>src/sonarr.rs\<close> and \<open>src/jellyfin.rs\<close>: what the clients of the media services make
  of the answers: the wanted list of two subtitle profiles, the requests of an upload and of a search,
  the listing of the series, and the search for the item of a media file with its throttled
  library scan. The network is a function from requests to answers.
\<close>

section \<open>Bazarr\<close>

record Bazarr =
  bz_base :: ustr
  bz_key :: ustr
  bz_base2 :: "ustr option"
  bz_key2 :: ustr

definition bazarr_new :: "ustr \<Rightarrow> ustr \<Rightarrow> ustr option \<Rightarrow> ustr \<Rightarrow> Bazarr" where
  "bazarr_new base key base2 key2 =
     \<lparr>bz_base = trim_end_matches 47 base, bz_key = key,
      bz_base2 = (case base2 of None \<Rightarrow> None
                  | Some b \<Rightarrow> if trim_end_matches 47 b = [] then None else Some (trim_end_matches 47 b)),
      bz_key2 = key2\<rparr>"

text \<open>A request: its address, its key and its query.\<close>

record request =
  rq_url :: ustr
  rq_key :: ustr
  rq_query :: "(ustr \<times> ustr) list"

text \<open>A request answered with JSON; no answer for any error on the way.\<close>

type_synonym json_net = "request \<Rightarrow> json option"

record WantedItem =
  wi_episode_id :: int
  wi_series_id :: "int option"
  wi_series_title :: "ustr option"
  wi_missing :: "ustr list"
  wi_raw :: json

definition code2 :: "json \<Rightarrow> ustr option" where
  "code2 m = map_option normalize_lang (Option.bind (json_get (lit ''code2'') m) as_str)"

definition missing_items :: "json \<Rightarrow> json list" where
  "missing_items v = (case Option.bind (json_get (lit ''missing_subtitles'') v) as_array of Some a \<Rightarrow> a | None \<Rightarrow> [])"

definition missing_of :: "json \<Rightarrow> ustr list" where
  "missing_of v = List.map_filter code2 (missing_items v)"

definition data_of :: "json \<Rightarrow> json list" where
  "data_of v = (case Option.bind (json_get (lit ''data'') v) as_array of Some a \<Rightarrow> a | None \<Rightarrow> [])"

definition sonarr_id :: "json \<Rightarrow> int option" where
  "sonarr_id it = Option.bind (json_get (lit ''sonarrEpisodeId'') it) as_i64"

text \<open>An assignment to a member of an object; its members are in the order of their names.\<close>

fun json_set :: "ustr \<Rightarrow> json \<Rightarrow> json \<Rightarrow> json" where
  "json_set k v (JObj kvs) = JObj (if k \<in> fst ` set kvs then AList.update k v kvs else insort_key fst (k, v) kvs)"
| "json_set k v j = j"

definition insert_item :: "(int \<times> json) list \<Rightarrow> json \<Rightarrow> (int \<times> json) list" where
  "insert_item by_id it = (case sonarr_id it of None \<Rightarrow> by_id | Some i \<Rightarrow> AList.update i it by_id)"

text \<open>The missing subtitles of the second profile that are new, in order, each language once.\<close>

fun new_missing :: "ustr set \<Rightarrow> json list \<Rightarrow> json list" where
  "new_missing have' [] = []"
| "new_missing have' (m # ms) =
     (case code2 m of None \<Rightarrow> new_missing have' ms
      | Some c \<Rightarrow> if c \<in> have' then new_missing have' ms
                  else json_set (lit ''code2'') (JStr c) m # new_missing (insert c have') ms)"

definition merge_item :: "(int \<times> json) list \<Rightarrow> json \<Rightarrow> (int \<times> json) list" where
  "merge_item by_id it =
     (case sonarr_id it of None \<Rightarrow> by_id
      | Some i \<Rightarrow>
          (case map_of by_id i of
             None \<Rightarrow> AList.update i it by_id
           | Some prev \<Rightarrow>
               AList.update i
                 (json_set (lit ''missing_subtitles'')
                    (JArr (missing_items prev @ new_missing (set (missing_of prev)) (missing_items it))) prev) by_id))"

definition wanted_item :: "int \<times> json \<Rightarrow> WantedItem" where
  "wanted_item e =
     \<lparr>wi_episode_id = fst e, wi_series_id = Option.bind (json_get (lit ''seriesId'') (snd e)) as_i64,
      wi_series_title = Option.bind (json_get (lit ''seriesTitle'') (snd e)) as_str,
      wi_missing = missing_of (snd e), wi_raw = snd e\<rparr>"

definition wanted_by_id :: "json \<Rightarrow> json option \<Rightarrow> (int \<times> json) list" where
  "wanted_by_id primary extra =
     (let first = foldl insert_item [] (data_of primary)
      in case extra of None \<Rightarrow> first | Some e \<Rightarrow> foldl merge_item first (data_of e))"

definition page :: "(ustr \<times> ustr) list" where
  "page = [(lit ''start'', lit ''0''), (lit ''length'', lit ''500'')]"

text \<open>\<open>order\<close> is the order in which the map of the items is walked.\<close>

definition wanted :: "json_net \<Rightarrow> ((int \<times> json) list \<Rightarrow> (int \<times> json) list) \<Rightarrow> Bazarr \<Rightarrow> WantedItem list option" where
  "wanted net order b =
     (if bz_base b = [] then Some []
      else case net \<lparr>rq_url = bz_base b @ lit ''/episodes/wanted'', rq_key = bz_key b, rq_query = page\<rparr> of
        None \<Rightarrow> None
      | Some primary \<Rightarrow>
          let extra = Option.bind (bz_base2 b) (\<lambda>b2.
                net \<lparr>rq_url = b2 @ lit ''/episodes/wanted'', rq_key = bz_key2 b, rq_query = page\<rparr>)
          in Some (map wanted_item (order (wanted_by_id primary extra))))"

definition movies :: "json_net \<Rightarrow> Bazarr \<Rightarrow> json list option" where
  "movies net b =
     (if bz_base b = [] then Some []
      else map_option data_of (net \<lparr>rq_url = bz_base b @ lit ''/movies'', rq_key = bz_key b, rq_query = page\<rparr>))"

definition endpoint_for :: "Bazarr \<Rightarrow> ustr \<Rightarrow> ustr \<times> ustr" where
  "endpoint_for b lang =
     (if normalize_lang lang = lit ''ja'' then (bz_base b, bz_key b)
      else case bz_base2 b of Some b2 \<Rightarrow> (b2, bz_key2 b) | None \<Rightarrow> (bz_base b, bz_key b))"

text \<open>One upload attempt: the request it makes, if any.\<close>

definition upload_flags :: "ustr \<Rightarrow> (ustr \<times> ustr) list" where
  "upload_flags lang = [(lit ''language'', lang), (lit ''forced'', lit ''false''), (lit ''hi'', lit ''true'')]"

definition upload_episode :: "Bazarr \<Rightarrow> int \<Rightarrow> int \<Rightarrow> ustr \<Rightarrow> request option" where
  "upload_episode b series_id i raw =
     (let lang = normalize_lang raw; (base, key) = endpoint_for b lang in
      if base = [] then None
      else Some \<lparr>rq_url = base @ lit ''/episodes/subtitles'', rq_key = key,
                 rq_query = (lit ''seriesid'', dec_int series_id) # (lit ''episodeid'', dec_int i) # upload_flags lang\<rparr>)"

definition upload_movie :: "Bazarr \<Rightarrow> int \<Rightarrow> ustr \<Rightarrow> request option" where
  "upload_movie b i raw =
     (let lang = normalize_lang raw; (base, key) = endpoint_for b lang in
      if base = [] then None
      else Some \<lparr>rq_url = base @ lit ''/movies/subtitles'', rq_key = key,
                 rq_query = (lit ''radarrid'', dec_int i) # upload_flags lang\<rparr>)"

text \<open>The searches a refill asks for, of every instance.\<close>

definition wanted_refill :: "Bazarr \<Rightarrow> ustr \<Rightarrow> request list" where
  "wanted_refill b kind =
     (let job = (if kind = lit ''movie'' then lit ''wanted_search_missing_subtitles_movies''
                 else lit ''wanted_search_missing_subtitles_series'');
          instances = (bz_base b, bz_key b) # (case bz_base2 b of Some b2 \<Rightarrow> [(b2, bz_key2 b)] | None \<Rightarrow> [])
      in map (\<lambda>(base, key). \<lparr>rq_url = base @ lit ''/system/tasks'', rq_key = key, rq_query = [(lit ''taskid'', job)]\<rparr>) instances)"

section \<open>Sonarr\<close>

definition series_entry :: "json \<Rightarrow> (int \<times> SeriesInfo) option" where
  "series_entry s =
     (case Option.bind (json_get (lit ''id'') s) as_i64 of None \<Rightarrow> None
      | Some i \<Rightarrow>
          Some (i, \<lparr>si_title = (case Option.bind (json_get (lit ''title'') s) as_str of Some t \<Rightarrow> t | None \<Rightarrow> []),
                    si_original_language = Option.bind (json_get (lit ''originalLanguage'') s) original_language\<rparr>))"

definition parse_series :: "json list \<Rightarrow> (int \<rightharpoonup> SeriesInfo)" where
  "parse_series list = foldl (\<lambda>m (i, s). m(i \<mapsto> s)) Map.empty (List.map_filter series_entry list)"

definition series_titles :: "json_net \<Rightarrow> ustr \<Rightarrow> ustr \<Rightarrow> (int \<rightharpoonup> SeriesInfo)" where
  "series_titles net base key =
     (case Option.bind (net \<lparr>rq_url = trim_end_matches 47 base @ lit ''/series'', rq_key = key, rq_query = []\<rparr>) as_array of
        None \<Rightarrow> Map.empty | Some l \<Rightarrow> parse_series l)"

section \<open>Jellyfin\<close>

record Jellyfin =
  jf_base :: ustr
  jf_key :: ustr
  jf_media_root :: ustr
  jf_host_prefix :: ustr

definition with_root :: "ustr \<Rightarrow> ustr \<Rightarrow> ustr \<Rightarrow> ustr \<Rightarrow> Jellyfin" where
  "with_root base key media_root host_prefix =
     \<lparr>jf_base = trim_end_matches 47 base, jf_key = trim key, jf_media_root = trim_end_matches 47 media_root,
      jf_host_prefix = trim_end_matches 47 host_prefix\<rparr>"

definition jellyfin_enabled :: "Jellyfin \<Rightarrow> bool" where
  "jellyfin_enabled j \<longleftrightarrow> jf_key j \<noteq> [] \<and> jf_base j \<noteq> []"

definition auth_value :: "Jellyfin \<Rightarrow> ustr" where
  "auth_value j = lit ''MediaBrowser Token='' @ [34] @ jf_key j @ [34]"

definition path_matches :: "ustr \<Rightarrow> ustr \<Rightarrow> ustr \<Rightarrow> bool" where
  "path_matches p jelly_path filename \<longleftrightarrow> p = jelly_path \<or> ends_with (lit ''/'' @ filename) p"

definition item_path :: "json \<Rightarrow> ustr" where
  "item_path it = (case Option.bind (json_get (lit ''Path'') it) as_str of Some p \<Rightarrow> p | None \<Rightarrow> [])"

definition jelly_get :: "json_net \<Rightarrow> Jellyfin \<Rightarrow> ustr \<Rightarrow> (ustr \<times> ustr) list \<Rightarrow> json option" where
  "jelly_get net j path q = net \<lparr>rq_url = jf_base j @ path, rq_key = auth_value j, rq_query = q\<rparr>"

definition get_items :: "json_net \<Rightarrow> Jellyfin \<Rightarrow> (ustr \<times> ustr) list \<Rightarrow> json list option" where
  "get_items net j q =
     map_option (\<lambda>v. case Option.bind (json_get (lit ''Items'') v) as_array of Some a \<Rightarrow> a | None \<Rightarrow> [])
       (jelly_get net j (lit ''/Items'') q)"

definition dir_parts :: "ustr \<Rightarrow> ustr list" where
  "dir_parts p = split_str (lit ''/'') p"

definition file_part :: "ustr \<Rightarrow> ustr" where
  "file_part p = last (dir_parts p)"

text \<open>The name of the series is the third part from the end, the season the second when it says so.\<close>

definition series_part :: "ustr \<Rightarrow> ustr" where
  "series_part p = (let parts = dir_parts p in if 3 \<le> length parts then parts ! (length parts - 3) else [])"

definition season_part :: "ustr \<Rightarrow> nat option" where
  "season_part p =
     (let parts = dir_parts p in
      if 2 \<le> length parts
      then let dir = lowercase (parts ! (length parts - 2)) in
           if starts_with (lit ''season'') dir then parse_unsigned 32 (trim (drop 6 dir)) else None
      else None)"

definition find_matching :: "ustr \<Rightarrow> ustr \<Rightarrow> json list \<Rightarrow> json option" where
  "find_matching jelly_path filename items = find (\<lambda>it. path_matches (item_path it) jelly_path filename) items"

definition has_series_path :: "ustr \<Rightarrow> json \<Rightarrow> bool" where
  "has_series_path name s =
     (case Option.bind (json_get (lit ''Path'') s) as_str of Some p \<Rightarrow> ends_with (lit ''/'' @ name) p | None \<Rightarrow> False)"

definition jelly_find_episode :: "json_net \<Rightarrow> Jellyfin \<Rightarrow> ustr \<Rightarrow> ustr \<Rightarrow> ustr \<Rightarrow> json option" where
  "jelly_find_episode net j media_path jelly_path filename =
     (let name = series_part media_path in
      if name = [] then None
      else case get_items net j [(lit ''Recursive'', lit ''true''), (lit ''IncludeItemTypes'', lit ''Series''),
                (lit ''SearchTerm'', name), (lit ''Fields'', lit ''Path'')] of
        None \<Rightarrow> None
      | Some items \<Rightarrow>
          (case first_some (find (has_series_path name) items) (case items of [] \<Rightarrow> None | s # _ \<Rightarrow> Some s) of
             None \<Rightarrow> None
           | Some series \<Rightarrow>
               (case Option.bind (json_get (lit ''Id'') series) as_str of None \<Rightarrow> None
                | Some sid \<Rightarrow>
                    (case Option.bind (jelly_get net j (lit ''/Shows/'' @ sid @ lit ''/Episodes'')
                            ((lit ''Fields'', lit ''Path'') #
                             (case season_part media_path of Some n \<Rightarrow> [(lit ''Season'', dec n)] | None \<Rightarrow> [])))
                          (\<lambda>v. Option.bind (json_get (lit ''Items'') v) as_array) of
                       None \<Rightarrow> None | Some eps \<Rightarrow> find_matching jelly_path filename eps))))"

definition jelly_find_movie :: "json_net \<Rightarrow> Jellyfin \<Rightarrow> ustr \<Rightarrow> ustr \<Rightarrow> json option" where
  "jelly_find_movie net j filename jelly_path =
     (let stem = stem_of filename in
      if stem = [] then None
      else case get_items net j [(lit ''Recursive'', lit ''true''), (lit ''IncludeItemTypes'', lit ''Movie''),
                (lit ''Fields'', lit ''Path''), (lit ''SearchTerm'', stem)] of
        None \<Rightarrow> None | Some items \<Rightarrow> find_matching jelly_path filename items)"

text \<open>The terms a title is searched by: itself or the file name, what stands before the first mark, the
  stem.\<close>

definition title_terms :: "ustr \<Rightarrow> ustr \<Rightarrow> ustr list" where
  "title_terms filename title' =
     (let first = (if title' = [] then filename else title');
          prefix' = trim (takeWhile (\<lambda>c. c \<notin> set (lit '':;!?('')) title');
          stem = stem_of filename
      in first # (if title' \<noteq> [] \<and> prefix' \<noteq> [] \<and> prefix' \<noteq> title' then [prefix'] else [])
         @ (if stem \<noteq> [] \<and> stem \<noteq> first then [stem] else []))"

fun find_by_terms :: "json_net \<Rightarrow> Jellyfin \<Rightarrow> ustr \<Rightarrow> ustr \<Rightarrow> ustr \<Rightarrow> ustr list \<Rightarrow> json option" where
  "find_by_terms net j filename jelly_path item_type' [] = None"
| "find_by_terms net j filename jelly_path item_type' (term # terms) =
     (case find_matching jelly_path filename
             (case get_items net j [(lit ''Recursive'', lit ''true''), (lit ''IncludeItemTypes'', item_type'),
                     (lit ''SearchTerm'', term), (lit ''Fields'', lit ''Path,MediaStreams'')] of
                Some items \<Rightarrow> items | None \<Rightarrow> []) of
        Some hit \<Rightarrow> Some hit
      | None \<Rightarrow> find_by_terms net j filename jelly_path item_type' terms)"

definition find_by_title :: "json_net \<Rightarrow> Jellyfin \<Rightarrow> ustr \<Rightarrow> ustr \<Rightarrow> ustr \<Rightarrow> ustr \<Rightarrow> json option" where
  "find_by_title net j filename jelly_path title' item_type' =
     find_by_terms net j filename jelly_path item_type' (title_terms filename title')"

definition jelly_item :: "json_net \<Rightarrow> Jellyfin \<Rightarrow> ustr \<Rightarrow> ustr \<Rightarrow> ustr \<Rightarrow> json option" where
  "jelly_item net j media_path title' item_type' =
     (let jelly_path = map_host_to_jellyfin (jf_host_prefix j) (jf_media_root j) media_path;
          filename = file_part media_path
      in first_some (if item_type' = lit ''Movie'' then jelly_find_movie net j filename jelly_path
                     else jelly_find_episode net j media_path jelly_path filename)
           (find_by_title net j filename jelly_path title' item_type'))"

text \<open>The refresh of one file: the address posted to, if any.\<close>

definition refresh_for :: "json_net \<Rightarrow> Jellyfin \<Rightarrow> ustr \<Rightarrow> ustr \<Rightarrow> ustr \<Rightarrow> ustr option" where
  "refresh_for net j media_path title' item_type' =
     (if \<not> jellyfin_enabled j \<or> media_path = [] then None
      else case Option.bind (Option.bind (jelly_item net j media_path title' item_type') (json_get (lit ''Id''))) as_str of
        None \<Rightarrow> None
      | Some i \<Rightarrow> Some (jf_base j @ lit ''/Items/'' @ i @ lit ''/Refresh''))"

section \<open>The library scan\<close>

definition SCAN_INTERVAL :: u64 where "SCAN_INTERVAL = 300"

text \<open>One call at the second \<open>now\<close>: the time of the last scan, and whether this call starts one.\<close>

definition maybe_scan :: "u64 \<Rightarrow> u64 \<Rightarrow> u64 \<times> bool" where
  "maybe_scan now last_scan = (if sat_sub now last_scan < SCAN_INTERVAL then (last_scan, False) else (now, True))"

fun scan_times :: "u64 \<Rightarrow> u64 list \<Rightarrow> u64 list" where
  "scan_times last_scan [] = []"
| "scan_times last_scan (now # nows) =
     (case maybe_scan now last_scan of (l, started) \<Rightarrow> (if started then [now] else []) @ scan_times l nows)"

text \<open>Refreshes run on tasks of their own: the time is read in one step and claimed in another, and
  between the two another task may read it.\<close>

record scan_state =
  ss_last :: u64
  ss_passed :: "(nat \<times> u64) list"
  ss_scans :: "u64 list"

inductive scan_step :: "scan_state \<Rightarrow> scan_state \<Rightarrow> bool" where
  check: "\<not> sat_sub now (ss_last s) < SCAN_INTERVAL \<Longrightarrow> scan_step s (s\<lparr>ss_passed := (task, now) # ss_passed s\<rparr>)"
| claim: "(task, now) \<in> set (ss_passed s) \<Longrightarrow>
    scan_step s (s\<lparr>ss_last := now, ss_passed := remove1 (task, now) (ss_passed s), ss_scans := now # ss_scans s\<rparr>)"

inductive_cases scan_stepE: "scan_step s s'"
inductive_simps scan_step_iff: "scan_step s s'"

section \<open>What is wanted\<close>

lemma map_of_insort_fst: "k \<notin> fst ` set kvs \<Longrightarrow> map_of (insort_key fst (k, v) kvs) = (map_of kvs)(k \<mapsto> v)"
  by (induction kvs) (auto simp: fun_upd_twist)

lemma json_get_set_obj [simp]: "json_get k (json_set k' v (JObj kvs)) = ((json_get k (JObj kvs)) :: json option)" if "k \<noteq> k'"
  using that by (simp add: update_conv' map_of_insort_fst)

lemma json_get_set_same [simp]: "json_get k (json_set k v (JObj kvs)) = Some v"
  by (simp add: update_conv' map_of_insort_fst)

lemma object_if_member: "json_get k v = Some x \<Longrightarrow> \<exists>kvs. v = JObj kvs"
  by (cases v) simp_all

lemma code2_object: "code2 m = Some c \<Longrightarrow> \<exists>kvs. m = JObj kvs"
  by (auto simp: code2_def dest: object_if_member split: bind_splits)

lemma code2_normal: "code2 m = Some c \<Longrightarrow> normalize_lang c = c"
  by (auto simp: code2_def normalize_lang_idem)

lemma code2_set: "code2 m = Some c \<Longrightarrow> code2 (json_set (lit ''code2'') (JStr c) m) = Some c"
proof -
  assume c: "code2 m = Some c"
  obtain kvs where m: "m = JObj kvs" using code2_object [OF c] by blast
  have "code2 (json_set (lit ''code2'') (JStr c) (JObj kvs)) = Some (normalize_lang c)"
    unfolding code2_def json_get_set_same by simp
  with code2_normal [OF c] m show ?thesis by simp
qed

lemma new_missing_codes:
  "set (List.map_filter code2 (new_missing have' ms)) = set (List.map_filter code2 ms) - have'
   \<and> distinct (List.map_filter code2 (new_missing have' ms))"
proof (induction ms arbitrary: have')
  case (Cons m ms)
  then show ?case
    by (cases "code2 m") (auto simp: List.map_filter_simps code2_set)
qed (simp add: List.map_filter_simps)

lemma sonarr_object: "sonarr_id it = Some i \<Longrightarrow> \<exists>kvs. it = JObj kvs"
  by (auto simp: sonarr_id_def dest: object_if_member split: bind_splits)

lemma missing_of_merged:
  assumes "sonarr_id prev = Some i"
  shows "set (missing_of (json_set (lit ''missing_subtitles'')
      (JArr (missing_items prev @ new_missing (set (missing_of prev)) (missing_items it))) prev))
    = set (missing_of prev) \<union> set (missing_of it)"
proof -
  obtain kvs where prev: "prev = JObj kvs" using sonarr_object [OF assms] by blast
  let ?new = "new_missing (set (missing_of prev)) (missing_items it)"
  have "missing_items (json_set (lit ''missing_subtitles'') (JArr (missing_items prev @ ?new)) prev) = missing_items prev @ ?new"
    unfolding prev missing_items_def json_get_set_same by simp
  then show ?thesis
    using new_missing_codes [of "set (missing_of prev)" "missing_items it"]
    by (auto simp: missing_of_def set_map_filter)
qed

lemma sonarr_id_merged: "sonarr_id (json_set (lit ''missing_subtitles'') v prev) = sonarr_id prev"
proof (cases prev)
  case (JObj kvs)
  have "lit ''sonarrEpisodeId'' \<noteq> lit ''missing_subtitles''" by (simp add: lit_inject)
  then show ?thesis unfolding JObj sonarr_id_def by (simp del: json_set.simps json_get.simps)
qed simp_all

text \<open>The items that name an id, and what is asked for it: the last of the first profile and all of the
  second.\<close>

definition naming :: "int \<Rightarrow> json list \<Rightarrow> json list" where
  "naming i items = filter (\<lambda>it. sonarr_id it = Some i) items"

definition asked_for :: "json list \<Rightarrow> json list \<Rightarrow> int \<Rightarrow> ustr set" where
  "asked_for first second i =
     (if naming i first = [] then {} else set (missing_of (last (naming i first))))
     \<union> (\<Union>it \<in> set (naming i second). set (missing_of it))"

definition wanted_map :: "json list \<Rightarrow> json list \<Rightarrow> (int \<times> json) list \<Rightarrow> bool" where
  "wanted_map first second by_id \<longleftrightarrow>
     distinct (map fst by_id)
     \<and> (\<forall>i. case map_of by_id i of
          None \<Rightarrow> naming i first = [] \<and> naming i second = []
        | Some v \<Rightarrow> sonarr_id v = Some i \<and> (naming i first \<noteq> [] \<or> naming i second \<noteq> []) \<and> set (missing_of v) = asked_for first second i)"

lemma naming_snoc: "naming i (items @ [it]) = naming i items @ (if sonarr_id it = Some i then [it] else [])"
  by (simp add: naming_def)

lemma wanted_map_update:
  assumes "wanted_map first second by_id"
    and "\<And>j. j \<noteq> i \<Longrightarrow> naming j first' = naming j first \<and> naming j second' = naming j second"
    and "sonarr_id v = Some i" "naming i first' \<noteq> [] \<or> naming i second' \<noteq> []" "set (missing_of v) = asked_for first' second' i"
  shows "wanted_map first' second' (AList.update i v by_id)"
proof -
  have "case map_of (AList.update i v by_id) j of None \<Rightarrow> naming j first' = [] \<and> naming j second' = []
      | Some v \<Rightarrow> sonarr_id v = Some j \<and> (naming j first' \<noteq> [] \<or> naming j second' \<noteq> []) \<and> set (missing_of v) = asked_for first' second' j" for j
  proof (cases "j = i")
    case True
    with assms(3-5) show ?thesis by (simp add: update_conv')
  next
    case False
    then have "asked_for first' second' j = asked_for first second j" using assms(2) by (simp add: asked_for_def)
    with False assms(2) [OF False] spec [OF conjunct2 [OF assms(1) [unfolded wanted_map_def]], of j] show ?thesis
      by (cases "map_of by_id j") (simp_all add: update_conv')
  qed
  with assms(1) show ?thesis unfolding wanted_map_def by (simp add: distinct_update del: distinct_map)
qed

lemma insert_item_wanted:
  assumes "wanted_map first [] by_id"
  shows "wanted_map (first @ [it]) [] (insert_item by_id it)"
proof (cases "sonarr_id it")
  case None
  then have same: "naming i (first @ [it]) = naming i first" for i by (simp add: naming_snoc)
  show ?thesis using assms None unfolding wanted_map_def asked_for_def same by (simp add: insert_item_def)
next
  case (Some i)
  have "wanted_map (first @ [it]) [] (AList.update i it by_id)"
    by (rule wanted_map_update [OF assms]) (auto simp: Some naming_snoc asked_for_def, simp_all add: naming_def)
  then show ?thesis by (simp add: insert_item_def Some)
qed

lemma merge_item_wanted:
  assumes "wanted_map first second by_id"
  shows "wanted_map first (second @ [it]) (merge_item by_id it)"
proof (cases "sonarr_id it")
  case None
  then have same: "naming i (second @ [it]) = naming i second" for i by (simp add: naming_snoc)
  show ?thesis using assms None unfolding wanted_map_def asked_for_def same by (simp add: merge_item_def)
next
  case (Some i)
  define v where "v = (case map_of by_id i of None \<Rightarrow> it
    | Some prev \<Rightarrow> json_set (lit ''missing_subtitles'') (JArr (missing_items prev @ new_missing (set (missing_of prev)) (missing_items it))) prev)"
  have m: "merge_item by_id it = AList.update i v by_id" by (simp add: merge_item_def Some v_def split: option.split)
  have at_i: "case map_of by_id i of None \<Rightarrow> naming i first = [] \<and> naming i second = []
      | Some p \<Rightarrow> sonarr_id p = Some i \<and> set (missing_of p) = asked_for first second i"
    using spec [OF conjunct2 [OF assms [unfolded wanted_map_def]], of i] by (cases "map_of by_id i") simp_all
  have v: "sonarr_id v = Some i \<and> set (missing_of v) = asked_for first (second @ [it]) i"
  proof (cases "map_of by_id i")
    case None
    with at_i show ?thesis by (simp add: v_def Some asked_for_def naming_snoc)
  next
    case (Some p)
    with at_i have p: "sonarr_id p = Some i" "set (missing_of p) = asked_for first second i" by simp_all
    have "sonarr_id v = Some i" using p(1) Some by (simp add: v_def sonarr_id_merged del: json_set.simps)
    moreover have "set (missing_of v) = set (missing_of p) \<union> set (missing_of it)"
      using missing_of_merged [OF p(1), of it] Some by (simp add: v_def del: json_set.simps)
    ultimately show ?thesis using p(2) \<open>sonarr_id it = Some i\<close> by (auto simp: asked_for_def naming_snoc)
  qed
  show ?thesis unfolding m
    by (rule wanted_map_update [OF assms]) (use v Some in \<open>auto simp: naming_snoc\<close>)
qed

lemma wanted_first: "wanted_map first [] (foldl insert_item [] first)"
  by (induction first rule: rev_induct) (simp_all add: insert_item_wanted, simp add: wanted_map_def naming_def)

lemma wanted_both: "wanted_map first second (foldl merge_item (foldl insert_item [] first) second)"
  by (induction second rule: rev_induct) (simp_all add: merge_item_wanted wanted_first)

text \<open>The wanted list has one item for each episode that either profile names; its missing languages
  are those of the last item of the first profile together with those of every item of the second.\<close>

theorem wanted_is_union:
  "let by_id = wanted_by_id primary (Some extra) in
   distinct (map fst by_id)
   \<and> fst ` set by_id = {i. naming i (data_of primary @ data_of extra) \<noteq> []}
   \<and> list_all (\<lambda>e. set (wi_missing (wanted_item e)) = asked_for (data_of primary) (data_of extra) (fst e)) by_id"
proof -
  let ?by_id = "wanted_by_id primary (Some extra)"
  have w: "wanted_map (data_of primary) (data_of extra) ?by_id" using wanted_both by (simp add: wanted_by_id_def)
  have d: "distinct (map fst ?by_id)" using w by (simp add: wanted_map_def)
  have "i \<in> fst ` set ?by_id \<longleftrightarrow> naming i (data_of primary @ data_of extra) \<noteq> []" for i
    using w by (cases "map_of ?by_id i") (auto simp: wanted_map_def naming_def map_of_eq_None_iff dest: map_of_SomeD split: option.splits)
  moreover have "set (missing_of v) = asked_for (data_of primary) (data_of extra) i" if "(i, v) \<in> set ?by_id" for i v
    using w map_of_is_SomeI [OF d that] by (auto simp: wanted_map_def split: option.splits)
  ultimately show ?thesis using d by (auto simp: Let_def list_all_iff wanted_item_def)
qed

section \<open>What is refreshed\<close>

lemma find_matching_Some: "find_matching jp fn items = Some it \<Longrightarrow> it \<in> set items \<and> path_matches (item_path it) jp fn"
  by (auto simp: find_matching_def find_Some_iff)

lemma find_by_terms_Some: "find_by_terms net j fn jp ty terms = Some it \<Longrightarrow> path_matches (item_path it) jp fn"
  by (induction terms) (auto split: option.splits dest: find_matching_Some)

lemma jelly_item_matches:
  assumes "jelly_item net j media title' ty = Some it"
  shows "path_matches (item_path it) (map_host_to_jellyfin (jf_host_prefix j) (jf_media_root j) media) (file_part media)"
  using assms
  by (auto simp: jelly_item_def Let_def jelly_find_movie_def jelly_find_episode_def find_by_title_def first_some_def
      dest: find_matching_Some find_by_terms_Some split: option.splits if_splits bind_splits)

lemma starts_with_iff: "starts_with p s \<longleftrightarrow> (\<exists>r. s = p @ r)"
  by (auto simp: starts_with_def) (metis append_take_drop_id)

lemma ends_with_append: "ends_with p s \<longleftrightarrow> (\<exists>r. s = r @ p)"
  by (auto simp: ends_with_def starts_with_iff) (metis rev_append rev_rev_ident)

text \<open>A refresh is posted only when the player is configured, and only for an item whose path is the
  media file's path on the player's side, or one that ends in a file of the same name.\<close>

theorem refresh_hits_the_file:
  assumes "refresh_for net j media title' ty = Some url"
  shows "jellyfin_enabled j
    \<and> (\<exists>it i. json_get (lit ''Id'') it = Some (JStr i) \<and> url = jf_base j @ lit ''/Items/'' @ i @ lit ''/Refresh''
        \<and> (item_path it = map_host_to_jellyfin (jf_host_prefix j) (jf_media_root j) media
           \<or> (\<exists>dir. item_path it = dir @ lit ''/'' @ file_part media)))"
proof -
  obtain it i where it: "jelly_item net j media title' ty = Some it" "Option.bind (json_get (lit ''Id'') it) as_str = Some i"
      "url = jf_base j @ lit ''/Items/'' @ i @ lit ''/Refresh''" "jellyfin_enabled j"
    using assms by (auto simp: refresh_for_def split: if_splits option.splits bind_splits)
  obtain v where "json_get (lit ''Id'') it = Some v" "as_str v = Some i" using it(2) by (auto split: bind_splits)
  then have "json_get (lit ''Id'') it = Some (JStr i)" by (cases v) simp_all
  with it jelly_item_matches [OF it(1)] show ?thesis unfolding path_matches_def ends_with_append by blast
qed

section \<open>How often the library is scanned\<close>

lemma scan_started: "\<not> sat_sub now l < SCAN_INTERVAL \<longleftrightarrow> unat l + 300 \<le> unat now"
  by (auto simp: sat_sub_def SCAN_INTERVAL_def word_less_nat_alt word_le_nat_alt unat_sub split: if_splits)

lemma scan_times_after: "t \<in> set (scan_times l nows) \<Longrightarrow> unat l + 300 \<le> unat t"
proof (induction nows arbitrary: l)
  case (Cons now nows)
  then show ?case
    using scan_started [of now l] by (fastforce simp: maybe_scan_def split: if_splits)
qed simp

text \<open>Refreshes that follow one another start library scans at least 300 seconds apart, whatever the
  clock does.\<close>

theorem scans_spaced:
  "sorted_wrt (\<lambda>s t. unat s + 300 \<le> unat t) (scan_times last_scan nows)"
proof (induction nows arbitrary: last_scan)
  case (Cons now nows)
  show ?case using Cons.IH [of last_scan] Cons.IH [of now] scan_times_after by (auto simp: maybe_scan_def)
qed simp

text \<open>Refreshes that run at the same time can start one scan each in the same second: the slot is read in
  one step and claimed in another.\<close>

theorem scans_may_stack:
  "\<exists>s. scan_step\<^sup>*\<^sup>* \<lparr>ss_last = 0, ss_passed = [], ss_scans = []\<rparr> s \<and> ss_scans s = [1000, 1000]"
proof -
  let ?s0 = "\<lparr>ss_last = 0, ss_passed = [], ss_scans = []\<rparr> :: scan_state"
  let ?s1 = "\<lparr>ss_last = 0, ss_passed = [(1, 1000)], ss_scans = []\<rparr> :: scan_state"
  let ?s2 = "\<lparr>ss_last = 0, ss_passed = [(2, 1000), (1, 1000)], ss_scans = []\<rparr> :: scan_state"
  let ?s3 = "\<lparr>ss_last = 1000, ss_passed = [(2, 1000)], ss_scans = [1000]\<rparr> :: scan_state"
  let ?s4 = "\<lparr>ss_last = 1000, ss_passed = [], ss_scans = [1000, 1000]\<rparr> :: scan_state"
  have due: "\<not> sat_sub 1000 0 < SCAN_INTERVAL" by (simp add: scan_started)
  have "scan_step ?s0 ?s1" using scan_step.check [of 1000 ?s0 1] due by simp
  moreover have "scan_step ?s1 ?s2" using scan_step.check [of 1000 ?s1 2] due by simp
  moreover have "scan_step ?s2 ?s3" using scan_step.claim [of 1 1000 ?s2] by simp
  moreover have "scan_step ?s3 ?s4" using scan_step.claim [of 2 1000 ?s3] by simp
  ultimately have "scan_step\<^sup>*\<^sup>* ?s0 ?s4" by (meson rtranclp.rtrancl_refl rtranclp.rtrancl_into_rtrancl)
  then show ?thesis by (metis scan_state.select_convs(3))
qed

section \<open>Witnesses\<close>

definition player :: Jellyfin where
  "player = with_root (lit ''p'') (lit ''k'') (lit ''/media'') (lit ''/m'')"

definition player_net :: json_net where
  "player_net rq = Some (JObj [(lit ''Items'', JArr [JObj [(lit ''Id'', JStr (lit ''7'')), (lit ''Path'', JStr (lit ''/media/a.mkv''))]])])"

lemma player_refresh: "refresh_for player_net player (lit ''/m/a.mkv'') [] (lit ''Movie'') = Some (lit ''p/Items/7/Refresh'')"
  by code_simp

theorem refresh_hits_the_file_witness:
  "jellyfin_enabled player \<and> (\<exists>it i. json_get (lit ''Id'') it = Some (JStr i) \<and> lit ''p/Items/7/Refresh'' = jf_base player @ lit ''/Items/'' @ i @ lit ''/Refresh'')"
  using refresh_hits_the_file [OF player_refresh] by blast

text \<open>The languages of the first profile are kept as they come: two spellings of one language stay two.\<close>

lemma spellings_stay:
  "missing_of (JObj [(lit ''missing_subtitles'', JArr [JObj [(lit ''code2'', JStr (lit ''eng''))], JObj [(lit ''code2'', JStr (lit ''en''))]])])
     = [lit ''en'', lit ''en'']"
  by code_simp

end
