(* ===== verification/Pass.thy ===== *)
theory Pass
  imports Services
begin

text \<open>
  \<open>src/pipeline.rs\<close>: one pass: the actions, what is missing according to the subtitle manager and the
  ledgers, the retries of this pass, the cap, and the tally of the results with its reports and error
  rows. What each episode meets while others run is given by its own surroundings and state.
\<close>

section \<open>What is missing\<close>

text \<open>The answers of one discovery and the files as it finds them.\<close>

record pass_view =
  pv_wanted :: "WantedItem list option"
  pv_movies :: "json list option"
  pv_is_file :: "ustr \<Rightarrow> bool"
  pv_files :: jsonl_fs
  pv_disk :: disk
  pv_sha :: "bytes \<Rightarrow> bytes"
  pv_lib :: row_lib

definition excluded_ids :: "config \<Rightarrow> pass_view \<Rightarrow> int set" where
  "excluded_ids cfg v = parse_exclusions (read_row (pv_lib v)) (pv_files v (cf_exclusions_file cfg))"

definition state_rows_of :: "config \<Rightarrow> pass_view \<Rightarrow> StateEntry list" where
  "state_rows_of cfg v = load_jsonl (read_row (pv_lib v)) decode_state_entry (pv_files v (cf_state_file cfg))"

definition done_keys :: "StateEntry list \<Rightarrow> TargetKey set" where
  "done_keys rows =
     set (List.map_filter
       (\<lambda>e. if se_status e \<noteq> Some (lit ''done'') then None
            else case se_episode_id e of None \<Rightarrow> None
              | Some i \<Rightarrow> (case se_language e of None \<Rightarrow> None
                  | Some l \<Rightarrow> Some ((case se_kind e of Some k \<Rightarrow> k | None \<Rightarrow> lit ''series''), i, normalize_lang l))) rows)"

definition verified_of :: "config \<Rightarrow> pass_view \<Rightarrow> TargetKey \<rightharpoonup> VerifiedTarget" where
  "verified_of cfg v =
     verified_targets (pv_sha v) (pv_disk v)
       (load_jsonl (read_row (pv_lib v)) decode_registry_row (pv_files v (cf_registry_file cfg))) (state_rows_of cfg v)"

text \<open>A language is settled by a done row together with an admitted file.\<close>

definition settled :: "config \<Rightarrow> pass_view \<Rightarrow> TargetKey \<Rightarrow> bool" where
  "settled cfg v k \<longleftrightarrow> k \<in> done_keys (state_rows_of cfg v) \<and> verified_of cfg v k \<noteq> None"

definition series_candidate :: "config \<Rightarrow> pass_view \<Rightarrow> int set \<Rightarrow> WantedItem \<Rightarrow> Candidate option" where
  "series_candidate cfg v skips it =
     (let i = wi_episode_id it;
          missing = filter (\<lambda>l. \<not> settled cfg v (lit ''series'', i, l))
                      (filter (\<lambda>l. l \<in> set (cf_target_langs cfg)) (wi_missing it))
      in if i \<in> excluded_ids cfg v \<or> i \<in> skips then None
         else if missing = [] then None
         else Some \<lparr>cd_episode_id = i, cd_series_id = wi_series_id it,
                    cd_series_title = (case wi_series_title it of Some t \<Rightarrow> t | None \<Rightarrow> lit ''?''),
                    cd_path = Option.bind (json_get (lit ''path'') (wi_raw it)) as_str,
                    cd_missing = missing, cd_is_movie = False, cd_original_lang = None\<rparr>)"

definition movie_title :: "json \<Rightarrow> ustr" where
  "movie_title m = (case Option.bind (json_get (lit ''title'') m) as_str of Some t \<Rightarrow> t | None \<Rightarrow> lit ''?'')"

definition movie_of :: "json \<Rightarrow> int \<Rightarrow> ustr \<Rightarrow> ustr list \<Rightarrow> Candidate" where
  "movie_of m i path missing =
     \<lparr>cd_episode_id = i, cd_series_id = None, cd_series_title = movie_title m, cd_path = Some path,
      cd_missing = missing, cd_is_movie = True, cd_original_lang = movie_original_lang m\<rparr>"

definition radarr_id :: "json \<Rightarrow> int option" where
  "radarr_id m = Option.bind (json_get (lit ''radarrId'') m) as_i64"

definition path_or_empty :: "json \<Rightarrow> ustr" where
  "path_or_empty m = (case movie_path m of Some p \<Rightarrow> p | None \<Rightarrow> [])"

definition movie_candidate :: "config \<Rightarrow> pass_view \<Rightarrow> int set \<Rightarrow> json \<Rightarrow> Candidate option" where
  "movie_candidate cfg v skips m =
     (case radarr_id m of None \<Rightarrow> None
      | Some i \<Rightarrow>
          if i \<in> excluded_ids cfg v \<or> i \<in> skips then None
          else if Option.bind (json_get (lit ''monitored'') m) as_bool = Some False then None
          else let path = path_or_empty m in
            if path = [] \<or> \<not> pv_is_file v (map_path cfg path) then None
            else let missing = filter (\<lambda>l. \<not> settled cfg v (lit ''movie'', i, l)) (cf_target_langs cfg)
                 in if missing = [] then None else Some (movie_of m i path missing))"

definition discover :: "config \<Rightarrow> pass_view \<Rightarrow> int set \<Rightarrow> Candidate list" where
  "discover cfg v skips =
     sort_key cd_episode_id
       ((case pv_wanted v of None \<Rightarrow> [] | Some items \<Rightarrow> List.map_filter (series_candidate cfg v skips) items)
        @ (case pv_movies v of None \<Rightarrow> [] | Some ms \<Rightarrow> List.map_filter (movie_candidate cfg v skips) ms))"

section \<open>The retries of this pass\<close>

definition retry_candidate :: "config \<Rightarrow> pass_view \<Rightarrow> media_services \<Rightarrow> int set \<Rightarrow> json list \<Rightarrow> RetrySpec \<Rightarrow> Candidate option" where
  "retry_candidate cfg v ms skips listing r =
     (let i = rs_episode_id r in
      if i \<in> skips \<or> i \<in> excluded_ids cfg v then None
      else if rs_kind r = lit ''movie'' then
        (case find_movie i listing of None \<Rightarrow> None
         | Some m \<Rightarrow>
             let path = path_or_empty m in
             if path = [] \<or> \<not> pv_is_file v (map_path cfg path) then None else Some (movie_of m i path (rs_langs r)))
      else (case ms_episode ms i of None \<Rightarrow> None
            | Some ep \<Rightarrow> Some \<lparr>cd_episode_id = i, cd_series_id = ep_series_id ep, cd_series_title = lit ''?'', cd_path = None,
                               cd_missing = rs_langs r, cd_is_movie = False, cd_original_lang = None\<rparr>))"

definition resolve_retries :: "config \<Rightarrow> pass_view \<Rightarrow> media_services \<Rightarrow> int set \<Rightarrow> RetrySpec list \<Rightarrow> Candidate list" where
  "resolve_retries cfg v ms skips specs =
     (let listing = (if list_ex (\<lambda>r. rs_kind r = lit ''movie'') specs
                     then (case ms_movies ms of Some l \<Rightarrow> l | None \<Rightarrow> []) else [])
      in List.map_filter (retry_candidate cfg v ms skips listing) specs)"

definition cand_key :: "Candidate \<Rightarrow> bool \<times> int" where
  "cand_key c = (cd_is_movie c, cd_episode_id c)"

text \<open>A retried episode is taken from the retries alone.\<close>

definition with_retries :: "Candidate list \<Rightarrow> Candidate list \<Rightarrow> Candidate list" where
  "with_retries inline cands =
     (if inline = [] then cands else inline @ filter (\<lambda>c. cand_key c \<notin> cand_key ` set inline) cands)"

definition pass_candidates ::
    "config \<Rightarrow> pass_view \<Rightarrow> media_services \<Rightarrow> int set \<Rightarrow> RetrySpec list \<Rightarrow> Candidate list" where
  "pass_candidates cfg v ms skips specs =
     with_retries (resolve_retries cfg v ms skips specs) (discover cfg v skips)"

definition capped :: "config \<Rightarrow> Candidate list \<Rightarrow> Candidate list" where
  "capped cfg cs = take (max 1 (cf_max_eps_per_run cfg)) cs"

section \<open>The tally\<close>

record PassStats =
  st_scanned :: nat
  st_processed :: nat
  st_done :: nat
  st_failed :: nat
  st_skipped :: nat

text \<open>One row of the state file, as the pass writes it for an episode that failed.\<close>

definition state_row :: "ustr \<Rightarrow> int \<Rightarrow> ustr option \<Rightarrow> ustr \<Rightarrow> ustr \<Rightarrow> bool \<Rightarrow> StateEntry" where
  "state_row now i lang status detail is_movie =
     \<lparr>se_episode_id = Some i, se_language = map_option normalize_lang lang, se_status = Some status,
      se_kind = (if is_movie then Some (lit ''movie'') else None), se_ts = Some now, se_extra = [lit ''detail'' \<mapsto> JStr detail]\<rparr>"

definition append_state ::
    "row_lib \<Rightarrow> append_out \<Rightarrow> config \<Rightarrow> ustr \<Rightarrow> int \<Rightarrow> ustr option \<Rightarrow> ustr \<Rightarrow> ustr \<Rightarrow> bool \<Rightarrow> jsonl_fs \<Rightarrow> jsonl_fs" where
  "append_state lib out cfg now i lang status detail is_movie fs =
     fst (append_jsonl (print_row lib) out (cf_state_file cfg)
       (state_entry_json (iteration lib) (state_row now i lang status detail is_movie)) fs)"

record tally =
  ta_stats :: PassStats
  ta_reports :: "EpisodeRunReport list"
  ta_files :: jsonl_fs
  ta_total :: u64

definition count_done :: "tally \<Rightarrow> tally" where
  "count_done t = t\<lparr>ta_stats := (ta_stats t)\<lparr>st_done := st_done (ta_stats t) + 1\<rparr>, ta_total := ta_total t + 1\<rparr>"

definition count_failed :: "tally \<Rightarrow> tally" where
  "count_failed t = t\<lparr>ta_stats := (ta_stats t)\<lparr>st_failed := st_failed (ta_stats t) + 1\<rparr>\<rparr>"

definition count_skipped :: "tally \<Rightarrow> tally" where
  "count_skipped t = t\<lparr>ta_stats := (ta_stats t)\<lparr>st_skipped := st_skipped (ta_stats t) + 1\<rparr>\<rparr>"

definition add_report :: "EpisodeRunReport \<Rightarrow> tally \<Rightarrow> tally" where
  "add_report r t = t\<lparr>ta_reports := ta_reports t @ [r]\<rparr>"

text \<open>What a tally needs of its surroundings: the hash, the Unicode data, the library of rows, and for each
  result the time and the outcome of an append.\<close>

record tally_env =
  te_sha :: "bytes \<Rightarrow> bytes"
  te_unicode :: unicode_db
  te_lib :: row_lib
  te_now :: "nat \<Rightarrow> ustr"
  te_append :: "nat \<Rightarrow> append_out"

definition error_row :: "tally_env \<Rightarrow> config \<Rightarrow> nat \<Rightarrow> Candidate \<Rightarrow> tally \<Rightarrow> tally" where
  "error_row env cfg n c t =
     t\<lparr>ta_files := append_state (te_lib env) (te_append env n) cfg (te_now env n) (cd_episode_id c) None (lit ''error'') []
        (cd_is_movie c) (ta_files t)\<rparr>"

definition has_completed :: "EpisodeRunReport \<Rightarrow> bool" where
  "has_completed r \<longleftrightarrow> list_ex (\<lambda>t. is_completed (tr_status t)) (targets r)"

definition tally_report :: "EpisodeRunReport \<Rightarrow> tally \<Rightarrow> tally" where
  "tally_report r t =
     (case aggregate r of
        AComplete \<Rightarrow> if has_completed r then count_done t else count_failed t
      | ACompleteWithWarning \<Rightarrow> if has_completed r then count_done t else count_failed t
      | APartial \<Rightarrow> count_failed (if has_completed r then count_done t else t)
      | AFailed \<Rightarrow> count_failed t)"

definition tally_one ::
    "tally_env \<Rightarrow> config \<Rightarrow> nat \<Rightarrow> Candidate \<Rightarrow> process_error + EpisodeRunResult \<Rightarrow> tally \<Rightarrow> tally" where
  "tally_one env cfg n c res t =
     (case res of
        Inr (RReport r) \<Rightarrow>
          add_report r (let t1 = tally_report r t in if aggregate r = AFailed then error_row env cfg n c t1 else t1)
      | Inr (RNoTarget _) \<Rightarrow> count_skipped t
      | Inl _ \<Rightarrow>
          (let t1 = error_row env cfg n c (count_failed t) in
           case failure_report_for_candidate (te_sha env) (te_unicode env) c of
             Some r \<Rightarrow> add_report r t1 | None \<Rightarrow> t1))"

fun tally_all ::
    "tally_env \<Rightarrow> config \<Rightarrow> nat \<Rightarrow> (Candidate \<times> (process_error + EpisodeRunResult)) list \<Rightarrow> tally \<Rightarrow> tally" where
  "tally_all env cfg n [] t = t"
| "tally_all env cfg n ((c, res) # rest) t = tally_all env cfg (n + 1) rest (tally_one env cfg n c res t)"

section \<open>One pass\<close>

record PassOutcome =
  po_stats :: PassStats
  po_reports :: "EpisodeRunReport list"
  po_omitted :: u64

text \<open>The results of the episodes: each meets its own surroundings and state.\<close>

definition episode_results ::
    "config \<Rightarrow> (nat \<Rightarrow> process_env) \<Rightarrow> (nat \<Rightarrow> process_state) \<Rightarrow> Candidate list
      \<Rightarrow> (Candidate \<times> (process_error + EpisodeRunResult)) list" where
  "episode_results cfg envs states cs =
     map (\<lambda>(i, c). (c, snd (process_one (envs i) cfg c (states i)))) (enumerate 0 cs)"

definition start_tally :: "nat \<Rightarrow> nat \<Rightarrow> jsonl_fs \<Rightarrow> u64 \<Rightarrow> tally" where
  "start_tally scanned processed fs total' =
     \<lparr>ta_stats = \<lparr>st_scanned = scanned, st_processed = processed, st_done = 0, st_failed = 0, st_skipped = 0\<rparr>,
      ta_reports = [], ta_files = fs, ta_total = total'\<rparr>"

text \<open>\<open>run_pass_legacy\<close> after the actions: no outcome would be the panic of the report collector.\<close>

definition run_pass ::
    "config \<Rightarrow> pass_view \<Rightarrow> media_services \<Rightarrow> tally_env \<Rightarrow> (nat \<Rightarrow> process_env) \<Rightarrow> (nat \<Rightarrow> process_state) \<Rightarrow> int set
      \<Rightarrow> RetrySpec list \<Rightarrow> jsonl_fs \<Rightarrow> u64 \<Rightarrow> tally \<times> PassOutcome option" where
  "run_pass cfg v ms env envs states skips specs fs total' =
     (let cs = pass_candidates cfg v ms skips specs;
          caps = capped cfg cs;
          t = tally_all env cfg 0 (episode_results cfg envs states caps) (start_tally (length cs) (length caps) fs total')
      in (t, case from_reports (ta_reports t) of
               Inl _ \<Rightarrow> None
             | Inr (kept, omitted) \<Rightarrow> Some \<lparr>po_stats = ta_stats t, po_reports = kept, po_omitted = omitted\<rparr>))"

text \<open>A pass from its actions on: discovery finds the files as the actions left them.\<close>

definition whole_pass ::
    "config \<Rightarrow> row_lib \<Rightarrow> act_io \<Rightarrow> pass_view \<Rightarrow> media_services \<Rightarrow> tally_env \<Rightarrow> (nat \<Rightarrow> process_env) \<Rightarrow> (nat \<Rightarrow> process_state)
      \<Rightarrow> act_state \<Rightarrow> u64 \<Rightarrow> tally \<times> PassOutcome option" where
  "whole_pass cfg lib io v ms env envs states s total' =
     (case handle_actions cfg lib ms io s of (s', skips, specs) \<Rightarrow>
        run_pass cfg (v\<lparr>pv_files := at_files s', pv_disk := at_disk s'\<rparr>) ms env envs states skips specs (at_files s') total')"

section \<open>Whom a pass processes\<close>

lemma movie_of_simps [simp]:
  "cd_episode_id (movie_of m i p ls) = i" "cd_is_movie (movie_of m i p ls)" "cd_missing (movie_of m i p ls) = ls"
  by (simp_all add: movie_of_def)

lemma series_candidate_Some:
  "series_candidate cfg v skips it = Some c \<Longrightarrow>
     cd_episode_id c = wi_episode_id it \<and> \<not> cd_is_movie c \<and> wi_episode_id it \<notin> excluded_ids cfg v \<and> wi_episode_id it \<notin> skips
     \<and> cd_missing c = filter (\<lambda>l. \<not> settled cfg v (lit ''series'', wi_episode_id it, l))
          (filter (\<lambda>l. l \<in> set (cf_target_langs cfg)) (wi_missing it))"
  by (auto simp: series_candidate_def Let_def split: if_splits)

lemma series_candidate_there:
  assumes "wi_episode_id it \<notin> excluded_ids cfg v" "wi_episode_id it \<notin> skips" "l \<in> set (wi_missing it)" "l \<in> set (cf_target_langs cfg)"
    "\<not> settled cfg v (lit ''series'', wi_episode_id it, l)"
  shows "\<exists>c. series_candidate cfg v skips it = Some c"
proof -
  have "l \<in> set (filter (\<lambda>l. \<not> settled cfg v (lit ''series'', wi_episode_id it, l))
      (filter (\<lambda>l. l \<in> set (cf_target_langs cfg)) (wi_missing it)))" using assms by simp
  then have "filter (\<lambda>l. \<not> settled cfg v (lit ''series'', wi_episode_id it, l))
      (filter (\<lambda>l. l \<in> set (cf_target_langs cfg)) (wi_missing it)) \<noteq> []" by (metis empty_iff empty_set)
  with assms(1,2) show ?thesis by (simp add: series_candidate_def Let_def del: filter_filter)
qed

text \<open>A movie the pass may look at: in the library, monitored, with a file.\<close>

definition movie_usable :: "config \<Rightarrow> pass_view \<Rightarrow> int \<Rightarrow> json \<Rightarrow> bool" where
  "movie_usable cfg v i m \<longleftrightarrow>
     radarr_id m = Some i \<and> Option.bind (json_get (lit ''monitored'') m) as_bool \<noteq> Some False
     \<and> path_or_empty m \<noteq> [] \<and> pv_is_file v (map_path cfg (path_or_empty m))"

lemma movie_candidate_iff:
  "movie_candidate cfg v skips m = Some c \<longleftrightarrow>
     (\<exists>i. movie_usable cfg v i m \<and> i \<notin> excluded_ids cfg v \<and> i \<notin> skips
        \<and> c = movie_of m i (path_or_empty m) (filter (\<lambda>l. \<not> settled cfg v (lit ''movie'', i, l)) (cf_target_langs cfg))
        \<and> filter (\<lambda>l. \<not> settled cfg v (lit ''movie'', i, l)) (cf_target_langs cfg) \<noteq> [])"
  by (auto simp: movie_candidate_def movie_usable_def Let_def split: option.splits if_splits)

lemma discover_mem:
  "c \<in> set (discover cfg v skips) \<longleftrightarrow>
     (\<exists>items it. pv_wanted v = Some items \<and> it \<in> set items \<and> series_candidate cfg v skips it = Some c)
     \<or> (\<exists>ms m. pv_movies v = Some ms \<and> m \<in> set ms \<and> movie_candidate cfg v skips m = Some c)"
  by (cases "pv_wanted v"; cases "pv_movies v") (auto simp: discover_def set_map_filter)

lemma movie_candidate_kind: "movie_candidate cfg v skips m = Some c \<Longrightarrow> cd_is_movie c"
  by (auto simp: movie_candidate_iff)

lemma discover_movie:
  "c \<in> set (discover cfg v skips) \<and> cd_is_movie c \<longleftrightarrow>
     (\<exists>ms m. pv_movies v = Some ms \<and> m \<in> set ms \<and> movie_candidate cfg v skips m = Some c)"
  unfolding discover_mem by (blast dest: series_candidate_Some movie_candidate_kind)

lemma discover_series:
  "c \<in> set (discover cfg v skips) \<and> \<not> cd_is_movie c \<longleftrightarrow>
     (\<exists>items it. pv_wanted v = Some items \<and> it \<in> set items \<and> series_candidate cfg v skips it = Some c)"
  unfolding discover_mem by (blast dest: series_candidate_Some movie_candidate_kind)

lemma discovered_movie:
  "(\<exists>c. (c \<in> set (discover cfg v skips) \<and> cd_is_movie c) \<and> cd_episode_id c = i \<and> l \<in> set (cd_missing c)) \<longleftrightarrow>
     l \<in> set (cf_target_langs cfg) \<and> i \<notin> excluded_ids cfg v \<and> i \<notin> skips \<and> \<not> settled cfg v (media_kind True, i, l)
     \<and> (\<exists>ms m. pv_movies v = Some ms \<and> m \<in> set ms \<and> movie_usable cfg v i m)" (is "_ \<longleftrightarrow> ?asked")
proof
  assume "\<exists>c. (c \<in> set (discover cfg v skips) \<and> cd_is_movie c) \<and> cd_episode_id c = i \<and> l \<in> set (cd_missing c)"
  then show ?asked unfolding discover_movie movie_candidate_iff by (auto simp: media_kind_def)
next
  assume a: ?asked
  then obtain ms m where m: "pv_movies v = Some ms" "m \<in> set ms" "movie_usable cfg v i m" by auto
  let ?ls = "filter (\<lambda>l. \<not> settled cfg v (lit ''movie'', i, l)) (cf_target_langs cfg)"
  have l: "l \<in> set ?ls" using a by (simp add: media_kind_def)
  then have "?ls \<noteq> []" by (metis empty_iff empty_set)
  then have "movie_candidate cfg v skips m = Some (movie_of m i (path_or_empty m) ?ls)"
    unfolding movie_candidate_iff using a m by blast
  with m l show "\<exists>c. (c \<in> set (discover cfg v skips) \<and> cd_is_movie c) \<and> cd_episode_id c = i \<and> l \<in> set (cd_missing c)"
    unfolding discover_movie by (metis movie_of_simps(1,3))
qed

lemma discovered_series:
  "(\<exists>c. (c \<in> set (discover cfg v skips) \<and> \<not> cd_is_movie c) \<and> cd_episode_id c = i \<and> l \<in> set (cd_missing c)) \<longleftrightarrow>
     l \<in> set (cf_target_langs cfg) \<and> i \<notin> excluded_ids cfg v \<and> i \<notin> skips \<and> \<not> settled cfg v (media_kind False, i, l)
     \<and> (\<exists>items it. pv_wanted v = Some items \<and> it \<in> set items \<and> wi_episode_id it = i \<and> l \<in> set (wi_missing it))" (is "_ \<longleftrightarrow> ?asked")
proof
  assume "\<exists>c. (c \<in> set (discover cfg v skips) \<and> \<not> cd_is_movie c) \<and> cd_episode_id c = i \<and> l \<in> set (cd_missing c)"
  then show ?asked unfolding discover_series by (auto simp: media_kind_def dest!: series_candidate_Some)
next
  assume a: ?asked
  then obtain items it where it: "pv_wanted v = Some items" "it \<in> set items" "wi_episode_id it = i" "l \<in> set (wi_missing it)"
    by auto
  moreover obtain c where c: "series_candidate cfg v skips it = Some c"
    using series_candidate_there [of it cfg v skips l] a it by (auto simp: media_kind_def)
  moreover have "cd_episode_id c = i \<and> l \<in> set (cd_missing c)"
    using series_candidate_Some [OF c] a it by (simp add: media_kind_def)
  ultimately show "\<exists>c. (c \<in> set (discover cfg v skips) \<and> \<not> cd_is_movie c) \<and> cd_episode_id c = i \<and> l \<in> set (cd_missing c)"
    unfolding discover_series by blast
qed


lemma retry_candidate_Some:
  "retry_candidate cfg v ms skips listing r = Some c \<Longrightarrow>
     cd_episode_id c = rs_episode_id r \<and> cd_is_movie c = (rs_kind r = lit ''movie'') \<and> cd_missing c = rs_langs r
     \<and> rs_episode_id r \<notin> skips \<and> rs_episode_id r \<notin> excluded_ids cfg v"
  by (auto simp: retry_candidate_def Let_def split: if_splits option.splits)

lemma with_retries_mem: "c \<in> set (with_retries inline cands) \<longleftrightarrow> c \<in> set inline \<or> c \<in> set cands \<and> cand_key c \<notin> cand_key ` set inline"
  by (auto simp: with_retries_def)

text \<open>C15: skips and exclusions win over everything: no candidate of a pass, discovered or retried, series or
  movie, has a skipped or excluded id.\<close>

theorem skipped_never_processed:
  "list_all (\<lambda>c. cd_episode_id c \<notin> skips \<and> cd_episode_id c \<notin> excluded_ids cfg v) (pass_candidates cfg v ms skips specs)"
  by (auto simp: list_all_iff pass_candidates_def with_retries_mem discover_mem resolve_retries_def Let_def set_map_filter movie_candidate_iff
      dest!: series_candidate_Some retry_candidate_Some)

section \<open>Nobody twice\<close>

lemma distinct_map_optional:
  assumes "distinct (map f xs)" "\<And>x y. g x = Some y \<Longrightarrow> h y = f x"
  shows "distinct (map h (List.map_filter g xs))"
  using assms(1)
proof (induction xs)
  case (Cons x xs)
  show ?case
  proof (cases "g x")
    case (Some y)
    have "h y \<notin> h ` set (List.map_filter g xs)"
      using Cons.prems assms(2) Some by (auto simp: set_map_filter)
    with Cons Some show ?thesis by (simp add: List.map_filter_simps)
  qed (use Cons in \<open>simp add: List.map_filter_simps\<close>)
qed (simp add: List.map_filter_simps)

lemma discover_distinct:
  assumes "\<And>items. pv_wanted v = Some items \<Longrightarrow> distinct (map wi_episode_id items)"
    and "\<And>ms. pv_movies v = Some ms \<Longrightarrow> distinct (map radarr_id ms)"
  shows "distinct (map cand_key (discover cfg v skips))"
proof -
  have series: "distinct (map cand_key (List.map_filter (series_candidate cfg v skips) items))" if "pv_wanted v = Some items" for items
    by (rule distinct_map_optional [of "\<lambda>it. (False, wi_episode_id it)"])
      (use assms(1) [OF that] in \<open>auto simp: distinct_map inj_on_def cand_key_def dest!: series_candidate_Some\<close>)
  have movies: "distinct (map (\<lambda>c. (cd_is_movie c, Some (cd_episode_id c))) (List.map_filter (movie_candidate cfg v skips) ms))"
    if "pv_movies v = Some ms" for ms
    by (rule distinct_map_optional [of "\<lambda>m. (True, radarr_id m)"])
      (use assms(2) [OF that] in \<open>auto simp: distinct_map inj_on_def movie_candidate_iff movie_usable_def\<close>)
  have "distinct (map cand_key (List.map_filter (movie_candidate cfg v skips) ms))" if "pv_movies v = Some ms" for ms
    using movies [OF that] by (auto simp: distinct_map inj_on_def cand_key_def)
  moreover have "cand_key c \<noteq> cand_key d"
    if "c \<in> set (List.map_filter (series_candidate cfg v skips) items)" "d \<in> set (List.map_filter (movie_candidate cfg v skips) ms)" for c d items ms
    using that by (auto simp: set_map_filter cand_key_def movie_candidate_iff dest!: series_candidate_Some)
  ultimately have "distinct (map cand_key ((case pv_wanted v of None \<Rightarrow> [] | Some items \<Rightarrow> List.map_filter (series_candidate cfg v skips) items)
      @ (case pv_movies v of None \<Rightarrow> [] | Some ms \<Rightarrow> List.map_filter (movie_candidate cfg v skips) ms)))"
    using series by (cases "pv_wanted v"; cases "pv_movies v") (fastforce simp del: distinct_map)+
  then show ?thesis unfolding discover_def by (metis mset_map mset_sort mset_eq_imp_distinct_iff)
qed

lemma distinct_blocks:
  assumes "distinct ids" "\<And>i. i \<in> set ids \<Longrightarrow> distinct (map (h i) (ks i))" "\<And>i k. snd (h i k) = i"
  shows "distinct (concat (map (\<lambda>i. map (h i) (ks i)) ids))"
  using assms(1,2)
proof (induction ids)
  case (Cons i ids)
  have "x \<notin> set (concat (map (\<lambda>i. map (h i) (ks i)) ids))" if "x \<in> set (map (h i) (ks i))" for x
  proof
    assume "x \<in> set (concat (map (\<lambda>i. map (h i) (ks i)) ids))"
    then obtain j k' where "j \<in> set ids" "x = h j k'" by auto
    moreover have "snd x = i" using that assms(3) by auto
    ultimately show False using assms(3) [of j k'] Cons.prems(1) by auto
  qed
  then have "set (map (h i) (ks i)) \<inter> set (concat (map (\<lambda>i. map (h i) (ks i)) ids)) = {}" by blast
  with Cons show ?case by simp
qed simp

lemma retry_specs_keys:
  assumes "groups_of t rs g"
  shows "distinct (map (\<lambda>r. (rs_kind r = lit ''movie'', rs_episode_id r)) (retry_specs cfg g))"
proof -
  have block: "distinct (map (\<lambda>k. (k = lit ''movie'', i)) (sort (fst (scope_of g i))))" if "i \<in> set (map fst g)" for i
  proof -
    obtain kinds langs where e: "map_of g i = Some (kinds, langs)" using \<open>i \<in> set (map fst g)\<close>
      by (metis list.set_map map_of_eq_None_iff not_Some_eq surj_pair)
    have "entry_of (asks t i rs) (map_of g i)" using assms by (simp add: groups_of_def)
    then have k: "distinct kinds" "set kinds \<subseteq> {lit ''series'', lit ''movie''}"
      unfolding e entry_of_def by (auto simp: asks_def known_kind_def split: if_splits)
    then have "inj_on (\<lambda>k. (k = lit ''movie'', i)) (set kinds)" by (auto simp: inj_on_def)
    with k(1) show ?thesis by (simp add: scope_of_def e distinct_map)
  qed
  have ids: "distinct (sorted_ids (map fst g))" using assms by (simp add: sorted_ids_def groups_of_def del: distinct_map)
  have "map (\<lambda>r. (rs_kind r = lit ''movie'', rs_episode_id r)) (retry_specs cfg g)
      = concat (map (\<lambda>i. map (\<lambda>k. (k = lit ''movie'', i)) (sort (fst (scope_of g i)))) (sorted_ids (map fst g)))"
    by (simp add: retry_specs_def map_concat comp_def split_beta)
  moreover have "distinct (concat (map (\<lambda>i. map (\<lambda>k. (k = lit ''movie'', i)) (sort (fst (scope_of g i)))) (sorted_ids (map fst g))))"
    by (rule distinct_blocks [OF ids]) (use block in \<open>auto simp: sorted_ids_def simp del: distinct_map\<close>)
  ultimately show ?thesis by simp
qed

text \<open>C16: when the managers list no episode and no movie twice, a pass processes no episode and no movie
  twice, whatever was retried: the retries of a batch name each id and kind once, and a retried episode
  is not taken from the discovery as well.\<close>

theorem nobody_twice:
  assumes "\<And>items. pv_wanted v = Some items \<Longrightarrow> distinct (map wi_episode_id items)"
    and "\<And>ms. pv_movies v = Some ms \<Longrightarrow> distinct (map radarr_id ms)"
  shows "distinct (map cand_key (pass_candidates cfg v ms skips (retry_specs cfg (ba_retry (scan_actions rs)))))"
proof -
  let ?specs = "retry_specs cfg (ba_retry (scan_actions rs))"
  have "distinct (map cand_key (resolve_retries cfg v ms skips ?specs))"
    unfolding resolve_retries_def Let_def
    by (rule distinct_map_optional [OF retry_specs_keys [OF conjunct1 [OF scan_groups]]])
      (auto simp: cand_key_def dest: retry_candidate_Some)
  moreover have "distinct (map cand_key (discover cfg v skips))" using assms by (rule discover_distinct)
  ultimately show ?thesis
    by (auto simp: pass_candidates_def with_retries_def List.distinct_map_filter simp del: distinct_map)
qed

section \<open>The accounts of a pass\<close>

text \<open>A partial episode counts as done and as failed.\<close>

definition counted_twice :: "process_error + EpisodeRunResult \<Rightarrow> bool" where
  "counted_twice res = (case res of Inr (RReport r) \<Rightarrow> aggregate r = APartial \<and> has_completed r | _ \<Rightarrow> False)"

definition balance :: "tally \<Rightarrow> nat" where
  "balance t = st_done (ta_stats t) + st_failed (ta_stats t) + st_skipped (ta_stats t)"

lemma tally_steps [simp]:
  "balance (count_done t) = balance t + 1" "balance (count_failed t) = balance t + 1" "balance (count_skipped t) = balance t + 1"
  "balance (add_report r t) = balance t" "balance (error_row env cfg n c t) = balance t"
  "ta_reports (count_done t) = ta_reports t" "ta_reports (count_failed t) = ta_reports t" "ta_reports (count_skipped t) = ta_reports t"
  "ta_reports (add_report r t) = ta_reports t @ [r]" "ta_reports (error_row env cfg n c t) = ta_reports t"
  "st_skipped (ta_stats (count_done t)) = st_skipped (ta_stats t)" "st_skipped (ta_stats (count_failed t)) = st_skipped (ta_stats t)"
  "st_skipped (ta_stats (count_skipped t)) = st_skipped (ta_stats t) + 1" "ta_stats (add_report r t) = ta_stats t"
  "ta_stats (error_row env cfg n c t) = ta_stats t"
  by (simp_all add: balance_def count_done_def count_failed_def count_skipped_def add_report_def error_row_def)

lemma tally_fixed [simp]:
  "st_scanned (ta_stats (count_done t)) = st_scanned (ta_stats t)" "st_scanned (ta_stats (count_failed t)) = st_scanned (ta_stats t)"
  "st_scanned (ta_stats (count_skipped t)) = st_scanned (ta_stats t)" "st_processed (ta_stats (count_done t)) = st_processed (ta_stats t)"
  "st_processed (ta_stats (count_failed t)) = st_processed (ta_stats t)" "st_processed (ta_stats (count_skipped t)) = st_processed (ta_stats t)"
  by (simp_all add: count_done_def count_failed_def count_skipped_def)

lemma tally_report_facts:
  "balance (tally_report r t) = balance t + (if aggregate r = APartial \<and> has_completed r then 2 else 1)
   \<and> ta_reports (tally_report r t) = ta_reports t \<and> st_skipped (ta_stats (tally_report r t)) = st_skipped (ta_stats t)
   \<and> st_scanned (ta_stats (tally_report r t)) = st_scanned (ta_stats t) \<and> st_processed (ta_stats (tally_report r t)) = st_processed (ta_stats t)"
  by (cases "aggregate r") (simp_all add: tally_report_def)

lemma tally_one_facts:
  "balance (tally_one env cfg n c res t) = balance t + (if counted_twice res then 2 else 1)
   \<and> length (ta_reports (tally_one env cfg n c res t)) + st_skipped (ta_stats (tally_one env cfg n c res t))
       \<le> length (ta_reports t) + st_skipped (ta_stats t) + 1
   \<and> st_scanned (ta_stats (tally_one env cfg n c res t)) = st_scanned (ta_stats t)
   \<and> st_processed (ta_stats (tally_one env cfg n c res t)) = st_processed (ta_stats t)"
  using tally_report_facts
  by (auto simp: tally_one_def counted_twice_def Let_def split: sum.split EpisodeRunResult.split option.split)

lemma tally_all_facts:
  "balance (tally_all env cfg n results t) = balance t + length results + length (filter counted_twice (map snd results))
   \<and> length (ta_reports (tally_all env cfg n results t)) + st_skipped (ta_stats (tally_all env cfg n results t))
       \<le> length (ta_reports t) + st_skipped (ta_stats t) + length results
   \<and> st_scanned (ta_stats (tally_all env cfg n results t)) = st_scanned (ta_stats t)
   \<and> st_processed (ta_stats (tally_all env cfg n results t)) = st_processed (ta_stats t)"
proof (induction results arbitrary: n t)
  case (Cons r results)
  obtain c res where r: "r = (c, res)" by fastforce
  show ?case using Cons.IH [of "n + 1" "tally_one env cfg n c res t"] tally_one_facts [of env cfg n c res t] by (simp add: r)
qed simp


section \<open>Witnesses\<close>

definition idle_view :: pass_view where
  "idle_view = \<lparr>pv_wanted = Some [\<lparr>wi_episode_id = 7, wi_series_id = None, wi_series_title = None, wi_missing = [lit ''id''], wi_raw = JNull\<rparr>],
     pv_movies = Some [], pv_is_file = (\<lambda>_. True), pv_files = (\<lambda>_. None), pv_disk = (\<lambda>_. None), pv_sha = (\<lambda>_. []),
     pv_lib = sample_lib\<rparr>"

definition one_services :: media_services where
  "one_services = \<lparr>ms_episode = (\<lambda>_. Some \<lparr>ep_series_id = None, ep_season = None, ep_number = None, ep_title = None, ep_file = None\<rparr>),
     ms_movies = None, ms_is_file = (\<lambda>_. True)\<rparr>"

definition idle_tally :: tally_env where
  "idle_tally = \<lparr>te_sha = (\<lambda>_. []), te_unicode = ascii_db, te_lib = sample_lib, te_now = (\<lambda>_. []), te_append = (\<lambda>_. AOk)\<rparr>"

theorem nobody_twice_witness:
  "distinct (map cand_key (pass_candidates sample_cfg idle_view one_services {} (retry_specs sample_cfg (ba_retry (scan_actions [sample_action ''retry'' ''series'' None])))))"
  by (rule nobody_twice) (simp_all add: idle_view_def)

lemma one_retry:
  "\<exists>c. pass_candidates sample_cfg (idle_view\<lparr>pv_wanted := None\<rparr>) one_services {} [\<lparr>rs_episode_id = 7, rs_kind = lit ''series'', rs_langs = [lit ''id'']\<rparr>] = [c]"
  by (simp add: pass_candidates_def resolve_retries_def retry_candidate_def one_services_def discover_def idle_view_def excluded_ids_def
      parse_exclusions_def load_jsonl_def List.map_filter_simps with_retries_def Let_def)


text \<open>A retry of one language takes the place of the discovered episode: the other missing languages wait for
  a later pass.\<close>

lemma retry_hides_missing:
  "map cd_missing (pass_candidates (sample_cfg\<lparr>cf_target_langs := [lit ''id'', lit ''en'']\<rparr>)
      (idle_view\<lparr>pv_wanted := Some [\<lparr>wi_episode_id = 7, wi_series_id = None, wi_series_title = None,
          wi_missing = [lit ''id'', lit ''en''], wi_raw = JNull\<rparr>]\<rparr>) one_services {}
      [\<lparr>rs_episode_id = 7, rs_kind = lit ''series'', rs_langs = [lit ''id'']\<rparr>]) = [[lit ''id'']]"
proof -
  let ?cfg = "sample_cfg\<lparr>cf_target_langs := [lit ''id'', lit ''en'']\<rparr>"
  have settled: "\<not> settled ?cfg (idle_view\<lparr>pv_wanted := w\<rparr>) k" for w k
    by (simp add: settled_def done_keys_def state_rows_of_def idle_view_def load_jsonl_def List.map_filter_simps)
  have excl: "excluded_ids ?cfg (idle_view\<lparr>pv_wanted := w\<rparr>) = {}" for w
    by (simp add: excluded_ids_def parse_exclusions_def idle_view_def load_jsonl_def List.map_filter_simps)
  show ?thesis
    by (simp add: pass_candidates_def resolve_retries_def retry_candidate_def one_services_def discover_def series_candidate_def
        settled excl List.map_filter_simps with_retries_def Let_def cand_key_def) (simp add: idle_view_def List.map_filter_simps)
qed

end
