(* ===== verification/Notifier.thy ===== *)
theory Notifier
  imports Pass Renderer
begin

text \<open>
  The notifier of \<open>discord_notifier.rs\<close>, its transport (\<open>discord_transport.rs\<close>) and the webhook secret of
  \<open>discord_config.rs\<close>. The secret is checked against a fixed grammar before a client is made from it. The
  daemon hands each pass's reports to a bounded channel; a worker takes them in order and posts one
  digest for what needs attention and one for what completed. Reading the secret file and sending a
  request have parameters for their outcome.
\<close>

section \<open>The webhook secret\<close>

definition MAX_SECRET_BYTES :: nat where "MAX_SECRET_BYTES = 512"
definition WEBHOOK_PREFIX :: ustr where "WEBHOOK_PREFIX = lit ''https://discord.com/api/webhooks/''"

datatype SecretReadError = SecretMissing | SecretIo | SecretInvalid

definition strip_prefix :: "ustr \<Rightarrow> ustr \<Rightarrow> ustr option" where
  "strip_prefix p s = (if take (length p) s = p then Some (drop (length p) s) else None)"

definition token_char :: "uchar \<Rightarrow> bool" where
  "token_char c \<longleftrightarrow> is_ascii_alnum c \<or> c = 46 \<or> c = 95 \<or> c = 45"

text \<open>ASCII bytes are their own scalar values.\<close>

definition validate_webhook_bytes :: "bytes \<Rightarrow> SecretReadError + unit" where
  "validate_webhook_bytes bs =
     (if bs = [] \<or> MAX_SECRET_BYTES < length bs \<or> list_ex (\<lambda>b. 128 \<le> unat b) bs then Inl SecretInvalid
      else
        (let value = map unat bs
         in if value \<noteq> trim value \<or> list_ex (\<lambda>c. is_ascii_ws c \<or> c = 92 \<or> c = 0) value then Inl SecretInvalid
            else case strip_prefix WEBHOOK_PREFIX value of None \<Rightarrow> Inl SecretInvalid
            | Some rest \<Rightarrow>
                if list_ex (\<lambda>c. c = 63 \<or> c = 35 \<or> c = 37 \<or> c = 64) rest then Inl SecretInvalid
                else (case split_str [47] rest of
                    [snowflake, token] \<Rightarrow>
                      if \<not> (17 \<le> length snowflake \<and> length snowflake \<le> 20) \<or> \<not> list_all is_ascii_digit snowflake
                        \<or> token = [] \<or> 256 < length token \<or> token = lit ''.'' \<or> token = lit ''..''
                        \<or> \<not> list_all token_char token
                      then Inl SecretInvalid else Inr ()
                  | _ \<Rightarrow> Inl SecretInvalid)))"

text \<open>What the file system shows of the secret's path.\<close>

datatype secret_file =
    NoEntry
  | StatFails
  | Entry (is_regular: bool) (file_len: nat) (file_read: "bytes option")

definition read_runtime_secret :: "secret_file \<Rightarrow> SecretReadError + bytes" where
  "read_runtime_secret f =
     (case f of
        NoEntry \<Rightarrow> Inl SecretMissing
      | StatFails \<Rightarrow> Inl SecretIo
      | Entry regular len contents \<Rightarrow>
          if \<not> regular \<or> MAX_SECRET_BYTES + 1 < len then Inl SecretInvalid
          else case contents of None \<Rightarrow> Inl SecretIo
          | Some bs \<Rightarrow> (case validate_webhook_bytes bs of Inl e \<Rightarrow> Inl e | Inr _ \<Rightarrow> Inr bs))"

definition read_optional_runtime_secret :: "secret_file \<Rightarrow> bytes option" where
  "read_optional_runtime_secret f = (case read_runtime_secret f of Inl _ \<Rightarrow> None | Inr bs \<Rightarrow> Some bs)"

definition from_runtime_secret_bytes :: "bytes \<Rightarrow> SecretReadError + ustr" where
  "from_runtime_secret_bytes bs =
     (case validate_webhook_bytes bs of Inl e \<Rightarrow> Inl e
      | Inr _ \<Rightarrow> (case decode_utf8 bs of None \<Rightarrow> Inl SecretInvalid | Some s \<Rightarrow> Inr s))"

section \<open>The transport\<close>

type_synonym u16 = "16 word"

datatype DeliveryResult = Accepted | DeliveryFailed SafeDeliveryError

definition classify_status :: "u16 \<Rightarrow> DeliveryResult" where
  "classify_status status =
     (if 200 \<le> status \<and> status \<le> 299 then Accepted
      else if status = 408 \<or> status = 425 \<or> status = 429 \<or> 500 \<le> status then DeliveryFailed DRetryableResponse
      else DeliveryFailed DPermanentResponse)"

text \<open>The client's post of a payload to the webhook: an answer's status, or none.\<close>

definition discord_send :: "(ustr \<Rightarrow> bytes \<Rightarrow> u16 option) \<Rightarrow> ustr \<Rightarrow> bytes \<Rightarrow> DeliveryResult" where
  "discord_send post webhook payload' =
     (case post webhook payload' of None \<Rightarrow> DeliveryFailed DTransport | Some status \<Rightarrow> classify_status status)"

section \<open>The worker\<close>

definition NOTIFIER_QUEUE_CAPACITY :: nat where "NOTIFIER_QUEUE_CAPACITY = 8"

record NotifierWork =
  nw_reports :: "EpisodeRunReport list"
  omitted_reports :: u64

definition is_complete :: "EpisodeRunReport \<Rightarrow> bool" where
  "is_complete r \<longleftrightarrow> aggregate r = AComplete"

definition partition_reports :: "EpisodeRunReport list \<Rightarrow> (EpisodeRunReport list \<times> EpisodeRunReport list) option" where
  "partition_reports rs =
     (case from_reports (filter (\<lambda>r. \<not> is_complete r) rs) of Inl _ \<Rightarrow> None | Inr (attention', attention_omitted) \<Rightarrow>
      (case from_reports (filter is_complete rs) of Inl _ \<Rightarrow> None | Inr (completed, completed_omitted) \<Rightarrow>
         if attention_omitted \<noteq> 0 \<or> completed_omitted \<noteq> 0 then None else Some (attention', completed)))"

definition attention_view :: "EpisodeRunReport list \<Rightarrow> u64 \<Rightarrow> DeliveryView" where
  "attention_view rs omitted =
     \<lparr>view_generation = 0, view_overflow = OverflowSummary_default\<lparr>pre_admission_drops := omitted\<rparr>, view_reports = rs\<rparr>"

definition completed_view :: "EpisodeRunReport list \<Rightarrow> DeliveryView" where
  "completed_view rs = \<lparr>view_generation = 0, view_overflow = OverflowSummary_default, view_reports = rs\<rparr>"

text \<open>The digests the worker makes of one pass, in the order it sends them.\<close>

definition views_of :: "NotifierWork \<Rightarrow> DeliveryView list" where
  "views_of w =
     (if nw_reports w = [] \<and> omitted_reports w = 0 then []
      else case partition_reports (nw_reports w) of None \<Rightarrow> []
      | Some (att, cpl) \<Rightarrow>
          (if att \<noteq> [] \<or> 0 < omitted_reports w then [attention_view att (omitted_reports w)] else [])
          @ (if cpl \<noteq> [] then [completed_view cpl] else []))"

text \<open>\<open>deliver\<close>: the payload posted, if the digest renders, and the warning logged.\<close>

datatype deliver_warning = RenderFailed RenderError | DeliveryWarn SafeDeliveryError

definition deliver :: "(bytes \<Rightarrow> DeliveryResult) \<Rightarrow> DeliveryView \<Rightarrow> bytes option \<times> deliver_warning option" where
  "deliver transport view =
     (case render view of
        Inl e \<Rightarrow> (None, Some (RenderFailed e))
      | Inr p \<Rightarrow> (Some p, (case transport p of Accepted \<Rightarrow> None | DeliveryFailed c \<Rightarrow> Some (DeliveryWarn c))))"

section \<open>The channel\<close>

text \<open>The bounded channel between the daemon and the worker: \<open>nt_hand\<close> holds the digests of the pass the
  worker has taken and not yet sent; \<open>nt_accepted\<close> and \<open>nt_posts\<close> record what was admitted and posted.\<close>

record notifier =
  nt_queue :: "NotifierWork list"
  nt_hand :: "DeliveryView list"
  nt_accepted :: "NotifierWork list"
  nt_posts :: "bytes list"

definition idle_notifier :: notifier where
  "idle_notifier = \<lparr>nt_queue = [], nt_hand = [], nt_accepted = [], nt_posts = []\<rparr>"

definition try_send :: "NotifierWork \<Rightarrow> notifier \<Rightarrow> notifier \<times> NotifierWork option" where
  "try_send w s =
     (if length (nt_queue s) < NOTIFIER_QUEUE_CAPACITY
      then (s\<lparr>nt_queue := nt_queue s @ [w], nt_accepted := nt_accepted s @ [w]\<rparr>, None)
      else (s, Some w))"

text \<open>One step of the worker: the next digest in hand is delivered, or the next pass is received. Nothing
  changes when there is nothing to do.\<close>

definition worker_step :: "(bytes \<Rightarrow> DeliveryResult) \<Rightarrow> notifier \<Rightarrow> notifier" where
  "worker_step transport s =
     (case nt_hand s of
        v # vs \<Rightarrow> s\<lparr>nt_hand := vs, nt_posts := nt_posts s @ (case fst (deliver transport v) of None \<Rightarrow> [] | Some p \<Rightarrow> [p])\<rparr>
      | [] \<Rightarrow> (case nt_queue s of [] \<Rightarrow> s | w # q \<Rightarrow> s\<lparr>nt_queue := q, nt_hand := views_of w\<rparr>))"

text \<open>The daemon and the worker interleave; the transport may answer differently each time.\<close>

inductive notifier_step :: "notifier \<Rightarrow> notifier \<Rightarrow> bool" where
  offer: "notifier_step s (fst (try_send w s))"
| work: "notifier_step s (worker_step transport s)"

inductive_cases notifier_stepE: "notifier_step s t"

definition notifier_reachable :: "notifier \<Rightarrow> bool" where
  "notifier_reachable s \<longleftrightarrow> notifier_step\<^sup>*\<^sup>* idle_notifier s"

section \<open>What is posted\<close>

definition rendered :: "DeliveryView \<Rightarrow> bytes list" where
  "rendered v = (case render v of Inl _ \<Rightarrow> [] | Inr p \<Rightarrow> [p])"

definition posts_of :: "NotifierWork \<Rightarrow> bytes list" where
  "posts_of w = concat (map rendered (views_of w))"

definition notifier_inv :: "notifier \<Rightarrow> bool" where
  "notifier_inv s \<longleftrightarrow> length (nt_queue s) \<le> NOTIFIER_QUEUE_CAPACITY
     \<and> nt_posts s @ concat (map rendered (nt_hand s)) @ concat (map posts_of (nt_queue s)) = concat (map posts_of (nt_accepted s))"

lemma deliver_posts: "(case fst (deliver transport v) of None \<Rightarrow> [] | Some p \<Rightarrow> [p]) = rendered v"
  by (simp add: deliver_def rendered_def split: sum.splits)

lemma try_send_inv: "notifier_inv s \<Longrightarrow> notifier_inv (fst (try_send w s))"
  by (simp add: notifier_inv_def try_send_def flip: append_assoc)

lemma worker_step_inv: "notifier_inv s \<Longrightarrow> notifier_inv (worker_step transport s)"
  by (auto simp: notifier_inv_def worker_step_def deliver_posts posts_of_def split: list.splits)

lemma notifier_step_inv: "notifier_step s t \<Longrightarrow> notifier_inv s \<Longrightarrow> notifier_inv t"
  by (elim notifier_stepE) (simp_all add: try_send_inv worker_step_inv)

interpretation worker: step_system notifier_step "\<lambda>s. s = idle_notifier" notifier_inv
proof
  show "notifier_inv s" if "s = idle_notifier" for s using that by (simp add: notifier_inv_def idle_notifier_def)
qed (rule notifier_step_inv)

lemma notifier_reachable_inv: "notifier_reachable s \<Longrightarrow> notifier_inv s"
  unfolding notifier_reachable_def by (rule worker.reachable_kept [OF refl])

text \<open>The worker alone empties the channel: a pass takes one step to receive and one for each of its at most
  two digests.\<close>

definition work_left :: "notifier \<Rightarrow> nat" where
  "work_left s = length (nt_hand s) + 3 * length (nt_queue s)"

lemma views_of_at_most_two: "length (views_of w) \<le> 2"
  by (auto simp: views_of_def split: option.splits)

lemma worker_step_decreases: "work_left s \<noteq> 0 \<Longrightarrow> work_left (worker_step transport s) < work_left s"
proof (cases "nt_hand s")
  case Nil
  assume "work_left s \<noteq> 0"
  then obtain w q where "nt_queue s = w # q" using Nil by (cases "nt_queue s") (simp_all add: work_left_def)
  then show ?thesis using Nil views_of_at_most_two [of w] by (simp add: work_left_def worker_step_def)
qed (simp add: work_left_def worker_step_def)

fun worker_run :: "(nat \<Rightarrow> bytes \<Rightarrow> DeliveryResult) \<Rightarrow> nat \<Rightarrow> notifier \<Rightarrow> notifier" where
  "worker_run transport 0 s = s"
| "worker_run transport (Suc n) s = worker_run transport n (worker_step (transport n) s)"

lemma worker_run_inv: "notifier_inv s \<Longrightarrow> notifier_inv (worker_run transport n s)"
  by (induction n arbitrary: s) (simp_all add: worker_step_inv)

lemma worker_step_accepted [simp]: "nt_accepted (worker_step transport s) = nt_accepted s"
  by (simp add: worker_step_def split: list.splits)

lemma worker_run_accepted [simp]: "nt_accepted (worker_run transport n s) = nt_accepted s"
  by (induction n arbitrary: s) simp_all

lemma worker_step_idle: "work_left s = 0 \<Longrightarrow> worker_step transport s = s"
  by (simp add: work_left_def worker_step_def)

lemma worker_run_drains: "work_left s \<le> n \<Longrightarrow> work_left (worker_run transport n s) = 0"
proof (induction n arbitrary: s)
  case (Suc n)
  have "work_left (worker_step (transport n) s) \<le> n"
  proof (cases "work_left s = 0")
    case False
    then show ?thesis using worker_step_decreases [OF False, of "transport n"] Suc.prems by simp
  qed (simp add: worker_step_idle)
  then show ?case by (simp add: Suc.IH)
qed simp

text \<open>C39: the digests are posted in the order of the passes, each at most once, whatever the transport
  answers; what is not posted yet is the work in hand followed by the queue, which never holds more than eight passes. Left
  alone, the worker posts all of it within three steps per queued pass.\<close>

theorem posts_in_order:
  assumes "notifier_reachable s"
  shows "length (nt_queue s) \<le> 8
    \<and> nt_posts s @ concat (map rendered (nt_hand s)) @ concat (map posts_of (nt_queue s)) = concat (map posts_of (nt_accepted s))
    \<and> nt_posts (worker_run transport (length (nt_hand s) + 3 * length (nt_queue s)) s) = concat (map posts_of (nt_accepted s))"
proof -
  have inv: "notifier_inv s" by (rule notifier_reachable_inv [OF assms])
  let ?t = "worker_run transport (work_left s) s"
  have "work_left ?t = 0" by (rule worker_run_drains) simp
  moreover have "notifier_inv ?t" by (rule worker_run_inv [OF inv])
  ultimately have "nt_posts ?t = concat (map posts_of (nt_accepted s))"
    by (simp add: notifier_inv_def work_left_def)
  then show ?thesis using inv by (simp add: notifier_inv_def NOTIFIER_QUEUE_CAPACITY_def work_left_def)
qed

section \<open>The digests of a pass\<close>

lemma within_bounds_filter:
  "within_bounds rs \<Longrightarrow> list_all (\<lambda>r. report_size r \<le> MAX_REPORT_BYTES) (filter P rs) \<and> length (filter P rs) \<le> MAX_PASS_REPORTS"
  using order_trans [OF length_filter_le] by (auto simp: within_bounds_def list_all_iff)

lemma from_reports_filter:
  assumes "within_bounds rs" and "sorted (map report_key rs)"
  shows "from_reports (filter P rs) = Inr (filter P rs, 0)"
proof -
  have s: "sort_key report_key (filter P rs) = filter P rs"
    by (rule sort_key_sorted) (rule sorted_filter [OF assms(2)])
  show ?thesis
    using keep_reports_all [of "[]" "filter P rs" 0 0] within_bounds_filter [OF assms(1), of P] by (simp add: from_reports_def s)
qed

lemma from_reports_sorted:
  assumes "from_reports reps = Inr (rs, om)" and "length reps < 2 ^ 64"
  shows "within_bounds rs" and "sorted (map report_key rs)"
proof -
  obtain rs' om' where r: "from_reports reps = Inr (rs', om')" "within_bounds rs'" "subseq rs' (sort_key report_key reps)"
    using from_reports_bounded [OF assms(2)] by blast
  then show "within_bounds rs" using assms(1) by simp
  have "subseq (map report_key rs) (map report_key (sort_key report_key reps))"
    using r assms(1) by (simp add: subseq_map)
  then show "sorted (map report_key rs)"
    by (rule sorted_subseq) simp
qed

lemma run_pass_reports:
  assumes "run_pass cfg v ms env envs states skips specs fs total' = (t, r)"
    and "length (pass_candidates cfg v ms skips specs) < 2 ^ 64"
  shows "length (ta_reports t) < 2 ^ 64"
proof -
  let ?cs = "pass_candidates cfg v ms skips specs"
  have "length (episode_results cfg envs states (capped cfg ?cs)) \<le> length ?cs" by (simp add: episode_results_def capped_def)
  then show ?thesis
    using assms tally_all_facts [of env cfg 0 "episode_results cfg envs states (capped cfg ?cs)"
        "start_tally (length ?cs) (length (capped cfg ?cs)) fs total'"]
    by (auto simp: run_pass_def Let_def start_tally_def)
qed

text \<open>The reports of a pass reach the worker's digests whole: the worker never refuses to split them, it
  makes a first digest exactly when a report needs attention or some were omitted, with those reports in their
  order and the omitted count, and a second exactly when a report completed; a pass without reports
  has none.\<close>

theorem pass_digests_exact:
  assumes "run_pass cfg v ms env envs states skips specs fs total' = (t, Some po)"
    and "length (pass_candidates cfg v ms skips specs) < 2 ^ 64"
  shows "views_of \<lparr>nw_reports = po_reports po, omitted_reports = po_omitted po\<rparr>
    = (if list_ex (\<lambda>r. aggregate r \<noteq> AComplete) (po_reports po) \<or> po_omitted po \<noteq> 0
       then [attention_view (filter (\<lambda>r. aggregate r \<noteq> AComplete) (po_reports po)) (po_omitted po)] else [])
      @ (if list_ex (\<lambda>r. aggregate r = AComplete) (po_reports po)
         then [completed_view (filter (\<lambda>r. aggregate r = AComplete) (po_reports po))] else [])"
proof -
  have "from_reports (ta_reports t) = Inr (po_reports po, po_omitted po)"
    using assms(1) by (auto simp: run_pass_def Let_def split: sum.splits)
  note kept = from_reports_sorted [OF this run_pass_reports [OF assms]]
  have split: "partition_reports (po_reports po)
      = Some (filter (\<lambda>r. aggregate r \<noteq> AComplete) (po_reports po), filter (\<lambda>r. aggregate r = AComplete) (po_reports po))"
    by (simp add: partition_reports_def from_reports_filter [OF kept] is_complete_def [abs_def])
  have some: "filter P rs = [] \<longleftrightarrow> \<not> list_ex P rs" for P and rs :: "EpisodeRunReport list"
    by (auto simp: list_ex_iff filter_empty_conv)
  have idle: "\<not> list_ex P (po_reports po)" if "po_reports po = []" for P using that by simp
  show ?thesis
    by (cases "po_reports po = [] \<and> po_omitted po = 0") (simp_all add: views_of_def split some word_gt_0)
qed

section \<open>The webhook's grammar\<close>

lemma split_once_char_None: "split_once [c] s = None \<longleftrightarrow> c \<notin> set s"
proof
  show "c \<notin> set s" if "split_once [c] s = None"
    using that split_once_char_append [of c] by (auto dest: split_list_first)
qed (rule split_once_char_notin)

lemma two_pieces: "split_str [c] s = [a, b] \<longleftrightarrow> s = a @ c # b \<and> c \<notin> set a \<and> c \<notin> set b"
proof
  assume h: "split_str [c] s = [a, b]"
  obtain x y where o1: "split_once [c] s = Some (x, y)"
    using h split_str_end [of "[c]" s] by (cases "split_once [c] s") auto
  then have y: "x = a" "split_str [c] y = [b]" using h by (simp_all add: split_str_step)
  have none: "split_once [c] y = None"
  proof (rule ccontr)
    assume "split_once [c] y \<noteq> None"
    then obtain p q where "split_once [c] y = Some (p, q)" by auto
    then show False using y(2) split_str_nonempty [of "[c]" q] by (simp add: split_str_step)
  qed
  then have "y = b" "c \<notin> set b" using y(2) split_str_end [OF none] by (simp_all add: split_once_char_None)
  then show "s = a @ c # b \<and> c \<notin> set a \<and> c \<notin> set b" using split_once_char_Some [OF o1] y(1) by simp
next
  assume "s = a @ c # b \<and> c \<notin> set a \<and> c \<notin> set b"
  then show "split_str [c] s = [a, b]" using split_char_join [of "[a, b]" c] by simp
qed

definition webhook_char :: "uchar \<Rightarrow> bool" where
  "webhook_char c \<longleftrightarrow> 33 \<le> c \<and> c < 127 \<and> c \<noteq> 63 \<and> c \<noteq> 35 \<and> c \<noteq> 37 \<and> c \<noteq> 64 \<and> c \<noteq> 92"

lemma webhook_chars: "is_ascii_digit c \<Longrightarrow> webhook_char c" "token_char c \<Longrightarrow> webhook_char c" "webhook_char 47"
    "list_all webhook_char WEBHOOK_PREFIX"
     apply (auto simp: webhook_char_def token_char_def ascii_class_defs)[3]
  unfolding WEBHOOK_PREFIX_def by code_simp

lemma webhook_char_plain: "webhook_char c \<Longrightarrow> c < 128 \<and> \<not> is_ws c \<and> \<not> is_ascii_ws c \<and> c \<noteq> 92 \<and> c \<noteq> 0"
  by (auto simp: webhook_char_def is_ws_def is_ascii_ws_def)

lemma slash_free: "list_all is_ascii_digit s \<Longrightarrow> 47 \<notin> set s" "list_all token_char s \<Longrightarrow> 47 \<notin> set s"
  by (auto simp: list_all_iff token_char_def ascii_class_defs)

lemma length_WEBHOOK_PREFIX [simp]: "length WEBHOOK_PREFIX = 33"
  by (simp add: WEBHOOK_PREFIX_def)

definition webhook_url :: "ustr \<Rightarrow> ustr \<Rightarrow> ustr" where
  "webhook_url sf tok = WEBHOOK_PREFIX @ sf @ 47 # tok"

definition good_ids :: "ustr \<Rightarrow> ustr \<Rightarrow> bool" where
  "good_ids sf tok \<longleftrightarrow> 17 \<le> length sf \<and> length sf \<le> 20 \<and> list_all is_ascii_digit sf
     \<and> tok \<noteq> [] \<and> length tok \<le> 256 \<and> tok \<noteq> lit ''.'' \<and> tok \<noteq> lit ''..'' \<and> list_all token_char tok"

lemma good_url_chars:
  assumes "good_ids sf tok"
  shows "list_all webhook_char (webhook_url sf tok)"
proof -
  have "list_all webhook_char sf" "list_all webhook_char tok"
    using assms webhook_chars(1,2) unfolding good_ids_def list_all_iff by blast+
  then show ?thesis using webhook_chars(3,4) by (simp add: webhook_url_def)
qed

lemma utf8_webhook:
  assumes "list_all webhook_char s"
  shows "map unat (utf8 s) = s"
  using assms by (induction s) (auto simp: utf8_Cons utf8_char_def webhook_char_def unat_byte)

lemma ascii_utf8:
  assumes "map unat bs = s" and "list_all webhook_char s"
  shows "bs = utf8 s"
proof -
  have "map unat bs = map unat (utf8 s)" using assms utf8_webhook by simp
  then show ?thesis by (rule map_injective) (auto intro: injI simp: word_unat_eq_iff)
qed

lemma decode_good_url: "good_ids sf tok \<Longrightarrow> decode_utf8 (utf8 (webhook_url sf tok)) = Some (webhook_url sf tok)"
proof (rule decode_utf8_utf8)
  assume "good_ids sf tok"
  then have "list_all webhook_char (webhook_url sf tok)" by (rule good_url_chars)
  then show "\<forall>c \<in> set (webhook_url sf tok). is_scalar c"
    unfolding list_all_iff webhook_char_def is_scalar_def by fastforce
qed

lemma webhook_accepts:
  assumes "map unat bs = webhook_url sf tok" and ids: "good_ids sf tok"
  shows "validate_webhook_bytes bs = Inr ()"
proof -
  let ?v = "webhook_url sf tok"
  have chars: "webhook_char c" if "c \<in> set ?v" for c
    using good_url_chars [OF ids] that by (simp add: list_all_iff)
  have len: "length bs = length ?v" using assms(1) by (metis length_map)
  have "length ?v \<le> 310" "?v \<noteq> []" using ids by (simp_all add: webhook_url_def good_ids_def)
  moreover have "unat b < 128" if "b \<in> set bs" for b
  proof -
    have "unat b \<in> set ?v" using that by (simp flip: assms(1))
    then show ?thesis using webhook_char_plain [OF chars] by simp
  qed
  moreover have "trim ?v = ?v"
  proof (rule trim_trimmed)
    have "hd ?v \<in> set ?v" "last ?v \<in> set ?v" using \<open>?v \<noteq> []\<close> by simp_all
    then show "trimmed ?v" using webhook_char_plain [OF chars] by (simp add: trimmed_def)
  qed
  moreover have "\<not> list_ex (\<lambda>c. is_ascii_ws c \<or> c = 92 \<or> c = 0) ?v"
    using webhook_char_plain [OF chars] by (auto simp: list_ex_iff)
  moreover have "strip_prefix WEBHOOK_PREFIX ?v = Some (sf @ 47 # tok)"
    by (simp add: strip_prefix_def webhook_url_def)
  moreover have "\<not> list_ex (\<lambda>c. c = 63 \<or> c = 35 \<or> c = 37 \<or> c = 64) (sf @ 47 # tok)"
  proof -
    have "webhook_char c" if "c \<in> set (sf @ 47 # tok)" for c using chars that by (auto simp: webhook_url_def)
    then show ?thesis unfolding list_ex_iff webhook_char_def by blast
  qed
  moreover have "split_str [47] (sf @ 47 # tok) = [sf, tok]"
    using ids by (simp add: two_pieces slash_free good_ids_def)
  ultimately show ?thesis
    using ids len by (auto simp: validate_webhook_bytes_def Let_def assms(1) MAX_SECRET_BYTES_def list_ex_iff good_ids_def not_le)
qed

lemma webhook_rejects:
  assumes "validate_webhook_bytes bs = Inr u"
  obtains sf tok where "map unat bs = webhook_url sf tok" and "good_ids sf tok"
proof -
  obtain rest where r: "strip_prefix WEBHOOK_PREFIX (map unat bs) = Some rest"
    using assms by (auto simp: validate_webhook_bytes_def Let_def split: if_splits option.splits)
  have pieces: "(case split_str [47] rest of [sf, tok] \<Rightarrow> good_ids sf tok | _ \<Rightarrow> False)"
    using assms r by (auto simp: validate_webhook_bytes_def Let_def good_ids_def split: if_splits option.splits list.splits)
  then obtain sf tok where s: "split_str [47] rest = [sf, tok]" and ids: "good_ids sf tok"
    by (auto split: list.splits)
  have "rest = sf @ 47 # tok" using s by (simp add: two_pieces)
  moreover have "map unat bs = WEBHOOK_PREFIX @ rest"
    using r append_take_drop_id [of "length WEBHOOK_PREFIX" "map unat bs"] by (simp add: strip_prefix_def split: if_splits del: append_take_drop_id)
  ultimately show ?thesis using that [of sf tok] ids by (simp add: webhook_url_def)
qed

text \<open>The bytes accepted as a webhook secret are exactly the fixed prefix, a number of 17 to 20 digits, a
  slash and a token of 1 to 256 letters, digits, dots, dashes and underscores other than a relative path
  segment; and the address the client posts to is those bytes.\<close>

theorem webhook_grammar:
  "from_runtime_secret_bytes bs = Inr url
     \<longleftrightarrow> (\<exists>sf tok. bs = utf8 url \<and> url = webhook_url sf tok \<and> good_ids sf tok)"
proof
  assume h: "from_runtime_secret_bytes bs = Inr url"
  then obtain u where v: "validate_webhook_bytes bs = Inr u" and d: "decode_utf8 bs = Some url"
    by (auto simp: from_runtime_secret_bytes_def split: sum.splits option.splits)
  obtain sf tok where g: "map unat bs = webhook_url sf tok" "good_ids sf tok" by (rule webhook_rejects [OF v])
  have "bs = utf8 (webhook_url sf tok)" by (rule ascii_utf8 [OF g(1) good_url_chars [OF g(2)]])
  then show "\<exists>sf tok. bs = utf8 url \<and> url = webhook_url sf tok \<and> good_ids sf tok"
    using g d decode_good_url [OF g(2)] by auto
next
  assume "\<exists>sf tok. bs = utf8 url \<and> url = webhook_url sf tok \<and> good_ids sf tok"
  then obtain sf tok where g: "bs = utf8 url" "url = webhook_url sf tok" "good_ids sf tok" by blast
  have "map unat bs = webhook_url sf tok" using g utf8_webhook [OF good_url_chars [OF g(3)]] by simp
  then show "from_runtime_secret_bytes bs = Inr url"
    using webhook_accepts [OF _ g(3)] decode_good_url [OF g(3)] g(1,2) by (simp add: from_runtime_secret_bytes_def)
qed

section \<open>Witnesses\<close>

lemma one_post_reachable: "notifier_reachable (fst (try_send w idle_notifier))"
  unfolding notifier_reachable_def by (rule r_into_rtranclp) (rule notifier_step.offer)

theorem posts_in_order_witness:
  "nt_posts (worker_run (\<lambda>_ _. Accepted) 3 (fst (try_send \<lparr>nw_reports = [], omitted_reports = 3\<rparr> idle_notifier)))
     = posts_of \<lparr>nw_reports = [], omitted_reports = 3\<rparr>"
  using posts_in_order [OF one_post_reachable, of "\<lparr>nw_reports = [], omitted_reports = 3\<rparr>" "\<lambda>_ _. Accepted"]
  by (simp add: try_send_def idle_notifier_def NOTIFIER_QUEUE_CAPACITY_def numeral_3_eq_3)

theorem pass_digests_exact_witness:
  "\<exists>t po. run_pass sample_cfg (idle_view\<lparr>pv_wanted := None\<rparr>) one_services idle_tally (\<lambda>_. film_env) (\<lambda>_. film_state) {} [] (\<lambda>_. None) 0 = (t, Some po)
     \<and> views_of \<lparr>nw_reports = po_reports po, omitted_reports = po_omitted po\<rparr> = []"
proof -
  let ?v = "idle_view\<lparr>pv_wanted := None\<rparr>"
  have none: "pass_candidates sample_cfg ?v one_services {} [] = []"
    by (simp add: pass_candidates_def resolve_retries_def one_services_def discover_def idle_view_def excluded_ids_def
        parse_exclusions_def load_jsonl_def List.map_filter_simps with_retries_def Let_def)
  obtain t po where r: "run_pass sample_cfg ?v one_services idle_tally (\<lambda>_. film_env) (\<lambda>_. film_state) {} [] (\<lambda>_. None) 0 = (t, Some po)"
    and p: "po_reports po = []" "po_omitted po = 0"
    by (simp add: run_pass_def Let_def none capped_def episode_results_def start_tally_def from_reports_def)
  show ?thesis using pass_digests_exact [OF r] r by (auto simp: none p)
qed

end
