(* ===== verification/Api.thy ===== *)
theory Api
  imports Notifier
begin

text \<open>
  \<open>src/api.rs\<close>: the state the HTTP handlers share with the daemon and the handlers themselves, as
  functions from that state and a request to the new state, the status code and the JSON body. What the file
  system, the clock and the subtitle manager answer are parameters.
\<close>

section \<open>Paths\<close>

text \<open>\<open>Path::parent\<close>: the components before the last, without trailing slashes and dots.\<close>

function drop_tail :: "ustr \<Rightarrow> ustr" where
  "drop_tail r =
     (if r \<noteq> [] \<and> (hd r = 47 \<or> hd r = 46 \<and> tl r \<noteq> [] \<and> hd (tl r) = 47) then drop_tail (tl r) else r)"
  by pat_completeness auto
termination by (relation "measure size") (auto simp: neq_Nil_conv)

declare drop_tail.simps [simp del]

definition path_parent :: "ustr \<Rightarrow> ustr option" where
  "path_parent s =
     (let r = drop_tail (rev s) in
      if r = [] then None
      else let d = dropWhile (\<lambda>c. c \<noteq> 47) r in
        if d = [] then Some [] else if drop_tail d = [] then Some (lit ''/'') else Some (rev (drop_tail d)))"

section \<open>The shared state\<close>

record LastPass =
  lp_at :: "ustr option"
  lp_scanned :: nat
  lp_done :: nat
  lp_failed :: nat

text \<open>\<open>as_wake\<close> is the permit a notification leaves for the sleeping daemon; the files the handlers append to
  and the environment whose overrides file they write belong to the state.\<close>

record app_state =
  as_cfg :: config
  as_pool :: ProviderPool
  as_paused :: bool
  as_wake :: bool
  as_run_once :: bool
  as_started_at :: u64
  as_last_pass :: LastPass
  as_current :: "ustr option"
  as_wanted_cache :: "(u64 \<times> json) option"
  as_files :: jsonl_fs
  as_env :: config_env

definition app_new :: "config \<Rightarrow> ProviderPool \<Rightarrow> u64 \<Rightarrow> jsonl_fs \<Rightarrow> config_env \<Rightarrow> app_state" where
  "app_new cfg pool started fs env =
     \<lparr>as_cfg = cfg, as_pool = pool, as_paused = False, as_wake = False, as_run_once = False, as_started_at = started,
      as_last_pass = \<lparr>lp_at = None, lp_scanned = 0, lp_done = 0, lp_failed = 0\<rparr>, as_current = None,
      as_wanted_cache = None, as_files = fs, as_env = env\<rparr>"

type_synonym response = "nat \<times> json"

definition answer :: "(string \<times> json) list \<Rightarrow> response" where
  "answer kvs = (200, JObj (map (\<lambda>(k, v). (lit k, v)) kvs))"

definition refusal :: "nat \<Rightarrow> ustr \<Rightarrow> response" where
  "refusal code e = (code, JObj [(lit ''error'', JStr e)])"

abbreviation jnat :: "nat \<Rightarrow> json" where "jnat n \<equiv> JInt (int n)"

section \<open>Readiness\<close>

text \<open>What the file system shows: directories, the mount table, whether a directory can be listed and has an
  entry, whether the state directory and the probe file in it can be made.\<close>

record ready_view =
  rv_is_dir :: "ustr \<Rightarrow> bool"
  rv_mountinfo :: "ustr option"
  rv_has_entry :: "ustr \<Rightarrow> bool"
  rv_can_create :: "ustr \<Rightarrow> bool"
  rv_can_open :: "ustr \<Rightarrow> bool"
  rv_pid :: nat

definition is_mount_point :: "ready_view \<Rightarrow> ustr \<Rightarrow> bool" where
  "is_mount_point v path =
     (case rv_mountinfo v of None \<Rightarrow> False
      | Some mi \<Rightarrow> list_ex (\<lambda>l. let fields = split_str [sp] l in
          4 < length fields \<and> trim_end_matches 47 (fields ! 4) = trim_end_matches 47 path) (str_lines mi))"

definition media_present :: "ready_view \<Rightarrow> ustr \<Rightarrow> bool" where
  "media_present v pre \<longleftrightarrow> rv_is_dir v pre \<and> (is_mount_point v pre \<or> rv_has_entry v pre)"

definition state_dir_of :: "ustr \<Rightarrow> ustr" where
  "state_dir_of sfile = (case path_parent sfile of None \<Rightarrow> lit ''.'' | Some p \<Rightarrow> if p = [] then lit ''.'' else p)"

definition probe_name :: "nat \<Rightarrow> ustr" where
  "probe_name pid = lit ''.asrsub-ready-probe.'' @ dec pid"

definition state_dir_writable :: "ready_view \<Rightarrow> ustr \<Rightarrow> bool" where
  "state_dir_writable v sfile \<longleftrightarrow>
     rv_can_create v (state_dir_of sfile) \<and> rv_can_open v (path_join (state_dir_of sfile) (probe_name (rv_pid v)))"

text \<open>The probe is kept for 15 seconds of the monotonic clock, in nanoseconds.\<close>

definition PROBE_TTL :: nat where "PROBE_TTL = 15 * 10 ^ 9"

type_synonym probe_cache = "(nat \<times> bool) option"

definition state_dir_writable_cached :: "ready_view \<Rightarrow> ustr \<Rightarrow> nat \<Rightarrow> probe_cache \<Rightarrow> bool \<times> probe_cache" where
  "state_dir_writable_cached v sfile now cell =
     (case cell of
        Some (at', ok) \<Rightarrow> if now - at' < PROBE_TTL then (ok, cell)
          else (state_dir_writable v sfile, Some (now, state_dir_writable v sfile))
      | None \<Rightarrow> (state_dir_writable v sfile, Some (now, state_dir_writable v sfile)))"

record ProviderCounts =
  pc_llm :: nat
  pc_whisper :: nat
  pc_llm_keyed :: nat
  pc_whisper_keyed :: nat

definition counts_from_pool :: "environment \<Rightarrow> ProviderPool \<Rightarrow> ProviderCounts" where
  "counts_from_pool env pool =
     \<lparr>pc_llm = length (providers pool), pc_whisper = length (whisper pool), pc_llm_keyed = keyed_len env pool,
      pc_whisper_keyed = whisper_keyed_len env pool\<rparr>"

definition jobj :: "(string \<times> json) list \<Rightarrow> json" where
  "jobj kvs = JObj (map (\<lambda>(k, v). (lit k, v)) kvs)"

definition readiness ::
    "unicode_db \<Rightarrow> ready_view \<Rightarrow> nat \<Rightarrow> config \<Rightarrow> ProviderCounts \<Rightarrow> probe_cache \<Rightarrow> (bool \<times> json) \<times> probe_cache" where
  "readiness U v now cfg counts cell =
     (let media_ok = media_present v (cf_nas_media_prefix cfg);
          providers_ok = 0 < pc_llm_keyed counts \<and> 0 < pc_whisper_keyed counts
      in case state_dir_writable_cached v (cf_state_file cfg) now cell of (state_ok, cell') \<Rightarrow>
        (let ready = media_ok \<and> providers_ok \<and> state_ok;
             state_dir = (case path_parent (cf_state_file cfg) of None \<Rightarrow> [] | Some p \<Rightarrow> p);
             jellyfin_on = cf_jellyfin_url cfg \<noteq> [] \<and> cf_jellyfin_api_key cfg \<noteq> []
         in ((ready, jobj
             [(''checks'', jobj
                [(''media_root'', jobj [(''ok'', JBool media_ok), (''path'', JStr (mask_for_log U (cf_nas_media_prefix cfg)))]),
                 (''providers'', jobj [(''llm'', jnat (pc_llm counts)), (''llm_keyed'', jnat (pc_llm_keyed counts)),
                    (''ok'', JBool providers_ok), (''whisper'', jnat (pc_whisper counts)),
                    (''whisper_keyed'', jnat (pc_whisper_keyed counts))]),
                 (''state_dir'', jobj [(''ok'', JBool state_ok), (''path'', JStr (mask_for_log U state_dir))])]),
              (''integrations'', jobj
                [(''bazarr'', JBool (cf_bazarr_url cfg \<noteq> [])), (''jellyfin'', JBool jellyfin_on),
                 (''jellyfin_misconfigured'', JBool (cf_jellyfin_api_key cfg \<noteq> [] \<and> cf_jellyfin_url cfg = [])),
                 (''sonarr'', JBool (cf_sonarr_url cfg \<noteq> []))]),
              (''ready'', JBool ready)]), cell')))"

definition h_ready ::
    "unicode_db \<Rightarrow> environment \<Rightarrow> ready_view \<Rightarrow> nat \<Rightarrow> app_state \<Rightarrow> probe_cache \<Rightarrow> response \<times> probe_cache" where
  "h_ready U env v now s cell =
     (case readiness U v now (as_cfg s) (counts_from_pool env (as_pool s)) cell of
        ((ready, body), cell') \<Rightarrow> ((if ready then 200 else 503, body), cell'))"

section \<open>Status\<close>

definition h_health :: response where
  "h_health = answer [(''ok'', JBool True)]"

definition h_status :: "ready_view \<Rightarrow> u64 \<Rightarrow> app_state \<Rightarrow> response" where
  "h_status v now s = answer
     [(''current'', nullable_str (as_current s)),
      (''last_pass'', jobj [(''at'', nullable_str (lp_at (as_last_pass s))), (''done'', jnat (lp_done (as_last_pass s))),
         (''failed'', jnat (lp_failed (as_last_pass s))), (''scanned'', jnat (lp_scanned (as_last_pass s)))]),
      (''media_ok'', JBool (media_present v (cf_nas_media_prefix (as_cfg s)))),
      (''paused'', JBool (as_paused s)),
      (''run_once_requested'', JBool (as_run_once s)),
      (''started_at'', jnat (unat (as_started_at s))),
      (''uptime_s'', jnat (unat (sat_sub now (as_started_at s))))]"

definition h_api2_status :: "u64 \<Rightarrow> app_state \<Rightarrow> response" where
  "h_api2_status now s = answer
     [(''episode_concurrency'', jnat (cf_episode_concurrency (as_cfg s))),
      (''last_pass'', jobj [(''at'', nullable_str (lp_at (as_last_pass s))), (''done'', jnat (lp_done (as_last_pass s))),
         (''failed'', jnat (lp_failed (as_last_pass s))), (''scanned'', jnat (lp_scanned (as_last_pass s)))]),
      (''paused'', JBool (as_paused s)),
      (''providers'', jobj [(''llm'', jnat (length (providers (as_pool s)))), (''whisper_endpoints'', jnat (length (whisper (as_pool s))))]),
      (''reachable'', JBool True),
      (''target_langs'', JArr (map JStr (cf_target_langs (as_cfg s)))),
      (''uptime_s'', jnat (unat (sat_sub now (as_started_at s))))]"

section \<open>Settings\<close>

text \<open>\<open>h_config\<close>: the masked settings, as the sorted object of their keys.\<close>

definition h_config :: "unicode_db \<Rightarrow> (ustr \<Rightarrow> ustr) \<Rightarrow> app_state \<Rightarrow> settings" where
  "h_config U upper s = masked_view U upper (as_cfg s)"

definition setting_text :: "json_lib \<Rightarrow> json \<Rightarrow> ustr" where
  "setting_text lib v =
     (case v of
        JStr t \<Rightarrow> t
      | JBool b \<Rightarrow> lit (if b then ''true'' else ''false'')
      | JNull \<Rightarrow> []
      | other \<Rightarrow> print_json lib other)"

definition setting_refused :: "config_env \<Rightarrow> (ustr \<Rightarrow> f64 option) \<Rightarrow> ustr \<Rightarrow> json \<Rightarrow> ustr option" where
  "setting_refused env f64_of k v =
     (if is_reserved_key k then Some (lit ''DISCORD_WEBHOOK_URL is reserved'')
      else if \<not> is_editable_key k then Some (lit ''unknown or non-editable key: '' @ k)
      else if env_pinned env k then Some (k @ lit '' is set by the process environment (deployment), not by config; ''
        @ lit ''change it in the deployment environment instead'')
      else case value_requirement f64_of k (setting_text (ce_json env) v) of
        Some want \<Rightarrow> Some (k @ lit '' must be '' @ want)
      | None \<Rightarrow> None)"

fun setting_pairs :: "config_env \<Rightarrow> (ustr \<Rightarrow> f64 option) \<Rightarrow> (ustr \<times> json) list \<Rightarrow> ustr + (ustr \<times> ustr) list" where
  "setting_pairs env f64_of [] = Inr []"
| "setting_pairs env f64_of ((k, v) # kvs) =
     (case setting_refused env f64_of k v of
        Some e \<Rightarrow> Inl e
      | None \<Rightarrow> (case setting_pairs env f64_of kvs of
          Inl e \<Rightarrow> Inl e | Inr ps \<Rightarrow> Inr ((k, setting_text (ce_json env) v) # ps)))"

text \<open>\<open>works\<close> and \<open>err\<close>: whether the overrides file can be replaced, and the error when it cannot.\<close>

definition h_config_put :: "(ustr \<Rightarrow> f64 option) \<Rightarrow> bool \<Rightarrow> ustr \<Rightarrow> json \<Rightarrow> app_state \<Rightarrow> app_state \<times> response" where
  "h_config_put f64_of works err body s =
     (case body of
        JObj kvs \<Rightarrow>
          (case setting_pairs (as_env s) f64_of kvs of
             Inl e \<Rightarrow> (s, refusal 400 e)
           | Inr ps \<Rightarrow>
               (case write_overrides (as_env s) works ps of
                  (env', True) \<Rightarrow> (s\<lparr>as_env := env'\<rparr>,
                    answer [(''ok'', JBool True), (''restart_required'', JBool True), (''written'', jnat (length ps))])
                | (env', False) \<Rightarrow> (s\<lparr>as_env := env'\<rparr>, refusal 500 err)))
      | _ \<Rightarrow> (s, refusal 400 (lit ''body must be a JSON object'')))"

section \<open>What is wanted and what was done\<close>

text \<open>The counts per language, in the order of first appearance (the source's map prints them sorted).\<close>

definition lang_counts :: "RegistryRow list \<Rightarrow> (ustr \<times> nat) list" where
  "lang_counts rows =
     (let ls = map normalize_lang (List.map_filter rr_lang rows)
      in map (\<lambda>l. (l, count_list ls l)) (remdups ls))"

definition h_provenance :: "row_lib \<Rightarrow> app_state \<Rightarrow> response" where
  "h_provenance lib s =
     (let rows = load_jsonl (read_row lib) decode_registry_row (as_files s (cf_registry_file (as_cfg s)))
      in answer [(''by_lang'', JObj (map (\<lambda>(l, n). (l, jnat n)) (lang_counts rows))), (''rows'', jnat (length rows))])"

definition WANTED_TTL :: u64 where "WANTED_TTL = 10"

definition wanted_item_json :: "Candidate \<Rightarrow> json" where
  "wanted_item_json c = jobj
     [(''missing_subtitles'', JArr (map JStr (cd_missing c))), (''movie'', JBool (cd_is_movie c)),
      (''seriesTitle'', JStr (cd_series_title c)), (''sonarrEpisodeId'', JInt (cd_episode_id c))]"

definition fresh_wanted :: "config \<Rightarrow> pass_view \<Rightarrow> json" where
  "fresh_wanted cfg v =
     (let cands = discover cfg v {}
      in jobj [(''data'', JArr (map wanted_item_json cands)), (''total'', jnat (length cands))])"

definition wanted_payload :: "pass_view \<Rightarrow> u64 \<Rightarrow> app_state \<Rightarrow> app_state \<times> json" where
  "wanted_payload v now s =
     (case as_wanted_cache s of
        Some (at', j) \<Rightarrow> if sat_sub now at' < WANTED_TTL then (s, j)
          else (s\<lparr>as_wanted_cache := Some (now, fresh_wanted (as_cfg s) v)\<rparr>, fresh_wanted (as_cfg s) v)
      | None \<Rightarrow> (s\<lparr>as_wanted_cache := Some (now, fresh_wanted (as_cfg s) v)\<rparr>, fresh_wanted (as_cfg s) v))"

definition h_wanted :: "pass_view \<Rightarrow> u64 \<Rightarrow> app_state \<Rightarrow> app_state \<times> response" where
  "h_wanted v now s = (case wanted_payload v now s of (s', j) \<Rightarrow> (s', (200, j)))"

definition done_langs :: "StateEntry list \<Rightarrow> ustr \<Rightarrow> int \<Rightarrow> ustr list" where
  "done_langs rows kind i =
     List.map_filter (\<lambda>e. if se_status e = Some (lit ''done'') \<and> se_episode_id e = Some i
         \<and> (case se_kind e of Some k \<Rightarrow> k | None \<Rightarrow> lit ''series'') = kind
       then map_option normalize_lang (se_language e) else None) rows"

text \<open>Assigning to a key of an object: indexing anything else panics; the items of the wanted payload are objects.\<close>

fun set_member :: "ustr \<Rightarrow> json \<Rightarrow> json \<Rightarrow> json" where
  "set_member k v (JObj kvs) = JObj (AList.update k v kvs)"
| "set_member k v j = j"

definition library_item :: "StateEntry list \<Rightarrow> int set \<Rightarrow> json \<Rightarrow> json" where
  "library_item rows excluded it =
     (let i = (case Option.bind (json_get (lit ''sonarrEpisodeId'') it) as_i64 of Some n \<Rightarrow> n | None \<Rightarrow> -1);
          kind = lit (if Option.bind (json_get (lit ''movie'') it) as_bool = Some True then ''movie'' else ''series'')
      in set_member (lit ''done_languages'') (JArr (map JStr (done_langs rows kind i)))
          (set_member (lit ''excluded'') (JBool (i \<in> excluded)) (set_member (lit ''kind'') (JStr kind) it)))"

definition h_library :: "row_lib \<Rightarrow> pass_view \<Rightarrow> u64 \<Rightarrow> app_state \<Rightarrow> app_state \<times> response" where
  "h_library lib v now s =
     (case wanted_payload v now s of (s', wanted') \<Rightarrow>
        (let rows = load_jsonl (read_row lib) decode_state_entry (as_files s (cf_state_file (as_cfg s)));
             excluded = parse_exclusions (read_row lib) (as_files s (cf_exclusions_file (as_cfg s)));
             items = map (library_item rows excluded)
               (case Option.bind (json_get (lit ''data'') wanted') as_array of Some xs \<Rightarrow> xs | None \<Rightarrow> [])
         in (s', answer [(''data'', JArr items), (''total'', jnat (length items))])))"

definition activity_item :: "StateEntry \<Rightarrow> json" where
  "activity_item e =
     (let status = (case se_status e of Some t \<Rightarrow> t | None \<Rightarrow> []);
          detail = (case Option.bind (se_extra e (lit ''detail'')) as_str of
             Some d \<Rightarrow> if d \<noteq> [] then status @ lit '': '' @ d else status | None \<Rightarrow> status)
      in jobj [(''ai'', JBool (status = lit ''done'')), (''detail'', JStr detail),
          (''episode_id'', nullable_int (se_episode_id e)),
          (''kind'', JStr (lit (if se_kind e = Some (lit ''movie'') then ''movie'' else ''pipeline''))),
          (''language'', nullable_str (map_option normalize_lang (se_language e))), (''ts'', nullable_str (se_ts e))])"

definition activity_items :: "row_lib \<Rightarrow> nat \<Rightarrow> file_body option \<Rightarrow> json list" where
  "activity_items lib n f = map activity_item (take (max n 1) (rev (load_jsonl (read_row lib) decode_state_entry f)))"

definition h_activity :: "row_lib \<Rightarrow> app_state \<Rightarrow> response" where
  "h_activity lib s = answer [(''items'', JArr (activity_items lib 40 (as_files s (cf_state_file (as_cfg s)))))]"

text \<open>The ids come from a hash set: \<open>order\<close> is the order in which it is listed.\<close>

definition h_exclusions :: "row_lib \<Rightarrow> (int set \<Rightarrow> int list) \<Rightarrow> app_state \<Rightarrow> response" where
  "h_exclusions lib order s =
     answer [(''exclusions'', JArr (map JInt (order (parse_exclusions (read_row lib) (as_files s (cf_exclusions_file (as_cfg s)))))))]"

section \<open>Controls\<close>

definition h_pause :: "app_state \<Rightarrow> app_state \<times> response" where
  "h_pause s = (s\<lparr>as_paused := True\<rparr>, answer [(''ok'', JBool True), (''paused'', JBool True)])"

definition h_resume :: "app_state \<Rightarrow> app_state \<times> response" where
  "h_resume s = (s\<lparr>as_paused := False, as_wake := True\<rparr>, answer [(''ok'', JBool True), (''paused'', JBool False)])"

definition h_run_once :: "app_state \<Rightarrow> app_state \<times> response" where
  "h_run_once s = (s\<lparr>as_run_once := True, as_wake := True\<rparr>, answer [(''ok'', JBool True)])"

definition h_wake :: "app_state \<Rightarrow> app_state \<times> response" where
  "h_wake s = (s\<lparr>as_wake := True\<rparr>, answer [(''ok'', JBool True)])"

section \<open>Operator actions\<close>

text \<open>What an append meets: the time, how it ends, and the error it reports.\<close>

record api_io =
  io_now :: ustr
  io_append :: append_out
  io_rewrite :: bool
  io_error :: ustr

definition action_rec :: "ustr \<Rightarrow> ustr \<Rightarrow> int \<Rightarrow> ustr \<Rightarrow> ustr option \<Rightarrow> json" where
  "action_rec ts typ i kind lang = jobj
     [(''episode_id'', JInt i), (''kind'', JStr kind), (''language'', nullable_str (map_option normalize_lang lang)),
      (''note'', JStr []), (''source'', JStr (lit ''api'')), (''ts'', JStr ts), (''type'', JStr typ)]"

definition enqueue_action ::
    "row_lib \<Rightarrow> api_io \<Rightarrow> config \<Rightarrow> ustr \<Rightarrow> int \<Rightarrow> ustr \<Rightarrow> ustr option \<Rightarrow> jsonl_fs \<Rightarrow> jsonl_fs \<times> (ustr + unit)" where
  "enqueue_action lib io cfg typ i kind lang fs =
     (case append_jsonl (print_row lib) (io_append io) (cf_actions_file cfg) (action_rec (io_now io) typ i kind lang) fs of
        (fs', True) \<Rightarrow> (fs', Inr ())
      | (fs', False) \<Rightarrow> (fs', Inl (io_error io)))"

definition parse_episode_id :: "ustr \<Rightarrow> ustr + (int \<times> ustr)" where
  "parse_episode_id raw =
     (let lower = lowercase raw in
      case strip_prefix (lit ''m:'') lower of
        Some n \<Rightarrow> (case parse_i64 n of Some i \<Rightarrow> Inr (i, lit ''movie'') | None \<Rightarrow> Inl (lit ''bad episode id: '' @ raw))
      | None \<Rightarrow>
          (let digits = (case strip_prefix (lit ''e:'') lower of Some d \<Rightarrow> d | None \<Rightarrow> lower)
           in case parse_i64 digits of Some i \<Rightarrow> Inr (i, lit ''series'') | None \<Rightarrow> Inl (lit ''bad episode id: '' @ raw)))"

definition body_kind_lang :: "json option \<Rightarrow> ustr \<Rightarrow> ustr \<times> ustr option" where
  "body_kind_lang body path_kind =
     (let kind = map_option normalize_lang (Option.bind (Option.bind body (json_get (lit ''kind''))) as_str)
      in (case kind of Some k \<Rightarrow> if known_kind k then k else path_kind | None \<Rightarrow> path_kind,
          Option.bind (Option.bind body (json_get (lit ''language''))) as_str))"

definition id_action ::
    "row_lib \<Rightarrow> api_io \<Rightarrow> ustr \<Rightarrow> json option \<Rightarrow> ustr \<Rightarrow> bool \<Rightarrow> app_state \<Rightarrow> app_state \<times> response" where
  "id_action lib io raw body typ wake s =
     (case parse_episode_id raw of Inl e \<Rightarrow> (s, refusal 400 e)
      | Inr (i, path_kind) \<Rightarrow>
          (case body_kind_lang body path_kind of (kind, lang) \<Rightarrow>
            (case enqueue_action lib io (as_cfg s) typ i kind lang (as_files s) of
               (fs', Inl e) \<Rightarrow> (s\<lparr>as_files := fs'\<rparr>, refusal 500 e)
             | (fs', Inr _) \<Rightarrow>
                 (let s' = s\<lparr>as_files := fs'\<rparr>
                  in (if wake then s'\<lparr>as_wake := True\<rparr> else s', answer [(''ok'', JBool True)])))))"

definition h_retry :: "row_lib \<Rightarrow> api_io \<Rightarrow> ustr \<Rightarrow> json option \<Rightarrow> app_state \<Rightarrow> app_state \<times> response" where
  "h_retry lib io raw body s = id_action lib io raw body (lit ''retry'') True s"

definition h_skip :: "row_lib \<Rightarrow> api_io \<Rightarrow> ustr \<Rightarrow> app_state \<Rightarrow> app_state \<times> response" where
  "h_skip lib io raw s = id_action lib io raw None (lit ''skip'') False s"

definition h_delete :: "row_lib \<Rightarrow> api_io \<Rightarrow> ustr \<Rightarrow> json option \<Rightarrow> app_state \<Rightarrow> app_state \<times> response" where
  "h_delete lib io raw body s = id_action lib io raw body (lit ''delete'') True s"

section \<open>Exclusions\<close>

definition exclusion_rec :: "ustr \<Rightarrow> int \<Rightarrow> json" where
  "exclusion_rec ts i = jobj [(''episode_id'', JInt i), (''reason'', JStr (lit ''api'')), (''ts'', JStr ts)]"

definition h_exclude :: "row_lib \<Rightarrow> api_io \<Rightarrow> ustr \<Rightarrow> app_state \<Rightarrow> app_state \<times> response" where
  "h_exclude lib io raw s =
     (case parse_episode_id raw of Inl e \<Rightarrow> (s, refusal 400 e)
      | Inr (i, _) \<Rightarrow>
          (case append_jsonl (print_row lib) (io_append io) (cf_exclusions_file (as_cfg s)) (exclusion_rec (io_now io) i) (as_files s) of
             (fs', False) \<Rightarrow> (s\<lparr>as_files := fs'\<rparr>, refusal 500 (io_error io))
           | (fs', True) \<Rightarrow> (s\<lparr>as_files := fs'\<rparr>, answer [(''ok'', JBool True)])))"

text \<open>\<open>Excl\<close>: the id and everything else in the row.\<close>

type_synonym Excl = "int option \<times> extra_fields"

fun decode_excl :: "json \<Rightarrow> Excl option" where
  "decode_excl (JObj ms) =
     map_option (\<lambda>i. (i, flattened [lit ''episode_id''] ms)) (field_value opt_i64 [lit ''episode_id''] ms)"
| "decode_excl _ = None"

definition excl_json :: "(extra_fields \<Rightarrow> ustr list) \<Rightarrow> Excl \<Rightarrow> json" where
  "excl_json keys_of e = JObj ((lit ''episode_id'', nullable_int (fst e)) # extra_members keys_of (snd e))"

definition h_unexclude :: "row_lib \<Rightarrow> api_io \<Rightarrow> ustr \<Rightarrow> app_state \<Rightarrow> app_state \<times> response" where
  "h_unexclude lib io raw s =
     (case parse_episode_id raw of Inl e \<Rightarrow> (s, refusal 400 e)
      | Inr (i, _) \<Rightarrow>
          (let p = cf_exclusions_file (as_cfg s);
               kept = filter (\<lambda>e. fst e \<noteq> Some i) (load_jsonl (read_row lib) decode_excl (as_files s p))
           in case rewrite_jsonl (print_row lib) (io_rewrite io) p (map (excl_json (iteration lib)) kept) (as_files s) of
                (fs', False) \<Rightarrow> (s\<lparr>as_files := fs'\<rparr>, refusal 500 (io_error io))
              | (fs', True) \<Rightarrow> (s\<lparr>as_files := fs'\<rparr>, answer [(''ok'', JBool True)])))"

section \<open>Properties\<close>

lemma append_done: "append_jsonl pr out p v fs = (fs', True) \<Longrightarrow> out = AOk"
  by (auto simp: append_jsonl_def Let_def split: append_out.splits)

subsection \<open>Settings\<close>

lemma setting_pairs_Inr:
  "setting_pairs env f64_of kvs = Inr ps \<longleftrightarrow>
     list_all (\<lambda>(k, v). setting_refused env f64_of k v = None) kvs \<and> ps = map (\<lambda>(k, v). (k, setting_text (ce_json env) v)) kvs"
proof (induction kvs arbitrary: ps)
  case (Cons kv kvs)
  obtain k v where kv: "kv = (k, v)" by fastforce
  show ?case
  proof (cases "setting_pairs env f64_of kvs")
    case (Inl e)
    then show ?thesis using Cons.IH by (auto simp: kv split: option.splits)
  next
    case (Inr qs)
    then show ?thesis using Cons.IH [of qs] by (auto simp: kv split: option.splits)
  qed
qed auto

lemma map_of_rev_pairs:
  assumes "distinct (map fst kvs)"
  shows "map_of (rev (map (\<lambda>(k, v). (k, f v)) kvs)) k = map_option f (map_of kvs k)"
proof -
  have "distinct (map fst (map (\<lambda>(k, v). (k, f v)) kvs))" using assms by (simp add: comp_def case_prod_beta)
  then show ?thesis by (simp add: map_of_rev_distinct map_of_map)
qed

lemma accepted_not_reserved: "setting_refused env f64_of k v = None \<Longrightarrow> \<not> is_reserved_key k"
  by (auto simp: setting_refused_def split: if_splits)

text \<open>A request to change settings succeeds exactly when the file can be replaced and no key is refused;
  then every setting the process environment does not pin is loaded with the value of the request, or as before
  when the request does not name it. A request that fails changes nothing.\<close>

theorem config_put_effective:
  assumes "h_config_put f64_of works err (JObj kvs) s = (s', (code, reply'))"
    and "distinct (map fst kvs)" and "distinct (map fst (ce_vars (as_env s)))"
    and "\<And>ps. ps = map (\<lambda>(k, v). (k, setting_text (ce_json (as_env s)) v)) kvs \<Longrightarrow>
      parse_json (ce_json (as_env s)) (print_json (ce_json (as_env s)) (JObj (merged_overrides (as_env s) ps))) = Some (JObj (merged_overrides (as_env s) ps))"
    and "\<And>t m. parse_json (ce_json (as_env s)) t = Some (JObj m) \<Longrightarrow> distinct (map fst m)"
    and "\<not> env_pinned (as_env s) k"
  shows "(code = 200 \<longleftrightarrow> works \<and> list_all (\<lambda>(k, v). setting_refused (as_env s) f64_of k v = None) kvs)
    \<and> (if code = 200
       then raw_load (as_env s') k = first_some (map_option (setting_text (ce_json (as_env s))) (map_of kvs k)) (raw_load (as_env s) k)
       else as_env s' = as_env s)"
proof (cases "setting_pairs (as_env s) f64_of kvs")
  case (Inl e)
  moreover from Inl have "\<not> list_all (\<lambda>(k, v). setting_refused (as_env s) f64_of k v = None) kvs"
    using setting_pairs_Inr [of "as_env s" f64_of kvs] by fastforce
  ultimately show ?thesis using assms(1) by (auto simp: h_config_put_def refusal_def)
next
  case (Inr ps)
  then have ok: "list_all (\<lambda>(k, v). setting_refused (as_env s) f64_of k v = None) kvs"
    and ps: "ps = map (\<lambda>(k, v). (k, setting_text (ce_json (as_env s)) v)) kvs"
    by (simp_all add: setting_pairs_Inr)
  have free: "\<not> list_ex (\<lambda>(k, _). is_reserved_key k) ps"
    using ok accepted_not_reserved by (force simp: ps list_ex_iff list_all_iff)
  show ?thesis
  proof (cases works)
    case True
    obtain env' where w: "write_overrides (as_env s) True ps = (env', True)"
      using free by (auto simp: write_overrides_def)
    have "raw_load env' k = first_some (map_of (rev ps) k) (raw_load (as_env s) k)"
      using saved_setting_is_loaded [OF w assms(3) assms(4) [OF ps] assms(5,6)] by auto
    note loaded = this [unfolded ps map_of_rev_pairs [OF assms(2)]]
    show ?thesis using assms(1) Inr w True ok loaded by (auto simp: h_config_put_def answer_def)
  next
    case False
    then have "write_overrides (as_env s) works ps = (as_env s, False)" by (simp add: write_overrides_def)
    then show ?thesis using assms(1) Inr False by (auto simp: h_config_put_def refusal_def)
  qed
qed

subsection \<open>Actions\<close>

lemma api_kinds_normal [simp]: "normalize_lang (lit ''movie'') = lit ''movie''" "normalize_lang (lit ''series'') = lit ''series''"
  by (simp_all add: kinds_normal)

lemma known_kind_normal: "known_kind k \<Longrightarrow> normalize_lang k = k"
  by (auto simp: known_kind_def)

lemma parse_episode_id_kind: "parse_episode_id raw = Inr (i, k) \<Longrightarrow> known_kind k \<and> - (2 ^ 63) \<le> i \<and> i < 2 ^ 63"
  by (auto simp: parse_episode_id_def known_kind_def parse_i64_def Let_def split: option.splits if_splits list.splits)

lemma body_kind_known: "body_kind_lang body path_kind = (kind, lang) \<Longrightarrow> known_kind path_kind \<Longrightarrow> known_kind kind"
  by (auto simp: body_kind_lang_def Let_def split: option.splits if_splits)

definition api_action :: "ustr \<Rightarrow> ustr \<Rightarrow> int \<Rightarrow> ustr \<Rightarrow> ustr option \<Rightarrow> ActionRecord" where
  "api_action ts typ i kind lang =
     \<lparr>ac_ts = Some ts, ac_type = Some typ, ac_episode_id = Some i, ac_language = map_option normalize_lang lang,
      ac_kind = Some kind, ac_source = Some (lit ''api''), ac_note = Some []\<rparr>"

lemma decode_action_rec:
  "- (2 ^ 63) \<le> i \<Longrightarrow> i < 2 ^ 63 \<Longrightarrow> decode_action (action_rec ts typ i kind lang) = Some (api_action ts typ i kind lang)"
  by (simp add: action_rec_def jobj_def api_action_def str_field_def field_value_walk field_value_absent)

text \<open>The scopes an action adds to the batch of a pass.\<close>

lemma scan_actions_last: "scan_actions (rs @ [a]) = scan_action (scan_actions rs) a"
  by (simp add: scan_actions_def)

definition asked_lang :: "ustr option \<Rightarrow> ustr option" where
  "asked_lang lang = (case lang of None \<Rightarrow> None | Some l \<Rightarrow> if normalize_lang l = [] then None else Some (normalize_lang l))"

definition acts_on :: "batch \<Rightarrow> ustr \<Rightarrow> int \<Rightarrow> ustr \<Rightarrow> ustr option \<Rightarrow> bool" where
  "acts_on b typ i kind lang \<longleftrightarrow>
     (if typ = lit ''skip'' then i \<in> set (ba_skip b)
      else case map_of (if typ = lit ''retry'' then ba_retry b else ba_delete b) i of
        Some (kinds, langs) \<Rightarrow> kind \<in> set kinds \<and> lang \<in> set langs | None \<Rightarrow> False)"

lemma api_action_acts:
  assumes "known_kind kind" and "typ \<in> {lit ''skip'', lit ''retry'', lit ''delete''}"
  shows "acts_on (scan_actions (rs @ [api_action ts typ i kind lang])) typ i kind (asked_lang lang)"
proof -
  have k: "action_kind (api_action ts ty i kind lang) = kind" for ty
    using known_kind_normal [OF assms(1)] by (simp add: action_kind_def api_action_def)
  have l: "action_lang (api_action ts ty i kind lang) = asked_lang lang" for ty
    by (simp add: action_lang_def api_action_def asked_lang_def split: option.split)
  have t: "ac_episode_id (api_action ts ty i kind lang) = Some i" "ac_type (api_action ts ty i kind lang) = Some ty" for ty
    by (simp_all add: api_action_def)
  show ?thesis
    using assms(2)
    by (auto simp: scan_actions_last scan_action_def t k l assms(1) acts_on_def add_scope_def update_conv' split: option.split prod.split)
qed

text \<open>C27: an action the API has accepted is delivered to the next drain after everything that waited, as
  the id, the kind, the language and the type that were asked, and the pass that drains it acts on it: a known
  kind, the id among the skipped or in the scope of the retries or deletions with that kind and
  language.\<close>

theorem accepted_action_acts:
  assumes "id_action lib io raw body typ wake s = (s', (200, reply'))"
    and "typ \<in> {lit ''skip'', lit ''retry'', lit ''delete''}" and "whole_lines (as_files s (cf_actions_file (as_cfg s)))"
    and "\<And>i kind lang. prints_back lib (action_rec (io_now io) typ i kind lang)
       \<or> \<not> (\<exists>pk. parse_episode_id raw = Inr (i, pk) \<and> body_kind_lang body pk = (kind, lang))"
  shows "\<exists>i pk kind lang fs. parse_episode_id raw = Inr (i, pk) \<and> body_kind_lang body pk = (kind, lang)
    \<and> consume_actions (read_row lib) \<lparr>lock_taken = True, emptied = True\<rparr> (cf_actions_file (as_cfg s)) (as_files s')
        = (fs, waiting lib (as_files s (cf_actions_file (as_cfg s))) @ [api_action (io_now io) typ i kind lang])
    \<and> known_kind kind
    \<and> acts_on (scan_actions (waiting lib (as_files s (cf_actions_file (as_cfg s))) @ [api_action (io_now io) typ i kind lang])) typ i kind (asked_lang lang)"
proof -
  let ?p = "cf_actions_file (as_cfg s)"
  obtain i pk kind lang fs' where parts: "parse_episode_id raw = Inr (i, pk)" "body_kind_lang body pk = (kind, lang)"
    and app: "append_jsonl (print_row lib) (io_append io) ?p (action_rec (io_now io) typ i kind lang) (as_files s) = (fs', True)"
    and s': "as_files s' = fs'"
    using assms(1) by (auto simp: id_action_def refusal_def enqueue_action_def Let_def split: sum.splits prod.splits bool.splits if_splits)
  note range = parse_episode_id_kind [OF parts(1)]
  have known: "known_kind kind" using body_kind_known [OF parts(2)] range by simp
  have "waiting lib (fs' ?p) = waiting lib (as_files s ?p) @ [api_action (io_now io) typ i kind lang] \<and> whole_lines (fs' ?p)"
    unfolding waiting_def
    by (rule append_decoded [where decode = decode_action, OF _ _ _ assms(3) app])
      (use append_done [OF app] range assms(4) [of i kind lang] parts in \<open>auto simp: decode_action_rec\<close>)
  then have "snd (consume_actions (read_row lib) \<lparr>lock_taken = True, emptied = True\<rparr> ?p (as_files s'))
      = waiting lib (as_files s ?p) @ [api_action (io_now io) typ i kind lang]"
    by (auto simp: s' consume_actions_def waiting_def Let_def)
  then show ?thesis using parts known api_action_acts [OF known assms(2)] by (metis prod.collapse)
qed

subsection \<open>Exclusions\<close>

definition excl_rows :: "row_lib \<Rightarrow> file_body option \<Rightarrow> Excl list" where
  "excl_rows lib f = load_jsonl (read_row lib) decode_excl f"

text \<open>What the daemon reads as excluded: the ids of the rows that are objects, if no row is an array.\<close>

definition excl_ids :: "Excl list \<Rightarrow> int set" where
  "excl_ids rows = set (List.map_filter fst rows)"

definition excl_ok :: "row_lib \<Rightarrow> Excl \<Rightarrow> bool" where
  "excl_ok lib e \<longleftrightarrow> i64_range (fst e) \<and> snd e (lit ''episode_id'') = None \<and> iterates (iteration lib) (snd e)
     \<and> prints_back lib (excl_json (iteration lib) e)"

lemma decode_exclusion_object: "decode_excl v = Some e \<Longrightarrow> decode_exclusion v = Some (fst e)"
  by (cases v rule: decode_excl.cases) auto

lemma excl_again: "excl_ok lib e \<Longrightarrow> decode_excl (excl_json (iteration lib) e) = Some e"
proof -
  assume ok: "excl_ok lib e"
  let ?ex = "extra_members (iteration lib) (snd e)"
  have it: "iterates (iteration lib) (snd e)" and fresh: "snd e (lit ''episode_id'') = None" "i64_range (fst e)"
    using ok by (simp_all add: excl_ok_def)
  have "lit ''episode_id'' \<notin> fst ` set ?ex" using fresh by (auto simp: extra_members_keys [OF it])
  moreover have "flattened [lit ''episode_id''] ([(lit ''episode_id'', nullable_int (fst e))] @ ?ex) = snd e"
    using it fresh by (intro flattened_extra) auto
  ultimately show ?thesis using fresh by (simp add: excl_json_def field_value_walk)
qed

lemma excl_rows_printed:
  assumes "\<forall>e \<in> set es. excl_ok lib e"
  shows "excl_rows lib (Some (Utf8 (concat (map (\<lambda>v. print_row lib v @ [nl]) (map (excl_json (iteration lib)) es))))) = es"
proof -
  have again: "decode_excl (excl_json (iteration lib) e) = Some e" if "e \<in> set es" for e using that assms excl_again by auto
  have "map (\<lambda>v. the (decode_excl v)) (map (excl_json (iteration lib)) es) = es"
    unfolding map_map by (rule map_idI) (simp add: again)
  moreover have "\<forall>v \<in> set (map (excl_json (iteration lib)) es). prints_back lib v \<and> decode_excl v \<noteq> None"
    using assms again by (auto simp: excl_ok_def)
  ultimately show ?thesis unfolding excl_rows_def by (simp only: load_printed_rows)
qed

lemma excl_ids_map: "set (List.map_filter id (map fst es)) = set (List.map_filter fst es)"
  by (induction es) (simp_all add: List.map_filter_simps split: option.split)

lemma exclusions_printed:
  assumes "\<forall>e \<in> set es. excl_ok lib e"
  shows "parse_exclusions (read_row lib) (Some (Utf8 (concat (map (\<lambda>v. print_row lib v @ [nl]) (map (excl_json (iteration lib)) es))))) = excl_ids es"
proof -
  have again: "decode_exclusion (excl_json (iteration lib) e) = Some (fst e)" if "e \<in> set es" for e
    using that assms excl_again decode_exclusion_object by blast
  have "map (\<lambda>v. the (decode_exclusion v)) (map (excl_json (iteration lib)) es) = map fst es"
    unfolding map_map by (simp add: again)
  moreover have "\<forall>v \<in> set (map (excl_json (iteration lib)) es). prints_back lib v \<and> decode_exclusion v \<noteq> None"
    using assms again by (auto simp: excl_ok_def)
  ultimately have "load_jsonl (read_row lib) decode_exclusion (Some (Utf8 (concat (map (\<lambda>v. print_row lib v @ [nl]) (map (excl_json (iteration lib)) es))))) = map fst es"
    by (simp only: load_printed_rows)
  then show ?thesis by (simp only: parse_exclusions_def excl_ids_def excl_ids_map)
qed

lemma exclusion_rec_decodes:
  "- (2 ^ 63) \<le> i \<Longrightarrow> i < 2 ^ 63 \<Longrightarrow> decode_exclusion (exclusion_rec ts i) = Some (Some i)"
  by (simp add: exclusion_rec_def jobj_def field_value_walk field_value_absent)

lemma excl_rows_no_id: "excl_ids (filter (\<lambda>e. fst e \<noteq> Some i) rows) = excl_ids rows - {i}"
  by (auto simp: excl_ids_def map_filter_def)

text \<open>C33: excluding an id over the API adds exactly that id to what the daemon excludes; taking the
  exclusion back leaves exactly the other ids of the rows that are objects, provided those rows print and read
  back. The kind in the id is not kept: taking back a movie's exclusion also takes back the episode's with the
  same number.\<close>

theorem exclusion_toggles:
  assumes "parse_episode_id raw = Inr (i, kind)"
  shows "(h_exclude lib io raw s = (s', (200, reply')) \<and> whole_lines (as_files s (cf_exclusions_file (as_cfg s)))
        \<and> prints_back lib (exclusion_rec (io_now io) i)
      \<longrightarrow> parse_exclusions (read_row lib) (as_files s' (cf_exclusions_file (as_cfg s)))
          = insert i (parse_exclusions (read_row lib) (as_files s (cf_exclusions_file (as_cfg s)))))
    \<and> (h_unexclude lib io raw s = (s', (200, reply'))
        \<and> (\<forall>e \<in> set (excl_rows lib (as_files s (cf_exclusions_file (as_cfg s)))). fst e \<noteq> Some i \<longrightarrow> excl_ok lib e)
      \<longrightarrow> parse_exclusions (read_row lib) (as_files s' (cf_exclusions_file (as_cfg s)))
          = excl_ids (excl_rows lib (as_files s (cf_exclusions_file (as_cfg s)))) - {i})"
proof (intro conjI impI; elim conjE)
  let ?p = "cf_exclusions_file (as_cfg s)"
  note range = parse_episode_id_kind [OF assms]
  assume h: "h_exclude lib io raw s = (s', (200, reply'))" "whole_lines (as_files s ?p)" "prints_back lib (exclusion_rec (io_now io) i)"
  then obtain fs' where app: "append_jsonl (print_row lib) (io_append io) ?p (exclusion_rec (io_now io) i) (as_files s) = (fs', True)"
    and s': "as_files s' = fs'"
    by (cases "append_jsonl (print_row lib) (io_append io) ?p (exclusion_rec (io_now io) i) (as_files s)")
      (auto simp: h_exclude_def assms refusal_def split: bool.splits)
  have "load_jsonl (read_row lib) decode_exclusion (fs' ?p) = load_jsonl (read_row lib) decode_exclusion (as_files s ?p) @ [Some i]
      \<and> whole_lines (fs' ?p)"
    by (rule append_decoded [where decode = decode_exclusion, OF _ _ h(3,2) app])
      (use append_done [OF app] range in \<open>auto simp: exclusion_rec_decodes\<close>)
  then show "parse_exclusions (read_row lib) (as_files s' ?p) = insert i (parse_exclusions (read_row lib) (as_files s ?p))"
    by (simp add: s' parse_exclusions_def map_filter_def)
next
  let ?p = "cf_exclusions_file (as_cfg s)"
  let ?kept = "filter (\<lambda>e. fst e \<noteq> Some i) (excl_rows lib (as_files s ?p))"
  assume h: "h_unexclude lib io raw s = (s', (200, reply'))" "\<forall>e \<in> set (excl_rows lib (as_files s ?p)). fst e \<noteq> Some i \<longrightarrow> excl_ok lib e"
  then have "as_files s' ?p = Some (Utf8 (concat (map (\<lambda>v. print_row lib v @ [nl]) (map (excl_json (iteration lib)) ?kept))))"
    by (cases "io_rewrite io") (auto simp: h_unexclude_def assms refusal_def rewrite_jsonl_def excl_rows_def Let_def)
  then show "parse_exclusions (read_row lib) (as_files s' ?p) = excl_ids (excl_rows lib (as_files s ?p)) - {i}"
    using exclusions_printed [of ?kept lib] h(2) by (simp add: excl_rows_no_id)
qed

subsection \<open>The cached list\<close>

fun polls :: "app_state \<Rightarrow> (pass_view \<times> u64) list \<Rightarrow> json list" where
  "polls s [] = []"
| "polls s ((v, now) # ps) = (case wanted_payload v now s of (s', j) \<Rightarrow> j # polls s' ps)"

definition cache_from :: "(pass_view \<times> u64) list \<Rightarrow> app_state \<Rightarrow> bool" where
  "cache_from hist s \<longleftrightarrow>
     (case as_wanted_cache s of None \<Rightarrow> True | Some (t, j) \<Rightarrow> \<exists>v. (v, t) \<in> set hist \<and> j = fresh_wanted (as_cfg s) v)"

lemma fresh_by_clock: "sat_sub now at' < WANTED_TTL \<Longrightarrow> unat now < unat at' + 10"
  by (auto simp: sat_sub_def WANTED_TTL_def word_less_nat_alt word_le_nat_alt unat_sub split: if_splits)

lemma wanted_payload_step:
  assumes "wanted_payload v now s = (s', j)" and "cache_from hist s"
  shows "cache_from (hist @ [(v, now)]) s' \<and> as_cfg s' = as_cfg s
    \<and> (\<exists>v' t. (v', t) \<in> set (hist @ [(v, now)]) \<and> j = fresh_wanted (as_cfg s) v' \<and> unat now < unat t + 10)"
proof -
  have new: "\<exists>v' t. (v', t) \<in> set (hist @ [(v, now)]) \<and> fresh_wanted (as_cfg s) v = fresh_wanted (as_cfg s) v' \<and> unat now < unat t + 10"
    by (intro exI [of _ v] exI [of _ now]) simp
  have cached: "cache_from (hist @ [(v, now)]) (s\<lparr>as_wanted_cache := Some (now, fresh_wanted (as_cfg s) v)\<rparr>)"
    by (auto simp: cache_from_def)
  have renewed: ?thesis if "s' = s\<lparr>as_wanted_cache := Some (now, fresh_wanted (as_cfg s) v)\<rparr>" "j = fresh_wanted (as_cfg s) v"
    unfolding that using cached new by simp
  show ?thesis
  proof (cases "as_wanted_cache s")
    case None
    then show ?thesis using assms(1) by (intro renewed) (auto simp: wanted_payload_def)
  next
    case (Some c)
    obtain t j0 where c: "c = (t, j0)" by fastforce
    then obtain v0 where v0: "(v0, t) \<in> set hist" "j0 = fresh_wanted (as_cfg s) v0"
      using assms(2) Some by (auto simp: cache_from_def)
    show ?thesis
    proof (cases "sat_sub now t < WANTED_TTL")
      case True
      then have "s' = s" "j = j0" using assms(1) Some c by (simp_all add: wanted_payload_def)
      then show ?thesis using fresh_by_clock [OF True] v0 Some c by (auto simp: cache_from_def)
    next
      case False
      then show ?thesis using assms(1) Some c by (intro renewed) (auto simp: wanted_payload_def)
    qed
  qed
qed

lemma polls_from:
  "cache_from hist s \<Longrightarrow> k < length ps \<Longrightarrow>
     \<exists>v t. (v, t) \<in> set (hist @ take (Suc k) ps) \<and> polls s ps ! k = fresh_wanted (as_cfg s) v \<and> unat (snd (ps ! k)) < unat t + 10"
proof (induction ps arbitrary: s hist k)
  case (Cons p ps)
  obtain v now where p: "p = (v, now)" by fastforce
  obtain s' j where w: "wanted_payload v now s = (s', j)" by fastforce
  note step = wanted_payload_step [OF w Cons.prems(1)]
  show ?case
  proof (cases k)
    case 0
    then show ?thesis using step by (auto simp: p w)
  next
    case (Suc m)
    then show ?thesis using Cons.IH [of "hist @ [(v, now)]" s' m] Cons.prems(2) step by (auto simp: p w)
  qed
qed simp

text \<open>Every list of wanted items the API serves is what discovery found at one of the polls up to then,
  and less than ten seconds earlier by the clock. (A clock that is set back makes the list that much
  older.)\<close>

theorem wanted_not_stale:
  assumes "as_wanted_cache s = None" and "k < length ps"
  shows "\<exists>v t. (v, t) \<in> set (take (Suc k) ps) \<and> polls s ps ! k = fresh_wanted (as_cfg s) v
    \<and> unat (snd (ps ! k)) < unat t + 10"
  using polls_from [of "[]" s k ps] assms by (simp add: cache_from_def)

subsection \<open>Readiness\<close>

lemma keyed_len_pos: "0 < keyed_len env pool \<longleftrightarrow> (\<exists>p \<in> set (providers pool). api_key env p \<noteq> [])"
  by (auto simp: keyed_len_def filter_empty_conv)

lemma whisper_keyed_len_pos: "0 < whisper_keyed_len env pool \<longleftrightarrow> (\<exists>p \<in> set (whisper pool). whisper_api_key env p \<noteq> [])"
  by (auto simp: whisper_keyed_len_def filter_empty_conv)

text \<open>The service says it is ready exactly when the media root is a directory that is mounted or not empty, some
  translation model and some speech model have a key, and the state directory could be written now or at a
  probe less than 15 seconds ago; whatever the other services do.\<close>

theorem ready_exact:
  "fst (fst (h_ready U env v now s cell)) = (if media_present v (cf_nas_media_prefix (as_cfg s))
      \<and> list_ex (\<lambda>p. api_key env p \<noteq> []) (providers (as_pool s)) \<and> list_ex (\<lambda>p. whisper_api_key env p \<noteq> []) (whisper (as_pool s))
      \<and> (case cell of Some (t, ok) \<Rightarrow> if now < t + 15 * 10 ^ 9 then ok else state_dir_writable v (cf_state_file (as_cfg s))
         | None \<Rightarrow> state_dir_writable v (cf_state_file (as_cfg s)))
    then 200 else 503)"
proof -
  have ttl: "now - t < PROBE_TTL \<longleftrightarrow> now < t + 15 * 10 ^ 9" for t by (auto simp: PROBE_TTL_def)
  show ?thesis
    by (cases cell)
      (auto simp: h_ready_def readiness_def state_dir_writable_cached_def Let_def counts_from_pool_def keyed_len_pos whisper_keyed_len_pos
        list_ex_iff ttl split: prod.splits)
qed

subsection \<open>Episode ids\<close>

lemma lower_ascii_plain: "c < 128 \<Longrightarrow> \<not> is_ascii_upper c \<Longrightarrow> lower_char c = [c]"
  by (auto simp: lower_char_def ascii_class_defs ascii_lower_def)

lemma lowercase_dec_int [simp]: "lowercase (dec_int i) = dec_int i"
proof -
  have "lowercase s = s" if "\<forall>c \<in> set s. is_ascii_digit c \<or> c = 45" for s
    using that
  proof (induction s)
    case (Cons c s)
    then have "c < 128 \<and> \<not> is_ascii_upper c" by (auto simp: ascii_class_defs)
    then show ?case using Cons lower_ascii_plain [of c] by (auto simp: lowercase_def)
  qed (simp add: lowercase_def)
  moreover have "\<forall>c \<in> set (dec_int i). is_ascii_digit c \<or> c = 45" using dec_digits by (auto simp: dec_int_def)
  ultimately show ?thesis by blast
qed

lemma dec_no_sign: "dec n = c # ds \<Longrightarrow> c \<noteq> 45 \<and> c \<noteq> 43"
  using dec_digits [of n] by (auto simp: ascii_class_defs)

lemma parse_i64_dec_int [simp]: "- (2 ^ 63) \<le> i \<Longrightarrow> i < 2 ^ 63 \<Longrightarrow> parse_i64 (dec_int i) = Some i"
proof (cases "i < 0")
  case True
  assume "- (2 ^ 63) \<le> i"
  with True show ?thesis by (simp add: parse_i64_def dec_int_def)
next
  case False
  assume i: "i < 2 ^ 63"
  obtain c ds where d: "dec (nat i) = c # ds" using dec_nonempty [of "nat i"] by (cases "dec (nat i)") auto
  then have "digits_val 0 (c # ds) = Some (nat i)" by (metis digits_val_dec)
  then show ?thesis using False i d dec_no_sign [OF d] by (simp add: parse_i64_def dec_int_def Let_def del: digits_val.simps)
qed

lemma parse_movie_id: "- (2 ^ 63) \<le> i \<Longrightarrow> i < 2 ^ 63 \<Longrightarrow> parse_episode_id (lit ''m:'' @ dec_int i) = Inr (i, lit ''movie'')"
proof -
  assume i: "- (2 ^ 63) \<le> i" "i < 2 ^ 63"
  have "lowercase (lit ''m:'' @ s) = lit ''m:'' @ lowercase s" for s
    by (simp add: lowercase_def lit_eval lower_char_def ascii_lower_def ascii_class_defs)
  then show ?thesis using i by (simp add: parse_episode_id_def Let_def) (simp add: strip_prefix_def lit_eval)
qed

text \<open>The ids the dashboard writes, \<open>m:\<close> before a movie's number and \<open>e:\<close> or nothing before an
  episode's, are read back as the same number and kind, for every 64-bit number.\<close>

theorem episode_id_roundtrip:
  assumes "- (2 ^ 63) \<le> i" and "i < 2 ^ 63"
  shows "parse_episode_id (lit ''m:'' @ dec_int i) = Inr (i, lit ''movie'')
    \<and> parse_episode_id (lit ''e:'' @ dec_int i) = Inr (i, lit ''series'')
    \<and> parse_episode_id (dec_int i) = Inr (i, lit ''series'')"
proof -
  have low: "lowercase (lit ''e:'' @ s) = lit ''e:'' @ lowercase s" for s
    by (simp add: lowercase_def lit_eval lower_char_def ascii_lower_def ascii_class_defs)
  have plain: "strip_prefix (lit ''m:'') (dec_int i) = None" "strip_prefix (lit ''e:'') (dec_int i) = None"
  proof -
    have "hd (dec_int i) \<noteq> 109 \<and> hd (dec_int i) \<noteq> 101 \<and> dec_int i \<noteq> []"
      using dec_digits [of "nat i"] dec_nonempty [of "nat i"] by (cases "dec (nat i)") (auto simp: dec_int_def ascii_class_defs)
    then show "strip_prefix (lit ''m:'') (dec_int i) = None" "strip_prefix (lit ''e:'') (dec_int i) = None"
      by (cases "dec_int i"; simp add: strip_prefix_def lit_eval)+
  qed
  show ?thesis using assms by (simp add: parse_movie_id) (simp add: parse_episode_id_def low plain Let_def, simp add: strip_prefix_def lit_eval)
qed

section \<open>Witnesses\<close>

definition plain_app :: app_state where
  "plain_app = app_new sample_cfg \<lparr>providers = [], health = [], whisper = [], whisper_health = [],
     llm_timeouts = timeouts_from_env no_env, llm_permits = 4, whisper_permits = 4\<rparr> 0 (\<lambda>_. None) plain_env"

text \<open>A library that prints one value.\<close>

definition one_text :: "json \<Rightarrow> row_lib" where
  "one_text v = two_texts v v"

lemma one_text_prints: "prints_back (one_text v) v"
  by (simp add: one_text_def two_texts_print)

definition ok_io :: api_io where
  "ok_io = \<lparr>io_now = [], io_append = AOk, io_rewrite = True, io_error = []\<rparr>"

lemma parse_7: "parse_episode_id (lit ''m:7'') = Inr (7, lit ''movie'')"
proof -
  have "lit ''m:7'' = lit ''m:'' @ dec_int 7" by (simp add: dec_int_def lit_eval dec.simps)
  then show ?thesis using parse_movie_id [of 7] by simp
qed

lemma body_none: "body_kind_lang None k = (k, None)"
  by (simp add: body_kind_lang_def)

theorem accepted_action_acts_witness:
  "\<exists>s' fs. id_action (one_text (action_rec [] (lit ''retry'') 7 (lit ''movie'') None)) ok_io (lit ''m:7'') None (lit ''retry'') True plain_app
        = (s', answer [(''ok'', JBool True)])
    \<and> consume_actions (read_row (one_text (action_rec [] (lit ''retry'') 7 (lit ''movie'') None))) \<lparr>lock_taken = True, emptied = True\<rparr>
        (cf_actions_file sample_cfg) (as_files s') = (fs, [api_action [] (lit ''retry'') 7 (lit ''movie'') None])"
proof -
  let ?lib = "one_text (action_rec [] (lit ''retry'') 7 (lit ''movie'') None)"
  obtain s' j where r: "id_action ?lib ok_io (lit ''m:7'') None (lit ''retry'') True plain_app = (s', (200, j))" and j: "(200, j) = answer [(''ok'', JBool True)]"
    by (simp add: id_action_def parse_7 body_none enqueue_action_def ok_io_def append_jsonl_def Let_def answer_def)
  have p: "as_cfg plain_app = sample_cfg" "as_files plain_app = (\<lambda>_. None)" by (simp_all add: plain_app_def app_new_def)
  have w: "whole_lines (as_files plain_app (cf_actions_file (as_cfg plain_app)))" by (simp add: p whole_lines_def)
  have pr: "prints_back ?lib (action_rec (io_now ok_io) (lit ''retry'') i kind lang)
       \<or> \<not> (\<exists>pk. parse_episode_id (lit ''m:7'') = Inr (i, pk) \<and> body_kind_lang None pk = (kind, lang))" for i kind lang
    using one_text_prints by (auto simp: parse_7 body_none ok_io_def)
  show ?thesis using accepted_action_acts [OF r _ w pr] r j
    by (auto simp: parse_7 body_none p ok_io_def waiting_def load_jsonl_def)
qed

theorem exclusion_toggles_witness:
  "\<exists>s'. h_exclude (one_text (exclusion_rec [] 7)) ok_io (lit ''m:7'') plain_app = (s', answer [(''ok'', JBool True)])
    \<and> parse_exclusions (read_row (one_text (exclusion_rec [] 7))) (as_files s' (cf_exclusions_file sample_cfg)) = {7}"
proof -
  let ?lib = "one_text (exclusion_rec [] 7)"
  obtain s' j where r: "h_exclude ?lib ok_io (lit ''m:7'') plain_app = (s', (200, j))" and j: "(200, j) = answer [(''ok'', JBool True)]"
    by (simp add: h_exclude_def parse_7 ok_io_def append_jsonl_def Let_def answer_def)
  have p: "as_cfg plain_app = sample_cfg" "as_files plain_app = (\<lambda>_. None)" by (simp_all add: plain_app_def app_new_def)
  show ?thesis
    using exclusion_toggles [OF parse_7, of ?lib ok_io plain_app s' j] r j one_text_prints [of "exclusion_rec [] 7"]
    by (auto simp: p whole_lines_def ok_io_def parse_exclusions_def load_jsonl_def List.map_filter_simps)
qed

theorem wanted_not_stale_witness:
  "\<exists>v t. (v, t) \<in> {(idle_view, 100 :: u64), (idle_view, 105)} \<and> polls plain_app [(idle_view, 100), (idle_view, 105)] ! 1 = fresh_wanted sample_cfg v
     \<and> (105 :: nat) < unat t + 10"
proof -
  have "as_wanted_cache plain_app = None" "as_cfg plain_app = sample_cfg" by (simp_all add: plain_app_def app_new_def)
  then show ?thesis using wanted_not_stale [of plain_app 1 "[(idle_view, 100), (idle_view, 105)]"] by fastforce
qed

theorem episode_id_roundtrip_witness:
  "parse_episode_id (lit ''m:'' @ dec_int 42) = Inr (42, lit ''movie'')"
  using episode_id_roundtrip [of 42] by simp

definition url_json :: json_lib where
  "url_json = \<lparr>parse_json = (\<lambda>s. if s = lit ''j'' then Some (JObj [(lit ''SONARR_URL'', JStr (lit ''u''))]) else None),
     print_json = (\<lambda>_. lit ''j'')\<rparr>"

definition url_env :: config_env where
  "url_env = \<lparr>ce_vars = [], ce_file = (\<lambda>_. None), ce_json = url_json\<rparr>"

lemma url_accepted: "setting_refused url_env (\<lambda>_. None) (lit ''SONARR_URL'') (JStr (lit ''u'')) = None"
  by (simp add: setting_refused_def is_editable_key_def value_requirement_def FIELDS_def field_def setting_text_def env_pinned_def url_env_def
      is_reserved_key_def Let_def) (simp add: is_ascii_ws_def to_ascii_lower_def lit_eval ascii_lower_def ascii_class_defs)

theorem config_put_effective_witness:
  "\<exists>s' j. h_config_put (\<lambda>_. None) True [] (JObj [(lit ''SONARR_URL'', JStr (lit ''u''))]) (plain_app\<lparr>as_env := url_env\<rparr>) = (s', (200, j))
     \<and> raw_load (as_env s') (lit ''SONARR_URL'') = Some (lit ''u'')"
proof -
  let ?s = "plain_app\<lparr>as_env := url_env\<rparr>" and ?kvs = "[(lit ''SONARR_URL'', JStr (lit ''u''))]"
  obtain s' c j where r: "h_config_put (\<lambda>_. None) True [] (JObj ?kvs) ?s = (s', (c, j))" by (metis prod.collapse)
  have merged: "merged_overrides url_env [(lit ''SONARR_URL'', lit ''u'')] = [(lit ''SONARR_URL'', JStr (lit ''u''))]"
    by (simp add: merged_overrides_def url_env_def)
  have lib: "ce_json url_env = url_json" "ce_vars url_env = []" "\<not> env_pinned url_env k" for k
    by (simp_all add: url_env_def env_pinned_def)
  have "(c = 200 \<longleftrightarrow> True \<and> list_all (\<lambda>(k, v). setting_refused (as_env ?s) (\<lambda>_. None) k v = None) ?kvs)
    \<and> (if c = 200
       then raw_load (as_env s') (lit ''SONARR_URL'') = first_some (map_option (setting_text (ce_json (as_env ?s))) (map_of ?kvs (lit ''SONARR_URL''))) (raw_load (as_env ?s) (lit ''SONARR_URL''))
       else as_env s' = as_env ?s)"
    by (rule config_put_effective [OF r]) (auto simp: lib merged setting_text_def url_json_def split: if_splits)
  then show ?thesis using r by (auto simp: url_accepted setting_text_def first_some_def)
qed

end
