(* ===== verification/Cli.thy ===== *)
theory Cli
  imports Api
begin

text \<open>
  The commands of \<open>src/main.rs\<close>: how errors are reported, what is loaded before a command runs, the default
  names of the outputs, and the transcribe, translate and refine commands as compositions of the
  components, with the files they read and write.
\<close>

section \<open>Reporting errors\<close>

text \<open>An error and its causes as their texts, the error first.\<close>

definition masked_error_report :: "unicode_db \<Rightarrow> ustr \<Rightarrow> ustr list \<Rightarrow> ustr" where
  "masked_error_report U e causes =
     lit ''Error: '' @ mask_for_log U e
     @ (case map (mask_for_log U) causes of
          [] \<Rightarrow> []
        | [c] \<Rightarrow> [nl, nl] @ lit ''Caused by:'' @ [nl] @ lit ''    '' @ c
        | cs \<Rightarrow> [nl, nl] @ lit ''Caused by:''
            @ concat (map (\<lambda>(i, c). [nl] @ lit ''    '' @ dec i @ lit '': '' @ c) (enumerate 0 cs)))"

section \<open>Loading\<close>

datatype stack_warning = JellyfinDisabled | MediaRootMissing ustr | NoWhisper
datatype stack_error = ProvidersFailed load_error | NoModels ustr

definition providers_path :: "config_env \<Rightarrow> ustr option \<Rightarrow> config \<Rightarrow> ustr" where
  "providers_path env override cfg =
     (case first_some override (env_str (map_of (ce_vars env)) (lit ''PROVIDERS_FILE'')) of
        Some p \<Rightarrow> p | None \<Rightarrow> cf_providers_file cfg)"

definition load_stack ::
    "config_env \<Rightarrow> (ustr \<Rightarrow> f64 option) \<Rightarrow> nat \<Rightarrow> unicode_db \<Rightarrow> provider_fs \<Rightarrow> (ustr \<Rightarrow> bool) \<Rightarrow> ustr option
      \<Rightarrow> stack_warning list \<times> (stack_error + (config \<times> ProviderPool))" where
  "load_stack env f64_of cpus U pfs is_dir override =
     (let cfg = config_load env f64_of cpus;
          w1 = (if cf_jellyfin_api_key cfg \<noteq> [] \<and> cf_jellyfin_url cfg = [] then [JellyfinDisabled] else []);
          w2 = (if \<not> is_dir (cf_nas_media_prefix cfg) then [MediaRootMissing (mask_for_log U (cf_nas_media_prefix cfg))] else []);
          p = providers_path env override cfg; environ' = map_of (ce_vars env)
      in case Providers.load pfs p of
           Inl e \<Rightarrow> (w1 @ w2, Inl (ProvidersFailed e))
         | Inr file \<Rightarrow>
             if llm_translation_models file = [] then (w1 @ w2, Inl (NoModels (mask_for_log U p)))
             else (w1 @ w2 @ (if whisper_stt file = None then [NoWhisper] else []),
               Inr (cfg, pool_new environ' file (timeouts_from_env environ'))))"

section \<open>Writing a subtitle file\<close>

datatype srt_write = SrtWritten | ParentFails | SrtWriteFails nat | SrtRenameFails

definition tmp_name :: "nat \<Rightarrow> ustr \<Rightarrow> ustr" where
  "tmp_name pid path = path @ lit ''.tmp-'' @ dec pid"

definition write_srt_to :: "srt_write \<Rightarrow> nat \<Rightarrow> ustr \<Rightarrow> cue list \<Rightarrow> bool \<Rightarrow> u32 \<Rightarrow> disk \<Rightarrow> disk \<times> bool" where
  "write_srt_to out pid path cues marker marker_ms d =
     (let bs = utf8 (write_srt cues marker marker_ms); tmp = tmp_name pid path in
      case out of
        SrtWritten \<Rightarrow> (d(tmp := None, path \<mapsto> DFile bs), True)
      | ParentFails \<Rightarrow> (d, False)
      | SrtWriteFails n \<Rightarrow> (d(tmp \<mapsto> DFile (take n bs)), False)
      | SrtRenameFails \<Rightarrow> (d(tmp \<mapsto> DFile bs), False))"

section \<open>Names of outputs\<close>

definition pinned_cli_lang :: "ustr \<Rightarrow> ustr option" where
  "pinned_cli_lang lang = (let code = normalize_lang lang in if wire_accepts code then Some code else None)"

definition rsplit_once :: "uchar \<Rightarrow> ustr \<Rightarrow> (ustr \<times> ustr) option" where
  "rsplit_once c s = map_option (\<lambda>a. (a, drop (length a + 1) s)) (before_last c s)"

definition subtitle_extension :: "ustr \<Rightarrow> bool" where
  "subtitle_extension e \<longleftrightarrow> e \<in> set (map lit [''srt'', ''ass'', ''ssa'', ''vtt''])"

definition output_tag :: "ustr \<Rightarrow> bool" where
  "output_tag t \<longleftrightarrow> t \<in> set (map lit [''hi'', ''forced'', ''sdh'', ''cc'', ''ja'', ''jpn'', ''jp'', ''id'', ''ind'', ''en'', ''eng'', ''enm''])"

fun strip_tags :: "nat \<Rightarrow> ustr \<Rightarrow> ustr" where
  "strip_tags 0 stem = stem"
| "strip_tags (Suc n) stem =
     (case rsplit_once 46 stem of None \<Rightarrow> stem
      | Some (rest, tag) \<Rightarrow> if output_tag (lowercase tag) then strip_tags n rest else stem)"

definition translate_output_path :: "ustr \<Rightarrow> ustr \<Rightarrow> ustr" where
  "translate_output_path input target =
     (let stem = (case rsplit_once 46 input of
            Some (s, ext) \<Rightarrow> if subtitle_extension (lowercase ext) then s else input
          | None \<Rightarrow> input)
      in strip_tags 3 stem @ lit ''.'' @ normalize_lang target @ lit ''.srt'')"

text \<open>\<open>Path::with_extension\<close> for a path that ends in its file name.\<close>

definition with_extension :: "ustr \<Rightarrow> ustr \<Rightarrow> ustr" where
  "with_extension p e =
     (case file_name p of None \<Rightarrow> p
      | Some n \<Rightarrow>
          let kept = (case extension p of None \<Rightarrow> n | Some old \<Rightarrow> take (length n - length old - 1) n)
          in take (length p - length n) p @ kept @ (if e = [] then [] else lit ''.'' @ e))"

section \<open>Transcribe\<close>

datatype cli_error =
    ProbeFailed
  | LangNotPinnable ustr
  | NoAudio
  | TranscribeFailed AsrError
  | ReadFails ustr
  | NoCues ustr
  | TranslateFailed TranslateError
  | CountMismatch nat nat
  | OutputFails

record cli_io =
  ci_pid :: nat
  ci_write :: srt_write
  ci_rename :: bool
  ci_append :: append_out
  ci_now :: ustr

definition explicit_choice :: "AudioStream list \<Rightarrow> ustr \<Rightarrow> u32 option \<Rightarrow> cli_error + (ustr option \<times> AudioChoice)" where
  "explicit_choice streams lang stream =
     (case stream of
        Some i \<Rightarrow> (case pinned_cli_lang lang of
            None \<Rightarrow> Inl (LangNotPinnable (normalize_lang lang))
          | Some code \<Rightarrow> Inr (Some code, \<lparr>stream_index = i, asr_lang = Some code, needs_translate = True\<rparr>))
      | None \<Rightarrow> (case choose_source streams lang None of None \<Rightarrow> Inl NoAudio | Some c \<Rightarrow> Inr (None, c)))"

definition transcribe_cmd ::
    "asr_env \<Rightarrow> (nat \<Rightarrow> nat list) \<Rightarrow> config \<Rightarrow> cli_io \<Rightarrow> MediaProbe option \<Rightarrow> ustr \<Rightarrow> ustr option \<Rightarrow> ustr \<Rightarrow> u32 option
      \<Rightarrow> world \<Rightarrow> disk \<Rightarrow> disk \<times> (cli_error + (nat \<times> ustr))" where
  "transcribe_cmd env order cfg io probe input output lang stream w d =
     (case probe of None \<Rightarrow> (d, Inl ProbeFailed)
      | Some pr \<Rightarrow>
         (case explicit_choice (mp_streams pr) lang stream of Inl e \<Rightarrow> (d, Inl e)
          | Inr (pinned, choice) \<Rightarrow>
             (case snd (transcribe_episode env order
                \<lparr>tj_tmp_dir = cf_tmp_dir cfg, tj_media_path = input, tj_choice = choice,
                 tj_episode_key = lit ''cli-'' @ dec (ci_pid io), tj_duration_s = mp_duration_s pr,
                 tj_audio_bytes = est_audio_bytes (mp_duration_s pr) (mp_bit_rate pr), tj_max_cue_ms = cf_max_cue_ms cfg\<rparr> w) of
                Inl e \<Rightarrow> (d, Inl (TranscribeFailed e))
              | Inr t \<Rightarrow>
                  (let named = (case pinned of Some code \<Rightarrow> code | None \<Rightarrow> tr_lang t);
                       path = (case output of Some p \<Rightarrow> p | None \<Rightarrow> with_extension input (named @ lit ''.srt''))
                   in case write_srt_to (ci_write io) (ci_pid io) path (tr_cues t) (cf_ai_marker_cue cfg) (cf_ai_marker_cue_ms cfg) d of
                        (d', True) \<Rightarrow> (d', Inr (length (tr_cues t), path))
                      | (d', False) \<Rightarrow> (d', Inl OutputFails)))))"

section \<open>Translate\<close>

definition cli_translation :: "config \<Rightarrow> glossary \<Rightarrow> cue list \<Rightarrow> ustr \<Rightarrow> ustr \<Rightarrow> ustr option \<Rightarrow> TranslateJob" where
  "cli_translation cfg g cues target source series =
     (let texts = map cue_text cues; name = (case series of Some s \<Rightarrow> s | None \<Rightarrow> [])
      in \<lparr>tj_lines = texts, tj_target_lang = target, tj_source_lang = source,
          tj_knowledge = (if name = [] then [] else knowledge_block_for_cues g name texts MAX_REFS),
          tj_chunk_size = cf_translate_chunk cfg, tj_skip_guard = \<not> needs_foreign_guard source,
          tj_placeholders = cf_sdh_placeholders cfg\<rparr>)"

definition translate_file_cmd ::
    "network \<Rightarrow> (nat \<Rightarrow> nat list) \<Rightarrow> bool \<Rightarrow> config \<Rightarrow> glossary \<Rightarrow> cli_io \<Rightarrow> ustr \<Rightarrow> ustr option \<Rightarrow> ustr \<Rightarrow> ustr \<Rightarrow> ustr option
      \<Rightarrow> world \<Rightarrow> disk \<Rightarrow> disk \<times> (cli_error + (nat \<times> ustr))" where
  "translate_file_cmd net order late cfg g io input output target source series w d =
     (case read_to_string d input of None \<Rightarrow> (d, Inl (ReadFails input))
      | Some text \<Rightarrow>
         (let cues = parse_srt text in
          if cues = [] then (d, Inl (NoCues input))
          else case translate_lines net order late (cli_translation cfg g cues target source series) w of
            Inl e \<Rightarrow> (d, Inl (TranslateFailed e))
          | Inr lines \<Rightarrow>
              (let out = retime cues lines;
                   path = (case output of Some p \<Rightarrow> p | None \<Rightarrow> translate_output_path input target)
               in case write_srt_to (ci_write io) (ci_pid io) path out (cf_ai_marker_cue cfg) (cf_ai_marker_cue_ms cfg) d of
                    (d', True) \<Rightarrow> (d', Inr (length out, path))
                  | (d', False) \<Rightarrow> (d', Inl OutputFails))))"

section \<open>Refine\<close>

definition without_marker_pairs :: "cue list \<Rightarrow> cue list \<Rightarrow> (cue \<times> cue) list" where
  "without_marker_pairs ja tr =
     filter (\<lambda>(j, t). \<not> (has_ai_marker_text (cue_text j) \<or> has_ai_marker_text (cue_text t))) (zip ja tr)"

definition refine_rec :: "ustr \<Rightarrow> ustr \<Rightarrow> nat \<Rightarrow> nat \<Rightarrow> bool \<Rightarrow> ustr \<Rightarrow> json" where
  "refine_rec ja tr lines changed write ts = jobj
     [(''changed'', jnat changed), (''ja'', JStr ja), (''lang_path'', JStr tr),
      (''status'', JStr (lit (if 0 < changed \<and> write then ''done'' else ''reviewed''))), (''total_lines'', jnat lines), (''ts'', JStr ts)]"

definition count_changed :: "ustr list \<Rightarrow> ustr list \<Rightarrow> nat" where
  "count_changed fixed old = length (filter (\<lambda>(a, b). a \<noteq> b) (zip fixed old))"

text \<open>The review has a chunk size of 60, so it always returns. Its outcome: the reviewed lines, how many changed,
  the cues to write and whether a marker was left out. The temporary file is written under a name of its own
  and then renamed over the translation.\<close>

definition refine_review :: "network \<Rightarrow> world \<Rightarrow> cue list \<Rightarrow> cue list \<Rightarrow> ustr list \<times> nat \<times> cue list \<times> bool" where
  "refine_review net w jc tc =
     (let pairs = without_marker_pairs jc tc;
          jl = map (\<lambda>(j, _). cue_text j) pairs; tl' = map (\<lambda>(_, t). cue_text t) pairs;
          fixed = (case snd (review_lines net jl tl' 60 w) of Some ls \<Rightarrow> ls | None \<Rightarrow> tl')
      in (fixed, count_changed fixed tl',
          map (\<lambda>((_, t), text). Cue_new (start_ms t) (end_ms t) text) (zip pairs fixed), length pairs \<noteq> length jc))"

definition refine_cmd ::
    "network \<Rightarrow> row_lib \<Rightarrow> config \<Rightarrow> cli_io \<Rightarrow> ustr \<Rightarrow> ustr \<Rightarrow> bool \<Rightarrow> world \<Rightarrow> disk \<times> jsonl_fs
      \<Rightarrow> (disk \<times> jsonl_fs) \<times> (cli_error + (nat \<times> nat))" where
  "refine_cmd net lib cfg io ja tr write w dfs =
     (case dfs of (d, fs) \<Rightarrow>
      (case (read_to_string d ja, read_to_string d tr) of
        (None, _) \<Rightarrow> (dfs, Inl (ReadFails ja))
      | (Some _, None) \<Rightarrow> (dfs, Inl (ReadFails tr))
      | (Some jt, Some tt) \<Rightarrow>
         (let jc = parse_srt jt; tc = parse_srt tt in
          if length jc \<noteq> length tc then (dfs, Inl (CountMismatch (length jc) (length tc)))
          else (case refine_review net w jc tc of (fixed, changed, out, had_marker) \<Rightarrow>
            let fs' = fst (append_jsonl (print_row lib) (ci_append io) (cf_refine_state_file cfg)
                        (refine_rec ja tr (length fixed) changed write (ci_now io)) fs)
            in if write \<and> 0 < changed then
                 let tmp = tr @ lit ''.refine.tmp''
                 in case write_srt_to (ci_write io) (ci_pid io) tmp out had_marker 1500 d of
                      (d', False) \<Rightarrow> ((d', fs'), Inl OutputFails)
                    | (d', True) \<Rightarrow>
                        if ci_rename io then ((d'(tmp := None, tr := d' tmp), fs'), Inr (length fixed, changed))
                        else ((d', fs'), Inl OutputFails)
               else ((d, fs'), Inr (length fixed, changed))))))"

section \<open>Properties\<close>

lemma zip_times:
  "length fixed = length pairs \<Longrightarrow>
     map (\<lambda>c. (start_ms c, end_ms c)) (map (\<lambda>((_, t), text). Cue_new (start_ms t) (end_ms t) text) (zip pairs fixed))
       = map (\<lambda>(_, t). (start_ms t, end_ms t)) pairs"
  by (induction pairs fixed rule: list_induct2') (auto simp: Cue_new_def)

lemma refine_review_times:
  assumes "refine_review net w jc tc = (fixed, changed, out, marker)"
  shows "length out = length fixed"
    and "map (\<lambda>c. (start_ms c, end_ms c)) out = map (\<lambda>(_, t). (start_ms t, end_ms t)) (without_marker_pairs jc tc)"
proof -
  let ?pairs = "without_marker_pairs jc tc"
  have "length (case snd (review_lines net ja tl' 60 w) of Some ls \<Rightarrow> ls | None \<Rightarrow> tl') = length tl'" for ja tl'
    using review_lines_total [of 60 net ja tl' w] by auto
  then have len: "length fixed = length ?pairs" using assms by (auto simp: refine_review_def Let_def)
  have out: "out = map (\<lambda>((_, t), text). Cue_new (start_ms t) (end_ms t) text) (zip ?pairs fixed)"
    using assms by (auto simp: refine_review_def Let_def)
  show "length out = length fixed" using len by (simp add: out)
  show "map (\<lambda>c. (start_ms c, end_ms c)) out = map (\<lambda>(_, t). (start_ms t, end_ms t)) ?pairs"
    unfolding out by (rule zip_times [OF len])
qed

lemma tmp_names: "tmp_name pid (p @ lit ''.refine.tmp'') \<noteq> p" "p @ lit ''.refine.tmp'' \<noteq> p"
    "tmp_name pid (p @ lit ''.refine.tmp'') \<noteq> p @ lit ''.refine.tmp''"
  by (auto simp: tmp_name_def)

lemma write_srt_to_other: "write_srt_to out pid path cs m ms d = (d', ok) \<Longrightarrow> p \<noteq> path \<Longrightarrow> p \<noteq> tmp_name pid path \<Longrightarrow> d' p = d p"
  by (auto simp: write_srt_to_def Let_def split: srt_write.splits)

lemma write_srt_to_done: "write_srt_to out pid path cs m ms d = (d', True) \<Longrightarrow> d' path = Some (DFile (utf8 (write_srt cs m ms)))"
  by (auto simp: write_srt_to_def Let_def split: srt_write.splits)

definition kept_pairs :: "disk \<Rightarrow> ustr \<Rightarrow> ustr \<Rightarrow> (cue \<times> cue) list" where
  "kept_pairs d ja tr =
     (case (read_to_string d ja, read_to_string d tr) of
        (Some jt, Some tt) \<Rightarrow>
          filter (\<lambda>(j, t). \<not> has_ai_marker_text (cue_text j) \<and> \<not> has_ai_marker_text (cue_text t)) (zip (parse_srt jt) (parse_srt tt))
      | _ \<Rightarrow> [])"


text \<open>The registry is not told: unless the recorded digest of the target is that of the refined text, the
  target counts as missing from then on.\<close>

lemma refined_target_unverified:
  assumes "d' tr = Some (DFile bs)" and "\<forall>r \<in> set rows. admit_key r = Some k \<longrightarrow> rr_target_path r = Some tr \<and> row_digest_of (rr_extra r) \<noteq> Some (sha bs)"
  shows "verified_targets sha d' rows states k = None"
proof -
  have "\<not> admits sha d' rows states k v" for v using assms by (auto simp: admits_def)
  then have "k \<notin> fst ` set (List.map_filter (verified_row sha d' (List.map_filter done_entry states)) rows)"
    by (force simp: verified_pairs)
  then show ?thesis unfolding verified_targets_def map_of_eq_None_iff by simp
qed

text \<open>The default name of a translation replaces the subtitle's extension and up to three tags.\<close>

lemma translate_output_names:
  "translate_output_path (lit ''/m/foo.ja.srt'') t = lit ''/m/foo.'' @ normalize_lang t @ lit ''.srt''"
  "translate_output_path (lit ''archive.tar.srt'') t = lit ''archive.tar.'' @ normalize_lang t @ lit ''.srt''"
  "translate_output_path (lit ''/a.en/foo'') t = lit ''/a.en/foo.'' @ normalize_lang t @ lit ''.srt''"
  by (simp_all add: translate_output_path_def rsplit_once_def before_last_def subtitle_extension_def output_tag_def lowercase_def
      lower_char_def ascii_lower_def ascii_class_defs lit_eval eval_nat_numeral Let_def)

section \<open>Witnesses\<close>

definition plain_cli_io :: cli_io where
  "plain_cli_io = \<lparr>ci_pid = 1, ci_write = SrtWritten, ci_rename = True, ci_append = AOk, ci_now = []\<rparr>"

lemma parse_srt_empty: "parse_srt [] = []"
  by code_simp


end
