(* ===== verification/Daemon.thy ===== *)
theory Daemon
  imports Cli
begin

text \<open>
  The daemon of \<open>src/main.rs\<close>: the adaptive loop of passes and naps, together with the handlers that change
  the shared state and the notifier's worker, as one step relation; and the webhook, which wakes the loop and
  extracts embedded subtitles next to the file it names, one extraction per file at a time.
\<close>

section \<open>The loop\<close>

text \<open>Where the loop is: at its top, in a pass, in the short wait of a paused daemon, or asleep for some seconds,
  the long sleep marked by a flag.\<close>

datatype phase = Top | Passing | PausedWait | Napping nat bool

text \<open>\<open>dm_outcomes\<close> records the passes that have ended, oldest first.\<close>

record daemon =
  dm_app :: app_state
  dm_failures :: u32
  dm_phase :: phase
  dm_notifier :: "notifier option"
  dm_outcomes :: "PassOutcome list"

definition daemon_start :: "app_state \<Rightarrow> notifier option \<Rightarrow> daemon" where
  "daemon_start app n = \<lparr>dm_app = app, dm_failures = 0, dm_phase = Top, dm_notifier = n, dm_outcomes = []\<rparr>"

definition begin_loop :: "daemon \<Rightarrow> daemon" where
  "begin_loop s =
     (if as_paused (dm_app s) then s\<lparr>dm_phase := PausedWait\<rparr>
      else s\<lparr>dm_app := (dm_app s)\<lparr>as_current := Some (lit ''pass'')\<rparr>, dm_phase := Passing\<rparr>)"

definition failing :: "PassOutcome \<Rightarrow> bool" where
  "failing po \<longleftrightarrow> 0 < st_failed (po_stats po) \<and> st_done (po_stats po) = 0"

definition work_of :: "PassOutcome \<Rightarrow> NotifierWork" where
  "work_of po = \<lparr>nw_reports = po_reports po, omitted_reports = po_omitted po\<rparr>"

definition finish_pass :: "ustr \<Rightarrow> PassOutcome \<Rightarrow> daemon \<Rightarrow> daemon" where
  "finish_pass now po s =
     (let app = (dm_app s)\<lparr>as_current := None,
            as_last_pass := \<lparr>lp_at = Some now, lp_scanned = st_scanned (po_stats po), lp_done = st_done (po_stats po),
                             lp_failed = st_failed (po_stats po)\<rparr>, as_run_once := False\<rparr>;
          failures = (if failing po then dm_failures s + 1 else 0);
          s' = s\<lparr>dm_app := app, dm_failures := failures,
                 dm_notifier := map_option (\<lambda>n. fst (try_send (work_of po) n)) (dm_notifier s),
                 dm_outcomes := dm_outcomes s @ [po]\<rparr>
      in if 5 \<le> failures then s'\<lparr>dm_phase := Napping 600 True\<rparr>
         else s'\<lparr>dm_phase := Napping (if 0 < st_done (po_stats po) then 30 else 120) False\<rparr>)"

text \<open>The end of a wait.\<close>

definition wake_up :: "daemon \<Rightarrow> daemon" where
  "wake_up s =
     (case dm_phase s of
        PausedWait \<Rightarrow> s\<lparr>dm_phase := Top\<rparr>
      | Napping _ long \<Rightarrow> (if long then s\<lparr>dm_phase := Top, dm_failures := 0\<rparr> else s\<lparr>dm_phase := Top\<rparr>)
      | _ \<Rightarrow> s)"

definition asleep :: "daemon \<Rightarrow> bool" where
  "asleep s \<longleftrightarrow> (case dm_phase s of PausedWait \<Rightarrow> True | Napping _ _ \<Rightarrow> True | _ \<Rightarrow> False)"

definition take_permit :: "daemon \<Rightarrow> daemon" where
  "take_permit s = s\<lparr>dm_app := (dm_app s)\<lparr>as_wake := False\<rparr>\<rparr>"

text \<open>The requests that change the shared state.\<close>

inductive handled :: "app_state \<Rightarrow> app_state \<Rightarrow> bool" where
  pause: "handled a (fst (h_pause a))"
| resume: "handled a (fst (h_resume a))"
| run_once: "handled a (fst (h_run_once a))"
| wake: "handled a (fst (h_wake a))"
| action: "handled a (fst (id_action lib io raw body typ w a))"
| exclude: "handled a (fst (h_exclude lib io raw a))"
| unexclude: "handled a (fst (h_unexclude lib io raw a))"
| setting: "handled a (fst (h_config_put f64_of works err body a))"
| wanted: "handled a (fst (wanted_payload v now a))"

text \<open>The loop, the requests, the clock and the notifier's worker interleave; the result of a pass is any.\<close>

inductive daemon_step :: "daemon \<Rightarrow> daemon \<Rightarrow> bool" where
  request: "handled (dm_app s) app \<Longrightarrow> daemon_step s (s\<lparr>dm_app := app\<rparr>)"
| loop: "dm_phase s = Top \<Longrightarrow> daemon_step s (begin_loop s)"
| pass: "dm_phase s = Passing \<Longrightarrow> daemon_step s (finish_pass now po s)"
| woken: "asleep s \<Longrightarrow> as_wake (dm_app s) \<Longrightarrow> daemon_step s (wake_up (take_permit s))"
| elapsed: "asleep s \<Longrightarrow> daemon_step s (wake_up s)"
| posting: "dm_notifier s = Some n \<Longrightarrow> daemon_step s (s\<lparr>dm_notifier := Some (worker_step transport n)\<rparr>)"

inductive_cases daemon_stepE: "daemon_step s t"

definition daemon_starts :: "daemon \<Rightarrow> bool" where
  "daemon_starts s \<longleftrightarrow> (\<exists>app n. s = daemon_start app n \<and> as_current app = None \<and> n \<in> {None, Some idle_notifier})"

definition daemon_reachable :: "daemon \<Rightarrow> bool" where
  "daemon_reachable s \<longleftrightarrow> (\<exists>s0. daemon_starts s0 \<and> daemon_step\<^sup>*\<^sup>* s0 s)"

section \<open>The naps\<close>

text \<open>The failing passes in a row since the last long sleep, at the end of the fifth of which the long sleep
  comes.\<close>

definition next_streak :: "nat \<Rightarrow> PassOutcome \<Rightarrow> nat" where
  "next_streak n po = (if failing po then (if n = 5 then 1 else n + 1) else 0)"

definition streak :: "PassOutcome list \<Rightarrow> nat" where
  "streak pos = foldl next_streak 0 pos"

definition nap_after :: "PassOutcome list \<Rightarrow> nat" where
  "nap_after pos = (if streak pos = 5 then 600 else if 0 < st_done (po_stats (last pos)) then 30 else 120)"

lemma streak_snoc [simp]: "streak (pos @ [po]) = next_streak (streak pos) po"
  by (simp add: streak_def)

lemma streak_le: "streak pos \<le> 5"
  by (induction pos rule: rev_induct) (auto simp: streak_def next_streak_def)

definition loop_inv :: "daemon \<Rightarrow> bool" where
  "loop_inv s \<longleftrightarrow> (as_current (dm_app s) \<noteq> None \<longleftrightarrow> dm_phase s = Passing)
     \<and> (case dm_phase s of
          Napping secs long \<Rightarrow> dm_outcomes s \<noteq> [] \<and> secs = nap_after (dm_outcomes s) \<and> (long \<longleftrightarrow> streak (dm_outcomes s) = 5)
            \<and> unat (dm_failures s) = streak (dm_outcomes s)
        | _ \<Rightarrow> unat (dm_failures s) = (if streak (dm_outcomes s) = 5 then 0 else streak (dm_outcomes s)))"

lemma loop_inv_start: "as_current app = None \<Longrightarrow> loop_inv (daemon_start app n)"
  by (simp add: loop_inv_def daemon_start_def streak_def)

lemma handled_current: "handled a b \<Longrightarrow> as_current b = as_current a"
  by (induction rule: handled.induct)
    (auto simp: h_pause_def h_resume_def h_run_once_def h_wake_def id_action_def h_exclude_def h_unexclude_def h_config_put_def
      wanted_payload_def Let_def split: sum.splits prod.splits bool.splits json.splits option.splits if_splits)

lemma begin_loop_inv: "loop_inv s \<Longrightarrow> dm_phase s = Top \<Longrightarrow> loop_inv (begin_loop s)"
  by (auto simp: loop_inv_def begin_loop_def)

lemma loop_inv_app: "as_current app = as_current (dm_app s) \<Longrightarrow> loop_inv (s\<lparr>dm_app := app\<rparr>) = loop_inv s"
  by (cases "dm_phase s") (auto simp: loop_inv_def)

lemma loop_inv_notifier: "loop_inv (s\<lparr>dm_notifier := n\<rparr>) = loop_inv s"
  by (cases "dm_phase s") (auto simp: loop_inv_def)

lemma take_permit_inv: "loop_inv s \<Longrightarrow> loop_inv (take_permit s)"
  by (simp add: take_permit_def loop_inv_app)

lemma wake_up_inv: "loop_inv s \<Longrightarrow> loop_inv (wake_up s)"
  by (auto simp: loop_inv_def wake_up_def split: phase.splits)

lemma finish_pass_inv:
  assumes "loop_inv s" and "dm_phase s = Passing"
  shows "loop_inv (finish_pass now po s)"
proof -
  have f: "unat (dm_failures s) = (if streak (dm_outcomes s) = 5 then 0 else streak (dm_outcomes s))"
    using assms by (simp add: loop_inv_def)
  then have "unat (dm_failures s) < 5" using streak_le [of "dm_outcomes s"] by (auto split: if_splits)
  then have up: "unat (dm_failures s + 1) = unat (dm_failures s) + 1" by (simp add: unat_word_ariths)
  have fail: "unat (if failing po then dm_failures s + 1 else 0) = next_streak (streak (dm_outcomes s)) po"
    using f up by (auto simp: next_streak_def)
  have five: "5 \<le> (if failing po then dm_failures s + 1 else 0) \<longleftrightarrow> next_streak (streak (dm_outcomes s)) po = 5"
    using fail streak_le [of "dm_outcomes s @ [po]"] by (simp add: word_le_nat_alt)
  show ?thesis
    using fail five by (auto simp: loop_inv_def finish_pass_def Let_def nap_after_def)
qed

lemma daemon_step_loop_inv: "daemon_step s t \<Longrightarrow> loop_inv s \<Longrightarrow> loop_inv t"
  by (elim daemon_stepE)
    (simp_all add: begin_loop_inv finish_pass_inv wake_up_inv take_permit_inv loop_inv_app handled_current loop_inv_notifier)

interpretation naps: step_system daemon_step daemon_starts loop_inv
proof
  show "loop_inv s" if "daemon_starts s" for s using that by (auto simp: daemon_starts_def loop_inv_start)
qed (rule daemon_step_loop_inv)

lemma reachable_loop_inv: "daemon_reachable s \<Longrightarrow> loop_inv s"
  unfolding daemon_reachable_def by (auto intro: naps.reachable_kept)

text \<open>C19: whatever requests arrive, the length of a sleep follows from the passes alone: ten minutes after a run of
  five passes that failed without a success, counted from the last such run, else half a minute after
  a pass that completed something and two minutes after any other. The counter of failures never exceeds
  five, and the service shows a current pass exactly while one runs.\<close>

theorem nap_exact:
  assumes "daemon_reachable s"
  shows "(case dm_phase s of Napping secs _ \<Rightarrow> secs = nap_after (dm_outcomes s) | _ \<Rightarrow> True)
    \<and> dm_failures s \<le> 5 \<and> (as_current (dm_app s) \<noteq> None \<longleftrightarrow> dm_phase s = Passing)"
proof -
  have inv: "loop_inv s" by (rule reachable_loop_inv [OF assms])
  then have "unat (dm_failures s) \<le> 5" using streak_le [of "dm_outcomes s"]
    by (auto simp: loop_inv_def split: phase.splits if_splits)
  then have "dm_failures s \<le> 5" by (simp add: word_le_nat_alt)
  then show ?thesis using inv by (auto simp: loop_inv_def split: phase.splits)
qed

section \<open>What is reported\<close>

text \<open>The notifier of a reachable daemon: its queue holds passes that ended, each at most once and in order.\<close>

definition report_inv :: "daemon \<Rightarrow> bool" where
  "report_inv s \<longleftrightarrow> (\<forall>n. dm_notifier s = Some n \<longrightarrow> notifier_inv n \<and> subseq (nt_accepted n) (map work_of (dm_outcomes s)))"

lemma try_send_accepted: "subseq (nt_accepted n) ws \<Longrightarrow> subseq (nt_accepted (fst (try_send w n))) (ws @ [w])"
  by (auto simp: try_send_def)

lemma finish_pass_report: "report_inv s \<Longrightarrow> report_inv (finish_pass now po s)"
  by (auto simp: report_inv_def finish_pass_def Let_def try_send_inv try_send_accepted)

lemma daemon_step_report_inv:
  assumes "daemon_step s t" and "report_inv s"
  shows "report_inv t"
  using assms(1)
proof (cases rule: daemon_step.cases)
  case (pass now po)
  then show ?thesis using finish_pass_report [OF assms(2)] by simp
next
  case (posting n transport)
  then show ?thesis using assms(2) by (auto simp: report_inv_def worker_step_inv)
qed (use assms(2) in \<open>auto simp: report_inv_def begin_loop_def take_permit_def wake_up_def split: phase.splits\<close>)

lemma daemon_starts_report_inv: "daemon_starts s \<Longrightarrow> report_inv s"
  by (auto simp: daemon_starts_def report_inv_def daemon_start_def notifier_inv_def idle_notifier_def)

interpretation reported: step_system daemon_step daemon_starts report_inv
  by unfold_locales (rule daemon_starts_report_inv, assumption, rule daemon_step_report_inv)

lemma reachable_report_inv: "daemon_reachable s \<Longrightarrow> report_inv s"
  unfolding daemon_reachable_def by (auto intro: reported.reachable_kept)

text \<open>C18: in every state the daemon can reach with a notifier, the digests posted, in hand and queued are together those
  of a subsequence of the passes that have ended, in their order and each pass at most once, and at
  most eight passes wait.\<close>

theorem passes_reported_in_order:
  assumes "daemon_reachable s" and "dm_notifier s = Some n"
  shows "\<exists>ws. subseq ws (map work_of (dm_outcomes s)) \<and> length (nt_queue n) \<le> 8
    \<and> nt_posts n @ concat (map rendered (nt_hand n)) @ concat (map posts_of (nt_queue n)) = concat (map posts_of ws)"
  using reachable_report_inv [OF assms(1)] assms(2)
  by (auto simp: report_inv_def notifier_inv_def NOTIFIER_QUEUE_CAPACITY_def)

section \<open>Requests for a pass\<close>

text \<open>The loop's own next step, with a permit to spend: \<open>po\<close> is the result of the pass that may be
  running.\<close>

definition loop_step :: "ustr \<Rightarrow> PassOutcome \<Rightarrow> daemon \<Rightarrow> daemon" where
  "loop_step now po s =
     (case dm_phase s of
        Top \<Rightarrow> begin_loop s
      | Passing \<Rightarrow> finish_pass now po s
      | _ \<Rightarrow> if as_wake (dm_app s) then wake_up (take_permit s) else s)"

lemma loop_step_is_step: "dm_phase s \<in> {Top, Passing} \<or> as_wake (dm_app s) \<Longrightarrow> daemon_step s (loop_step now po s)"
  by (cases "dm_phase s")
    (auto simp: loop_step_def asleep_def intro: daemon_step.loop daemon_step.pass daemon_step.woken)

lemma finish_pass_naps: "\<exists>secs long. dm_phase (finish_pass now po s) = Napping secs long"
  by (simp add: finish_pass_def Let_def) metis

lemma waiting_begins:
  assumes "as_wake (dm_app t)" and "\<not> as_paused (dm_app t)" and "asleep t"
  shows "daemon_step\<^sup>*\<^sup>* t ((loop_step now po ^^ 2) t) \<and> dm_phase ((loop_step now po ^^ 2) t) = Passing
    \<and> dm_outcomes ((loop_step now po ^^ 2) t) = dm_outcomes t"
proof -
  define u where "u = loop_step now po t"
  have u: "dm_phase u = Top" "\<not> as_paused (dm_app u)" "dm_outcomes u = dm_outcomes t"
    using assms by (auto simp: u_def loop_step_def asleep_def wake_up_def take_permit_def split: phase.splits)
  have "daemon_step t u" unfolding u_def by (rule loop_step_is_step) (simp add: assms(1))
  moreover have "daemon_step u (loop_step now po u)" by (rule loop_step_is_step) (simp add: u(1))
  ultimately have "daemon_step\<^sup>*\<^sup>* t (loop_step now po u)" by (meson rtranclp.simps)
  moreover have "(loop_step now po ^^ 2) t = loop_step now po u" by (simp add: u_def numeral_2_eq_2)
  ultimately show ?thesis using u by (simp add: loop_step_def begin_loop_def)
qed

text \<open>C20: a request for a pass is not lost: when the daemon is not paused and nothing else interferes, its own
  next steps, without waiting for the clock, begin a pass: at once at the top of the loop, after the wait
  ends when it sleeps, and after the running pass when there is one.\<close>

theorem requested_pass_begins:
  assumes "\<not> as_paused (dm_app s)" and "t = s\<lparr>dm_app := fst (h_run_once (dm_app s))\<rparr>"
  shows "\<exists>k \<le> 3. 0 < k \<and> daemon_step\<^sup>*\<^sup>* t ((loop_step now po ^^ k) t) \<and> dm_phase ((loop_step now po ^^ k) t) = Passing
    \<and> length (dm_outcomes ((loop_step now po ^^ k) t)) = length (dm_outcomes s) + (if dm_phase s = Passing then 1 else 0)"
proof -
  have t: "as_wake (dm_app t)" "\<not> as_paused (dm_app t)" "dm_phase t = dm_phase s" "dm_outcomes t = dm_outcomes s"
    using assms by (simp_all add: h_run_once_def)
  have first: "daemon_step t (loop_step now po t)" using t(1) by (intro loop_step_is_step) simp
  show ?thesis
  proof (cases "dm_phase s")
    case Top
    then show ?thesis using t r_into_rtranclp [of daemon_step, OF first] by (intro exI [of _ 1]) (simp add: loop_step_def begin_loop_def)
  next
    case Passing
    define t1 where "t1 = loop_step now po t"
    have t1: "as_wake (dm_app t1)" "\<not> as_paused (dm_app t1)" "length (dm_outcomes t1) = length (dm_outcomes s) + 1"
      using t Passing by (auto simp: t1_def loop_step_def finish_pass_def Let_def)
    obtain secs long where nap: "dm_phase t1 = Napping secs long"
      using t(3) Passing finish_pass_naps [of now po t] by (auto simp: t1_def loop_step_def)
    define t2 where "t2 = loop_step now po t1"
    have t2: "dm_phase t2 = Top" "\<not> as_paused (dm_app t2)" "dm_outcomes t2 = dm_outcomes t1"
      unfolding t2_def by (use t1(1,2) nap in \<open>cases long; simp add: loop_step_def wake_up_def take_permit_def\<close>)+
    have a: "daemon_step t t1" unfolding t1_def by (rule first)
    have b: "daemon_step t1 t2" unfolding t2_def by (rule loop_step_is_step) (simp add: t1(1))
    have c: "daemon_step t2 (loop_step now po t2)" by (rule loop_step_is_step) (simp add: t2(1))
    have "daemon_step\<^sup>*\<^sup>* t (loop_step now po t2)"
      by (rule converse_rtranclp_into_rtranclp, rule a, rule converse_rtranclp_into_rtranclp, rule b, rule r_into_rtranclp, rule c)
    moreover have "(loop_step now po ^^ 3) t = loop_step now po t2" by (simp add: t2_def t1_def numeral_3_eq_3)
    ultimately show ?thesis
      using t2 t1 Passing by (intro exI [of _ 3]) (simp add: loop_step_def begin_loop_def)
  next
    case PausedWait
    then show ?thesis using waiting_begins [OF t(1,2), of now po] t by (intro exI [of _ 2]) (simp add: asleep_def)
  next
    case (Napping secs long)
    then show ?thesis using waiting_begins [OF t(1,2), of now po] t by (intro exI [of _ 2]) (simp add: asleep_def)
  qed
qed

text \<open>A request made while the daemon is paused is answered and its permit is spent on the paused wait: it begins no
  pass, and only its flag stays.\<close>

lemma paused_request_spent:
  assumes "as_paused (dm_app s)" and "dm_phase s = PausedWait" and "t = s\<lparr>dm_app := fst (h_run_once (dm_app s))\<rparr>"
  shows "dm_phase ((loop_step now po ^^ 2) t) = PausedWait \<and> \<not> as_wake (dm_app ((loop_step now po ^^ 2) t))
    \<and> as_run_once (dm_app ((loop_step now po ^^ 2) t))"
  using assms by (simp add: numeral_2_eq_2 loop_step_def h_run_once_def wake_up_def take_permit_def begin_loop_def)

section \<open>The webhook\<close>

definition webhook_file_from_body :: "(ustr \<Rightarrow> json option) \<Rightarrow> ustr \<Rightarrow> ustr option" where
  "webhook_file_from_body parse body =
     (case parse body of None \<Rightarrow> None
      | Some v \<Rightarrow>
          (let field = first_some (json_get (lit ''file'') v) (first_some (json_get (lit ''filePath'') v) (json_get (lit ''path'') v));
               file' = (case Option.bind field as_str of Some s \<Rightarrow> s | None \<Rightarrow> [])
           in if file' = [] then None else Some file'))"

text \<open>The set of files being extracted and, behind it, the extractions that run.\<close>

record webhook =
  wh_inflight :: "ustr set"
  wh_running :: "ustr list"
  wh_woken :: nat

definition claim_inflight :: "ustr \<Rightarrow> webhook \<Rightarrow> webhook \<times> bool" where
  "claim_inflight f s = (s\<lparr>wh_inflight := insert f (wh_inflight s)\<rparr>, f \<notin> wh_inflight s)"

definition handle_webhook :: "(ustr \<Rightarrow> json option) \<Rightarrow> (ustr \<Rightarrow> bool) \<Rightarrow> ustr \<Rightarrow> webhook \<Rightarrow> webhook" where
  "handle_webhook parse is_file body s =
     (case webhook_file_from_body parse body of None \<Rightarrow> s
      | Some f \<Rightarrow>
          if \<not> is_file f then s
          else (case claim_inflight f (s\<lparr>wh_woken := wh_woken s + 1\<rparr>) of
            (s', True) \<Rightarrow> s'\<lparr>wh_running := f # wh_running s'\<rparr>
          | (s', False) \<Rightarrow> s'))"

definition extraction_ends :: "ustr \<Rightarrow> webhook \<Rightarrow> webhook" where
  "extraction_ends f s = s\<lparr>wh_inflight := wh_inflight s - {f}, wh_running := remove1 f (wh_running s)\<rparr>"

inductive webhook_step :: "webhook \<Rightarrow> webhook \<Rightarrow> bool" where
  arrives: "webhook_step s (handle_webhook parse is_file body s)"
| ends: "f \<in> set (wh_running s) \<Longrightarrow> webhook_step s (extraction_ends f s)"

inductive_cases webhook_stepE: "webhook_step s t"

definition webhook_inv :: "webhook \<Rightarrow> bool" where
  "webhook_inv s \<longleftrightarrow> distinct (wh_running s) \<and> set (wh_running s) = wh_inflight s"

lemma webhook_step_inv: "webhook_step s t \<Longrightarrow> webhook_inv s \<Longrightarrow> webhook_inv t"
  by (elim webhook_stepE)
    (auto simp: webhook_inv_def handle_webhook_def claim_inflight_def extraction_ends_def insert_absorb split: option.splits bool.splits)

definition no_webhook :: webhook where
  "no_webhook = \<lparr>wh_inflight = {}, wh_running = [], wh_woken = 0\<rparr>"

interpretation extractions: step_system webhook_step "\<lambda>s. s = no_webhook" webhook_inv
proof
  show "webhook_inv s" if "s = no_webhook" for s using that by (simp add: webhook_inv_def no_webhook_def)
qed (rule webhook_step_inv)

text \<open>Whatever requests arrive and however the extractions end, no file is extracted twice at the same
  time.\<close>

theorem one_extraction_per_file:
  assumes "webhook_step\<^sup>*\<^sup>* no_webhook s"
  shows "distinct (wh_running s) \<and> set (wh_running s) = wh_inflight s"
  using extractions.reachable_kept [OF refl assms] by (simp add: webhook_inv_def)

section \<open>Embedded subtitles\<close>

text \<open>The probe's answer, and the extraction of a stream to a file: what it leaves there, and whether the
  tool ran at all.\<close>

record extract_env =
  xe_probe :: "json option"
  xe_runs :: "u32 \<Rightarrow> ustr \<Rightarrow> bool"
  xe_leaves :: "u32 \<Rightarrow> ustr \<Rightarrow> bytes option"

definition subtitle_lang :: "json \<Rightarrow> ustr" where
  "subtitle_lang s =
     (case Option.bind (Option.bind (json_get (lit ''tags'') s) (json_get (lit ''language''))) as_str of
        Some l \<Rightarrow> normalize_lang l | None \<Rightarrow> [])"

definition stream_number :: "json \<Rightarrow> u32" where
  "stream_number s = of_nat (case Option.bind (json_get (lit ''index'') s) as_u64 of Some n \<Rightarrow> n | None \<Rightarrow> 99)"

definition extracted_langs :: "ustr list" where
  "extracted_langs = map lit [''ja'', ''en'', ''id'']"

definition dominated :: "disk \<Rightarrow> ustr \<Rightarrow> ustr \<Rightarrow> bool" where
  "dominated d stem lang \<longleftrightarrow> list_ex (\<lambda>p. d p \<noteq> None) (sidecar_paths stem lang @ replaceable_target_sidecar_paths stem lang)"

definition extract_stream :: "extract_env \<Rightarrow> ustr \<Rightarrow> json \<Rightarrow> disk \<Rightarrow> disk \<times> bool" where
  "extract_stream env stem s d =
     (let lang = subtitle_lang s; dest = canonical_target_sidecar stem lang in
      if Option.bind (json_get (lit ''codec_type'') s) as_str \<noteq> Some (lit ''subtitle'') then (d, True)
      else if lang \<notin> set extracted_langs then (d, True)
      else if dominated d stem lang then (d, True)
      else if \<not> xe_runs env (stream_number s) dest then (d, False)
      else (case xe_leaves env (stream_number s) dest of None \<Rightarrow> d | Some bs \<Rightarrow> d(dest \<mapsto> DFile bs), True))"

fun extract_streams :: "extract_env \<Rightarrow> ustr \<Rightarrow> json list \<Rightarrow> disk \<Rightarrow> disk \<times> bool" where
  "extract_streams env stem [] d = (d, True)"
| "extract_streams env stem (s # ss) d =
     (case extract_stream env stem s d of
        (d', False) \<Rightarrow> (d', False) | (d', True) \<Rightarrow> extract_streams env stem ss d')"

definition extract_embedded :: "extract_env \<Rightarrow> ustr \<Rightarrow> disk \<Rightarrow> disk \<times> bool" where
  "extract_embedded env media d =
     (case xe_probe env of None \<Rightarrow> (d, False)
      | Some v \<Rightarrow> extract_streams env (stem_of media)
          (case Option.bind (json_get (lit ''streams'') v) as_array of Some ss \<Rightarrow> ss | None \<Rightarrow> []) d)"

text \<open>What may change at a path: nothing, or a new canonical sidecar of a language that had none.\<close>

definition fresh_sidecar :: "ustr \<Rightarrow> disk \<Rightarrow> ustr \<Rightarrow> bool" where
  "fresh_sidecar stem d p \<longleftrightarrow> list_ex (\<lambda>l. p = canonical_target_sidecar stem l \<and> \<not> dominated d stem l) extracted_langs"

lemma canonical_replaceable: "canonical_target_sidecar stem lang \<in> set (replaceable_target_sidecar_paths stem lang)"
proof -
  let ?c = "canonical_target_sidecar stem lang" and ?norm = "normalize_lang lang"
  have same: "canonical_target_sidecar stem ?norm = ?c" by (simp add: canonical_target_sidecar_def)
  have flags: "?c \<in> set (fold (\<lambda>flag. push_new (g flag)) fs xs)" if "?c \<in> set xs" for g :: "ustr \<Rightarrow> ustr" and fs xs
    using that by (induction fs arbitrary: xs) (auto simp: push_new_def)
  have aliases: "?c \<in> set (fold (\<lambda>alias acc. fold (\<lambda>flag. push_new (g alias flag)) fs acc) as xs)"
    if "?c \<in> set xs" for g :: "ustr \<Rightarrow> ustr \<Rightarrow> ustr" and fs as xs
    using that by (induction as arbitrary: xs) (simp_all add: flags)
  show ?thesis
  proof (cases "sidecar_aliases ?norm = []")
    case True
    then show ?thesis by (simp add: replaceable_target_sidecar_paths_def Let_def same push_new_def)
  next
    case False
    show ?thesis unfolding replaceable_target_sidecar_paths_def Let_def same if_not_P [OF False]
      by (rule aliases) simp
  qed
qed

lemma dominated_dest: "\<not> dominated d stem lang \<Longrightarrow> d (canonical_target_sidecar stem lang) = None"
  using canonical_replaceable [of stem lang] by (auto simp: dominated_def list_ex_iff)

lemma extract_stream_only_fresh: "fst (extract_stream env stem s d) p \<noteq> d p \<Longrightarrow> d p = None \<and> fresh_sidecar stem d p"
  by (auto simp: extract_stream_def Let_def dominated_dest fresh_sidecar_def list_ex_iff split: if_splits option.splits)

lemma dominated_mono: "dominated d stem l \<Longrightarrow> \<forall>p. d p \<noteq> None \<longrightarrow> d' p \<noteq> None \<Longrightarrow> dominated d' stem l"
  unfolding dominated_def list_ex_iff by blast

lemma extract_stream_keeps: "d p \<noteq> None \<Longrightarrow> fst (extract_stream env stem s d) p = d p"
  using extract_stream_only_fresh [of env stem s d p] by fastforce

lemma fresh_earlier: "fresh_sidecar stem d' p \<Longrightarrow> \<forall>q. d q \<noteq> None \<longrightarrow> d' q \<noteq> None \<Longrightarrow> fresh_sidecar stem d p"
  using dominated_mono by (auto simp: fresh_sidecar_def list_ex_iff)

lemma extract_streams_only_fresh:
  "fst (extract_streams env stem ss d) p \<noteq> d p \<Longrightarrow> d p = None \<and> fresh_sidecar stem d p"
proof (induction ss arbitrary: d)
  case (Cons s ss)
  obtain d' ok where s: "extract_stream env stem s d = (d', ok)" by fastforce
  have keeps: "\<forall>q. d q \<noteq> None \<longrightarrow> d' q \<noteq> None" using extract_stream_keeps [of d _ env stem s] by (simp add: s)
  show ?case
  proof (cases "d' p = d p")
    case True
    then show ?thesis using Cons.prems Cons.IH [of d'] fresh_earlier [OF _ keeps] by (cases ok) (auto simp: s)
  next
    case False
    then show ?thesis using extract_stream_only_fresh [of env stem s d p] by (simp add: s)
  qed
qed simp

text \<open>C36: extracting the embedded subtitles of a file changes nothing that exists: the only paths that change are
  the canonical sidecars of Japanese, English and Indonesian, and only for a language that had no sidecar under any
  of its names.\<close>

theorem extraction_never_overwrites:
  assumes "fst (extract_embedded env media d) p \<noteq> d p"
  shows "d p = None \<and> (\<exists>l \<in> set extracted_langs. p = canonical_target_sidecar (stem_of media) l
    \<and> (\<forall>q \<in> set (sidecar_paths (stem_of media) l) \<union> set (replaceable_target_sidecar_paths (stem_of media) l). d q = None))"
proof -
  have "d p = None \<and> fresh_sidecar (stem_of media) d p"
    using assms extract_streams_only_fresh by (auto simp: extract_embedded_def split: option.splits)
  then show ?thesis by (auto simp: fresh_sidecar_def dominated_def list_ex_iff)
qed

text \<open>A tool that fails half way leaves what it wrote under the final name, where it counts as a sidecar from then
  on.\<close>

lemma failed_extraction_stays:
  assumes "xe_runs env (stream_number s) dest" "xe_leaves env (stream_number s) dest = Some bs" "dest = canonical_target_sidecar stem (subtitle_lang s)"
    and "Option.bind (json_get (lit ''codec_type'') s) as_str = Some (lit ''subtitle'')" "subtitle_lang s \<in> set extracted_langs"
    and "\<not> dominated d stem (subtitle_lang s)"
  shows "dominated (fst (extract_stream env stem s d)) stem (subtitle_lang s)"
  using assms canonical_replaceable [of stem "subtitle_lang s"] by (auto simp: extract_stream_def Let_def dominated_def list_ex_iff)

section \<open>Witnesses\<close>

lemma plain_starts: "daemon_starts (daemon_start plain_app (Some idle_notifier))"
  unfolding daemon_starts_def by (intro exI [of _ plain_app] exI [of _ "Some idle_notifier"]) (simp add: plain_app_def app_new_def)

definition bad_pass :: PassOutcome where
  "bad_pass = \<lparr>po_stats = \<lparr>st_scanned = 1, st_processed = 1, st_done = 0, st_failed = 1, st_skipped = 0\<rparr>, po_reports = [], po_omitted = 0\<rparr>"

definition after_bad_pass :: daemon where
  "after_bad_pass = finish_pass [] bad_pass (begin_loop (daemon_start plain_app (Some idle_notifier)))"

lemma after_bad_phase: "dm_phase after_bad_pass = Napping 120 False"
  by (simp add: word_le_nat_alt after_bad_pass_def finish_pass_def Let_def bad_pass_def failing_def begin_loop_def daemon_start_def plain_app_def app_new_def)

lemma after_bad_reachable: "daemon_reachable after_bad_pass"
proof -
  let ?s = "daemon_start plain_app (Some idle_notifier)"
  have "daemon_step ?s (begin_loop ?s)" by (rule daemon_step.loop) (simp add: daemon_start_def)
  moreover have "daemon_step (begin_loop ?s) after_bad_pass" unfolding after_bad_pass_def
    by (rule daemon_step.pass) (simp add: begin_loop_def daemon_start_def plain_app_def app_new_def)
  ultimately have "daemon_step\<^sup>*\<^sup>* ?s after_bad_pass" by (meson rtranclp.simps)
  then show ?thesis using plain_starts by (auto simp: daemon_reachable_def)
qed

theorem nap_exact_witness: "nap_after (dm_outcomes after_bad_pass) = 120 \<and> dm_phase after_bad_pass = Napping 120 False"
  using nap_exact [OF after_bad_reachable] by (simp add: after_bad_phase)

theorem passes_reported_in_order_witness:
  "\<exists>n ws. dm_notifier after_bad_pass = Some n \<and> subseq ws (map work_of (dm_outcomes after_bad_pass)) \<and> length (nt_queue n) \<le> 8"
proof -
  obtain n where n: "dm_notifier after_bad_pass = Some n"
    by (simp add: after_bad_pass_def finish_pass_def Let_def bad_pass_def failing_def begin_loop_def daemon_start_def plain_app_def app_new_def)
  show ?thesis using passes_reported_in_order [OF after_bad_reachable n] n by blast
qed

theorem requested_pass_begins_witness:
  "\<exists>k \<le> 3. 0 < k \<and> dm_phase ((loop_step [] bad_pass ^^ k) (after_bad_pass\<lparr>dm_app := fst (h_run_once (dm_app after_bad_pass))\<rparr>)) = Passing"
proof -
  have "\<not> as_paused (dm_app after_bad_pass)"
    by (simp add: after_bad_pass_def finish_pass_def Let_def bad_pass_def failing_def begin_loop_def daemon_start_def plain_app_def app_new_def)
  from requested_pass_begins [OF this refl, of "[]" bad_pass] show ?thesis by blast
qed

theorem one_extraction_per_file_witness:
  "distinct (wh_running (handle_webhook (\<lambda>_. Some (JObj [(lit ''file'', JStr (lit ''/m/a.mkv''))])) (\<lambda>_. True) [] no_webhook))"
  using one_extraction_per_file [OF r_into_rtranclp [of webhook_step, OF webhook_step.arrives]] by blast

definition japanese_stream :: json where
  "japanese_stream = JObj [(lit ''codec_type'', JStr (lit ''subtitle'')), (lit ''index'', JInt 2),
     (lit ''tags'', JObj [(lit ''language'', JStr (lit ''ja''))])]"

definition one_subtitle :: extract_env where
  "one_subtitle = \<lparr>xe_probe = Some (JObj [(lit ''streams'', JArr [japanese_stream])]), xe_runs = (\<lambda>_ _. True), xe_leaves = (\<lambda>_ _. Some [])\<rparr>"

lemma japanese_stream_extracted:
  "fst (extract_embedded one_subtitle (lit ''/m/a.mkv'') (\<lambda>_. None)) (canonical_target_sidecar (stem_of (lit ''/m/a.mkv'')) (lit ''ja'')) = Some (DFile [])"
proof -
  have "lit ''ja'' \<in> wire_codes" by (simp add: wire_codes_raw WIRE_ACCEPTED_LANGS_raw_def)
  then have "subtitle_lang japanese_stream = lit ''ja''" by (simp add: subtitle_lang_def japanese_stream_def normalize_wire_code)
  moreover have "Option.bind (json_get (lit ''codec_type'') japanese_stream) as_str = Some (lit ''subtitle'')" by (simp add: japanese_stream_def)
  moreover have "\<not> dominated (\<lambda>_. None) stem l" for stem l by (simp add: dominated_def list_ex_iff)
  ultimately show ?thesis
    by (simp add: one_subtitle_def extract_embedded_def extract_stream_def extracted_langs_def Let_def)
qed

theorem extraction_never_overwrites_witness:
  "\<exists>l \<in> set extracted_langs. canonical_target_sidecar (stem_of (lit ''/m/a.mkv'')) (lit ''ja'') = canonical_target_sidecar (stem_of (lit ''/m/a.mkv'')) l"
  using extraction_never_overwrites [of one_subtitle "lit ''/m/a.mkv''" "\<lambda>_. None" "canonical_target_sidecar (stem_of (lit ''/m/a.mkv'')) (lit ''ja'')"]
    japanese_stream_extracted by auto

end
