(* ===== verification/Web.thy ===== *)
theory Web
  imports Daemon
begin

text \<open>
  \<open>src/web\<close>: the operator pages. A page is the data it shows, its markup is left out; what the forms submit
  and what the handlers do to the shared state is modelled in full. The state is that of the API handlers
  with the cached probe of the state directory.
\<close>

section \<open>Library filters\<close>

record LibQuery =
  lq_q :: ustr
  lq_scope :: ustr
  lq_sort :: ustr
  lq_dir :: ustr

definition no_query :: LibQuery where
  "no_query = \<lparr>lq_q = [], lq_scope = [], lq_sort = [], lq_dir = []\<rparr>"

definition unreserved :: "byte \<Rightarrow> bool" where
  "unreserved b \<longleftrightarrow> is_ascii_alnum (unat b) \<or> unat b \<in> {45, 95, 46, 126}"

definition upper_hex_digit :: "nat \<Rightarrow> uchar" where
  "upper_hex_digit d = (if d < 10 then 48 + d else 55 + d)"

definition urlencode_byte :: "byte \<Rightarrow> ustr" where
  "urlencode_byte b =
     (if unreserved b then [unat b]
      else [37, upper_hex_digit (unat (drop_bit 4 b)), upper_hex_digit (unat (b AND 15))])"

definition urlencode :: "ustr \<Rightarrow> ustr" where
  "urlencode value = concat (map urlencode_byte (utf8 value))"

definition to_query :: "LibQuery \<Rightarrow> ustr" where
  "to_query q =
     join (lit ''&'') (map (\<lambda>(k, v). k @ lit ''='' @ urlencode v)
       (filter (\<lambda>(_, v). v \<noteq> [])
         [(lit ''q'', lq_q q), (lit ''scope'', lq_scope q), (lit ''sort'', lq_sort q), (lit ''dir'', lq_dir q)]))"

definition ep_action_url :: "ustr \<Rightarrow> ustr \<Rightarrow> ustr \<Rightarrow> ustr" where
  "ep_action_url aid action query =
     (if query = [] then lit ''/ui/episode/'' @ aid @ lit ''/'' @ action
      else lit ''/ui/episode/'' @ aid @ lit ''/'' @ action @ lit ''?'' @ query)"

section \<open>Library rows\<close>

record LibRow =
  lr_aid :: ustr
  lr_title :: ustr
  lr_kind :: ustr
  lr_missing :: ustr
  lr_done :: ustr
  lr_excluded :: bool

text \<open>The fields of a wanted item the page reads.\<close>

record lib_item =
  li_id :: int
  li_movie :: bool
  li_title :: ustr
  li_missing :: "ustr list"

definition lib_item_of :: "json \<Rightarrow> lib_item" where
  "lib_item_of it =
     \<lparr>li_id = (case Option.bind (json_get (lit ''sonarrEpisodeId'') it) as_i64 of Some n \<Rightarrow> n | None \<Rightarrow> -1),
      li_movie = (Option.bind (json_get (lit ''movie'') it) as_bool = Some True),
      li_title = (case Option.bind (json_get (lit ''seriesTitle'') it) as_str of Some t \<Rightarrow> t | None \<Rightarrow> []),
      li_missing = (case Option.bind (json_get (lit ''missing_subtitles'') it) as_array of
         Some vs \<Rightarrow> List.map_filter as_str vs | None \<Rightarrow> [])\<rparr>"

definition item_shown :: "LibQuery \<Rightarrow> lib_item \<Rightarrow> bool" where
  "item_shown q it \<longleftrightarrow>
     \<not> (lq_scope q = lit ''active'' \<and> li_missing it = [])
     \<and> (let needle = lowercase (trim (lq_q q)) in
        needle = [] \<or> contains needle (lowercase (li_title it)) \<or> contains needle (dec_int (li_id it)))"

definition listed :: "ustr list \<Rightarrow> ustr" where
  "listed xs = (if xs = [] then [0x2014] else join (lit '', '') xs)"

definition lib_row :: "StateEntry list \<Rightarrow> int set \<Rightarrow> lib_item \<Rightarrow> LibRow" where
  "lib_row entries excluded it =
     (let kind = lit (if li_movie it then ''movie'' else ''series'') in
      \<lparr>lr_aid = (if li_movie it then lit ''m:'' @ dec_int (li_id it) else dec_int (li_id it)),
       lr_title = (if li_title it = [] then lit ''(episode '' @ dec_int (li_id it) @ lit '')'' else li_title it),
       lr_kind = kind, lr_missing = listed (li_missing it), lr_done = listed (done_langs entries kind (li_id it)),
       lr_excluded = (li_id it \<in> excluded)\<rparr>)"

definition row_order :: "LibQuery \<Rightarrow> LibRow \<Rightarrow> bytes" where
  "row_order q r = utf8 (if lq_sort q = lit ''id'' then lr_aid r else lowercase (lr_title r))"

definition library_rows :: "row_lib \<Rightarrow> pass_view \<Rightarrow> u64 \<Rightarrow> LibQuery \<Rightarrow> app_state \<Rightarrow> app_state \<times> LibRow list" where
  "library_rows lib v now q s =
     (case wanted_payload v now s of (s', wanted') \<Rightarrow>
        (let items = (case Option.bind (json_get (lit ''data'') wanted') as_array of Some xs \<Rightarrow> xs | None \<Rightarrow> []);
             entries = load_jsonl (read_row lib) decode_state_entry (as_files s (cf_state_file (as_cfg s)));
             excluded = parse_exclusions (read_row lib) (as_files s (cf_exclusions_file (as_cfg s)));
             rows = sort_key (row_order q) (map (lib_row entries excluded) (filter (item_shown q) (map lib_item_of items)))
         in (s', if lq_dir q = lit ''desc'' then rev rows else rows)))"

section \<open>The settings form\<close>

definition truthy :: "ustr \<Rightarrow> bool" where
  "truthy value \<longleftrightarrow> to_ascii_lower (trim value) \<in> set (map lit [''1'', ''true'', ''yes'', ''on''])"

definition field_display_value :: "unicode_db \<Rightarrow> config \<Rightarrow> ustr \<Rightarrow> ustr \<Rightarrow> ustr" where
  "field_display_value U cfg k def =
     mask_for_log U (case cf_raw cfg k of Some v \<Rightarrow> if trim v = [] then def else trim v | None \<Rightarrow> def)"

definition pinned_keys :: "config_env \<Rightarrow> ustr list" where
  "pinned_keys env = filter (env_pinned env) (map fd_key FIELDS)"

type_synonym form = "ustr \<rightharpoonup> ustr"

definition orig_key :: "ustr \<Rightarrow> ustr" where
  "orig_key k = lit ''orig__'' @ k"

definition form_value :: "form \<Rightarrow> ustr \<Rightarrow> ustr" where
  "form_value form k = (case form k of Some v \<Rightarrow> trim v | None \<Rightarrow> [])"

definition field_change :: "config_env \<Rightarrow> form \<Rightarrow> Field \<Rightarrow> (ustr \<times> ustr) option" where
  "field_change env form f =
     (if env_pinned env (fd_key f) then None
      else let original = form_value form (orig_key (fd_key f));
               submitted = (if fd_kind f = FBool then lit (if form (fd_key f) \<noteq> None then ''true'' else ''false'')
                            else form_value form (fd_key f));
               unchanged = (if fd_kind f = FBool then truthy submitted = truthy original else submitted = original)
           in if fd_kind f = FSecret \<and> submitted = [] then None
              else if unchanged then None else Some (fd_key f, submitted))"

definition collect_changes :: "config_env \<Rightarrow> form \<Rightarrow> (ustr \<times> ustr) list" where
  "collect_changes env form = List.map_filter (field_change env form) FIELDS"

fun invalid_number :: "(ustr \<Rightarrow> f64 option) \<Rightarrow> (ustr \<times> ustr) list \<Rightarrow> (ustr \<times> ustr) option" where
  "invalid_number f64_of [] = None"
| "invalid_number f64_of ((k, v) # ps) =
     (case value_requirement f64_of k v of Some want \<Rightarrow> Some (k, want) | None \<Rightarrow> invalid_number f64_of ps)"

definition shadowed_attempts :: "unicode_db \<Rightarrow> config_env \<Rightarrow> config \<Rightarrow> form \<Rightarrow> ustr list" where
  "shadowed_attempts U env cfg form =
     map fd_key (filter (\<lambda>f.
         let submitted = form_value form (fd_key f); current = field_display_value U cfg (fd_key f) (fd_shown f)
         in if fd_kind f = FBool then form (fd_key f) \<noteq> None \<and> truthy submitted \<noteq> truthy current
            else submitted \<noteq> [] \<and> submitted \<noteq> current)
       (filter (\<lambda>f. env_pinned env (fd_key f)) FIELDS))"

text \<open>The named inputs of a field, with the values the page gives them: a pinned field is disabled and has none, a
  checkbox is submitted only when it is ticked.\<close>

definition field_inputs :: "unicode_db \<Rightarrow> config_env \<Rightarrow> config \<Rightarrow> Field \<Rightarrow> (ustr \<times> ustr) list" where
  "field_inputs U env cfg f =
     (let k = fd_key f; current = field_display_value U cfg k (fd_shown f) in
      if k \<in> set (pinned_keys env) then []
      else case fd_kind f of
        FSecret \<Rightarrow> [(k, []), (orig_key k, [])]
      | FBool \<Rightarrow> (if truthy current then [(k, lit ''on'')] else []) @ [(orig_key k, current)]
      | _ \<Rightarrow> [(k, current), (orig_key k, current)])"

definition untouched_form :: "unicode_db \<Rightarrow> config_env \<Rightarrow> config \<Rightarrow> form" where
  "untouched_form U env cfg = map_of (concat (map (field_inputs U env cfg) FIELDS))"

section \<open>Pages\<close>

definition fmt_uptime :: "u64 \<Rightarrow> ustr" where
  "fmt_uptime seconds =
     (let n = unat seconds; days = n div 86400; hours = n mod 86400 div 3600; minutes = n mod 3600 div 60
      in if 0 < days then dec days @ lit ''d '' @ dec hours @ lit ''h''
         else if 0 < hours then dec hours @ lit ''h '' @ dec minutes @ lit ''m''
         else dec minutes @ lit ''m'')"

text \<open>A page as what it shows, with the message at its top.\<close>

datatype ui_page =
    StatusPage ustr app_state "bool \<times> json" "(ustr \<times> bool) option"
  | LibraryPage LibQuery "LibRow list" "(ustr \<times> bool) option"
  | ActivityPage "json list"
  | ProvenancePage nat "(ustr \<times> nat) list" "RegistryRow list"
  | SettingsPage config "(bool \<times> ustr) option"

datatype ui_response = Redirect ustr | Shown nat ui_page

text \<open>What a request meets: the tables and libraries, the file system, the clocks, what the subtitle manager lists
  and how the files can be written.\<close>

record ui_env =
  ue_U :: unicode_db
  ue_lib :: row_lib
  ue_vars :: environment
  ue_ready :: ready_view
  ue_mono :: nat
  ue_now :: u64
  ue_pass :: pass_view
  ue_f64 :: "ustr \<Rightarrow> f64 option"
  ue_cpus :: nat
  ue_io :: api_io
  ue_overrides :: bool

type_synonym ui_state = "app_state \<times> probe_cache"

definition status_page :: "ui_env \<Rightarrow> (ustr \<times> bool) option \<Rightarrow> ui_state \<Rightarrow> ui_state \<times> ui_page" where
  "status_page ue flash st =
     (case st of (s, cell) \<Rightarrow>
        case readiness (ue_U ue) (ue_ready ue) (ue_mono ue) (as_cfg s) (counts_from_pool (ue_vars ue) (as_pool s)) cell of
          (ready, cell') \<Rightarrow>
            ((s, cell'), StatusPage (fmt_uptime (sat_sub (ue_now ue) (as_started_at s))) s ready flash))"

definition library_page :: "ui_env \<Rightarrow> LibQuery \<Rightarrow> (ustr \<times> bool) option \<Rightarrow> ui_state \<Rightarrow> ui_state \<times> ui_page" where
  "library_page ue q flash st =
     (case library_rows (ue_lib ue) (ue_pass ue) (ue_now ue) q (fst st) of
        (s', rows) \<Rightarrow> ((s', snd st), LibraryPage q rows flash))"

definition activity_page :: "ui_env \<Rightarrow> app_state \<Rightarrow> ui_page" where
  "activity_page ue s = ActivityPage (activity_items (ue_lib ue) 60 (as_files s (cf_state_file (as_cfg s))))"

text \<open>The languages come from a hash map, in an order that is a parameter, and are sorted by falling
  count.\<close>

definition provenance_page :: "ui_env \<Rightarrow> ((ustr \<times> nat) list \<Rightarrow> (ustr \<times> nat) list) \<Rightarrow> app_state \<Rightarrow> ui_page" where
  "provenance_page ue order s =
     (let rows = load_jsonl (read_row (ue_lib ue)) decode_registry_row (as_files s (cf_registry_file (as_cfg s)))
      in ProvenancePage (length rows) (sort_key (\<lambda>(_, n). - int n) (order (lang_counts rows))) (take 50 (rev rows)))"

definition ui_library :: "ui_env \<Rightarrow> LibQuery option \<Rightarrow> ui_state \<Rightarrow> ui_state \<times> ui_response" where
  "ui_library ue query st =
     (case query of
        Some q \<Rightarrow> (case library_page ue q None st of (st', p) \<Rightarrow> (st', Shown 200 p))
      | None \<Rightarrow>
          (case library_page ue no_query (Some (lit ''Library filters could not be decoded.'', True)) st of
             (st', p) \<Rightarrow> (st', Shown 400 p)))"

section \<open>Handlers of the forms\<close>

definition library_location :: "LibQuery \<Rightarrow> ustr" where
  "library_location q = (if to_query q = [] then lit ''/ui/library'' else lit ''/ui/library?'' @ to_query q)"

definition library_error :: "ui_env \<Rightarrow> nat \<Rightarrow> LibQuery \<Rightarrow> ustr \<Rightarrow> ui_state \<Rightarrow> ui_state \<times> ui_response" where
  "library_error ue code q why st = (case library_page ue q (Some (why, True)) st of (st', p) \<Rightarrow> (st', Shown code p))"

definition ui_config_save :: "ui_env \<Rightarrow> form option \<Rightarrow> app_state \<Rightarrow> app_state \<times> ui_response" where
  "ui_config_save ue form_opt s =
     (let view = config_load (as_env s) (ue_f64 ue) (ue_cpus ue) in
      case form_opt of
        None \<Rightarrow> (s, Shown 400 (SettingsPage (as_cfg s) (Some (False, lit ''Settings form could not be decoded.''))))
      | Some form \<Rightarrow>
          (let shadowed = shadowed_attempts (ue_U ue) (as_env s) (as_cfg s) form;
               pairs = collect_changes (as_env s) form
           in if shadowed \<noteq> [] then
                (s, Shown 400 (SettingsPage view (Some (False, join (lit '', '') shadowed
                  @ lit '' is set by the deployment environment and cannot be changed here. Nothing saved.''))))
              else if pairs = [] then (s, Shown 200 (SettingsPage view (Some (True, lit ''No changes to save.''))))
              else case invalid_number (ue_f64 ue) pairs of
                Some (bad, want) \<Rightarrow>
                  (s, Shown 400 (SettingsPage view (Some (False, bad @ lit '' must be '' @ want @ lit ''. Nothing saved.''))))
              | None \<Rightarrow>
                  (case write_overrides (as_env s) (ue_overrides ue) pairs of
                     (env', False) \<Rightarrow>
                       (s\<lparr>as_env := env'\<rparr>, Shown 500 (SettingsPage view (Some (False, lit ''Save failed: '' @ io_error (ue_io ue)))))
                   | (env', True) \<Rightarrow> (s\<lparr>as_env := env'\<rparr>, Redirect (lit ''/ui/settings'')))))"

definition ui_control :: "ui_env \<Rightarrow> ustr \<Rightarrow> ui_state \<Rightarrow> ui_state \<times> ui_response" where
  "ui_control ue action st =
     (case st of (s, cell) \<Rightarrow>
        let done' = (\<lambda>s'. ((s', cell), Redirect (lit ''/ui/status''))) in
        if action = lit ''pause'' then done' (s\<lparr>as_paused := True\<rparr>)
        else if action = lit ''resume'' then done' (s\<lparr>as_paused := False, as_wake := True\<rparr>)
        else if action = lit ''run-once'' then done' (s\<lparr>as_run_once := True, as_wake := True\<rparr>)
        else if action = lit ''wake'' then done' (s\<lparr>as_wake := True\<rparr>)
        else case status_page ue (Some (lit ''Unknown control action.'', True)) st of (st', p) \<Rightarrow> (st', Shown 404 p))"

definition ui_exclusion_rec :: "ustr \<Rightarrow> int \<Rightarrow> json" where
  "ui_exclusion_rec ts i = jobj [(''episode_id'', JInt i), (''reason'', JStr (lit ''ui'')), (''ts'', JStr ts)]"

definition ui_exclude :: "ui_env \<Rightarrow> LibQuery \<Rightarrow> int \<Rightarrow> ui_state \<Rightarrow> ui_state \<times> ui_response" where
  "ui_exclude ue q i st =
     (case st of (s, cell) \<Rightarrow>
        case append_jsonl (print_row (ue_lib ue)) (io_append (ue_io ue)) (cf_exclusions_file (as_cfg s))
               (ui_exclusion_rec (io_now (ue_io ue)) i) (as_files s) of
          (fs', False) \<Rightarrow> library_error ue 500 q (lit ''Exclude failed: '' @ io_error (ue_io ue)) (s\<lparr>as_files := fs'\<rparr>, cell)
        | (fs', True) \<Rightarrow> ((s\<lparr>as_files := fs'\<rparr>, cell), Redirect (library_location q)))"

definition ui_unexclude :: "ui_env \<Rightarrow> LibQuery \<Rightarrow> int \<Rightarrow> ui_state \<Rightarrow> ui_state \<times> ui_response" where
  "ui_unexclude ue q i st =
     (case st of (s, cell) \<Rightarrow>
        let p = cf_exclusions_file (as_cfg s); lib = ue_lib ue;
            kept = filter (\<lambda>e. fst e \<noteq> Some i) (load_jsonl (read_row lib) decode_excl (as_files s p))
        in case rewrite_jsonl (print_row lib) (io_rewrite (ue_io ue)) p (map (excl_json (iteration lib)) kept) (as_files s) of
             (fs', False) \<Rightarrow> library_error ue 500 q (lit ''Unexclude failed: '' @ io_error (ue_io ue)) (s\<lparr>as_files := fs'\<rparr>, cell)
           | (fs', True) \<Rightarrow> ((s\<lparr>as_files := fs'\<rparr>, cell), Redirect (library_location q)))"

definition ui_enqueue :: "ui_env \<Rightarrow> LibQuery \<Rightarrow> ustr \<Rightarrow> int \<Rightarrow> ustr \<Rightarrow> ui_state \<Rightarrow> ui_state \<times> ui_response" where
  "ui_enqueue ue q typ i kind st =
     (case st of (s, cell) \<Rightarrow>
        case enqueue_action (ue_lib ue) (ue_io ue) (as_cfg s) typ i kind None (as_files s) of
          (fs', Inl e) \<Rightarrow> library_error ue 500 q (lit ''Queue failed: '' @ e) (s\<lparr>as_files := fs'\<rparr>, cell)
        | (fs', Inr _) \<Rightarrow>
            (let s' = s\<lparr>as_files := fs'\<rparr>
             in ((if typ \<noteq> lit ''skip'' then s'\<lparr>as_wake := True\<rparr> else s', cell), Redirect (library_location q))))"

definition ui_episode_action :: "ui_env \<Rightarrow> ustr \<Rightarrow> ustr \<Rightarrow> LibQuery option \<Rightarrow> ui_state \<Rightarrow> ui_state \<times> ui_response" where
  "ui_episode_action ue raw action query st =
     (case query of
        None \<Rightarrow> library_error ue 400 no_query (lit ''Library filters could not be decoded.'') st
      | Some q \<Rightarrow>
          (case parse_episode_id raw of
             Inl e \<Rightarrow> library_error ue 400 q e st
           | Inr (i, kind) \<Rightarrow>
               if action = lit ''exclude'' then ui_exclude ue q i st
               else if action = lit ''unexclude'' then ui_unexclude ue q i st
               else if action \<in> {lit ''retry'', lit ''skip'', lit ''delete''} then ui_enqueue ue q action i kind st
               else library_error ue 404 q (lit ''Unknown episode action.'') st))"

section \<open>The settings form keeps what it shows\<close>

lemma map_of_unique:
  assumes "(k, v) \<in> set kvs" and "\<forall>w. (k, w) \<in> set kvs \<longrightarrow> w = v"
  shows "map_of kvs k = Some v"
proof -
  have "k \<in> fst ` set kvs" using assms(1) by force
  then obtain w where "map_of kvs k = Some w" by (metis map_of_eq_None_iff not_None_eq)
  then show ?thesis using assms(2) map_of_SomeD by fastforce
qed

lemma map_filter_single:
  assumes "distinct xs" and "\<forall>y \<in> set xs. y \<noteq> x \<longrightarrow> g y = None"
  shows "List.map_filter g xs = (case g x of Some b \<Rightarrow> if x \<in> set xs then [b] else [] | None \<Rightarrow> [])"
  using assms by (induction xs) (auto simp: List.map_filter_simps split: option.split)

lemma fields_distinct: "distinct (map fd_key FIELDS)"
  by (simp add: FIELDS_def field_def)

lemma field_by_key: "f \<in> set FIELDS \<Longrightarrow> g \<in> set FIELDS \<Longrightarrow> fd_key f = fd_key g \<longleftrightarrow> f = g"
  using fields_distinct by (auto simp: distinct_map inj_on_def)

lemma orig_key_inj [simp]: "orig_key j = orig_key k \<longleftrightarrow> j = k"
  by (simp add: orig_key_def)

lemma orig_key_fresh: "f \<in> set FIELDS \<Longrightarrow> fd_key f \<noteq> orig_key k"
proof -
  have "list_all (\<lambda>f. hd (fd_key f) \<noteq> 111) FIELDS" by (simp add: FIELDS_def field_def lit_eval)
  then have "f \<in> set FIELDS \<Longrightarrow> hd (fd_key f) \<noteq> 111" by (simp add: list_all_iff)
  then show "f \<in> set FIELDS \<Longrightarrow> fd_key f \<noteq> orig_key k" by (auto simp: orig_key_def lit_eval)
qed

lemma reserved_head: "is_reserved_key (c # r) \<Longrightarrow> is_ascii_ws c \<or> c = 100 \<or> c = 68"
proof -
  assume a: "is_reserved_key (c # r)"
  have "ascii_lower c = 100" if "\<not> is_ascii_ws c"
  proof -
    have "rev (dropWhile is_ascii_ws (rev (dropWhile is_ascii_ws (c # r)))) = c # rev (dropWhile is_ascii_ws (rev r))"
      using that by (simp add: dropWhile_append3)
    then show ?thesis using a by (simp add: is_reserved_key_def to_ascii_lower_def lit_eval)
  qed
  then show ?thesis by (auto simp: ascii_lower_def ascii_class_defs split: if_splits)
qed

lemma fields_not_reserved: "f \<in> set FIELDS \<Longrightarrow> \<not> is_reserved_key (fd_key f)"
proof -
  have "list_all (\<lambda>f. fd_key f \<noteq> [] \<and> \<not> is_ascii_ws (hd (fd_key f)) \<and> hd (fd_key f) \<noteq> 100 \<and> hd (fd_key f) \<noteq> 68) FIELDS"
    by (simp add: FIELDS_def field_def is_ascii_ws_def lit_eval)
  then have "f \<in> set FIELDS \<Longrightarrow> fd_key f \<noteq> [] \<and> \<not> is_ascii_ws (hd (fd_key f)) \<and> hd (fd_key f) \<noteq> 100 \<and> hd (fd_key f) \<noteq> 68"
    by (simp add: list_all_iff)
  then show "f \<in> set FIELDS \<Longrightarrow> \<not> is_reserved_key (fd_key f)"
    using reserved_head [of "hd (fd_key f)" "tl (fd_key f)"] by auto
qed

lemma pinned_field: "f \<in> set FIELDS \<Longrightarrow> fd_key f \<in> set (pinned_keys env) \<longleftrightarrow> env_pinned env (fd_key f)"
  by (auto simp: pinned_keys_def)

abbreviation shown_value :: "unicode_db \<Rightarrow> config \<Rightarrow> Field \<Rightarrow> ustr" where
  "shown_value U cfg f \<equiv> field_display_value U cfg (fd_key f) (fd_shown f)"

lemma input_names:
  "(k, v) \<in> set (field_inputs U env cfg f) \<Longrightarrow> k = fd_key f \<or> k = orig_key (fd_key f)"
  by (auto simp: field_inputs_def Let_def split: if_splits FieldKind.splits)

lemma untouched_inputs:
  assumes "f \<in> set FIELDS" and "k = fd_key f \<or> k = orig_key (fd_key f)"
  shows "untouched_form U env cfg k = map_of (field_inputs U env cfg f) k"
proof -
  have only: "g = f" if "g \<in> set FIELDS" "(k, v) \<in> set (field_inputs U env cfg g)" for g v
    using input_names [OF that(2)] that(1) assms field_by_key [OF that(1) assms(1)] orig_key_fresh by (metis orig_key_inj)
  have keys: "distinct (map fst (field_inputs U env cfg f))"
    using orig_key_fresh [OF assms(1)] by (auto simp: field_inputs_def Let_def split: FieldKind.split)
  show ?thesis
  proof (cases "map_of (field_inputs U env cfg f) k")
    case None
    then have "k \<notin> fst ` set (concat (map (field_inputs U env cfg) FIELDS))"
      using only by (force simp: map_of_eq_None_iff)
    then show ?thesis using None unfolding untouched_form_def map_of_eq_None_iff [symmetric] by simp
  next
    case (Some v)
    then have "(k, v) \<in> set (field_inputs U env cfg f)" by (rule map_of_SomeD)
    moreover have "w = v" if w: "(k, w) \<in> set (concat (map (field_inputs U env cfg) FIELDS))" for w
    proof -
      obtain g where "g \<in> set FIELDS" "(k, w) \<in> set (field_inputs U env cfg g)"
        using w by auto
      then have "(k, w) \<in> set (field_inputs U env cfg f)" using only by blast
      then show ?thesis using eq_key_imp_eq_value [OF keys] \<open>(k, v) \<in> set (field_inputs U env cfg f)\<close> by blast
    qed
    ultimately have "map_of (concat (map (field_inputs U env cfg) FIELDS)) k = Some v"
      using assms(1) by (intro map_of_unique) auto
    then show ?thesis using Some by (simp add: untouched_form_def)
  qed
qed

lemma pinned_not_submitted:
  assumes "f \<in> set FIELDS" and "env_pinned env (fd_key f)"
  shows "untouched_form U env cfg (fd_key f) = None"
  using untouched_inputs [OF assms(1), of "fd_key f"] pinned_field [OF assms(1)] assms(2) by (simp add: field_inputs_def)

lemma truthy_trim [simp]: "truthy (trim v) = truthy v"
  by (simp add: truthy_def)

lemma truthy_words [simp]: "truthy (lit ''true'')" "\<not> truthy (lit ''false'')"
  by (simp_all add: truthy_def trim_def trim_start_def trim_end_def lit_eval is_ws_def to_ascii_lower_def ascii_lower_def ascii_class_defs)

lemma untouched_values:
  assumes "f \<in> set FIELDS" and "\<not> env_pinned env (fd_key f)"
  shows "untouched_form U env cfg (orig_key (fd_key f)) = Some (if fd_kind f = FSecret then [] else shown_value U cfg f)"
    and "untouched_form U env cfg (fd_key f) = (if fd_kind f = FSecret then Some []
      else if fd_kind f = FBool then if truthy (shown_value U cfg f) then Some (lit ''on'') else None else Some (shown_value U cfg f))"
proof -
  have fresh: "fd_key f \<noteq> orig_key (fd_key f)" "orig_key (fd_key f) \<noteq> fd_key f" using orig_key_fresh [OF assms(1)] by metis+
  show "untouched_form U env cfg (orig_key (fd_key f)) = Some (if fd_kind f = FSecret then [] else shown_value U cfg f)"
    using untouched_inputs [OF assms(1), of "orig_key (fd_key f)" U env cfg] pinned_field [OF assms(1)] assms(2) fresh
    by (cases "fd_kind f") (simp_all add: field_inputs_def Let_def)
  show "untouched_form U env cfg (fd_key f) = (if fd_kind f = FSecret then Some []
      else if fd_kind f = FBool then if truthy (shown_value U cfg f) then Some (lit ''on'') else None else Some (shown_value U cfg f))"
    using untouched_inputs [OF assms(1), of "fd_key f" U env cfg] pinned_field [OF assms(1)] assms(2) fresh
    by (cases "fd_kind f") (simp_all add: field_inputs_def Let_def)
qed

lemma untouched_no_change:
  assumes "f \<in> set FIELDS" and "form (fd_key f) = untouched_form U env cfg (fd_key f)"
    and "form (orig_key (fd_key f)) = untouched_form U env cfg (orig_key (fd_key f))"
  shows "field_change env form f = None"
proof (cases "env_pinned env (fd_key f)")
  case False
  then show ?thesis
    by (simp add: field_change_def form_value_def assms(2,3) untouched_values [OF assms(1)] Let_def)
qed (simp add: field_change_def)

lemma unedited_field_no_change:
  assumes "f \<in> set FIELDS" and "g \<in> set FIELDS" and "g \<noteq> f"
  shows "field_change env ((untouched_form U env cfg)(fd_key f \<mapsto> v)) g = None"
proof (rule untouched_no_change [OF assms(2)])
  have "fd_key g \<noteq> fd_key f" using field_by_key [OF assms(2,1)] assms(3) by simp
  then show "((untouched_form U env cfg)(fd_key f \<mapsto> v)) (fd_key g) = untouched_form U env cfg (fd_key g)" by simp
  have "orig_key (fd_key g) \<noteq> fd_key f" using orig_key_fresh [OF assms(1)] by metis
  then show "((untouched_form U env cfg)(fd_key f \<mapsto> v)) (orig_key (fd_key g)) = untouched_form U env cfg (orig_key (fd_key g))" by simp
qed

lemma edited_field_change:
  assumes "f \<in> set FIELDS" and "\<not> env_pinned env (fd_key f)" and "fd_kind f \<noteq> FBool"
  shows "field_change env ((untouched_form U env cfg)(fd_key f \<mapsto> v)) f =
    (if trim v = (if fd_kind f = FSecret then [] else trim (shown_value U cfg f)) then None else Some (fd_key f, trim v))"
proof -
  have "orig_key (fd_key f) \<noteq> fd_key f" using orig_key_fresh [OF assms(1)] by metis
  then show ?thesis
    using assms(3) by (simp add: field_change_def form_value_def assms(2) untouched_values [OF assms(1,2)] Let_def)
qed

lemma edited_changes:
  assumes "f \<in> set FIELDS" and "\<not> env_pinned env (fd_key f)" and "fd_kind f \<noteq> FBool"
  shows "collect_changes env ((untouched_form U env cfg)(fd_key f \<mapsto> v)) =
    (if trim v = (if fd_kind f = FSecret then [] else trim (shown_value U cfg f)) then [] else [(fd_key f, trim v)])"
proof -
  have "distinct FIELDS" using fields_distinct by (simp add: distinct_map)
  then show ?thesis unfolding collect_changes_def
    by (subst map_filter_single [where x = f]) (use assms unedited_field_no_change in \<open>auto simp: edited_field_change\<close>)
qed

lemma edited_not_shadowed:
  assumes "f \<in> set FIELDS" and "\<not> env_pinned env (fd_key f)"
  shows "shadowed_attempts U env cfg' ((untouched_form U env cfg)(fd_key f \<mapsto> v)) = []"
  using assms pinned_not_submitted by (auto simp: shadowed_attempts_def filter_empty_conv form_value_def Let_def)


section \<open>Pages and API agree\<close>

text \<open>What the page makes of the answer of the API handler for the same request.\<close>

definition page_of_api :: "ui_env \<Rightarrow> LibQuery \<Rightarrow> probe_cache \<Rightarrow> ustr \<Rightarrow> app_state \<times> response \<Rightarrow> ui_state \<times> ui_response" where
  "page_of_api ue q cell why a =
     (case a of (s', (code, _)) \<Rightarrow>
        if code = 200 then ((s', cell), Redirect (library_location q)) else library_error ue code q why (s', cell))"

lemma ui_enqueue_id_action:
  assumes "typ \<in> {lit ''retry'', lit ''skip'', lit ''delete''}"
  shows "\<exists>why. ui_episode_action ue raw typ (Some q) (s, cell)
    = page_of_api ue q cell why (id_action (ue_lib ue) (ue_io ue) raw None typ (typ \<noteq> lit ''skip'') s)"
proof (cases "parse_episode_id raw")
  case (Inl e)
  then show ?thesis by (intro exI [of _ e]) (simp add: ui_episode_action_def id_action_def page_of_api_def refusal_def)
next
  case (Inr ik)
  obtain i kind where ik: "parse_episode_id raw = Inr (i, kind)" using Inr by (cases ik) auto
  obtain fs' r where a: "enqueue_action (ue_lib ue) (ue_io ue) (as_cfg s) typ i kind None (as_files s) = (fs', r)" by fastforce
  have ui: "ui_episode_action ue raw typ (Some q) (s, cell) = ui_enqueue ue q typ i kind (s, cell)"
    using assms ik by (auto simp: ui_episode_action_def)
  have api: "body_kind_lang None kind = (kind, None)" by (simp add: body_kind_lang_def)
  show ?thesis
    unfolding ui using a
    by (cases r) (auto simp: ui_enqueue_def id_action_def ik api page_of_api_def refusal_def answer_def Let_def)
qed

lemma ui_unexclude_api:
  "\<exists>why. ui_episode_action ue raw (lit ''unexclude'') (Some q) (s, cell) = page_of_api ue q cell why (h_unexclude (ue_lib ue) (ue_io ue) raw s)"
proof (cases "parse_episode_id raw")
  case (Inl e)
  then show ?thesis by (intro exI [of _ e]) (simp add: ui_episode_action_def h_unexclude_def page_of_api_def refusal_def)
qed (auto simp: ui_episode_action_def h_unexclude_def ui_unexclude_def page_of_api_def refusal_def answer_def Let_def
    split: prod.split bool.split)

text \<open>C32: the buttons of the pages do what the API does: the controls change the shared state as the
  API's handlers do, and a retry, a skip, a deletion and taking an exclusion back leave the state
  the API request without a body leaves, and answer with the redirect to the same view when the API answers with
  success and with an error page of the same status when it does not.\<close>

theorem pages_equal_api:
  "ui_control ue (lit ''pause'') (s, cell) = ((fst (h_pause s), cell), Redirect (lit ''/ui/status''))
   \<and> ui_control ue (lit ''resume'') (s, cell) = ((fst (h_resume s), cell), Redirect (lit ''/ui/status''))
   \<and> ui_control ue (lit ''run-once'') (s, cell) = ((fst (h_run_once s), cell), Redirect (lit ''/ui/status''))
   \<and> ui_control ue (lit ''wake'') (s, cell) = ((fst (h_wake s), cell), Redirect (lit ''/ui/status''))
   \<and> (\<exists>why. ui_episode_action ue raw (lit ''retry'') (Some q) (s, cell) = page_of_api ue q cell why (h_retry (ue_lib ue) (ue_io ue) raw None s))
   \<and> (\<exists>why. ui_episode_action ue raw (lit ''skip'') (Some q) (s, cell) = page_of_api ue q cell why (h_skip (ue_lib ue) (ue_io ue) raw s))
   \<and> (\<exists>why. ui_episode_action ue raw (lit ''delete'') (Some q) (s, cell) = page_of_api ue q cell why (h_delete (ue_lib ue) (ue_io ue) raw None s))
   \<and> (\<exists>why. ui_episode_action ue raw (lit ''unexclude'') (Some q) (s, cell) = page_of_api ue q cell why (h_unexclude (ue_lib ue) (ue_io ue) raw s))"
  using ui_enqueue_id_action [of "lit ''retry''" ue raw q s cell] ui_enqueue_id_action [of "lit ''skip''" ue raw q s cell]
    ui_enqueue_id_action [of "lit ''delete''" ue raw q s cell] ui_unexclude_api [of ue raw q s cell]
  by (simp add: ui_control_def h_pause_def h_resume_def h_run_once_def h_wake_def h_retry_def h_skip_def h_delete_def Let_def)

section \<open>The library page\<close>

text \<open>The row of a candidate of the pass.\<close>

definition candidate_item :: "Candidate \<Rightarrow> lib_item" where
  "candidate_item c = \<lparr>li_id = cd_episode_id c, li_movie = cd_is_movie c, li_title = cd_series_title c, li_missing = cd_missing c\<rparr>"

lemma candidate_item_json: "- (2 ^ 63) \<le> cd_episode_id c \<Longrightarrow> cd_episode_id c < 2 ^ 63 \<Longrightarrow> lib_item_of (wanted_item_json c) = candidate_item c"
  by (simp add: lib_item_of_def wanted_item_json_def jobj_def candidate_item_def)

text \<open>With nothing cached the library page lists exactly the candidates of the next pass that match its filters, with
  their languages, once each and in the chosen order.\<close>

theorem library_lists_candidates:
  assumes "library_rows lib v now q s = (s', rows)" and "as_wanted_cache s = None"
    and "\<forall>c \<in> set (discover (as_cfg s) v {}). - (2 ^ 63) \<le> cd_episode_id c \<and> cd_episode_id c < 2 ^ 63"
  shows "\<exists>row. mset rows = mset (map row (filter (\<lambda>c. item_shown q (candidate_item c)) (discover (as_cfg s) v {})))
    \<and> (\<forall>c. lr_missing (row c) = listed (cd_missing c))
    \<and> (if lq_dir q = lit ''desc'' then sorted (rev (map (row_order q) rows)) else sorted (map (row_order q) rows))"
proof -
  let ?cs = "discover (as_cfg s) v {}"
  let ?row = "\<lambda>c. lib_row (load_jsonl (read_row lib) decode_state_entry (as_files s (cf_state_file (as_cfg s))))
    (parse_exclusions (read_row lib) (as_files s (cf_exclusions_file (as_cfg s)))) (candidate_item c)"
  have items: "map lib_item_of (map wanted_item_json ?cs) = map candidate_item ?cs"
    using assms(3) by (simp add: candidate_item_json)
  have "snd (wanted_payload v now s) = fresh_wanted (as_cfg s) v" by (simp add: wanted_payload_def assms(2))
  then have "rows = (if lq_dir q = lit ''desc'' then rev else id)
      (sort_key (row_order q) (map (lib_row (load_jsonl (read_row lib) decode_state_entry (as_files s (cf_state_file (as_cfg s))))
        (parse_exclusions (read_row lib) (as_files s (cf_exclusions_file (as_cfg s))))) (filter (item_shown q) (map lib_item_of (map wanted_item_json ?cs)))))"
    using assms(1) by (auto simp: library_rows_def fresh_wanted_def jobj_def Let_def split: prod.splits)
  note rows = this [unfolded items]
  have "rows = (if lq_dir q = lit ''desc'' then rev else id)
      (sort_key (row_order q) (map ?row (filter (\<lambda>c. item_shown q (candidate_item c)) ?cs)))"
    unfolding rows filter_map map_map by (simp add: comp_def)
  then show ?thesis
    by (intro exI [of _ ?row]) (auto simp: lib_row_def candidate_item_def Let_def rev_map)
qed

section \<open>The address of a view\<close>

text \<open>How a browser or server reads a query: the parts between the ampersands, the text after a name and an
  equals sign, and each percent sign with its two hexadecimal digits as one byte.\<close>

definition hex_digit_value :: "uchar \<Rightarrow> nat" where
  "hex_digit_value c = (if c < 58 then c - 48 else c - 55)"

fun percent_bytes :: "ustr \<Rightarrow> nat list" where
  "percent_bytes [] = []"
| "percent_bytes (c # r) =
     (if c = 37 then (case r of a # b # r' \<Rightarrow> (16 * hex_digit_value a + hex_digit_value b) # percent_bytes r' | _ \<Rightarrow> [c])
      else c # percent_bytes r)"

definition query_value :: "ustr \<Rightarrow> ustr \<Rightarrow> nat list" where
  "query_value k s =
     (case find (\<lambda>part. take (Suc (length k)) part = k @ lit ''='') (split_str (lit ''&'') s) of
        Some part \<Rightarrow> percent_bytes (drop (Suc (length k)) part) | None \<Rightarrow> [])"

lemma hex_digit_value_upper: "d < 16 \<Longrightarrow> hex_digit_value (upper_hex_digit d) = d"
  by (auto simp: hex_digit_value_def upper_hex_digit_def)

lemma percent_bytes_byte: "percent_bytes (urlencode_byte b @ s) = unat b # percent_bytes s"
  using unat_nibbles [of b]
  by (auto simp: urlencode_byte_def unreserved_def hex_digit_value_upper ascii_class_defs is_ascii_alnum_def)

lemma percent_bytes_urlencode: "percent_bytes (urlencode s) = map unat (utf8 s)"
proof -
  have "percent_bytes (concat (map urlencode_byte bs)) = map unat bs" for bs
    by (induction bs) (simp_all add: percent_bytes_byte)
  then show ?thesis by (simp add: urlencode_def)
qed

lemma urlencode_no_amp: "38 \<notin> set (urlencode s)"
proof -
  have "upper_hex_digit d \<noteq> 38" if "d < 16" for d using that by (auto simp: upper_hex_digit_def)
  then have "38 \<notin> set (urlencode_byte b)" for b
    using unat_nibbles [of b] by (auto simp: urlencode_byte_def unreserved_def ascii_class_defs is_ascii_alnum_def)
  then show ?thesis by (simp add: urlencode_def)
qed

lemma to_query_parts:
  "split_str (lit ''&'') (to_query q) =
     (let parts = map (\<lambda>(k, v). k @ lit ''='' @ urlencode v) (filter (\<lambda>(_, v). v \<noteq> [])
         [(lit ''q'', lq_q q), (lit ''scope'', lq_scope q), (lit ''sort'', lq_sort q), (lit ''dir'', lq_dir q)])
      in if parts = [] then [[]] else parts)"
proof -
  let ?parts = "map (\<lambda>(k, v). k @ lit ''='' @ urlencode v) (filter (\<lambda>(_, v). v \<noteq> [])
         [(lit ''q'', lq_q q), (lit ''scope'', lq_scope q), (lit ''sort'', lq_sort q), (lit ''dir'', lq_dir q)])"
  have amp: "lit ''&'' = [38]" by (simp add: lit_eval)
  have "\<forall>p \<in> set ?parts. 38 \<notin> set p" using urlencode_no_amp by (auto simp: lit_eval)
  then have "split_str [38] (join [38] ps) = (if ps = [] then [[]] else ps)" if "ps = ?parts" for ps
    using that by (cases "ps = []") (simp_all add: split_char_join split_str_end)
  then show ?thesis unfolding to_query_def amp Let_def by blast
qed

text \<open>The address an action leads back to keeps the view: reading it as a query gives for each of the four filters
  the bytes of its value, whatever characters it has, and nothing for a filter that is not set.\<close>

theorem view_address_roundtrip:
  "query_value (lit ''q'') (to_query q) = map unat (utf8 (lq_q q))
   \<and> query_value (lit ''scope'') (to_query q) = map unat (utf8 (lq_scope q))
   \<and> query_value (lit ''sort'') (to_query q) = map unat (utf8 (lq_sort q))
   \<and> query_value (lit ''dir'') (to_query q) = map unat (utf8 (lq_dir q))"
  unfolding query_value_def to_query_parts
  by (simp add: Let_def lit_eval percent_bytes_urlencode)

section \<open>Witnesses\<close>

definition plain_view :: ready_view where
  "plain_view = \<lparr>rv_is_dir = (\<lambda>_. True), rv_mountinfo = None, rv_has_entry = (\<lambda>_. True), rv_can_create = (\<lambda>_. True),
     rv_can_open = (\<lambda>_. True), rv_pid = 1\<rparr>"

definition plain_ui :: ui_env where
  "plain_ui = \<lparr>ue_U = ascii_db, ue_lib = sample_lib, ue_vars = (\<lambda>_. None), ue_ready = plain_view, ue_mono = 0, ue_now = 0,
     ue_pass = idle_view, ue_f64 = (\<lambda>_. None), ue_cpus = 1, ue_io = ok_io, ue_overrides = True\<rparr>"

definition key_field :: Field where
  "key_field = field ''media'' ''SONARR_API_KEY'' ''Sonarr API key'' FSecret (lit '''')"

definition key_json :: json_lib where
  "key_json = \<lparr>parse_json = (\<lambda>s. if s = lit ''j'' then Some (JObj [(lit ''SONARR_API_KEY'', JStr (lit ''k''))]) else None),
     print_json = (\<lambda>_. lit ''j'')\<rparr>"

definition web_key_env :: config_env where
  "web_key_env = \<lparr>ce_vars = [], ce_file = (\<lambda>_. None), ce_json = key_json\<rparr>"

lemma key_facts:
  "key_field \<in> set FIELDS" "fd_key key_field = lit ''SONARR_API_KEY''" "fd_kind key_field = FSecret"
  "value_requirement f64_of (lit ''SONARR_API_KEY'') v = None"
  "trim (lit ''k'') = lit ''k''"
  by (simp_all add: key_field_def FIELDS_def field_def value_requirement_def Let_def)
    (simp add: trim_def trim_start_def trim_end_def lit_eval is_ws_def)


theorem library_lists_candidates_witness:
  "\<exists>rows s'. library_rows sample_lib idle_view 0 no_query plain_app = (s', rows) \<and> length rows = length (discover sample_cfg idle_view {})"
proof -
  have p: "as_wanted_cache plain_app = None" "as_cfg plain_app = sample_cfg" by (simp_all add: plain_app_def app_new_def)
  obtain s' rows where r: "library_rows sample_lib idle_view 0 no_query plain_app = (s', rows)" by fastforce
  have "set (discover sample_cfg idle_view {}) \<subseteq> {c. cd_episode_id c = 7}"
    by (auto simp: discover_def idle_view_def List.map_filter_simps series_candidate_def Let_def split: if_splits option.splits)
  then have "\<forall>c \<in> set (discover (as_cfg plain_app) idle_view {}). - (2 ^ 63) \<le> cd_episode_id c \<and> cd_episode_id c < 2 ^ 63"
    by (auto simp: p)
  from library_lists_candidates [OF r p(1) this] obtain row where
    "mset rows = mset (map row (filter (\<lambda>c. item_shown no_query (candidate_item c)) (discover sample_cfg idle_view {})))"
    by (auto simp: p)
  moreover have "item_shown no_query it" for it by (simp add: item_shown_def no_query_def lowercase_def lit_eval)
  ultimately show ?thesis using r by (metis (no_types, lifting) filter_True length_map size_mset)
qed

end
