(* ===== verification/Jimaku.thy ===== *)
theory Jimaku
  imports Config
begin

text \<open>
  The client of the subtitle site in \<open>src/jimaku.rs\<close>: its settings, the requests it sends, the gate that
  spaces its calls and the download of a file. What the network answers, the clock and the file operations
  are parameters.
\<close>

section \<open>The client\<close>

definition anilist_url_default :: ustr where "anilist_url_default = lit ''https://graphql.anilist.co''"

record Jimaku =
  jk_key :: ustr
  jk_base :: ustr
  jk_anilist_url :: ustr
  jk_pace_ms :: nat
  jk_anilist_cache :: ustr
  jk_api_timeout :: nat
  jk_anilist_timeout :: nat

definition env_u64 :: "environment \<Rightarrow> ustr \<Rightarrow> nat \<Rightarrow> nat" where
  "env_u64 env k d = (case Option.bind (env_str env k) (parse_unsigned 64) of Some n \<Rightarrow> n | None \<Rightarrow> d)"

definition or_default :: "ustr option \<Rightarrow> ustr \<Rightarrow> ustr" where
  "or_default v d = (case v of Some s \<Rightarrow> s | None \<Rightarrow> d)"

definition anilist_cache_default :: "environment \<Rightarrow> ustr" where
  "anilist_cache_default env =
     (case env_str env (lit ''HOME'') of
        Some h \<Rightarrow> path_join (path_join (path_join h (lit ''.config'')) (lit ''asr-pipeline'')) (lit ''anilist_cache.json'')
      | None \<Rightarrow> lit ''anilist_cache.json'')"

definition Jimaku_new :: "environment \<Rightarrow> ustr \<Rightarrow> Jimaku" where
  "Jimaku_new env k =
     \<lparr>jk_key = trim k, jk_base = or_default (env_str env (lit ''JIMAKU_BASE_URL'')) jimaku_base_url,
      jk_anilist_url = or_default (env_str env (lit ''ANILIST_BASE_URL'')) anilist_url_default,
      jk_pace_ms = env_u64 env (lit ''JIMAKU_CALL_SLEEP_MS'') 500,
      jk_anilist_cache = or_default (env_str env (lit ''ANILIST_CACHE'')) (anilist_cache_default env),
      jk_api_timeout = env_u64 env (lit ''JIMAKU_TIMEOUT'') 30,
      jk_anilist_timeout = env_u64 env (lit ''ANILIST_TIMEOUT'') 30\<rparr>"

definition with_cache :: "Jimaku \<Rightarrow> ustr \<Rightarrow> Jimaku" where
  "with_cache c p = c\<lparr>jk_anilist_cache := p\<rparr>"

definition client_enabled :: "Jimaku \<Rightarrow> bool" where
  "client_enabled c \<longleftrightarrow> jk_key c \<noteq> []"

section \<open>Requests\<close>

text \<open>A request: its address, its query, its headers and its deadline in seconds.\<close>

record site_request =
  sr_url :: ustr
  sr_query :: "(ustr \<times> ustr) list"
  sr_headers :: "(ustr \<times> ustr) list"
  sr_timeout :: nat

definition auth :: "Jimaku \<Rightarrow> (ustr \<times> ustr) list" where
  "auth c = [(lit ''Authorization'', jk_key c), (lit ''Accept'', lit ''application/json'')]"

text \<open>\<open>reset_after\<close>: the delay a reply's headers ask for, the site's own header first.\<close>

definition reset_after :: "(ustr \<Rightarrow> ustr option) \<Rightarrow> ustr" where
  "reset_after headers = or_default (first_some (headers (lit ''x-ratelimit-reset-after'')) (headers (lit ''retry-after''))) []"

record site_reply =
  rp_status :: nat
  rp_headers :: "ustr \<Rightarrow> ustr option"
  rp_body :: "bytes option"

type_synonym site_net = "site_request \<Rightarrow> site_reply option"

definition reply_of :: "site_reply option \<Rightarrow> jimaku_reply" where
  "reply_of r = (case r of None \<Rightarrow> JTransport | Some r \<Rightarrow> JReply (rp_status r) (reset_after (rp_headers r)) (rp_body r))"

definition search_by_anilist :: "Jimaku \<Rightarrow> site_net \<Rightarrow> (bytes \<Rightarrow> json option) \<Rightarrow> int \<Rightarrow> JimakuError + json list" where
  "search_by_anilist c net slice_json i =
     get_json slice_json (reply_of (net \<lparr>sr_url = jk_base c @ lit ''/entries/search'', sr_query = [(lit ''anilist_id'', dec_int i)],
       sr_headers = auth c, sr_timeout = jk_api_timeout c\<rparr>))"

definition list_entry_files :: "Jimaku \<Rightarrow> site_net \<Rightarrow> (bytes \<Rightarrow> json option) \<Rightarrow> int \<Rightarrow> int option \<Rightarrow> JimakuError + json list" where
  "list_entry_files c net slice_json e ep =
     get_json slice_json (reply_of (net \<lparr>sr_url = jk_base c @ lit ''/entries/'' @ dec_int e @ lit ''/files'',
       sr_query = (case ep of Some n \<Rightarrow> [(lit ''episode'', dec_int n)] | None \<Rightarrow> []),
       sr_headers = auth c, sr_timeout = jk_api_timeout c\<rparr>))"

section \<open>The gate\<close>

text \<open>Calls of any worker pass one gate (none, when the interval is zero): a worker holds it from the moment it computes the wait until it has
  waited and stamped the time. Times are nanoseconds of the monotonic clock; the first stamp is one interval in the past where the
  clock allows. \<open>ga_calls\<close> are the times at which calls were let through, the last one first.\<close>

record gate =
  ga_now :: nat
  ga_last :: nat
  ga_held :: "nat option"
  ga_calls :: "nat list"

definition gate_new :: "nat \<Rightarrow> nat \<Rightarrow> gate" where
  "gate_new pace now =
     \<lparr>ga_now = now, ga_last = (if pace \<le> now then now - pace else now), ga_held = None, ga_calls = []\<rparr>"

definition gate_enter :: "nat \<Rightarrow> gate \<Rightarrow> gate" where
  "gate_enter pace g = g\<lparr>ga_held := Some (max (ga_now g) (ga_last g + pace))\<rparr>"

definition gate_pass :: "gate \<Rightarrow> gate" where
  "gate_pass g = g\<lparr>ga_last := ga_now g, ga_held := None, ga_calls := ga_now g # ga_calls g\<rparr>"

inductive gate_step :: "nat \<Rightarrow> gate \<Rightarrow> gate \<Rightarrow> bool" for pace where
  ticks: "ga_now g \<le> t \<Longrightarrow> gate_step pace g (g\<lparr>ga_now := t\<rparr>)"
| enters: "ga_held g = None \<Longrightarrow> gate_step pace g (gate_enter pace g)"
| passes: "ga_held g = Some t \<Longrightarrow> t \<le> ga_now g \<Longrightarrow> gate_step pace g (gate_pass g)"

inductive_cases gate_stepE: "gate_step pace g h"

section \<open>Downloads\<close>

text \<open>How a download ends; a stream that breaks off has stored a first part, and the removal of that part may
  fail as well.\<close>

datatype download_out =
    ParentDirFails
  | NoReply
  | Answered nat ustr download_body
and download_body = CreateFails | Breaks nat bool | RenameFails bool | Downloaded

datatype download_error = DlParent | DlRequest | DlRateLimited ustr | DlStatus nat | DlCreate | DlStream

definition part_of :: "ustr \<Rightarrow> ustr" where
  "part_of dest = dest @ lit ''.part''"

fun store_body :: "bytes \<Rightarrow> ustr \<Rightarrow> download_body \<Rightarrow> disk \<Rightarrow> disk \<times> (download_error + unit)" where
  "store_body body dest CreateFails d = (d, Inl DlCreate)"
| "store_body body dest (Breaks n removed) d =
     (d(part_of dest := if removed then None else Some (DFile (take n body))), Inl DlStream)"
| "store_body body dest (RenameFails removed) d =
     (d(part_of dest := if removed then None else Some (DFile body)), Inl DlStream)"
| "store_body body dest Downloaded d = (d(part_of dest := None, dest \<mapsto> DFile body), Inr ())"

definition download :: "download_out \<Rightarrow> bytes \<Rightarrow> ustr \<Rightarrow> disk \<Rightarrow> disk \<times> (download_error + unit)" where
  "download out body dest d =
     (case out of
        ParentDirFails \<Rightarrow> (d, Inl DlParent)
      | NoReply \<Rightarrow> (d, Inl DlRequest)
      | Answered code delay b \<Rightarrow>
          if code = 429 then (d, Inl (DlRateLimited delay))
          else if 400 \<le> code \<and> code < 600 then (d, Inl (DlStatus code))
          else store_body body dest b d)"

section \<open>Properties\<close>

text \<open>Every two successive calls are an interval apart, the last stamp is the last call's, and whoever holds the
  gate waits until an interval after it.\<close>

fun spaced :: "nat \<Rightarrow> nat list \<Rightarrow> bool" where
  "spaced pace (b # a # r) \<longleftrightarrow> a + pace \<le> b \<and> spaced pace (a # r)"
| "spaced pace _ \<longleftrightarrow> True"

definition gate_inv :: "nat \<Rightarrow> gate \<Rightarrow> bool" where
  "gate_inv pace g \<longleftrightarrow> spaced pace (ga_calls g) \<and> (ga_calls g \<noteq> [] \<longrightarrow> ga_last g = hd (ga_calls g))
     \<and> (\<forall>t. ga_held g = Some t \<longrightarrow> ga_last g + pace \<le> t)"

lemma spaced_Cons: "spaced pace cs \<Longrightarrow> (cs \<noteq> [] \<Longrightarrow> hd cs + pace \<le> b) \<Longrightarrow> spaced pace (b # cs)"
  by (cases cs) simp_all

lemma gate_pass_inv: "gate_inv pace g \<Longrightarrow> ga_held g = Some t \<Longrightarrow> t \<le> ga_now g \<Longrightarrow> gate_inv pace (gate_pass g)"
  by (auto simp: gate_inv_def gate_pass_def intro!: spaced_Cons)

lemma gate_step_inv: "gate_step pace g h \<Longrightarrow> gate_inv pace g \<Longrightarrow> gate_inv pace h"
  by (elim gate_stepE) (auto simp: gate_enter_def gate_pass_inv, auto simp: gate_inv_def)

interpretation site_gate: step_system "gate_step pace" "\<lambda>g. \<exists>now. g = gate_new pace now" "gate_inv pace" for pace
proof
  show "gate_inv pace g" if "\<exists>now. g = gate_new pace now" for g using that by (auto simp: gate_inv_def gate_new_def)
qed (rule gate_step_inv)

lemma spaced_within:
  "spaced pace cs \<Longrightarrow> cs \<noteq> [] \<Longrightarrow> last cs + (length cs - 1) * pace \<le> hd cs"
  by (induction pace cs rule: spaced.induct) (auto simp: algebra_simps)

lemma spaced_prefix: "spaced pace (xs @ ys) \<Longrightarrow> spaced pace xs"
  by (induction pace xs rule: spaced.induct) simp_all

lemma spaced_tl: "spaced pace (c # cs) \<Longrightarrow> spaced pace cs"
  by (cases cs) simp_all

lemma spaced_suffix: "spaced pace (xs @ ys) \<Longrightarrow> spaced pace ys"
  by (induction xs) (auto dest: spaced_tl)

text \<open>C38: whatever the workers and the clock do, the calls to the site are spaced: between a call and the
  \<open>n\<close>-th one after it lie at least \<open>n\<close> intervals, so the client never sends a burst. (The default interval
  of half a second allows 120 calls a minute.)\<close>

theorem site_calls_spaced:
  assumes "(gate_step pace)\<^sup>*\<^sup>* (gate_new pace now) g" and "i + n < length (ga_calls g)"
  shows "ga_calls g ! (i + n) + n * pace \<le> ga_calls g ! i"
proof -
  let ?cs = "take (Suc n) (drop i (ga_calls g))"
  have "gate_inv pace g" by (rule site_gate.reachable_kept [OF _ assms(1)]) blast
  then have "spaced pace (take i (ga_calls g) @ drop i (ga_calls g))" by (simp add: gate_inv_def)
  then have "spaced pace (drop i (ga_calls g))" by (rule spaced_suffix)
  then have "spaced pace (?cs @ drop (Suc n) (drop i (ga_calls g)))" by (simp only: append_take_drop_id)
  then have s: "spaced pace ?cs" by (rule spaced_prefix)
  have len: "length ?cs = Suc n" using assms(2) by simp
  then have "last ?cs = ga_calls g ! (i + n)" "hd ?cs = ga_calls g ! i" "?cs \<noteq> []"
    using assms(2) by (auto simp: last_conv_nth hd_conv_nth)
  with spaced_within [OF s] len show ?thesis by simp
qed

text \<open>A download is all or nothing: under its final name a file is as before or has the whole body, only the
  latter when the download reports success, and apart from the file and its temporary name
  nothing changes. When a failure leaves something under the temporary name that was not there, its removal has failed
  too.\<close>

theorem download_all_or_nothing:
  assumes "download out body dest d = (d', r)"
  shows "(if r = Inr () then d' dest = Some (DFile body) \<and> d' (part_of dest) = None else d' dest = d dest)
    \<and> (p \<noteq> dest \<and> p \<noteq> part_of dest \<longrightarrow> d' p = d p)
    \<and> (r \<noteq> Inr () \<and> d' (part_of dest) \<notin> {None, d (part_of dest)} \<longrightarrow>
        (\<exists>code delay n. out \<in> {Answered code delay (Breaks n False), Answered code delay (RenameFails False)}))"
proof -
  have part: "part_of dest \<noteq> dest" by (simp add: part_of_def)
  show ?thesis
  proof (cases out)
    case (Answered code delay b)
    then show ?thesis using assms part
      by (cases b) (auto simp: download_def split: if_splits)
  qed (use assms in \<open>auto simp: download_def\<close>)
qed

section \<open>Witnesses\<close>

theorem site_calls_spaced_witness:
  "ga_calls (gate_pass (gate_enter 5 (gate_new 5 7))) = [7]
   \<and> ga_calls (gate_pass (gate_enter 5 (gate_new 5 7))) ! (0 + 0) + 0 * 5 \<le> 7"
proof -
  let ?g = "gate_new 5 7"
  have enter: "gate_step 5 ?g (gate_enter 5 ?g)" by (rule gate_step.enters) (simp add: gate_new_def)
  have pass: "gate_step 5 (gate_enter 5 ?g) (gate_pass (gate_enter 5 ?g))"
    by (rule gate_step.passes) (auto simp: gate_enter_def gate_new_def)
  have run: "(gate_step 5)\<^sup>*\<^sup>* ?g (gate_pass (gate_enter 5 ?g))"
    by (rule converse_rtranclp_into_rtranclp, rule enter, rule r_into_rtranclp, rule pass)
  have calls: "ga_calls (gate_pass (gate_enter 5 ?g)) = [7]" by (simp add: gate_pass_def gate_enter_def gate_new_def)
  show ?thesis using site_calls_spaced [OF run, of 0 0] calls by simp
qed

theorem download_all_or_nothing_witness:
  "fst (download (Answered 200 [] (Breaks 3 True)) [1, 2, 3, 4] (lit ''a'') (\<lambda>_. None)) (lit ''a'') = None"
  using download_all_or_nothing [of "Answered 200 [] (Breaks 3 True)" "[1, 2, 3, 4]" "lit ''a''" "\<lambda>_. None"] 
  by (simp add: download_def)

end
