(* ===== verification/Child.thy ===== *)
theory Child
  imports Config
begin

text \<open>
  \<open>src/process.rs\<close> and the tool invocations of \<open>src/asr.rs\<close> and \<open>src/main.rs\<close>: the bounded specification of
  a media tool, its environment, its scratch directory and the outcomes of a run. What the tool does is a
  parameter.
\<close>

section \<open>Specifications\<close>

record ToolPaths =
  tp_ffmpeg :: ustr
  tp_ffprobe :: ustr

definition tools_production :: ToolPaths where
  "tools_production = \<lparr>tp_ffmpeg = lit ''/usr/bin/ffmpeg'', tp_ffprobe = lit ''/usr/bin/ffprobe''\<rparr>"

datatype ChildProgram = Ffmpeg | Ffprobe

record MediaChildSpec =
  sp_program :: ChildProgram
  sp_args :: "ustr list"
  sp_timeout :: nat

datatype ChildTermination = Exited int | Signalled int | TimedOut

record ChildOutput =
  co_stdout :: bytes
  co_stderr :: bytes
  co_termination :: ChildTermination

datatype ChildError = CInvalidSpec | CIo | CTimeout | COutputLimit

definition MAX_CHILD_ARGS :: nat where "MAX_CHILD_ARGS = 128"

definition MediaChildSpec_new :: "ChildProgram \<Rightarrow> ustr list \<Rightarrow> nat \<Rightarrow> ChildError + MediaChildSpec" where
  "MediaChildSpec_new program args timeout =
     (if MAX_CHILD_ARGS < length args then Inl CInvalidSpec
      else Inr \<lparr>sp_program = program, sp_args = args, sp_timeout = timeout\<rparr>)"

definition child_environment :: "ustr \<Rightarrow> (ustr \<times> ustr) list" where
  "child_environment tmpdir =
     [(lit ''LANG'', lit ''C''), (lit ''LC_ALL'', lit ''C''), (lit ''HOME'', lit ''/nonexistent''), (lit ''TMPDIR'', tmpdir)]"

section \<open>A run\<close>

text \<open>What a run meets: the process and the wall clock that name its scratch directory, whether that can be made and
  removed, and what the program does when it is started with a path, arguments and an environment.\<close>

datatype tool_end = SpawnFails | Runs nat bytes bytes "int option"

record child_host =
  ch_tmp :: ustr
  ch_pid :: nat
  ch_nanos :: "nat option"
  ch_mkdir :: bool
  ch_rmdir :: bool
  ch_tool :: "ustr \<Rightarrow> ustr list \<Rightarrow> (ustr \<times> ustr) list \<Rightarrow> tool_end"

definition MAX_OUTPUT :: nat where "MAX_OUTPUT = 1024 * 1024"

definition program_path :: "ToolPaths \<Rightarrow> ChildProgram \<Rightarrow> ustr" where
  "program_path tools p = (case p of Ffmpeg \<Rightarrow> tp_ffmpeg tools | Ffprobe \<Rightarrow> tp_ffprobe tools)"

definition scratch_dir :: "child_host \<Rightarrow> nat \<Rightarrow> ustr" where
  "scratch_dir h nanos = path_join (ch_tmp h) (lit ''asrsub-child-'' @ dec (ch_pid h) @ lit ''-'' @ dec nanos)"

text \<open>The time a tool takes, in seconds, is compared with the deadline; an exit without a code is a signal.\<close>

definition tool_output :: "MediaChildSpec \<Rightarrow> tool_end \<Rightarrow> ChildError + ChildOutput" where
  "tool_output spec e =
     (case e of
        SpawnFails \<Rightarrow> Inl CIo
      | Runs secs out err code \<Rightarrow>
          if sp_timeout spec < secs then Inl CTimeout
          else if MAX_OUTPUT < length out \<or> MAX_OUTPUT < length err then Inl COutputLimit
          else Inr \<lparr>co_stdout = out, co_stderr = err,
                    co_termination = (case code of Some c \<Rightarrow> Exited c | None \<Rightarrow> Signalled (-1))\<rparr>)"

text \<open>The scratch directory is made before the run and removed after it, whatever its outcome.\<close>

definition run_child :: "child_host \<Rightarrow> ToolPaths \<Rightarrow> MediaChildSpec \<Rightarrow> ustr set \<Rightarrow> ustr set \<times> (ChildError + ChildOutput)" where
  "run_child h tools spec dirs =
     (case ch_nanos h of None \<Rightarrow> (dirs, Inl CIo)
      | Some nanos \<Rightarrow>
          (let tmp = scratch_dir h nanos in
           if \<not> ch_mkdir h \<or> tmp \<in> dirs then (dirs, Inl CIo)
           else ((if ch_rmdir h then dirs else insert tmp dirs),
                 tool_output spec (ch_tool h (program_path tools (sp_program spec)) (sp_args spec) (child_environment tmp)))))"

section \<open>Invocations\<close>

definition probe_args :: "ustr \<Rightarrow> ustr list" where
  "probe_args path = map lit [''-v'', ''error'', ''-show_entries'',
     ''stream=index,codec_name,codec_type:stream_tags=language,title:format=duration,bit_rate'', ''-of'', ''json''] @ [path]"

definition extract_audio_args :: "ustr \<Rightarrow> nat \<Rightarrow> ustr \<Rightarrow> ustr list" where
  "extract_audio_args media stream dest =
     map lit [''-v'', ''error'', ''-y'', ''-i''] @ [media, lit ''-map'', lit ''0:'' @ dec stream]
     @ map lit [''-ar'', ''16000'', ''-ac'', ''1'', ''-c:a'', ''libmp3lame'', ''-b:a'', ''64k''] @ [dest]"

definition convert_args :: "ustr \<Rightarrow> ustr \<Rightarrow> ustr list" where
  "convert_args input output = map lit [''-v'', ''error'', ''-y'', ''-i''] @ [input, output]"

definition embedded_probe_args :: "ustr \<Rightarrow> ustr list" where
  "embedded_probe_args media = map lit [''-v'', ''error'', ''-show_entries'',
     ''stream=index,codec_type,codec_name:stream_tags=language'', ''-of'', ''json''] @ [media]"

definition embedded_extract_args :: "ustr \<Rightarrow> nat \<Rightarrow> ustr \<Rightarrow> ustr list" where
  "embedded_extract_args media stream dest =
     map lit [''-v'', ''error'', ''-y'', ''-i''] @ [media, lit ''-map'', lit ''0:'' @ dec stream, dest]"

datatype tool_failure = ParentDir | BadInvocation | ToolFailed ChildError | ToolExit bytes

definition run_tool :: "child_host \<Rightarrow> ToolPaths \<Rightarrow> ChildProgram \<Rightarrow> ustr list \<Rightarrow> nat \<Rightarrow> ustr set \<Rightarrow> ustr set \<times> (tool_failure + ChildOutput)" where
  "run_tool h tools program args timeout dirs =
     (case MediaChildSpec_new program args timeout of
        Inl _ \<Rightarrow> (dirs, Inl BadInvocation)
      | Inr spec \<Rightarrow>
          (case run_child h tools spec dirs of
             (dirs', Inl e) \<Rightarrow> (dirs', Inl (ToolFailed e)) | (dirs', Inr out) \<Rightarrow> (dirs', Inr out)))"

definition extract_audio :: "child_host \<Rightarrow> ToolPaths \<Rightarrow> bool \<Rightarrow> ustr \<Rightarrow> nat \<Rightarrow> ustr \<Rightarrow> ustr set \<Rightarrow> ustr set \<times> (tool_failure + unit)" where
  "extract_audio h tools parent_ok media stream dest dirs =
     (if \<not> parent_ok then (dirs, Inl ParentDir)
      else case run_tool h tools Ffmpeg (extract_audio_args media stream dest) 600 dirs of
        (dirs', Inl e) \<Rightarrow> (dirs', Inl e)
      | (dirs', Inr out) \<Rightarrow>
          if co_termination out = Exited 0 then (dirs', Inr ()) else (dirs', Inl (ToolExit (co_stderr out))))"

definition convert_subtitle :: "child_host \<Rightarrow> ToolPaths \<Rightarrow> ustr \<Rightarrow> ustr \<Rightarrow> ustr set \<Rightarrow> ustr set \<times> (tool_failure + bool)" where
  "convert_subtitle h tools input output dirs =
     (case run_tool h tools Ffmpeg (convert_args input output) 600 dirs of
        (dirs', Inl e) \<Rightarrow> (dirs', Inl e)
      | (dirs', Inr out) \<Rightarrow> (dirs', Inr (co_termination out = Exited 0)))"

section \<open>Properties\<close>

lemma spec_accepted: "length args \<le> 128 \<Longrightarrow> MediaChildSpec_new p args t = Inr \<lparr>sp_program = p, sp_args = args, sp_timeout = t\<rparr>"
  by (simp add: MediaChildSpec_new_def MAX_CHILD_ARGS_def)

text \<open>The service's own invocations are within the bound: their error branch is never taken.\<close>

lemma invocations_accepted:
  "length (probe_args a) \<le> 128" "length (extract_audio_args a n b) \<le> 128" "length (convert_args a b) \<le> 128"
  "length (embedded_probe_args a) \<le> 128" "length (embedded_extract_args a n b) \<le> 128"
  by (simp_all add: probe_args_def extract_audio_args_def convert_args_def embedded_probe_args_def embedded_extract_args_def)

lemma tool_output_Inr:
  "tool_output spec e = Inr out \<Longrightarrow> length (co_stdout out) \<le> 2 ^ 20 \<and> length (co_stderr out) \<le> 2 ^ 20
     \<and> co_termination out \<noteq> TimedOut \<and> (\<exists>secs code. secs \<le> sp_timeout spec \<and> e = Runs secs (co_stdout out) (co_stderr out) code)"
  by (auto simp: tool_output_def MAX_OUTPUT_def split: tool_end.splits if_splits option.splits)

lemma tool_output_Inl: "tool_output spec e = Inl err \<Longrightarrow> err \<noteq> CInvalidSpec"
  by (auto simp: tool_output_def split: tool_end.splits if_splits)

text \<open>A run of a tool leaves no directory behind when the removal works, and its output is bounded and in
  time. The child sees the four variables of its environment and nothing of the service's, so an
  accepted output is a function of the specification and the scratch directory alone.\<close>

theorem child_bounded:
  assumes "run_child h tools spec dirs = (dirs', r)"
  shows "(ch_rmdir h \<longrightarrow> dirs' = dirs)
    \<and> (case r of Inl e \<Rightarrow> e \<noteq> CInvalidSpec
       | Inr out \<Rightarrow> length (co_stdout out) \<le> 2 ^ 20 \<and> length (co_stderr out) \<le> 2 ^ 20 \<and> co_termination out \<noteq> TimedOut
           \<and> (\<exists>nanos secs code. scratch_dir h nanos \<notin> dirs \<and> secs \<le> sp_timeout spec
               \<and> ch_tool h (program_path tools (sp_program spec)) (sp_args spec) (child_environment (scratch_dir h nanos))
                   = Runs secs (co_stdout out) (co_stderr out) code))"
proof (cases r)
  case (Inl e)
  then show ?thesis using assms tool_output_Inl by (auto simp: run_child_def Let_def split: option.splits if_splits)
next
  case (Inr out)
  then obtain nanos where nanos: "ch_nanos h = Some nanos"
    using assms by (cases "ch_nanos h") (simp_all add: run_child_def)
  let ?tmp = "scratch_dir h nanos"
  have free: "ch_mkdir h \<and> ?tmp \<notin> dirs"
    using assms Inr nanos by (cases "\<not> ch_mkdir h \<or> ?tmp \<in> dirs") (simp_all add: run_child_def Let_def)
  then have n: "?tmp \<notin> dirs" "dirs' = (if ch_rmdir h then dirs else insert ?tmp dirs)"
      "tool_output spec (ch_tool h (program_path tools (sp_program spec)) (sp_args spec) (child_environment ?tmp)) = Inr out"
    using assms Inr nanos by (simp_all add: run_child_def Let_def)
  note out = tool_output_Inr [OF n(3)]
  have "ch_rmdir h \<longrightarrow> dirs' = dirs" using n(2) by simp
  moreover have "\<exists>nanos secs code. scratch_dir h nanos \<notin> dirs \<and> secs \<le> sp_timeout spec
      \<and> ch_tool h (program_path tools (sp_program spec)) (sp_args spec) (child_environment (scratch_dir h nanos))
          = Runs secs (co_stdout out) (co_stderr out) code"
    using out n(1) by blast
  ultimately show ?thesis using out unfolding Inr sum.case by blast
qed

end
