(* ===== verification/Control.thy ===== *)
theory Control
  imports Ledger Ladder
begin

text \<open>
  \<open>src/state_control.rs\<close> with \<open>src/discord_fs.rs\<close> and \<open>src/discord_state_local.rs\<close>: the command that takes a
  snapshot of the notification state, restores one and resets delivery. It opens the lane like any other
  process and keeps its snapshots in the directory of a deployment transaction.
\<close>

section \<open>Paths\<close>

definition PRODUCTION_STATE_ROOT :: ustr where "PRODUCTION_STATE_ROOT = lit ''/var/lib/asrsub/state''"

text \<open>A path equal to the root is absolute and has no dot components.\<close>

definition state_root_from_path :: "ustr \<Rightarrow> NotificationStateError + ustr" where
  "state_root_from_path p = (if p = PRODUCTION_STATE_ROOT then Inr p else Inl InvalidInput)"

definition state_paths :: "ustr \<Rightarrow> ustr \<times> ustr" where
  "state_paths parent =
     (parent @ lit ''/discord-notifications/state.json'', parent @ lit ''/discord-notifications/state.json.lock'')"

definition validate_filesystem_token :: "ustr \<Rightarrow> bool" where
  "validate_filesystem_token t \<longleftrightarrow> t \<in> set (map lit [''ext4'', ''xfs'', ''btrfs'', ''zfs''])"

definition transaction_path :: "ustr \<Rightarrow> ustr \<Rightarrow> ustr" where
  "transaction_path nonce name = lit ''/var/lib/asrsub/deploy-state/transactions/'' @ nonce @ lit ''/'' @ name"

section \<open>Arguments\<close>

datatype control_error =
    OperationRequired
  | ValueRequired
  | UnknownOption
  | BadNumber
  | InvalidNonce
  | InvalidHash
  | SnapshotDescriptors
  | RestoreArguments
  | ResetArguments
  | UnknownOperation
  | StoreFails NotificationStateError
  | StateFails NotificationStateError
  | TransactionFails

record control_args =
  ct_nonce :: "ustr option"
  ct_hash :: "ustr option"
  ct_generation :: "u64 option"
  ct_fds :: "ustr set"

definition no_args :: control_args where
  "no_args = \<lparr>ct_nonce = None, ct_hash = None, ct_generation = None, ct_fds = {}\<rparr>"

definition parse_i32 :: "ustr \<Rightarrow> int option" where
  "parse_i32 s = (case parse_i64 s of Some i \<Rightarrow> if - (2 ^ 31) \<le> i \<and> i < 2 ^ 31 then Some i else None | None \<Rightarrow> None)"

definition parse_option :: "ustr \<Rightarrow> ustr \<Rightarrow> control_args \<Rightarrow> control_error + control_args" where
  "parse_option flag value a =
     (if flag = lit ''--transaction-nonce'' then Inr (a\<lparr>ct_nonce := Some value\<rparr>)
      else if flag \<in> {lit ''--expected-current-state-hash'', lit ''--expected-state-hash''} then Inr (a\<lparr>ct_hash := Some value\<rparr>)
      else if flag = lit ''--expected-current-state-generation'' then
        (case parse_unsigned 64 value of None \<Rightarrow> Inl BadNumber | Some n \<Rightarrow> Inr (a\<lparr>ct_generation := Some (of_nat n)\<rparr>))
      else if flag \<in> {lit ''--lock-fd'', lit ''--lock-proof-fd''} then
        (case parse_i32 value of None \<Rightarrow> Inl BadNumber | Some _ \<Rightarrow> Inr (a\<lparr>ct_fds := insert flag (ct_fds a)\<rparr>))
      else Inl UnknownOption)"

fun parse_options :: "ustr list \<Rightarrow> control_args \<Rightarrow> control_error + control_args" where
  "parse_options [] a = Inr a"
| "parse_options [_] a = Inl ValueRequired"
| "parse_options (flag # value # rest) a =
     (case parse_option flag value a of Inl e \<Rightarrow> Inl e | Inr a' \<Rightarrow> parse_options rest a')"

definition lower_hex_byte :: "byte \<Rightarrow> bool" where
  "lower_hex_byte b \<longleftrightarrow> is_ascii_digit (unat b) \<or> 97 \<le> unat b \<and> unat b \<le> 102"

text \<open>\<open>valid_nonce\<close>, and the same test for a hash. The bytes of a hash are only read after that test.\<close>

definition valid_nonce :: "ustr \<Rightarrow> bool" where
  "valid_nonce v \<longleftrightarrow> length (utf8 v) = 64 \<and> list_all lower_hex_byte (utf8 v)"

definition hash_bytes :: "ustr \<Rightarrow> bytes option" where
  "hash_bytes v = (if length (utf8 v) \<noteq> 64 then None else decode_hex v)"

definition argument_error :: "ustr \<Rightarrow> control_args \<Rightarrow> control_error option" where
  "argument_error op a =
     (if \<exists>n. ct_nonce a = Some n \<and> \<not> valid_nonce n then Some InvalidNonce
      else if \<exists>h. ct_hash a = Some h \<and> \<not> valid_nonce h then Some InvalidHash
      else if op \<in> {lit ''snapshot'', lit ''post-snapshot''} then
        (if ct_nonce a = None \<or> card (ct_fds a) \<noteq> 2 then Some SnapshotDescriptors else None)
      else if op = lit ''restore'' then
        (if ct_nonce a = None \<or> ct_hash a = None \<or> ct_generation a = None \<or> card (ct_fds a) \<noteq> 2 then Some RestoreArguments else None)
      else if op = lit ''reset'' then
        (if ct_hash a = None \<or> ct_fds a \<noteq> {} \<and> card (ct_fds a) \<noteq> 2 then Some ResetArguments else None)
      else Some UnknownOperation)"

section \<open>Operations\<close>

text \<open>The state file and the quarantined ones, and the files of the transactions.\<close>

record control_state =
  cs_file :: "bytes option"
  cs_quarantined :: "(ustr \<times> bytes) list"
  cs_tx :: "ustr \<rightharpoonup> bytes"

datatype tx_write = TxDone | TxDirFails | TxOpenFails | TxBreaks nat

record control_io =
  co_setup :: bool
  co_readable :: bool
  co_moved :: bool
  co_open :: persist_io
  co_write :: persist_io
  co_tx :: tx_write

definition put_lane :: "LaneState \<Rightarrow> control_state \<Rightarrow> control_state" where
  "put_lane l s = s\<lparr>cs_file := disk l, cs_quarantined := quarantined l @ cs_quarantined s\<rparr>"

definition write_snapshot :: "tx_write \<Rightarrow> ustr \<Rightarrow> bytes \<Rightarrow> control_state \<Rightarrow> control_state \<times> (control_error + unit)" where
  "write_snapshot out path bs s =
     (case out of
        TxDone \<Rightarrow> (s\<lparr>cs_tx := (cs_tx s)(path \<mapsto> bs)\<rparr>, Inr ())
      | TxDirFails \<Rightarrow> (s, Inl TransactionFails)
      | TxOpenFails \<Rightarrow> (s, Inl TransactionFails)
      | TxBreaks n \<Rightarrow> (s\<lparr>cs_tx := (cs_tx s)(path \<mapsto> take n bs)\<rparr>, Inl TransactionFails))"

definition snapshot_name :: "ustr \<Rightarrow> ustr" where
  "snapshot_name op = (if op = lit ''snapshot'' then lit ''state-snapshot.json'' else lit ''state-snapshot-forward.json'')"

definition control_snapshot :: "lane_env \<Rightarrow> control_io \<Rightarrow> ustr \<Rightarrow> ustr \<Rightarrow> LaneState \<Rightarrow> control_state \<Rightarrow> control_state \<times> (control_error + unit)" where
  "control_snapshot env io op nonce l s =
     (case snapshot env l of
        Inl e \<Rightarrow> (s, Inl (StateFails e))
      | Inr snap \<Rightarrow> write_snapshot (co_tx io) (transaction_path nonce (snapshot_name op)) (canonical_bytes snap) s)"

text \<open>The bytes of the snapshot are labelled with the hash expected of the current state; nothing is
  compared with a hash of their own.\<close>

definition control_restore :: "lane_env \<Rightarrow> control_io \<Rightarrow> ustr \<Rightarrow> ustr \<Rightarrow> u64 \<Rightarrow> LaneState \<Rightarrow> control_state \<Rightarrow> control_state \<times> (control_error + unit)" where
  "control_restore env io nonce h g l s =
     (case cs_tx s (transaction_path nonce (lit ''state-snapshot.json'')) of
        None \<Rightarrow> (s, Inl TransactionFails)
      | Some bs \<Rightarrow>
          (case hash_bytes h of None \<Rightarrow> (s, Inl InvalidHash)
           | Some hash \<Rightarrow>
               (case StateSnapshotBytes_new bs hash of
                  Inl e \<Rightarrow> (s, Inl (StateFails e))
                | Inr snap \<Rightarrow>
                    (case restore env (co_write io) snap hash g l of
                       (l', Inl e) \<Rightarrow> (put_lane (l'\<lparr>quarantined := []\<rparr>) s, Inl (StateFails e))
                     | (l', Inr _) \<Rightarrow> (put_lane (l'\<lparr>quarantined := []\<rparr>) s, Inr ())))))"

definition control_reset :: "lane_env \<Rightarrow> control_io \<Rightarrow> ustr \<Rightarrow> LaneState \<Rightarrow> control_state \<Rightarrow> control_state \<times> (control_error + unit)" where
  "control_reset env io h l s =
     (case hash_bytes h of None \<Rightarrow> (s, Inl InvalidHash)
      | Some hash \<Rightarrow>
          (case reset_delivery env (co_write io) hash l of
             (l', Inl e) \<Rightarrow> (put_lane (l'\<lparr>quarantined := []\<rparr>) s, Inl (StateFails e))
           | (l', Inr _) \<Rightarrow> (put_lane (l'\<lparr>quarantined := []\<rparr>) s, Inr ())))"

text \<open>The command: its arguments, the lane, its operation.\<close>

definition control_run :: "lane_env \<Rightarrow> control_io \<Rightarrow> ustr list \<Rightarrow> control_state \<Rightarrow> control_state \<times> (control_error + unit)" where
  "control_run env io args s =
     (case tl args of [] \<Rightarrow> (s, Inl OperationRequired)
      | op # options \<Rightarrow>
          (case parse_options options no_args of Inl e \<Rightarrow> (s, Inl e)
           | Inr a \<Rightarrow>
               (case argument_error op a of Some e \<Rightarrow> (s, Inl e)
                | None \<Rightarrow>
                    (case open_lane env (co_setup io) (co_readable io) (co_moved io) (co_open io) (cs_file s) of
                       (l, Inl e) \<Rightarrow> (put_lane l s, Inl (StoreFails e))
                     | (l, Inr _) \<Rightarrow>
                         (let s1 = put_lane l s in
                          if op = lit ''restore'' then control_restore env io (the (ct_nonce a)) (the (ct_hash a)) (the (ct_generation a)) l s1
                          else if op = lit ''reset'' then control_reset env io (the (ct_hash a)) l s1
                          else control_snapshot env io op (the (ct_nonce a)) l s1)))))"

section \<open>Properties\<close>

text \<open>What a lane needs to be read back from its file.\<close>

definition loadable :: "lane_env \<Rightarrow> LaneState \<Rightarrow> bool" where
  "loadable env s \<longleftrightarrow> from_slice env (canonical_state s) = Some (state_json s)
     \<and> (\<forall>r \<in> set (reports s) \<union> set (blocked s). readable_report env r)
     \<and> (case reservation s of None \<Rightarrow> True | Some r \<Rightarrow> wf_reservation r)"

lemma open_loadable: "loadable env s \<Longrightarrow> open_lane env True rd mv io (Some (canonical_state s)) = (recovered s, Inr ()) \<or> \<not> rd"
  using load_state_recovers [of env s] by (auto simp: loadable_def open_lane_def Let_def)

lemma canonical_recovered: "canonical_state (recovered s) = canonical_state s"
proof -
  have "hex_report (forget_methods r) = hex_report r" for r by (simp add: hex_report_def)
  then show ?thesis by (simp add: canonical_state_def recovered_def comp_def)
qed

lemma parse_loadable: "loadable env s \<Longrightarrow> \<exists>p. parse_state_bytes env (canonical_state s) = Inr p \<and> ps_reports p = map forget_methods (reports s)"
proof -
  assume l: "loadable env s"
  then have "load_state env (canonical_state s) (empty_lane (Some (canonical_state s))) = (recovered s, None)"
    using load_state_recovers [of env s] by (simp add: loadable_def)
  then have "snd (load_state env (canonical_state s) (empty_lane (Some (canonical_state s)))) = None"
    and "reports (fst (load_state env (canonical_state s) (empty_lane (Some (canonical_state s))))) = map forget_methods (reports s)"
    by (simp_all add: recovered_def)
  then show ?thesis
    by (auto simp: load_state_def Let_def split: option.splits sum.splits)
qed

lemma put_recovered: "put_lane (recovered s) c = c\<lparr>cs_file := Some (canonical_state s)\<rparr>"
  by (simp add: put_lane_def recovered_def)

definition works :: control_io where
  "works = \<lparr>co_setup = True, co_readable = True, co_moved = True, co_open = IoDone, co_write = IoDone, co_tx = TxDone\<rparr>"

text \<open>A snapshot of a lane leaves its state file alone and stores the file's bytes.\<close>

lemma snapshot_stored:
  assumes "loadable env s" and "length (canonical_state s) \<le> MAX_STATE_BYTES" and "cs_file c = Some (canonical_state s)"
  shows "control_snapshot env works (lit ''snapshot'') nonce (recovered s) (put_lane (recovered s) c)
    = (c\<lparr>cs_tx := (cs_tx c)(transaction_path nonce (lit ''state-snapshot.json'') \<mapsto> canonical_state s)\<rparr>, Inr ())"
  using assms
  by (simp add: control_snapshot_def snapshot_def StateSnapshotBytes_new_def canonical_recovered put_recovered write_snapshot_def
      works_def snapshot_name_def)

lemma hex_bytes: "length (utf8 (hex h)) = 2 * length h \<and> list_all lower_hex_byte (utf8 (hex h))"
proof (induction h)
  case (Cons b h)
  have digit: "utf8_char (hex_digit d) = [of_nat (hex_digit d)]" "lower_hex_byte (of_nat (hex_digit d))" if "d < 16" for d
    using that unat_hex_digit [OF that] hex_digit_small [OF that]
    by (auto simp: utf8_char_def lower_hex_byte_def hex_digit_def ascii_class_defs)
  show ?case using Cons unat_nibbles by (simp add: hex_Cons utf8_Cons digit)
qed (simp add: hex_def)

lemma hash_bytes_hex: "length h = 32 \<Longrightarrow> hash_bytes (hex h) = Some h \<and> valid_nonce (hex h)"
  using hex_bytes [of h] by (simp add: hash_bytes_def valid_nonce_def)

subsection \<open>Command lines\<close>

definition snapshot_args :: "ustr \<Rightarrow> ustr list" where
  "snapshot_args n = [lit ''asrsub-state'', lit ''snapshot'', lit ''--transaction-nonce'', n, lit ''--lock-fd'', lit ''3'',
     lit ''--lock-proof-fd'', lit ''4'']"

definition restore_args :: "ustr \<Rightarrow> ustr \<Rightarrow> u64 \<Rightarrow> ustr list" where
  "restore_args n h g = [lit ''asrsub-state'', lit ''restore'', lit ''--transaction-nonce'', n, lit ''--expected-current-state-hash'', h,
     lit ''--expected-current-state-generation'', dec (unat g), lit ''--lock-fd'', lit ''3'', lit ''--lock-proof-fd'', lit ''4'']"

lemma fd_numbers: "parse_i32 (lit ''3'') = Some 3" "parse_i32 (lit ''4'') = Some 4"
  by (simp_all add: parse_i32_def parse_i64_def lit_eval is_ascii_digit_def)

lemma snapshot_args_parsed:
  "parse_options (tl (tl (snapshot_args n))) no_args =
     Inr \<lparr>ct_nonce = Some n, ct_hash = None, ct_generation = None, ct_fds = {lit ''--lock-proof-fd'', lit ''--lock-fd''}\<rparr>"
  by (simp add: snapshot_args_def parse_option_def no_args_def fd_numbers)

lemma restore_args_parsed:
  "parse_options (tl (tl (restore_args n h g))) no_args =
     Inr \<lparr>ct_nonce = Some n, ct_hash = Some h, ct_generation = Some g, ct_fds = {lit ''--lock-proof-fd'', lit ''--lock-fd''}\<rparr>"
proof -
  have "unat g < 2 ^ LENGTH(64)" by (rule unsigned_less)
  then have "parse_unsigned 64 (dec (unat g)) = Some (unat g)" by (intro parse_dec) simp
  then show ?thesis by (simp add: restore_args_def parse_option_def no_args_def fd_numbers)
qed

lemma restore_stored:
  assumes "loadable env s" "loadable env t" and "length (canonical_state s) \<le> MAX_STATE_BYTES"
    and "length (state_hash env t) = 32" and "unat (generation t) + 1 < 2 ^ 64"
    and "cs_tx c (transaction_path n (lit ''state-snapshot.json'')) = Some (canonical_state s)"
  shows "\<exists>l c3. control_restore env works n (hex (state_hash env t)) (generation t) (recovered t) c = (c3, Inr ())
    \<and> cs_file c3 = Some (canonical_state l) \<and> reports l = map forget_methods (reports s)
    \<and> blocked l = map forget_methods (blocked t) \<and> reservation l = None \<and> generation l = generation t + 1"
proof -
  obtain p where p: "parse_state_bytes env (canonical_state s) = Inr p" "ps_reports p = map forget_methods (reports s)"
    using parse_loadable [OF assms(1)] by blast
  define l where "l = (recovered t)\<lparr>reports := ps_reports p, generation := generation t + 1, reservation := None\<rparr>"
  have same: "state_hash env (recovered t) = state_hash env t" "generation (recovered t) = generation t"
    by (simp add: state_hash_def canonical_recovered, simp add: recovered_def)
  have "checked_add (generation t) 1 = Some (generation t + 1)" using assms(5) by (simp add: checked_add_def)
  then have r: "restore env IoDone \<lparr>canonical_bytes = canonical_state s, source_state_hash = state_hash env t\<rparr> (state_hash env t) (generation t) (recovered t)
      = (l\<lparr>disk := Some (canonical_state l)\<rparr>, Inr (commit_of env (l\<lparr>disk := Some (canonical_state l)\<rparr>)))"
    by (simp add: restore_def same p(1) Let_def persist_def l_def)
  have "control_restore env works n (hex (state_hash env t)) (generation t) (recovered t) c
      = (put_lane (l\<lparr>disk := Some (canonical_state l), quarantined := []\<rparr>) c, Inr ())"
    using assms(3,6) hash_bytes_hex [OF assms(4)]
    by (simp add: control_restore_def StateSnapshotBytes_new_def works_def r)
  moreover have "reports l = map forget_methods (reports s)" "blocked l = map forget_methods (blocked t)" "reservation l = None"
      "generation l = generation t + 1" by (simp_all add: l_def p(2)) (simp add: recovered_def)
  ultimately show ?thesis by (intro exI [of _ l]) (simp add: put_lane_def)
qed


section \<open>Witness\<close>

definition empty_env :: lane_env where
  "empty_env = \<lparr>sha256 = (\<lambda>_. replicate 32 0),
     from_slice = (\<lambda>bs. if bs = canonical_state (empty_lane None) then Some (state_json (empty_lane None)) else None), udb = ascii_db\<rparr>"

lemma empty_state_short: "length (canonical_state (empty_lane None)) \<le> MAX_STATE_BYTES"
  by (simp add: canonical_state_def empty_lane_def MAX_STATE_BYTES_def utf8_def utf8_char_def ascii_def dec.simps lit_eval opt_u64_def)


end
