(* ===== verification/Lock.thy ===== *)
theory Lock
  imports Cli
begin

text \<open>
  \<open>lock_path\<close> and \<open>fnv1a64\<close> of \<open>src/config.rs\<close>: the file whose lock makes a daemon the only one of its state
  file.
\<close>

section \<open>The digest of a path\<close>

definition fnv_step :: "u64 \<Rightarrow> byte \<Rightarrow> u64" where
  "fnv_step h b = (h XOR ucast b) * 0x00000100000001b3"

definition fnv1a64 :: "bytes \<Rightarrow> u64" where
  "fnv1a64 bs = foldl fnv_step 0xcbf29ce484222325 bs"

text \<open>\<open>{:016x}\<close>: sixteen digits, the highest first.\<close>

definition hex16 :: "u64 \<Rightarrow> ustr" where
  "hex16 h = map (\<lambda>i. hex_digit (unat (drop_bit (4 * i) h AND 15))) (rev [0..<16])"

section \<open>The lock file\<close>

text \<open>\<open>Path::with_file_name\<close>: a path with a file name gives it up for the new one.\<close>

definition with_file_name :: "ustr \<Rightarrow> ustr \<Rightarrow> ustr" where
  "with_file_name p n =
     path_join (case file_name p of None \<Rightarrow> p | Some _ \<Rightarrow> (case path_parent p of Some d \<Rightarrow> d | None \<Rightarrow> p)) n"

definition state_name :: "ustr \<Rightarrow> ustr" where
  "state_name sf = (case file_name sf of Some n \<Rightarrow> n | None \<Rightarrow> [])"

definition lock_path :: "unicode_db \<Rightarrow> ustr \<Rightarrow> ustr" where
  "lock_path U sf =
     (let masked = mask_for_log U (state_name sf) in
      if masked = state_name sf then with_extension sf (lit ''daemon.lock'')
      else with_file_name sf (masked @ lit ''.'' @ hex16 (fnv1a64 (utf8 sf)) @ lit ''.daemon.lock''))"

section \<open>Properties\<close>

text \<open>One step of the digest loses nothing: the prime is odd, so the product can be taken back, and so can the
  exclusive or.\<close>

lemma fnv_prime_inverse: "(0x00000100000001b3 :: u64) * 0xce965057aff6957b = 1"
  by simp

lemma fnv_prime_cancel: "(x :: u64) * 0x00000100000001b3 = y * 0x00000100000001b3 \<longleftrightarrow> x = y"
proof
  assume "x * 0x00000100000001b3 = y * 0x00000100000001b3"
  then have "x * (0x00000100000001b3 * 0xce965057aff6957b) = y * (0x00000100000001b3 * 0xce965057aff6957b)"
    by (simp only: mult.assoc [symmetric])
  then show "x = y" by (simp only: fnv_prime_inverse mult_1_right)
qed simp

lemma xor_cancel_right: "(a XOR c = b XOR c) = (a = (b :: u64))"
  by (auto simp: bit_eq_iff bit_xor_iff)

lemma xor_cancel_left: "(c XOR a = c XOR b) = (a = (b :: u64))"
  by (auto simp: bit_eq_iff bit_xor_iff)

lemma fnv_step_state: "fnv_step h b = fnv_step h' b \<longleftrightarrow> h = h'"
  by (simp add: fnv_step_def fnv_prime_cancel xor_cancel_right)

lemma ucast_byte_inject: "(ucast a :: u64) = ucast b \<longleftrightarrow> a = (b :: byte)"
proof
  assume "(ucast a :: u64) = ucast b"
  then have same: "bit (ucast a :: u64) k = bit (ucast b :: u64) k" for k by simp
  have "bit a k = bit b k" if "k < LENGTH(8)" for k
    using same [of k] that by (simp add: bit_ucast_iff)
  then show "a = b" by (rule bit_word_eqI)
qed simp

lemma fnv_step_byte: "fnv_step h a = fnv_step h b \<longleftrightarrow> a = b"
  by (simp add: fnv_step_def fnv_prime_cancel xor_cancel_left ucast_byte_inject)

lemma fnv_tail: "foldl fnv_step h bs = foldl fnv_step h' bs \<longleftrightarrow> h = h'"
  by (induction bs arbitrary: h h') (simp_all add: fnv_step_state)

text \<open>Paths that differ in one byte have different digests.\<close>

lemma fnv_one_byte: "fnv1a64 (u @ a # v) = fnv1a64 (u @ b # v) \<longleftrightarrow> a = b"
  by (simp add: fnv1a64_def fnv_tail fnv_step_byte)

lemma hex_digit_inject: "a < 16 \<Longrightarrow> b < 16 \<Longrightarrow> hex_digit a = hex_digit b \<longleftrightarrow> a = b"
  by (auto simp: hex_digit_def split: if_splits)

lemma nibble_small: "unat (w AND 15 :: u64) < 16"
proof -
  have "w AND 15 = take_bit 4 w" by (simp add: take_bit_eq_mask mask_numeral)
  then show ?thesis by (simp add: take_bit_eq_mod unat_mod_distrib)
qed

lemma nibble_bit: "bit (h :: u64) k = bit (drop_bit (4 * (k div 4)) h AND 15) (k mod 4)"
proof -
  have m: "(15 :: u64) = mask 4" by (simp add: mask_numeral)
  have "k mod 4 < 4" by simp
  then have "k mod 4 < 64" by linarith
  then show ?thesis unfolding m by (simp add: bit_and_iff bit_drop_bit_eq bit_mask_iff)
qed

lemma hex16_inject: "hex16 a = hex16 b \<longleftrightarrow> a = b"
proof
  assume "hex16 a = hex16 b"
  then have "\<forall>i < 16. hex_digit (unat (drop_bit (4 * i) a AND 15)) = hex_digit (unat (drop_bit (4 * i) b AND 15))"
    by (auto simp: hex16_def)
  then have nibble: "drop_bit (4 * i) a AND 15 = drop_bit (4 * i) b AND 15" if "i < 16" for i
    using that by (simp only: word_unat_eq_iff hex_digit_inject [OF nibble_small nibble_small])
  show "a = b"
  proof (rule bit_word_eqI)
    fix k assume "k < LENGTH(64)"
    then have "k div 4 < 16" by simp
    then show "bit a k = bit b k" by (simp only: nibble_bit [of a] nibble_bit [of b] nibble)
  qed
qed simp

lemma length_hex16 [simp]: "length (hex16 h) = 16"
  by (simp add: hex16_def)

lemma path_join_ends: "\<exists>d. path_join p n = d @ n"
  by (auto simp: path_join_def)

text \<open>The name of a lock under a masked name ends in the digest of the whole path.\<close>

lemma masked_lock_ends:
  assumes "mask_for_log U (state_name sf) \<noteq> state_name sf"
  shows "\<exists>d. lock_path U sf = d @ hex16 (fnv1a64 (utf8 sf)) @ lit ''.daemon.lock''"
proof -
  obtain d where "with_file_name sf (mask_for_log U (state_name sf) @ lit ''.'' @ hex16 (fnv1a64 (utf8 sf)) @ lit ''.daemon.lock'')
      = d @ mask_for_log U (state_name sf) @ lit ''.'' @ hex16 (fnv1a64 (utf8 sf)) @ lit ''.daemon.lock''"
    unfolding with_file_name_def using path_join_ends by blast
  then have "lock_path U sf = (d @ mask_for_log U (state_name sf) @ lit ''.'') @ hex16 (fnv1a64 (utf8 sf)) @ lit ''.daemon.lock''"
    using assms by (simp add: lock_path_def)
  then show ?thesis by blast
qed

text \<open>Two state files whose paths differ in one ASCII character of a credential have different locks, although
  their masked names may be the same: a second daemon is not kept from starting by the first one's lock, nor let pass by a
  name it shares.\<close>

theorem locks_distinct:
  assumes "mask_for_log U (state_name (u @ a # v)) \<noteq> state_name (u @ a # v)"
    and "mask_for_log U (state_name (u @ b # v)) \<noteq> state_name (u @ b # v)"
    and "a < 128" "b < 128" "a \<noteq> b"
  shows "lock_path U (u @ a # v) \<noteq> lock_path U (u @ b # v)"
proof
  assume same: "lock_path U (u @ a # v) = lock_path U (u @ b # v)"
  obtain c d where "lock_path U (u @ a # v) = c @ hex16 (fnv1a64 (utf8 (u @ a # v))) @ lit ''.daemon.lock''"
      "lock_path U (u @ b # v) = d @ hex16 (fnv1a64 (utf8 (u @ b # v))) @ lit ''.daemon.lock''"
    using masked_lock_ends [OF assms(1)] masked_lock_ends [OF assms(2)] by blast
  with same have "fnv1a64 (utf8 (u @ a # v)) = fnv1a64 (utf8 (u @ b # v))"
    by (simp add: hex16_inject)
  then have "fnv1a64 (utf8 u @ of_nat a # utf8 v) = fnv1a64 (utf8 u @ of_nat b # utf8 v)"
    using assms(3,4) by (simp add: utf8_Cons utf8_char_def)
  then have "(of_nat a :: byte) = of_nat b" by (simp only: fnv_one_byte)
  then have "unat (of_nat a :: byte) = unat (of_nat b :: byte)" by simp
  then show False using assms(3-5) by (simp add: unat_of_nat)
qed

end
