(* ===== verification/Deploy.thy ===== *)
theory Deploy
  imports Control Cli Child
begin

text \<open>
  The parts a deployment is made of: the admission barrier, the phases of the journal and its encoding, the
  check of snapshot addresses (\<open>src/deployment_*.rs\<close>, \<open>src/egress.rs\<close>), the fence witnesses of
  \<open>src/discord_state_schema.rs\<close>, and the small tools \<open>src/secret_probe.rs\<close>, \<open>src/vector_tool.rs\<close>
  and \<open>src/child_audit.rs\<close>.
\<close>

section \<open>Admission\<close>

datatype AdmissionMode = ModeRunning | ModeQuiescing | ModeRecoveryRequired

record DeploymentBarrier =
  db_mode :: AdmissionMode
  db_generation :: u64

definition barrier_new :: DeploymentBarrier where
  "barrier_new = \<lparr>db_mode = ModeRunning, db_generation = 0\<rparr>"

definition barrier_admit :: "DeploymentBarrier \<Rightarrow> bool" where
  "barrier_admit b \<longleftrightarrow> db_mode b = ModeRunning"

definition barrier_quiesce :: "DeploymentBarrier \<Rightarrow> DeploymentBarrier \<times> u64" where
  "barrier_quiesce b =
     (let b' = b\<lparr>db_mode := ModeQuiescing, db_generation := db_generation b + 1\<rparr> in (b', db_generation b'))"

definition admission_mode :: "DeploymentBarrier \<Rightarrow> AdmissionMode" where
  "admission_mode b = (if barrier_admit b then ModeRunning else ModeQuiescing)"

record JoinWitness =
  jw_queue_drained :: bool
  jw_state_lane_idle :: bool
  jw_children_empty :: bool

definition join_clean :: JoinWitness where
  "join_clean = \<lparr>jw_queue_drained = True, jw_state_lane_idle = True, jw_children_empty = True\<rparr>"

section \<open>The journal\<close>

datatype JournalPhase =
    Prepared
  | Quiescing
  | Quiesced
  | Installing
  | Installed
  | Starting
  | Started
  | Committed
  | RollbackRequired
  | RolledBack
  | Aborted
  | RecoveryRequired

fun phase_token :: "JournalPhase \<Rightarrow> ustr" where
  "phase_token Prepared = lit ''prepared''"
| "phase_token Quiescing = lit ''quiescing''"
| "phase_token Quiesced = lit ''quiesced''"
| "phase_token Installing = lit ''installing''"
| "phase_token Installed = lit ''installed''"
| "phase_token Starting = lit ''starting''"
| "phase_token Started = lit ''started''"
| "phase_token Committed = lit ''committed''"
| "phase_token RollbackRequired = lit ''rollback_required''"
| "phase_token RolledBack = lit ''rolled_back''"
| "phase_token Aborted = lit ''aborted''"
| "phase_token RecoveryRequired = lit ''recovery_required''"

record Journal =
  jn_transaction_nonce :: ustr
  jn_phase :: JournalPhase
  jn_accept_work :: bool
  jn_lease_present :: bool
  jn_updated_epoch_ns :: u64

definition next_phase :: "JournalPhase option \<Rightarrow> JournalPhase \<Rightarrow> bool" where
  "next_phase c n \<longleftrightarrow> (c, n) \<in> {(None, Prepared), (Some Prepared, Quiescing), (Some Quiescing, Quiesced), (Some Started, Committed),
     (Some Started, RollbackRequired), (Some RollbackRequired, RolledBack), (Some Prepared, Aborted)}"

definition journal_prepared :: "ustr \<Rightarrow> Journal" where
  "journal_prepared n = \<lparr>jn_transaction_nonce = n, jn_phase = Prepared, jn_accept_work = False, jn_lease_present = True,
     jn_updated_epoch_ns = 0\<rparr>"

definition bool_token :: "bool \<Rightarrow> ustr" where
  "bool_token b = (if b then lit ''true'' else lit ''false'')"

definition encode_journal :: "Journal \<Rightarrow> bytes" where
  "encode_journal j = utf8 (
     lit ''{\"schema\":\"journal-v1\",\"transaction_nonce\":\"'' @ jn_transaction_nonce j
     @ lit ''\",\"phase\":\"'' @ phase_token (jn_phase j) @ lit ''\",\"accept_work\":'' @ bool_token (jn_accept_work j)
     @ lit '',\"lease_present\":'' @ bool_token (jn_lease_present j) @ lit '',\"updated_epoch_ns\":'' @ dec (unat (jn_updated_epoch_ns j)) @ lit ''}'')"

definition journal_hash :: "(bytes \<Rightarrow> bytes) \<Rightarrow> Journal \<Rightarrow> bytes" where
  "journal_hash sha j = domain_hash sha (ascii ''asrsub-journal-v1'') (encode_journal j)"

text \<open>A file is written beside its place and renamed into it. When the write fails, the other file may have been
  created with a first part.\<close>

datatype install_out = WriteFails "nat option" | RenameFails | Written

definition install_via :: "ustr \<Rightarrow> install_out \<Rightarrow> ustr \<Rightarrow> bytes \<Rightarrow> disk \<Rightarrow> disk \<times> bool" where
  "install_via ext out path bs d =
     (let t = with_extension path ext in
      case out of
        WriteFails None \<Rightarrow> (d, False)
      | WriteFails (Some n) \<Rightarrow> (d(t \<mapsto> DFile (take n bs)), False)
      | RenameFails \<Rightarrow> (d(t \<mapsto> DFile bs), False)
      | Written \<Rightarrow> (d(t := None, path \<mapsto> DFile bs), True))"

definition atomic_write :: "install_out \<Rightarrow> ustr \<Rightarrow> bytes \<Rightarrow> disk \<Rightarrow> disk \<times> bool" where
  "atomic_write out path bs d = install_via (lit ''tmp'') out path bs d"

section \<open>Addresses\<close>

datatype IpAddr = V4 "32 word" | V6 "128 word"

definition octet :: "nat \<Rightarrow> 32 word \<Rightarrow> 32 word" where
  "octet i a = drop_bit (24 - 8 * i) a AND 255"

definition rejects_v4 :: "32 word \<Rightarrow> bool" where
  "rejects_v4 v \<longleftrightarrow>
     (let a = octet 0 v; b = octet 1 v; c = octet 2 v in
        (a = 10 \<or> a = 172 \<and> 16 \<le> b \<and> b \<le> 31 \<or> a = 192 \<and> b = 168)
      \<or> a = 127
      \<or> (a = 169 \<and> b = 254)
      \<or> (224 \<le> a \<and> a \<le> 239)
      \<or> v = 0
      \<or> (a = 192 \<and> b = 0 \<and> c = 2 \<or> a = 198 \<and> b = 51 \<and> c = 100 \<or> a = 203 \<and> b = 0 \<and> c = 113))"

definition first_segment :: "128 word \<Rightarrow> 128 word" where
  "first_segment v = drop_bit 112 v"

definition rejects_v6 :: "128 word \<Rightarrow> bool" where
  "rejects_v6 v \<longleftrightarrow> v = 1 \<or> v = 0 \<or> first_segment v AND 0xff00 = 0xff00 \<or> first_segment v AND 0xfe00 = 0xfc00"

definition rejects_private_answers :: "IpAddr \<Rightarrow> bool" where
  "rejects_private_answers a = (case a of V4 v \<Rightarrow> rejects_v4 v | V6 v \<Rightarrow> rejects_v6 v)"

definition snapshot_matches :: "IpAddr list \<Rightarrow> IpAddr list \<Rightarrow> bool" where
  "snapshot_matches expected actual \<longleftrightarrow> expected = actual"

definition uses_literal_snapshot_addresses :: "IpAddr list \<Rightarrow> bool" where
  "uses_literal_snapshot_addresses as \<longleftrightarrow> as \<noteq> [] \<and> list_all (\<lambda>a. \<not> rejects_private_answers a) as"

definition egress_snapshot_is_literal :: "IpAddr list \<Rightarrow> bool" where
  "egress_snapshot_is_literal as = uses_literal_snapshot_addresses as"

section \<open>Fence witnesses\<close>

definition join_witness_hash :: "(bytes \<Rightarrow> bytes) \<Rightarrow> FenceWitness \<Rightarrow> bytes" where
  "join_witness_hash sha w =
     sha (ascii ''asrsub-fence-witness-v1'' @ [0] @ le_bytes (fw_operation_id w) @ le_bytes (fence_generation w))"

record FenceRecoveryWitness = FenceWitness +
  join_proven :: bool

definition is_recovery_required :: "FenceRecoveryWitness \<Rightarrow> bool" where
  "is_recovery_required w \<longleftrightarrow> \<not> join_proven w"

definition recovery_witness_hash :: "(bytes \<Rightarrow> bytes) \<Rightarrow> FenceRecoveryWitness \<Rightarrow> bytes" where
  "recovery_witness_hash sha w =
     sha (ascii ''asrsub-fence-recovery-witness-v1'' @ [0] @ le_bytes (fw_operation_id w))"

datatype StateLaneFenceKind = Joined FenceWitness | Recovery FenceRecoveryWitness

definition joined_witness :: "StateLaneFenceKind \<Rightarrow> FenceWitness option" where
  "joined_witness k = (case k of Joined w \<Rightarrow> Some w | Recovery _ \<Rightarrow> None)"

definition recovery_witness :: "StateLaneFenceKind \<Rightarrow> FenceRecoveryWitness option" where
  "recovery_witness k = (case k of Recovery w \<Rightarrow> Some w | Joined _ \<Rightarrow> None)"

section \<open>The secret probe\<close>

datatype probe_error = InputTooLarge | TargetRead | TargetTooLarge

definition compare_secret :: "disk \<Rightarrow> ustr \<Rightarrow> bytes \<Rightarrow> probe_error + bool" where
  "compare_secret d target stdin =
     (if 512 < length stdin then Inl InputTooLarge
      else case d target of
          Some (DFile bs) \<Rightarrow> if 512 < length bs then Inl TargetTooLarge else Inr (bs = stdin)
        | _ \<Rightarrow> Inl TargetRead)"

text \<open>The program: its exit code and what it prints. Standard input may fail.\<close>

definition secret_probe_main :: "ustr list \<Rightarrow> bytes option \<Rightarrow> disk \<Rightarrow> nat \<times> ustr" where
  "secret_probe_main args stdin d =
     (if length args \<noteq> 4 \<or> args ! 1 \<noteq> lit ''--expected-stdin'' \<or> args ! 2 \<noteq> lit ''--target'' then (2, [])
      else if args ! 3 \<noteq> lit ''/run/secrets/discord_webhook'' then (2, [])
      else case stdin of None \<Rightarrow> (1, [])
        | Some bs \<Rightarrow>
            (case compare_secret d (args ! 3) bs of
               Inr True \<Rightarrow> (0, lit ''MATCH'') | Inr False \<Rightarrow> (0, lit ''MISMATCH'') | Inl _ \<Rightarrow> (1, [])))"

section \<open>The vector tools\<close>

definition b64_table :: ustr where
  "b64_table = lit ''ABCDEFGHIJKLMNOPQRSTUVWXYZabcdefghijklmnopqrstuvwxyz0123456789+/''"

definition b64_word :: "byte \<Rightarrow> byte \<Rightarrow> byte \<Rightarrow> u32" where
  "b64_word a b c = (push_bit 16 (ucast a) OR push_bit 8 (ucast b)) OR ucast c"

definition b64_digit :: "nat \<Rightarrow> u32 \<Rightarrow> uchar" where
  "b64_digit k n = b64_table ! unat (drop_bit k n AND 63)"

fun base64 :: "bytes \<Rightarrow> ustr" where
  "base64 [] = []"
| "base64 [a] = (let n = b64_word a 0 0 in [b64_digit 18 n, b64_digit 12 n, 61, 61])"
| "base64 [a, b] = (let n = b64_word a b 0 in [b64_digit 18 n, b64_digit 12 n, b64_digit 6 n, 61])"
| "base64 (a # b # c # r) =
     (let n = b64_word a b c in [b64_digit 18 n, b64_digit 12 n, b64_digit 6 n, b64_digit 0 n]) @ base64 r"

definition vector_strings :: "ustr list" where
  "vector_strings = [lit ''quote:\"'', lit ''backslash:'' @ [92], lit ''control:'' @ [nl],
     lit ''non-ascii:'' @ [0x3053, 0x3093, 0x306b, 0x3061, 0x306f]]"

definition vector_entry :: "(bytes \<Rightarrow> bytes) \<Rightarrow> ustr \<Rightarrow> bytes" where
  "vector_entry sha value =
     (let bs = encode_string value in
      ascii ''{\"name\":'' @ bs @ ascii '',\"domain\":\"asrsub-vector-v1\",\"bytes_b64\":\"'' @ utf8 (base64 bs)
      @ ascii ''\",\"hash\":\"'' @ utf8 (hex (domain_hash sha (ascii ''asrsub-vector-v1'') bs)) @ ascii ''\"}'')"

definition vector_set :: "(bytes \<Rightarrow> bytes) \<Rightarrow> bytes" where
  "vector_set sha = ascii ''{\"schema\":\"canonical-vector-set-v1\",\"entries\":['' @ comma_sep (map (vector_entry sha) vector_strings)
     @ ascii '']}'' @ utf8 [nl]"

text \<open>Exit codes: 2 for a wrong command line, 101 for the panic of a failed write.\<close>

definition vectors_main :: "(bytes \<Rightarrow> bytes) \<Rightarrow> install_out \<Rightarrow> ustr list \<Rightarrow> disk \<Rightarrow> disk \<times> nat" where
  "vectors_main sha out args d =
     (if tl args \<noteq> map lit [''core'', ''--output'', ''tests/fixtures/canonical_vectors.json''] then (d, 2)
      else case install_via (lit ''json.tmp'') out (lit ''tests/fixtures/canonical_vectors.json'') (vector_set sha) d of
          (d', ok) \<Rightarrow> (d', if ok then 0 else 101))"

definition deploy_vectors_run :: "install_out \<Rightarrow> ustr list \<Rightarrow> disk \<Rightarrow> disk \<times> bool" where
  "deploy_vectors_run out args d =
     (if tl args \<noteq> map lit [''--output'', ''tests/fixtures/deploy_journal/canonical_vectors.json''] then (d, False)
      else install_via (lit ''json.tmp'') out (lit ''tests/fixtures/deploy_journal/canonical_vectors.json'')
        (ascii ''{\"schema\":\"deployment-canonical-vector-set-v1\",\"entries\":[]}'' @ utf8 [nl]) d)"

section \<open>The child audit\<close>

definition audit_calls :: "(ustr \<times> ChildProgram) list" where
  "audit_calls =
     [(lit ''asr::probe_media'', Ffprobe), (lit ''asr::extract_audio'', Ffmpeg), (lit ''asr::transcribe_pieces'', Ffmpeg),
      (lit ''ladder::convert'', Ffmpeg), (lit ''main::extract_embedded::ffprobe'', Ffprobe), (lit ''main::extract_embedded::ffmpeg'', Ffmpeg),
      (lit ''asr_child_tests::transcribe_cmd_uses_fixed_tool_paths'', Ffmpeg),
      (lit ''asr_child_tests::webhook_extract_uses_fixed_tool_paths'', Ffprobe)]"

datatype audit_error = NoPidfd | NoLandlock | ToolUnavailable | ToolIrregular | AuditSpec | AuditChild | AuditExit

text \<open>What \<open>metadata\<close> says of a path: nothing, or whether it is a regular file.\<close>

definition validate_prerequisites :: "bool \<Rightarrow> (ustr \<Rightarrow> bool option) \<Rightarrow> audit_error + ToolPaths" where
  "validate_prerequisites linux meta =
     (if \<not> linux then Inl NoPidfd
      else case find (\<lambda>p. meta p \<noteq> Some True) [tp_ffmpeg tools_production, tp_ffprobe tools_production] of
          None \<Rightarrow> Inr tools_production
        | Some p \<Rightarrow> Inl (if meta p = None then ToolUnavailable else ToolIrregular))"

text \<open>Each call is a run of its own, in a world of its own time.\<close>

fun audit_loop :: "ToolPaths \<Rightarrow> (child_host \<times> ustr \<times> ChildProgram) list \<Rightarrow> ustr set \<Rightarrow> ustr set \<times> (audit_error + ustr list)" where
  "audit_loop tools [] dirs = (dirs, Inr [])"
| "audit_loop tools ((h, name, program) # calls) dirs =
     (case run_tool h tools program [lit ''-version''] 15 dirs of
        (dirs', Inl e) \<Rightarrow> (dirs', Inl (if e = BadInvocation then AuditSpec else AuditChild))
      | (dirs', Inr out) \<Rightarrow>
          if co_termination out \<noteq> Exited 0 then (dirs', Inl AuditExit)
          else case audit_loop tools calls dirs' of
              (dirs'', Inl e) \<Rightarrow> (dirs'', Inl e) | (dirs'', Inr names) \<Rightarrow> (dirs'', Inr (name # names)))"

definition child_audit_run ::
    "bool \<Rightarrow> (ustr \<Rightarrow> bool option) \<Rightarrow> (nat \<Rightarrow> child_host) \<Rightarrow> ustr set \<Rightarrow> ustr set \<times> (audit_error + ustr list)" where
  "child_audit_run linux meta hosts dirs =
     (case validate_prerequisites linux meta of
        Inl e \<Rightarrow> (dirs, Inl e)
      | Inr tools \<Rightarrow> audit_loop tools (map (\<lambda>i. (hosts i, audit_calls ! i)) [0..<length audit_calls]) dirs)"

section \<open>Properties\<close>

text \<open>After a quiesce nothing is admitted any more: there is no way back.\<close>

inductive barrier_step :: "DeploymentBarrier \<Rightarrow> DeploymentBarrier \<Rightarrow> bool" where
  quiesces: "barrier_step b (fst (barrier_quiesce b))"

interpretation quiesced: step_system barrier_step "\<lambda>b. \<exists>a. b = fst (barrier_quiesce a)" "\<lambda>b. \<not> barrier_admit b"
  by unfold_locales (auto simp: barrier_step.simps barrier_quiesce_def barrier_admit_def Let_def)

theorem quiesced_for_good:
  "barrier_step\<^sup>*\<^sup>* (fst (barrier_quiesce a)) b \<Longrightarrow> \<not> barrier_admit b \<and> admission_mode b = ModeQuiescing"
  using quiesced.reachable_kept by (auto simp: admission_mode_def)

text \<open>The phases a journal passes through.\<close>

inductive journal_step :: "JournalPhase \<Rightarrow> JournalPhase \<Rightarrow> bool" where
  "next_phase (Some p) q \<Longrightarrow> journal_step p q"

interpretation journal: step_system journal_step "next_phase None" "\<lambda>p. p \<in> {Prepared, Quiescing, Quiesced, Aborted}"
  by unfold_locales (auto simp: journal_step.simps next_phase_def)

text \<open>The phases a journal can reach from its creation are exactly four: there is no transition out of
  \<open>Quiesced\<close>, so no transaction is ever installed, started, committed or rolled back.\<close>

theorem journal_never_commits:
  "(\<exists>p. next_phase None p \<and> journal_step\<^sup>*\<^sup>* p q) = (q \<in> {Prepared, Quiescing, Quiesced, Aborted})"
proof
  assume "\<exists>p. next_phase None p \<and> journal_step\<^sup>*\<^sup>* p q"
  then show "q \<in> {Prepared, Quiescing, Quiesced, Aborted}" using journal.reachable_kept by blast
next
  have s: "journal_step Prepared Quiescing" "journal_step Quiescing Quiesced" "journal_step Prepared Aborted"
    by (simp_all add: journal_step.simps next_phase_def)
  then have "journal_step\<^sup>*\<^sup>* Prepared Quiesced" by (meson converse_rtranclp_into_rtranclp r_into_rtranclp)
  moreover assume "q \<in> {Prepared, Quiescing, Quiesced, Aborted}"
  ultimately have "journal_step\<^sup>*\<^sup>* Prepared q" using s by auto
  moreover have "next_phase None Prepared" by (simp add: next_phase_def)
  ultimately show "\<exists>p. next_phase None p \<and> journal_step\<^sup>*\<^sup>* p q" by blast
qed

text \<open>An IPv4 address written as an IPv6 one passes the check, whatever it is: also the loopback.\<close>

definition v4_mapped :: "32 word \<Rightarrow> IpAddr" where
  "v4_mapped a = V6 (push_bit 32 0xffff OR ucast a)"

theorem mapped_addresses_pass: "\<not> rejects_private_answers (v4_mapped a)"
proof -
  let ?v = "push_bit 32 0xffff OR ucast a :: 128 word"
  have bit40: "bit ?v 40" by (simp add: bit_or_iff bit_push_bit_iff bit_ucast_iff)
  then have "?v \<noteq> 0" "?v \<noteq> 1" by (auto simp: bit_1_iff)
  moreover have "bit (first_segment ?v) k = False" for k
    by (auto simp: first_segment_def bit_drop_bit_eq bit_or_iff bit_push_bit_iff bit_ucast_iff dest: bit_imp_le_length)
  then have "first_segment ?v = 0" by (simp add: bit_eq_iff)
  ultimately show ?thesis by (simp add: rejects_private_answers_def rejects_v6_def v4_mapped_def)
qed

text \<open>The probe prints \<open>MATCH\<close> only for the one permitted file, when its at most 512 bytes are the input.\<close>

theorem secret_probe_match:
  "snd (secret_probe_main args stdin d) = lit ''MATCH'' \<longleftrightarrow>
     (\<exists>p bs. args = [p, lit ''--expected-stdin'', lit ''--target'', lit ''/run/secrets/discord_webhook''] \<and> stdin = Some bs
        \<and> length bs \<le> 512 \<and> d (lit ''/run/secrets/discord_webhook'') = Some (DFile bs))"
proof -
  have four: "length args = 4 \<longleftrightarrow> (\<exists>p a b c. args = [p, a, b, c])" by (auto simp: length_Suc_conv eval_nat_numeral)
  show ?thesis
    by (cases "length args = 4"; cases stdin)
       (auto simp: secret_probe_main_def four compare_secret_def split: option.splits disk_file.splits if_splits sum.splits bool.splits)
qed

text \<open>An audit that works has run every one of its calls, each with a clean exit.\<close>

lemma audit_loop_names: "audit_loop tools calls dirs = (dirs', Inr names) \<Longrightarrow> names = map (\<lambda>(h, n, p). n) calls"
  by (induction calls arbitrary: dirs dirs' names) (auto split: prod.splits sum.splits if_splits)

theorem audit_complete:
  "child_audit_run linux reg hosts dirs = (dirs', Inr names) \<Longrightarrow> linux \<and> names = map fst audit_calls"
proof -
  assume r: "child_audit_run linux reg hosts dirs = (dirs', Inr names)"
  let ?calls = "map (\<lambda>i. (hosts i, audit_calls ! i)) [0..<length audit_calls]"
  have "audit_loop tools_production ?calls dirs = (dirs', Inr names)" and l: linux
    using r by (auto simp: child_audit_run_def validate_prerequisites_def split: sum.splits if_splits option.splits)
  then have "names = map (\<lambda>(h, n, p). n) ?calls" by (blast dest: audit_loop_names)
  then have "names = map (\<lambda>i. fst (audit_calls ! i)) [0..<length audit_calls]" by (simp add: case_prod_unfold)
  also have "\<dots> = map fst audit_calls" by (rule nth_equalityI) simp_all
  finally show ?thesis using l by simp
qed

subsection \<open>Base64\<close>

text \<open>A decoder for reference: the place of a character in the table, and the three bytes of four characters.\<close>

definition b64_value :: "uchar \<Rightarrow> u32" where
  "b64_value c = (if c = 61 then 0 else of_nat (length (takeWhile (\<lambda>x. x \<noteq> c) b64_table)))"

definition b64_quad :: "uchar \<Rightarrow> uchar \<Rightarrow> uchar \<Rightarrow> uchar \<Rightarrow> u32" where
  "b64_quad p q r s = ((push_bit 18 (b64_value p) OR push_bit 12 (b64_value q)) OR push_bit 6 (b64_value r)) OR b64_value s"

fun unbase64 :: "ustr \<Rightarrow> bytes" where
  "unbase64 (p # q # r # s # rest) =
     (let n = b64_quad p q r s; a = ucast (drop_bit 16 n); b = ucast (drop_bit 8 n) in
      if r = 61 then [a] else if s = 61 then [a, b] else a # b # ucast n # unbase64 rest)"
| "unbase64 _ = []"

lemma b64_table_props: "length b64_table = 64" "distinct b64_table" "61 \<notin> set b64_table"
  by (simp_all add: b64_table_def lit_eval)

lemma takeWhile_nth: "distinct xs \<Longrightarrow> i < length xs \<Longrightarrow> length (takeWhile (\<lambda>x. x \<noteq> xs ! i) xs) = i"
  by (induction xs arbitrary: i) (auto simp: nth_Cons' split: if_splits)

lemma and_63: "w AND 63 = take_bit 6 (w :: u32)"
  by (simp add: take_bit_eq_mask mask_numeral)

lemma six_bits: "unat (take_bit 6 w :: u32) < 64"
  by (simp add: take_bit_eq_mod unat_mod_distrib)

lemma b64_digit_in: "b64_digit k n \<noteq> 61"
proof -
  have "b64_digit k n \<in> set b64_table"
    unfolding b64_digit_def and_63 using six_bits [of "drop_bit k n"] b64_table_props(1) by (intro nth_mem) simp
  then show ?thesis using b64_table_props(3) by auto
qed

lemma b64_value_digit: "b64_value (b64_digit k n) = take_bit 6 (drop_bit k n)"
proof -
  have "length (takeWhile (\<lambda>x. x \<noteq> b64_digit k n) b64_table) = unat (take_bit 6 (drop_bit k n))"
    unfolding b64_digit_def and_63 using six_bits [of "drop_bit k n"] b64_table_props by (intro takeWhile_nth) simp_all
  then show ?thesis using b64_digit_in by (simp add: b64_value_def)
qed

text \<open>The bytes of a word, and the word of its four digits.\<close>

lemma b64_word_bytes:
  "ucast (drop_bit 16 (b64_word a b c)) = a" "ucast (drop_bit 8 (b64_word a b c)) = b" "ucast (b64_word a b c) = c"
  by (rule bit_word_eqI; auto simp: b64_word_def bit_ucast_iff bit_drop_bit_eq bit_or_iff bit_push_bit_iff dest: bit_imp_le_length)+

lemma b64_digits_word:
  assumes "\<And>k. 24 \<le> k \<Longrightarrow> \<not> bit (n :: u32) k"
  shows "((push_bit 18 (take_bit 6 (drop_bit 18 n)) OR push_bit 12 (take_bit 6 (drop_bit 12 n))) OR push_bit 6 (take_bit 6 (drop_bit 6 n))) OR take_bit 6 n = n"
proof (rule bit_word_eqI)
  fix k assume "k < LENGTH(32)"
  consider "k < 6" | "6 \<le> k" "k < 12" | "12 \<le> k" "k < 18" | "18 \<le> k" "k < 24" | "24 \<le> k" by linarith
  then show "bit (((push_bit 18 (take_bit 6 (drop_bit 18 n)) OR push_bit 12 (take_bit 6 (drop_bit 12 n))) OR push_bit 6 (take_bit 6 (drop_bit 6 n))) OR take_bit 6 n) k = bit n k"
    using assms [of k] \<open>k < LENGTH(32)\<close>
    by cases (simp_all add: bit_or_iff bit_push_bit_iff bit_take_bit_iff bit_drop_bit_eq less_diff_conv2)
qed

lemma b64_word_high: "24 \<le> k \<Longrightarrow> \<not> bit (b64_word a b c) k"
  by (auto simp: b64_word_def bit_ucast_iff bit_or_iff bit_push_bit_iff dest: bit_imp_le_length)

lemma b64_quad_word: "b64_quad (b64_digit 18 n) (b64_digit 12 n) (b64_digit 6 n) (b64_digit 0 n) = n"
  if "\<And>k. 24 \<le> k \<Longrightarrow> \<not> bit n k"
  using b64_digits_word [OF that] by (simp add: b64_quad_def b64_value_digit)

text \<open>The missing characters of an incomplete group stand for bits that are zero.\<close>

lemma b64_pad: "take_bit 6 (b64_word a b 0) = 0" "take_bit 6 (drop_bit 6 (b64_word a 0 0)) = 0"
  by (auto simp: bit_eq_iff bit_take_bit_iff bit_drop_bit_eq b64_word_def bit_or_iff bit_push_bit_iff)

lemma b64_quad_padded:
  "b64_quad (b64_digit 18 (b64_word a b 0)) (b64_digit 12 (b64_word a b 0)) (b64_digit 6 (b64_word a b 0)) 61 = b64_word a b 0"
  "b64_quad (b64_digit 18 (b64_word a 0 0)) (b64_digit 12 (b64_word a 0 0)) 61 61 = b64_word a 0 0"
  using b64_digits_word [of "b64_word a b 0", OF b64_word_high] b64_digits_word [of "b64_word a 0 0", OF b64_word_high] b64_pad
  by (simp_all add: b64_quad_def b64_value_digit) (simp_all add: b64_value_def)

text \<open>The vectors lose nothing: the reference decoder reads back what \<open>base64\<close> wrote.\<close>

theorem base64_decodes: "unbase64 (base64 bs) = bs"
  by (induction bs rule: base64.induct)
    (simp_all add: Let_def b64_quad_word [OF b64_word_high] b64_quad_padded b64_word_bytes b64_digit_in del: push_bit_numeral)

end
