(* ===== verification/Clients.thy ===== *)
theory Clients
  imports Api Jimaku Child
begin

text \<open>
  What the clients of the media services send and how they read a typed reply (\<open>src/sonarr.rs\<close>,
  \<open>src/bazarr.rs\<close>, \<open>src/jellyfin.rs\<close>), and the service built from its configuration
  (\<open>Pipeline::new\<close> of \<open>src/pipeline.rs\<close>). The network answers through parameters.
\<close>

section \<open>A Sonarr episode\<close>

text \<open>The derived reader of a record of optional fields with defaults: a missing field and \<open>null\<close> are nothing,
  a field given twice is an error, an array gives the fields in their order. The fields of the object stand in the
  order of the body, before any of them is dropped as a duplicate.\<close>

definition opt_value :: "(json \<Rightarrow> 'a option) \<Rightarrow> json \<Rightarrow> 'a option option" where
  "opt_value d v = (if v = JNull then Some None else map_option Some (d v))"

definition opt_field :: "(json \<Rightarrow> 'a option) \<Rightarrow> ustr \<Rightarrow> (ustr \<times> json) list \<Rightarrow> 'a option option" where
  "opt_field d k kvs =
     (case filter (\<lambda>kv. fst kv = k) kvs of [] \<Rightarrow> Some None | [(_, v)] \<Rightarrow> opt_value d v | _ \<Rightarrow> None)"

definition opt_item :: "(json \<Rightarrow> 'a option) \<Rightarrow> nat \<Rightarrow> json list \<Rightarrow> 'a option option" where
  "opt_item d i xs = (if i < length xs then opt_value d (xs ! i) else Some None)"

text \<open>The reader of the field of a given name and place.\<close>

definition read_field :: "json \<Rightarrow> (json \<Rightarrow> 'a option) \<Rightarrow> string \<Rightarrow> nat \<Rightarrow> 'a option option" where
  "read_field v d k i = (case v of JObj kvs \<Rightarrow> opt_field d (lit k) kvs | JArr xs \<Rightarrow> opt_item d i xs | _ \<Rightarrow> None)"

definition fields_at_most :: "nat \<Rightarrow> json \<Rightarrow> bool" where
  "fields_at_most n v \<longleftrightarrow> (case v of JArr xs \<Rightarrow> length xs \<le> n | _ \<Rightarrow> True)"

definition decode_episode_file :: "json \<Rightarrow> ustr option option" where
  "decode_episode_file v = (if fields_at_most 1 v then read_field v as_str ''path'' 0 else None)"

definition decode_episode :: "json \<Rightarrow> Episode option" where
  "decode_episode v =
     (if \<not> fields_at_most 5 v then None
      else case (read_field v as_i64 ''seriesId'' 0, read_field v as_i64 ''seasonNumber'' 1, read_field v as_i64 ''episodeNumber'' 2,
                 read_field v as_str ''title'' 3, read_field v decode_episode_file ''episodeFile'' 4) of
        (Some sid, Some sn, Some n, Some t, Some f) \<Rightarrow>
          Some \<lparr>ep_series_id = sid, ep_season = sn, ep_number = n, ep_title = t, ep_file = Option.bind f id\<rparr>
      | _ \<Rightarrow> None)"

record Sonarr =
  sn_base :: ustr
  sn_key :: ustr

definition sonarr_new :: "ustr \<Rightarrow> ustr \<Rightarrow> Sonarr" where
  "sonarr_new base key = \<lparr>sn_base = trim_end_matches 47 base, sn_key = key\<rparr>"

datatype sonarr_error = SonarrRequest | SonarrMissing | SonarrStatus nat | SonarrBody

text \<open>A reply: its status, and its body when that can be read and is JSON.\<close>

definition sonarr_episode :: "(request \<Rightarrow> (nat \<times> json option) option) \<Rightarrow> Sonarr \<Rightarrow> int \<Rightarrow> sonarr_error + Episode" where
  "sonarr_episode net s i =
     (case net \<lparr>rq_url = sn_base s @ lit ''/episode/'' @ dec_int i, rq_key = sn_key s, rq_query = []\<rparr> of
        None \<Rightarrow> Inl SonarrRequest
      | Some (code, body) \<Rightarrow>
          if code = 404 then Inl SonarrMissing
          else if 400 \<le> code \<and> code < 600 then Inl (SonarrStatus code)
          else case Option.bind body decode_episode of None \<Rightarrow> Inl SonarrBody | Some e \<Rightarrow> Inr e)"

section \<open>Posts\<close>

datatype post_body = NoBody | JsonBody json | FormFile ustr ustr ustr bytes

record post_request =
  po_url :: ustr
  po_query :: "(ustr \<times> ustr) list"
  po_header :: "ustr \<times> ustr"
  po_body :: post_body
  po_timeout :: nat

text \<open>\<open>post_subtitles\<close> sends the bytes as one form file; its result is the status, nothing without a reply.\<close>

definition subtitle_post :: "request \<Rightarrow> bytes \<Rightarrow> post_request" where
  "subtitle_post r srt =
     \<lparr>po_url = rq_url r, po_query = rq_query r, po_header = (lit ''X-API-KEY'', rq_key r),
      po_body = FormFile (lit ''file'') (lit ''sub.srt'') (lit ''application/x-subrip'') srt, po_timeout = 120\<rparr>"

definition post_subtitles :: "(post_request \<Rightarrow> nat option) \<Rightarrow> request \<Rightarrow> bytes \<Rightarrow> nat option" where
  "post_subtitles net r srt = net (subtitle_post r srt)"

definition refill_posts :: "Bazarr \<Rightarrow> ustr \<Rightarrow> post_request list" where
  "refill_posts b kind =
     map (\<lambda>r. \<lparr>po_url = rq_url r, po_query = rq_query r, po_header = (lit ''X-API-KEY'', rq_key r), po_body = NoBody, po_timeout = 30\<rparr>)
       (wanted_refill b kind)"

definition refresh_body :: json where
  "refresh_body = jobj [(''ImageRefreshMode'', JStr (lit ''None'')), (''MetadataRefreshMode'', JStr (lit ''FullRefresh'')),
     (''ReplaceAllImages'', JBool False), (''ReplaceAllMetadata'', JBool False)]"

definition refresh_post :: "json_net \<Rightarrow> Jellyfin \<Rightarrow> ustr \<Rightarrow> ustr \<Rightarrow> ustr \<Rightarrow> post_request option" where
  "refresh_post net j media_path name item_kind =
     map_option (\<lambda>url. \<lparr>po_url = url, po_query = [], po_header = (lit ''Authorization'', auth_value j), po_body = JsonBody refresh_body,
       po_timeout = 5\<rparr>) (refresh_for net j media_path name item_kind)"

definition scan_post :: "Jellyfin \<Rightarrow> post_request" where
  "scan_post j = \<lparr>po_url = jf_base j @ lit ''/Library/Refresh'', po_query = [], po_header = (lit ''Authorization'', auth_value j),
     po_body = NoBody, po_timeout = 10\<rparr>"

section \<open>The pipeline\<close>

record Pipeline =
  pl_cfg :: config
  pl_sonarr :: Sonarr
  pl_bazarr :: Bazarr
  pl_jellyfin :: Jellyfin
  pl_jimaku :: Jimaku
  pl_glossary :: glossary
  pl_paused :: bool
  pl_processed :: nat
  pl_upload_permits :: nat
  pl_jimaku_tried :: "ustr \<rightharpoonup> nat"
  pl_tools :: ToolPaths

definition pipeline_with_tools :: "environment \<Rightarrow> (ustr \<Rightarrow> json option) \<Rightarrow> (ustr \<Rightarrow> ustr option) \<Rightarrow> config \<Rightarrow> ToolPaths \<Rightarrow> Pipeline" where
  "pipeline_with_tools vars from_str files cfg tools =
     \<lparr>pl_cfg = cfg, pl_sonarr = sonarr_new (cf_sonarr_url cfg) (cf_sonarr_api_key cfg),
      pl_bazarr = bazarr_new (cf_bazarr_url cfg) (cf_bazarr_api_key cfg) (cf_bazarr_url_2 cfg) (cf_bazarr_api_key_2 cfg),
      pl_jellyfin = with_root (cf_jellyfin_url cfg) (cf_jellyfin_api_key cfg) (cf_jellyfin_media_root cfg) (cf_nas_media_prefix cfg),
      pl_jimaku = with_cache (Jimaku_new vars (cf_jimaku_api_key cfg)) (cf_anilist_cache cfg),
      pl_glossary = load_glossary from_str (files (cf_glossary_file cfg)), pl_paused = False, pl_processed = 0,
      pl_upload_permits = max 1 (cf_upload_concurrency cfg), pl_jimaku_tried = Map.empty, pl_tools = tools\<rparr>"

definition pipeline_new :: "environment \<Rightarrow> (ustr \<Rightarrow> json option) \<Rightarrow> (ustr \<Rightarrow> ustr option) \<Rightarrow> config \<Rightarrow> Pipeline" where
  "pipeline_new vars from_str files cfg = pipeline_with_tools vars from_str files cfg tools_production"

section \<open>Properties\<close>

text \<open>What Sonarr prints of an episode is read back, with whatever other fields stand between them.\<close>

definition i64_json :: "int option \<Rightarrow> json" where
  "i64_json v = (case v of None \<Rightarrow> JNull | Some i \<Rightarrow> JInt i)"

definition str_json :: "ustr option \<Rightarrow> json" where
  "str_json v = (case v of None \<Rightarrow> JNull | Some s \<Rightarrow> JStr s)"

definition episode_fields :: "Episode \<Rightarrow> (ustr \<times> json) list" where
  "episode_fields e =
     [(lit ''seriesId'', i64_json (ep_series_id e)), (lit ''seasonNumber'', i64_json (ep_season e)),
      (lit ''episodeNumber'', i64_json (ep_number e)), (lit ''title'', str_json (ep_title e)),
      (lit ''episodeFile'', JObj [(lit ''path'', str_json (ep_file e))])]"

definition i64_range :: "int option \<Rightarrow> bool" where
  "i64_range v \<longleftrightarrow> (case v of None \<Rightarrow> True | Some i \<Rightarrow> - (2 ^ 63) \<le> i \<and> i < 2 ^ 63)"

lemma opt_value_printed:
  "i64_range v \<Longrightarrow> opt_value as_i64 (i64_json v) = Some v" "opt_value as_str (str_json s) = Some s"
  by (auto simp: opt_value_def i64_json_def str_json_def i64_range_def split: option.splits)

lemma opt_field_other: "fst ` set other \<inter> {k} = {} \<Longrightarrow> opt_field d k (kvs @ other) = opt_field d k kvs"
proof -
  assume "fst ` set other \<inter> {k} = {}"
  then have "filter (\<lambda>kv. fst kv = k) other = []" by (auto simp: filter_empty_conv)
  then show ?thesis by (simp add: opt_field_def)
qed

lemma opt_field_hit: "opt_field d k [(k, v)] = opt_value d v"
  by (simp add: opt_field_def)

theorem episode_decodes:
  assumes "i64_range (ep_series_id e)" "i64_range (ep_season e)" "i64_range (ep_number e)"
    and "fst ` set other \<inter> fst ` set (episode_fields e) = {}"
  shows "decode_episode (JObj (episode_fields e @ other)) = Some e"
proof -
  have o: "opt_field d k (episode_fields e @ other) = opt_field d k (episode_fields e)" if "k \<in> fst ` set (episode_fields e)" for d k
    using assms(4) that by (intro opt_field_other) blast
  have f: "decode_episode_file (JObj [(lit ''path'', str_json (ep_file e))]) = Some (ep_file e)"
    by (simp add: decode_episode_file_def fields_at_most_def read_field_def opt_field_hit opt_value_printed)
  have "opt_field as_i64 (lit ''seriesId'') (episode_fields e) = Some (ep_series_id e)"
    "opt_field as_i64 (lit ''seasonNumber'') (episode_fields e) = Some (ep_season e)"
    "opt_field as_i64 (lit ''episodeNumber'') (episode_fields e) = Some (ep_number e)"
    "opt_field as_str (lit ''title'') (episode_fields e) = Some (ep_title e)"
    "opt_field decode_episode_file (lit ''episodeFile'') (episode_fields e) = Some (Some (ep_file e))"
    using assms(1-3) by (simp_all add: opt_field_def episode_fields_def opt_value_printed) (simp add: opt_value_def f)
  moreover have keys: "lit ''seriesId'' \<in> fst ` set (episode_fields e)" "lit ''seasonNumber'' \<in> fst ` set (episode_fields e)"
    "lit ''episodeNumber'' \<in> fst ` set (episode_fields e)" "lit ''title'' \<in> fst ` set (episode_fields e)"
    "lit ''episodeFile'' \<in> fst ` set (episode_fields e)" by (simp_all add: episode_fields_def)
  ultimately show ?thesis
    by (simp add: decode_episode_def fields_at_most_def read_field_def keys [THEN o])
qed

end
