(* ===== verification/Router.thy ===== *)
theory Router
  imports Prelude
begin

text \<open>
  The routes of the service: \<open>router\<close> of \<open>src/api.rs\<close>, \<open>routes\<close> of \<open>src/web/mod.rs\<close> and the webhook of
  \<open>src/main.rs\<close>. A handler is named here by a constructor; what the handlers do is in the theories of the API, the pages and
  the daemon.
\<close>

section \<open>Handlers\<close>

datatype http_method = Get | Post | OtherMethod

text \<open>The handlers, those that only show something first.\<close>

datatype handler =
    HIndex | HStatus | HHealth | HReady | HConfig | HApi2Status | HProvenance | HWanted | HLibrary | HActivity | HExclusions
  | HUiStatus | HUiLibrary | HUiActivity | HUiProvenance | HUiSettings | HAppJs | HAppCss
  | HPause | HResume | HRunOnce | HWake | HConfigPut
  | HRetry | HSkip | HDelete | HExclude | HUnexclude
  | HUiConfigSave | HUiControl | HUiEpisodeAction | HWebhook

fun shows_only :: "handler \<Rightarrow> bool" where
  "shows_only HPause = False" | "shows_only HResume = False" | "shows_only HRunOnce = False" | "shows_only HWake = False"
| "shows_only HConfigPut = False" | "shows_only HRetry = False" | "shows_only HSkip = False" | "shows_only HDelete = False"
| "shows_only HExclude = False" | "shows_only HUnexclude = False" | "shows_only HUiConfigSave = False"
| "shows_only HUiControl = False" | "shows_only HUiEpisodeAction = False" | "shows_only HWebhook = False"
| "shows_only _ = True"

section \<open>The table\<close>

text \<open>A part of a path is given or, as \<open>None\<close>, a parameter.\<close>

type_synonym pattern = "string option list"

type_synonym route_entry = "pattern \<times> (http_method \<times> handler) list"

definition fixed :: "string list \<Rightarrow> pattern" where
  "fixed parts = map Some parts"

definition episode_route :: "string \<Rightarrow> handler \<Rightarrow> route_entry" where
  "episode_route name h = ([Some ''api2'', Some ''episode'', None, Some name], [(Post, h)])"

definition api_routes :: "route_entry list" where
  "api_routes =
     [(fixed [''''], [(Get, HIndex)]), (fixed [''status''], [(Get, HStatus)]), (fixed [''health''], [(Get, HHealth)]),
      (fixed [''ready''], [(Get, HReady)]), (fixed [''config''], [(Get, HConfig)]), (fixed [''pause''], [(Post, HPause)]),
      (fixed [''resume''], [(Post, HResume)]), (fixed [''run-once''], [(Post, HRunOnce)]), (fixed [''wake''], [(Post, HWake)]),
      (fixed [''api2'', ''status''], [(Get, HApi2Status)]), (fixed [''api2'', ''health''], [(Get, HHealth)]),
      (fixed [''api2'', ''ready''], [(Get, HReady)]), (fixed [''api2'', ''config''], [(Get, HConfig), (Post, HConfigPut)]),
      (fixed [''api2'', ''provenance''], [(Get, HProvenance)]), (fixed [''api2'', ''wanted''], [(Get, HWanted)]),
      (fixed [''api2'', ''library''], [(Get, HLibrary)]), (fixed [''api2'', ''activity''], [(Get, HActivity)]),
      (fixed [''api2'', ''exclusions''], [(Get, HExclusions)]),
      episode_route ''retry'' HRetry, episode_route ''skip'' HSkip, episode_route ''delete'' HDelete,
      episode_route ''exclude'' HExclude, episode_route ''unexclude'' HUnexclude,
      (fixed [''api2'', ''pause''], [(Post, HPause)]), (fixed [''api2'', ''resume''], [(Post, HResume)]),
      (fixed [''api2'', ''run-once''], [(Post, HRunOnce)]), (fixed [''api2'', ''wake''], [(Post, HWake)])]"

definition web_routes :: "route_entry list" where
  "web_routes =
     [(fixed [''ui'', ''status''], [(Get, HUiStatus)]), (fixed [''ui'', ''overview''], [(Get, HUiStatus)]),
      (fixed [''ui'', ''library''], [(Get, HUiLibrary)]), (fixed [''ui'', ''activity''], [(Get, HUiActivity)]),
      (fixed [''ui'', ''provenance''], [(Get, HUiProvenance)]), (fixed [''ui'', ''settings''], [(Get, HUiSettings)]),
      (fixed [''ui'', ''config''], [(Post, HUiConfigSave)]), ([Some ''ui'', Some ''control'', None], [(Post, HUiControl)]),
      ([Some ''ui'', Some ''episode'', None, None], [(Post, HUiEpisodeAction)]),
      (fixed [''assets'', ''app.js''], [(Get, HAppJs)]), (fixed [''assets'', ''app.css''], [(Get, HAppCss)])]"

definition webhook_route :: route_entry where
  "webhook_route = (fixed [''webhook''], [(Post, HWebhook)])"

section \<open>Dispatch\<close>

text \<open>A path starts with a slash; a parameter takes one part that is not empty.\<close>

fun match_parts :: "pattern \<Rightarrow> ustr list \<Rightarrow> ustr list option" where
  "match_parts [] [] = Some []"
| "match_parts (Some s # ps) (x # xs) = (if x = lit s then match_parts ps xs else None)"
| "match_parts (None # ps) (x # xs) = (if x = [] then None else map_option ((#) x) (match_parts ps xs))"
| "match_parts _ _ = None"

datatype routed = NotFound | MethodNotAllowed | Found handler "ustr list"

fun dispatch_in :: "route_entry list \<Rightarrow> http_method \<Rightarrow> ustr list \<Rightarrow> routed" where
  "dispatch_in [] m parts = NotFound"
| "dispatch_in ((p, hs) # rest) m parts =
     (case match_parts p parts of
        Some params \<Rightarrow> (case map_of hs m of Some h \<Rightarrow> Found h params | None \<Rightarrow> MethodNotAllowed)
      | None \<Rightarrow> dispatch_in rest m parts)"

definition dispatch :: "http_method \<Rightarrow> ustr \<Rightarrow> routed" where
  "dispatch m path =
     (case path of [] \<Rightarrow> NotFound
      | c # rest \<Rightarrow> if c = 47 then dispatch_in (api_routes @ web_routes @ [webhook_route]) m (split_str (lit ''/'') rest) else NotFound)"

section \<open>Properties\<close>

lemma dispatch_in_mem:
  "dispatch_in rs m parts = Found h ps \<Longrightarrow> \<exists>p hs. (p, hs) \<in> set rs \<and> (m, h) \<in> set hs \<and> match_parts p parts = Some ps"
proof (induction rs)
  case (Cons r rs)
  obtain p hs where r: "r = (p, hs)" by (cases r)
  show ?case
  proof (cases "match_parts p parts")
    case None
    with Cons r show ?thesis by auto
  next
    case (Some qs)
    with Cons.prems r have "map_of hs m = Some h \<and> qs = ps" by (simp split: option.splits)
    then have "(m, h) \<in> set hs" "match_parts p parts = Some ps" using Some by (simp_all add: map_of_SomeD)
    then show ?thesis by (intro exI [of _ p] exI [of _ hs]) (simp add: r)
  qed
qed simp

text \<open>The table and its methods: whatever changes something is a post, and the rest is a get.\<close>

definition methods_fit :: "route_entry \<Rightarrow> bool" where
  "methods_fit r \<longleftrightarrow> list_all (\<lambda>(m, h). m = (if shows_only h then Get else Post)) (snd r)"

lemma routes_fit: "list_all methods_fit (api_routes @ web_routes @ [webhook_route])"
  by (simp add: methods_fit_def api_routes_def web_routes_def webhook_route_def episode_route_def)

lemma route_methods: "(p, hs) \<in> set (api_routes @ web_routes @ [webhook_route]) \<Longrightarrow> (m, h) \<in> set hs \<Longrightarrow> m = (if shows_only h then Get else Post)"
proof -
  assume mem: "(p, hs) \<in> set (api_routes @ web_routes @ [webhook_route])" "(m, h) \<in> set hs"
  have "methods_fit (p, hs)" using routes_fit mem(1) unfolding list_all_iff by (rule bspec)
  then show ?thesis using mem(2) by (auto simp: methods_fit_def list_all_iff)
qed

text \<open>No address a browser merely visits changes anything: the handlers reached by a get only show, those
  that change the state, the settings or the files are reached by a post alone.\<close>

theorem changes_need_post: "dispatch m path = Found h ps \<Longrightarrow> m = (if shows_only h then Get else Post)"
proof -
  assume "dispatch m path = Found h ps"
  then obtain parts where "dispatch_in (api_routes @ web_routes @ [webhook_route]) m parts = Found h ps"
    by (cases path) (simp_all add: dispatch_def split: if_splits)
  then show ?thesis using dispatch_in_mem route_methods by blast
qed

text \<open>The old addresses are the new ones without their prefix, but for the status and the settings, whose new
  address answers in another form or takes a post as well.\<close>

theorem old_addresses:
  "x \<in> set [''health'', ''ready'', ''pause'', ''resume'', ''run-once'', ''wake''] \<Longrightarrow>
     dispatch m (lit (''/'' @ x)) = dispatch m (lit (''/api2/'' @ x))"
  by (auto simp: dispatch_def lit_eval split_str.simps api_routes_def fixed_def episode_route_def starts_with_def)

end
