(* ===== verification/Spec2Isabelle.thy ===== *)
theory Spec2Isabelle
  imports Lang Srt Lane Renderer Ledger Providers Translate Asr State Targets Utf8 Ladder Glossary Episode Mask Config Actions Process Services Pass Notifier Api Cli Daemon Web Jimaku Child Control Lock Deploy Clients Router
begin

text \<open>
  \<^bold>\<open>The program.\<close> ASRSub is a daemon that makes subtitle files. In each pass it asks the subtitle manager
  (Bazarr) which languages of which episodes and movies are missing, finds a source text for each (a file beside the media,
  the subtitle site, or the audio through a remote speech recogniser), translates it through a pool of
  language-model endpoints, writes the subtitle file, uploads it and records it in two ledgers. An HTTP interface with operator
  pages controls it, queues actions for the next pass and edits its settings; a notifier posts a digest of each pass to a
  Discord webhook; small programs run one step by hand or serve deployments. This development models the Rust sources
  under \<open>src/src\<close>; the source path of every definition is in the manifest of the library.

  \<^bold>\<open>Theories and sources\<close>, from the bottom up.
  \<^item> \<open>Prelude\<close>, \<open>F64\<close>, \<open>Json\<close>, \<open>Utf8\<close>, \<open>Clock\<close>: strings, words, floating point with its rounding as a
    parameter, \<open>serde_json::Value\<close>, UTF-8 (\<open>from_utf8\<close>), \<open>discord_state_clock.rs\<close>. \<open>Prelude\<close> also holds the locale
    \<open>step_system\<close>: a step relation with its starts and a property every step keeps.
  \<^item> \<open>Lang\<close> (\<open>lang.rs\<close>), \<open>Srt\<close> (\<open>srt.rs\<close>), \<open>Text\<close> (\<open>discord_unicode.rs\<close>, \<open>discord_text.rs\<close>),
    \<open>Report\<close> (\<open>discord_types.rs\<close>, \<open>discord_state_codec.rs\<close>): the pure data and their codecs.
  \<^item> \<open>Lane\<close> (\<open>discord_state_schema.rs\<close>, \<open>discord_state_lane.rs\<close>): the notification queue on disk, a record \<open>LaneState\<close>
    with one function for every operation of \<open>StateLaneHandle\<close> and the step relation \<open>lane_step\<close> of them all.
    \<open>Renderer\<close> (\<open>discord_renderer.rs\<close>): the digest that fits the limits of a message.
  \<^item> \<open>Ledger\<close> (\<open>pipeline_commit.rs\<close>): the commit of a pair of rows with its rollback. \<open>State\<close> (\<open>state.rs\<close>): the
    JSON-lines files. \<open>Targets\<close> (\<open>pipeline_targets.rs\<close>, \<open>episode_commit.rs\<close>): which files count as done; installing and rolling
    back a subtitle file.
  \<^item> \<open>Providers\<close> (\<open>providers.rs\<close>, \<open>provider_config.rs\<close>), \<open>Translate\<close> (\<open>translate.rs\<close>), \<open>Asr\<close> (\<open>asr.rs\<close>): the pool of endpoints
    with its circuit breaker and the two protocols over it. \<open>Ladder\<close> (\<open>jimaku.rs\<close>, \<open>ladder.rs\<close>), \<open>Jimaku\<close> (the
    client of \<open>jimaku.rs\<close>), \<open>Glossary\<close> (\<open>glossary.rs\<close>), \<open>Child\<close> (\<open>process.rs\<close> and the tool invocations).
  \<^item> \<open>Mask\<close>, \<open>Config\<close>, \<open>Lock\<close> (\<open>config.rs\<close>, \<open>discord_config.rs\<close>): redaction, the layers of the settings and their loader,
    the settings table with its validation, the lock of an instance.
  \<^item> \<open>Actions\<close> (\<open>actions.rs\<close>), \<open>Episode\<close> and \<open>Process\<close> (\<open>episode_target.rs\<close>, \<open>episode.rs\<close>, \<open>pipeline_reports.rs\<close>),
    \<open>Services\<close> and \<open>Clients\<close> (\<open>bazarr.rs\<close>, \<open>sonarr.rs\<close>, \<open>jellyfin.rs\<close>, \<open>Pipeline::new\<close>), \<open>Pass\<close> (\<open>pipeline.rs\<close>): one episode with all its
    targets, and one pass over all episodes.
  \<^item> \<open>Notifier\<close> (\<open>discord_notifier.rs\<close>, \<open>discord_transport.rs\<close>), \<open>Api\<close> (\<open>api.rs\<close>), \<open>Web\<close> (\<open>web/\<close>), \<open>Router\<close> (the routes), \<open>Cli\<close> and \<open>Daemon\<close>
    (\<open>main.rs\<close>), \<open>Control\<close> (\<open>state_control.rs\<close>, \<open>discord_fs.rs\<close>, \<open>discord_state_local.rs\<close>), \<open>Deploy\<close> (\<open>deployment_*.rs\<close>,
    \<open>egress.rs\<close> and the small tools).

  \<^bold>\<open>How the parts interact.\<close> \<open>Daemon.daemon_step\<close> is the loop of \<open>daemon_loop\<close>: it interleaves the end of a pass (any
  \<open>PassOutcome\<close>), the naps, the requests of \<open>Api\<close> on the shared \<open>app_state\<close>, and the worker of the notifier, whose bounded queue
  the loop feeds. A pass (\<open>Pass.run_pass\<close>) drains the actions \<open>Api\<close> and \<open>Web\<close> append (\<open>State\<close>, \<open>Actions\<close>), asks the services
  what is missing (\<open>Services\<close>), runs \<open>Process.process_one\<close> for each candidate and reduces the results to reports. An episode runs its
  targets as jobs: \<open>Process.source_target\<close> chooses the source (\<open>Ladder\<close>, \<open>Asr\<close>), \<open>Translate\<close> translates, \<open>Episode.finish_lang\<close> installs and
  uploads the file, commits the ledgers (\<open>Ledger\<close>) and rolls the file back when they fail (\<open>Targets\<close>). The next pass
  admits the file by the same ledgers and digests (\<open>Targets.verified_targets\<close>). \<open>Control\<close> restores the file \<open>Lane\<close> reads.

  \<^bold>\<open>Conventions.\<close> A Rust string is the list of its scalar values (\<open>ustr\<close>), a byte string a list of 8-bit words; \<open>u32\<close> and \<open>u64\<close>
  are words where the source can overflow, with its checked, saturating or (in a release build) wrapping operations, and natural
  numbers or integers elsewhere. An \<open>f64\<close> is a rational with \<open>f64_round\<close> after each operation. Errors are values
  (\<open>error + 'a\<close>, \<open>option\<close>), one constructor for every way out the caller can tell apart. State is passed explicitly: records for the
  objects, maps from paths for the disk (\<open>disk\<close>, \<open>ledger_fs\<close>, \<open>jsonl_fs\<close>), with the outcome of each file operation
  as an argument, so that every failure is a branch. Joined tasks are a schedule (a permutation or a list of steps) over which the
  theorems quantify; the daemon, the notifier, the action queue, the lane, the gate of the site client and the journal are
  inductive step relations. What is no code of the repository is a parameter: SHA-256, Unicode tables and normalisation, the JSON
  reader and printer, the network and the services behind it, the clock, the media tools, the iteration order of hash maps,
  the parsing of floating-point numbers.

  \<^bold>\<open>Interfaces.\<close> \<open>Ledger.rollback_store\<close> states what a pair commit needs of two files that can be saved and restored, and is
  interpreted on the ledgers (\<open>ledger\<close>); \<open>Providers.breaker\<close> states the laws of a circuit breaker and is interpreted on the health of
  an endpoint (\<open>endpoint\<close>); \<open>Prelude.step_system\<close> is interpreted on the action queue (\<open>State.queue\<close>), the notifier
  (\<open>Notifier.worker\<close>), the daemon (\<open>Daemon.naps\<close>, \<open>Daemon.reported\<close>), the webhook's extractions (\<open>Daemon.extractions\<close>), the gate
  (\<open>Jimaku.site_gate\<close>), the barrier and the journal (\<open>Deploy.quiesced\<close>, \<open>Deploy.journal\<close>).

  \<^bold>\<open>What the theorems show.\<close> The properties carry the numbers C1 to C40 in the text in front of them.
  \<^item> Durability: a pair commit is all or nothing and idempotent; a failed target leaves the ledgers and its path as they were, a finished
    one is admitted by the next pass; rolling back never overwrites a foreign replacement; an undisturbed target completes.
  \<^item> Scheduling: whatever the interleaving, every job of an episode has the outcome of one completion alone; no episode is processed
    twice, skipped ones never; the statistics account for every episode; actions are delivered once, in order.
  \<^item> Content: a translation has one accepted line for every source line, in order, each from the provider's answer; a transcript
    is assembled from the responses in the order of their offsets; an SRT file is read back as it was written; a chunk costs a
    bounded number of calls.
  \<^item> Notification: the lane is bounded, free of duplicates and recovered from its file; attempts are at least 15 minutes apart; an
    acknowledgement removes exactly the captured reports; digests are posted in the order of the passes; a snapshot is restored.
  \<^item> Control: an accepted action acts in the next pass; the pages do what the API does; saving one setting changes that setting alone;
    whatever the layers of the configuration hold, the loaded one has its types and ranges; a login is never published.
  \<^item> Bounds and liveness: the naps of the daemon, the spacing of the calls to the site, a requested pass begins without the clock.

  Theorems that are no property support these or other parts: the settings' precedence, the freshness of the wanted list, the union of
  the two managers' lists, the webhook grammar, the library view's address, the ladder's gate, the reading of a Sonarr
  episode (\<open>Clients.episode_decodes\<close>), the bound on tools (\<open>Child.child_bounded\<close>), the locks (\<open>Lock.locks_distinct\<close>), the routes
  (\<open>Router.changes_need_post\<close>), Base64 (\<open>Deploy.base64_decodes\<close>), the phases of a journal (\<open>Deploy.journal_never_commits\<close>).

  \<^bold>\<open>Bounds and termination.\<close> No definition runs on fuel: every function is total, with a measure where its recursion
  is not structural (the splitting functions, the qualifier loop of \<open>Lang\<close>, the runs of \<open>Mask\<close>, the fitting loops of
  \<open>Renderer\<close>). Loops that do not end (the daemon, the notifier's worker) are step relations. The bounds are those of the source:
  128 reports and 64 KiB of payload in the lane, eight digests in the notifier's queue, 1 MiB of output of a tool, 512 bytes of a secret.

  \<^bold>\<open>Simplifications.\<close> The assignments at the end of a pass are one step of the daemon, although other tasks could run between them. The
  wake-up of a webhook is the step of the wake handler. Within a pass each episode runs \<open>process_one\<close> on its own view of the services and
  of the files; the passes' shared ledgers are modelled in \<open>Ledger\<close>, where commits to one pair of files are serialised by their lock. A
  page is the data it shows. The waiting of a rate limit is a number of seconds, not a wait.

  \<^bold>\<open>Not modelled.\<close> The HTML templates, style sheet and script of the pages, their markup being no logic; the modules compiled for tests only
  (\<open>sim.rs\<close> and the test files); \<open>discord_state.rs\<close>, two traits over the lane; the platform facades (\<open>process_cgroup.rs\<close>,
  \<open>process_landlock.rs\<close>, \<open>process_linux.rs\<close>, \<open>process_supervisor.rs\<close>, \<open>process_child.rs\<close>, \<open>discord_fs_linux.rs\<close>), constants no
  code but the audit reads; sockets, logging, argument parsing and the advisory locks, which are calls of libraries; poisoned mutexes
  and the cancellation of tasks, which the source does not handle.
\<close>

end
